(* ===== verification/Prelude.thy ===== *)
theory Prelude
  imports Main "HOL-Library.Sublist" "HOL-Library.Char_ord" "HOL-Library.List_Lexorder"
begin

text \<open>
  Shared vocabulary of the development: results of fallible backend calls, the error
  record \<open>BackendError\<close> (\<open>errors/backend_error.rs\<close>), the operations of Rust's
  \<open>str\<close> the sources use, and saturating counters.

  A Rust \<open>String\<close> is a \<open>string\<close>, the list of its UTF-8 bytes: every operation
  modelled here (prefix and suffix tests, ASCII case folding, comparison with ASCII literals)
  is the same on the bytes as on the text.
\<close>

section \<open>Collections of rules\<close>

text \<open>
  \<open>op_defs\<close> collects the definitions of the operations of a component, \<open>inv_intros\<close> the
  preservation lemmas of its invariant.
\<close>

named_theorems op_defs \<open>definitions of the modelled operations\<close>
named_theorems inv_intros \<open>preservation of component invariants\<close>

section \<open>Errors as values\<close>

datatype json = JNull | JString string | JArray "json list" | JObject "(string \<times> json) list"

record backend_error =
  code :: string
  message :: string
  details :: "json option"
  recoverable :: bool
  user_action_required :: bool

definition backend_error_new :: "string \<Rightarrow> string \<Rightarrow> bool \<Rightarrow> bool \<Rightarrow> backend_error" where
  "backend_error_new c m r u =
     \<lparr>code = c, message = m, details = None, recoverable = r, user_action_required = u\<rparr>"

definition with_details :: "backend_error \<Rightarrow> json \<Rightarrow> backend_error" where
  "with_details e d = e\<lparr>details := Some d\<rparr>"

lemma code_backend_error_new [simp]: "code (backend_error_new c m r u) = c"
  by (simp add: backend_error_new_def)

lemma code_with_details [simp]: "code (with_details e d) = code e"
  by (simp add: with_details_def)

text \<open>Results: \<open>Inl\<close> is \<open>Err\<close>, \<open>Inr\<close> is \<open>Ok\<close>.\<close>

type_synonym 'a result = "backend_error + 'a"
type_synonym 'a sresult = "string + 'a"

definition is_ok :: "'e + 'a \<Rightarrow> bool" where
  "is_ok r = (case r of Inl _ \<Rightarrow> False | Inr _ \<Rightarrow> True)"

lemma is_ok_simps [simp]: "is_ok (Inr v)" "\<not> is_ok (Inl e)"
  by (simp_all add: is_ok_def)

lemma is_ok_iff: "is_ok r \<longleftrightarrow> (\<exists>v. r = Inr v)"
  by (cases r) auto

section \<open>Rust's string operations\<close>

definition starts_with :: "string \<Rightarrow> string \<Rightarrow> bool" where
  "starts_with s p = prefix p s"

definition ends_with :: "string \<Rightarrow> string \<Rightarrow> bool" where
  "ends_with s p = suffix p s"

definition strip_prefix :: "string \<Rightarrow> string \<Rightarrow> string option" where
  "strip_prefix s p = (if prefix p s then Some (drop (length p) s) else None)"

definition strip_suffix :: "string \<Rightarrow> string \<Rightarrow> string option" where
  "strip_suffix s p = (if suffix p s then Some (take (length s - length p) s) else None)"

definition to_ascii_lowercase_char :: "char \<Rightarrow> char" where
  "to_ascii_lowercase_char c =
     (let n = (of_char c :: nat) in if 65 \<le> n \<and> n \<le> 90 then char_of (n + 32) else c)"

definition to_ascii_lowercase :: "string \<Rightarrow> string" where
  "to_ascii_lowercase = map to_ascii_lowercase_char"

text \<open>
  \<open>trim\<close> removes Unicode white space, whose UTF-8 encodings are listed here: U+0009 to
  U+000D, U+0020, U+0085, U+00A0, U+1680, U+2000 to U+200A, U+2028, U+2029, U+202F, U+205F
  and U+3000.
\<close>

definition bytes :: "nat list \<Rightarrow> string" where
  "bytes = map char_of"

definition white_space :: "string list" where
  "white_space = map bytes ([[9], [10], [11], [12], [13], [32], [194, 133], [194, 160],
     [225, 154, 128]] @ map (\<lambda>n. [226, 128, 128 + n]) [0..<11] @
     [[226, 128, 168], [226, 128, 169], [226, 128, 175], [226, 129, 159], [227, 128, 128]])"

function trim_start :: "string \<Rightarrow> string" where
  "trim_start s = (case List.find (\<lambda>w. w \<noteq> [] \<and> prefix w s) white_space of
     None \<Rightarrow> s | Some w \<Rightarrow> trim_start (drop (length w) s))"
  by pat_completeness auto
termination
proof (relation "measure length", goal_cases)
  case (2 s w)
  then have "w \<noteq> []" and "prefix w s" by (auto simp: find_Some_iff)
  then show ?case by (auto simp: prefix_def)
qed simp

declare trim_start.simps [simp del]

function trim_end :: "string \<Rightarrow> string" where
  "trim_end s = (case List.find (\<lambda>w. w \<noteq> [] \<and> suffix w s) white_space of
     None \<Rightarrow> s | Some w \<Rightarrow> trim_end (take (length s - length w) s))"
  by pat_completeness auto
termination
proof (relation "measure length", goal_cases)
  case (2 s w)
  then have "w \<noteq> []" and "suffix w s" by (auto simp: find_Some_iff)
  then show ?case by (auto simp: suffix_def)
qed simp

declare trim_end.simps [simp del]

definition trim :: "string \<Rightarrow> string" where
  "trim s = trim_end (trim_start s)"

text \<open>\<open>chars().count()\<close>: the bytes that do not continue a character.\<close>

definition chars_count :: "string \<Rightarrow> nat" where
  "chars_count s = length (filter (\<lambda>c. \<not> (128 \<le> (of_char c :: nat) \<and> (of_char c :: nat) < 192)) s)"

definition is_ascii_digit :: "char \<Rightarrow> bool" where
  "is_ascii_digit c \<longleftrightarrow> 48 \<le> (of_char c :: nat) \<and> (of_char c :: nat) \<le> 57"

definition is_ascii_alphabetic :: "char \<Rightarrow> bool" where
  "is_ascii_alphabetic c \<longleftrightarrow> (let n = (of_char c :: nat) in (65 \<le> n \<and> n \<le> 90) \<or> (97 \<le> n \<and> n \<le> 122))"

definition is_ascii_alphanumeric :: "char \<Rightarrow> bool" where
  "is_ascii_alphanumeric c \<longleftrightarrow> is_ascii_digit c \<or> is_ascii_alphabetic c"

definition is_ascii_hexdigit :: "char \<Rightarrow> bool" where
  "is_ascii_hexdigit c \<longleftrightarrow> (let n = (of_char c :: nat) in
     (48 \<le> n \<and> n \<le> 57) \<or> (65 \<le> n \<and> n \<le> 70) \<or> (97 \<le> n \<and> n \<le> 102))"

text \<open>Printable ASCII, which is never white space.\<close>

definition graphic :: "char \<Rightarrow> bool" where
  "graphic c \<longleftrightarrow> 33 \<le> (of_char c :: nat) \<and> (of_char c :: nat) \<le> 126"

text \<open>Decimal printing of an unsigned integer.\<close>

fun show_nat :: "nat \<Rightarrow> string" where
  "show_nat n = (if n < 10 then [char_of (48 + n)]
     else show_nat (n div 10) @ [char_of (48 + n mod 10)])"

declare show_nat.simps [simp del]

lemma strip_prefix_Some: "strip_prefix s p = Some r \<longleftrightarrow> s = p @ r"
  by (auto simp: strip_prefix_def prefix_def)

lemma white_space_not_graphic:
  "list_all (\<lambda>w. w \<noteq> [] \<and> \<not> graphic (hd w) \<and> \<not> graphic (last w)) white_space"
  by code_simp

lemma trim_graphic:
  assumes "s \<noteq> []" "graphic (hd s)" "graphic (last s)"
  shows "trim s = s"
proof -
  have "\<not> prefix w s \<and> \<not> suffix w s" if "w \<in> set white_space" for w
    using assms white_space_not_graphic that
    by (fastforce simp: list_all_iff prefix_def suffix_def)
  then have "List.find (\<lambda>w. w \<noteq> [] \<and> prefix w s) white_space = None"
      "List.find (\<lambda>w. w \<noteq> [] \<and> suffix w s) white_space = None"
    by (auto simp: find_None_iff)
  then show ?thesis by (simp add: trim_def trim_start.simps [of s] trim_end.simps [of s])
qed
lemma strip_suffix_Some: "strip_suffix s p = Some r \<longleftrightarrow> s = r @ p"
  by (auto simp: strip_suffix_def suffix_def)

lemma starts_with_iff: "starts_with s p \<longleftrightarrow> (\<exists>r. s = p @ r)"
  by (simp add: starts_with_def prefix_def)

lemma ends_with_iff: "ends_with s p \<longleftrightarrow> (\<exists>r. s = r @ p)"
  by (simp add: ends_with_def suffix_def)

lemma length_to_ascii_lowercase [simp]: "length (to_ascii_lowercase s) = length s"
  by (simp add: to_ascii_lowercase_def)

lemma to_ascii_lowercase_append [simp]:
  "to_ascii_lowercase (s @ t) = to_ascii_lowercase s @ to_ascii_lowercase t"
  by (simp add: to_ascii_lowercase_def)

lemma to_ascii_lowercase_char_idem [simp]:
  "to_ascii_lowercase_char (to_ascii_lowercase_char c) = to_ascii_lowercase_char c"
proof (cases "65 \<le> (of_char c :: nat) \<and> (of_char c :: nat) \<le> 90")
  case True
  then have "(of_char (to_ascii_lowercase_char c) :: nat) = of_char c + 32"
    by (simp add: to_ascii_lowercase_char_def Let_def)
  with True show ?thesis
    by (simp add: to_ascii_lowercase_char_def [of "to_ascii_lowercase_char c"] Let_def)
next
  case False
  then have "to_ascii_lowercase_char c = c"
    by (auto simp: to_ascii_lowercase_char_def Let_def)
  then show ?thesis by simp
qed

lemma to_ascii_lowercase_idem [simp]:
  "to_ascii_lowercase (to_ascii_lowercase s) = to_ascii_lowercase s"
  by (simp add: to_ascii_lowercase_def)

section \<open>Interfaces shared by the components\<close>

text \<open>
  A lifecycle: which status may follow which, and which statuses are final. Both
  \<open>TaskStatus\<close> and \<open>ImportItemStatus\<close> promise that a final status has no successor.
\<close>

locale lifecycle =
  fixes allowed :: "'s \<Rightarrow> 's \<Rightarrow> bool"
    and final :: "'s \<Rightarrow> bool"
  assumes final_stuck: "final s \<Longrightarrow> \<not> allowed s t"
begin

lemma final_absorbing: "allowed\<^sup>*\<^sup>* s t \<Longrightarrow> final s \<Longrightarrow> t = s"
  by (induction rule: rtranclp_induct) (auto dest: final_stuck)

lemma leaves_final_never: "allowed s t \<Longrightarrow> \<not> final s"
  using final_stuck by blast

lemma last_step_into:
  "allowed\<^sup>*\<^sup>* s t \<Longrightarrow> s \<noteq> t \<Longrightarrow> \<exists>u. allowed\<^sup>*\<^sup>* s u \<and> allowed u t"
  by (metis rtranclp.cases)

end

text \<open>
  A state machine with an invariant: the initial states satisfy it and every step keeps it,
  so every state a run can reach satisfies it.
\<close>

locale invariant_machine =
  fixes init :: "'s \<Rightarrow> bool"
    and step :: "'s \<Rightarrow> 's \<Rightarrow> bool"
    and inv :: "'s \<Rightarrow> bool"
  assumes inv_init: "init s \<Longrightarrow> inv s"
    and inv_step: "inv s \<Longrightarrow> step s t \<Longrightarrow> inv t"
begin

lemma inv_run: "step\<^sup>*\<^sup>* s t \<Longrightarrow> inv s \<Longrightarrow> inv t"
  by (induction rule: rtranclp_induct) (auto intro: inv_step)

lemma inv_reachable: "init s \<Longrightarrow> step\<^sup>*\<^sup>* s t \<Longrightarrow> inv t"
  by (blast intro: inv_run inv_init)

end

section \<open>Least elements\<close>

text \<open>\<open>min_by_key\<close>: the first element of the least key.\<close>

fun min_by_key :: "('a \<Rightarrow> 'k :: linorder) \<Rightarrow> 'a list \<Rightarrow> 'a option" where
  "min_by_key k [] = None"
| "min_by_key k (x # xs) =
     (case min_by_key k xs of None \<Rightarrow> Some x | Some y \<Rightarrow> Some (if k y < k x then y else x))"

lemma min_by_key_None [simp]: "min_by_key k xs = None \<longleftrightarrow> xs = []"
  by (cases xs) (auto split: option.splits)

lemma min_by_key_first:
  "min_by_key k xs = Some x \<Longrightarrow>
     \<exists>ys zs. xs = ys @ x # zs \<and> (\<forall>y \<in> set ys. k x < k y) \<and> (\<forall>z \<in> set zs. k x \<le> k z)"
proof (induction xs arbitrary: x)
  case (Cons a xs)
  show ?case
  proof (cases "min_by_key k xs")
    case (Some m)
    then obtain ys zs where m: "xs = ys @ m # zs" "\<forall>y \<in> set ys. k m < k y" "\<forall>z \<in> set zs. k m \<le> k z"
      using Cons.IH by blast
    show ?thesis
    proof (cases "k m < k a")
      case True
      with Some Cons.prems m(1) have "x = m" "a # xs = (a # ys) @ m # zs" by simp_all
      with True m(2,3) show ?thesis by (metis set_ConsD)
    next
      case False
      with Some Cons.prems have x: "x = a" by simp
      have "\<forall>z \<in> set xs. k a \<le> k z"
        unfolding m(1) using m(2,3) False by (auto simp: not_less intro: order_trans less_imp_le)
      with x show ?thesis by (metis append_Nil empty_iff empty_set)
    qed
  next
    case None
    with Cons.prems have "a # xs = [] @ x # []" by auto
    then show ?thesis by (intro exI [of _ "[]"]) auto
  qed
qed simp

section \<open>Unsigned counters\<close>

text \<open>
  Counters of type \<open>u64\<close>/\<open>usize\<close> are \<open>nat\<close>, with the saturation of
  \<open>saturating_add\<close> and the refusal of \<open>checked_add\<close> written out.
\<close>

definition u64_max :: nat where
  "u64_max = 2 ^ 64 - 1"

definition saturating_add :: "nat \<Rightarrow> nat \<Rightarrow> nat" where
  "saturating_add a b = min (a + b) u64_max"

definition checked_add :: "nat \<Rightarrow> nat \<Rightarrow> nat option" where
  "checked_add a b = (if a + b \<le> u64_max then Some (a + b) else None)"

lemma saturating_add_le [simp]: "saturating_add a b \<le> u64_max"
  by (simp add: saturating_add_def)

lemma saturating_add_exact: "a + b \<le> u64_max \<Longrightarrow> saturating_add a b = a + b"
  by (simp add: saturating_add_def)

lemma saturating_add_mono: "a \<le> u64_max \<Longrightarrow> a \<le> saturating_add a b"
  by (simp add: saturating_add_def)

lemma u64_max_pos [simp]: "0 < u64_max" "1 \<le> u64_max"
  by (simp_all add: u64_max_def)

end
