(* ===== verification/Task_Model.thy ===== *)
theory Task_Model
  imports Prelude "HOL-Library.Word"
begin

text \<open>
  The task data model (\<open>models/task.rs\<close>, the action types of
  \<open>models/confirmation.rs\<close>), the status machine \<open>validate_transition\<close> and the
  cancellation tokens (\<open>tasks/task_model.rs\<close>) with their registry
  (\<open>tasks/cancellation.rs\<close>).

  The type variable \<open>'x\<close> stands for payload structs of other modules (import
  completions, collection previews, compile results) that tasks carry and never inspect.
\<close>

section \<open>Pending actions\<close>

datatype pending_action_type =
    RepairProject | EnableCompatibleProject | ConfigureCompatibleLayout
  | TrustCompatibleProject | InitializeGitRepository | CreateGitCheckpoint | DeleteFile
  | OverwriteFile | BatchRewrite | MergeConflict | ReviewScope | AgentAutoFix
  | InstallAgent | RunSkill

datatype risk_level = Low | Medium | High | Destructive

record action_preview =
  ap_summary :: string
  ap_before :: "string option"
  ap_after :: "string option"
  ap_diff :: "string option"

record pending_action =
  pa_id :: string
  pa_action_type :: pending_action_type
  pa_title :: string
  pa_message :: string
  pa_risk_level :: risk_level
  pa_affected_paths :: "string list"
  pa_preview :: "action_preview option"
  pa_expires_at :: "string option"
  pa_checkpoint_hash :: "string option"

section \<open>Tasks\<close>

datatype task_type =
    Import | WikiCompile | AgentRun | LlmRequest | GraphBuild | DeepLint | AutoFix | Export
  | SourceAiOrganizeTask | ProjectInventory | Workflow | CapabilityInstallTask

datatype task_status =
    Queued | Running | WaitingForConfirmation | Cancelling | Cancelled | Succeeded | Failed
  | Interrupted

datatype task_operation =
    ImportBatch string nat "string option"
  | ImportCollectionDiscovery string
  | CapabilityInstall string string string string
  | AppCapabilityInstall string string string string "string option"
  | ImportCommit string
  | ImportRecovery string
  | ImportHistoryIndexRebuild

record task_progress =
  tp_current :: nat
  tp_total :: "nat option"
  tp_label :: "string option"

datatype 'x task_result_reference =
    RefAppCapabilityInstall string string nat nat nat
  | RefImportPreview string string
  | RefImportOperation string string nat
  | RefImportV2SessionPreview string "string option" "'x option"
  | RefImportCollectionPreview string string 'x
  | RefCompile 'x
  | RefSourceAiOrganize string string string "string option" "'x option" "'x option"
      "'x option" "string option" "string option" "string option" "string option"

record 'x task_result =
  tr_summary :: string
  tr_affected_paths :: "string list"
  tr_reference :: "'x task_result_reference option"
  tr_pending_action :: "pending_action option"

record 'x backend_task =
  bt_id :: string
  bt_task_type :: task_type
  bt_project_id :: "string option"
  bt_batch_id :: "string option"
  bt_operation :: "task_operation option"
  bt_title :: string
  bt_status :: task_status
  bt_progress :: "task_progress option"
  bt_started_at :: string
  bt_updated_at :: string
  bt_completed_at :: "string option"
  bt_cancellable :: bool
  bt_log_path :: "string option"
  bt_result :: "'x task_result option"
  bt_error :: "backend_error option"

definition LEGACY_IMPORT_OPERATION_PREFIX :: string where
  "LEGACY_IMPORT_OPERATION_PREFIX = ''import-v2-operation:''"

definition import_operation_session_id :: "'x backend_task \<Rightarrow> string option" where
  "import_operation_session_id t =
     (if bt_task_type t \<noteq> Import then None
      else case bt_operation t of
        Some (ImportBatch sid _ _) \<Rightarrow> Some sid
      | Some (ImportCollectionDiscovery sid) \<Rightarrow> Some sid
      | Some (CapabilityInstall _ _ _ _) \<Rightarrow> None
      | Some (AppCapabilityInstall _ _ _ _ _) \<Rightarrow> None
      | Some (ImportCommit _) \<Rightarrow> None
      | Some (ImportRecovery _) \<Rightarrow> None
      | Some ImportHistoryIndexRebuild \<Rightarrow> None
      | None \<Rightarrow>
          Option.bind (bt_batch_id t) (\<lambda>v. strip_prefix v LEGACY_IMPORT_OPERATION_PREFIX))"

definition is_import_operation :: "'x backend_task \<Rightarrow> bool" where
  "is_import_operation t \<longleftrightarrow>
     bt_task_type t = Import \<and>
     (bt_operation t \<noteq> None \<or>
      (case bt_batch_id t of None \<Rightarrow> False
       | Some v \<Rightarrow> starts_with v LEGACY_IMPORT_OPERATION_PREFIX))"

definition is_import_commit :: "'x backend_task \<Rightarrow> bool" where
  "is_import_commit t \<longleftrightarrow> (case bt_operation t of Some (ImportCommit _) \<Rightarrow> True | _ \<Rightarrow> False)"

definition blocks_update_install :: "'x backend_task \<Rightarrow> bool" where
  "blocks_update_install t \<longleftrightarrow>
     bt_status t \<in> {Queued, Running, Cancelling} \<and> (\<not> bt_cancellable t \<or> is_import_commit t)"

section \<open>Events and logs\<close>

datatype backend_event_type =
    TaskUpdated | TaskLog | TaskCompleted | TaskFailed | TaskCancelled
  | ConfirmationRequested | ProjectRefreshed | WikiChanged | GraphUpdated | AgentOutput
  | TaskStreamOutput | TaskActivityEvent | WorkflowUpdated | ImportSessionPatch

record captured_event =
  ce_event_type :: backend_event_type
  ce_project_id :: "string option"
  ce_task_id :: "string option"

datatype log_level = Info | Warn | Error | Debug

record log_line =
  ll_timestamp :: string
  ll_level :: log_level
  ll_message :: string

datatype task_activity_status = ActivityStarted | ActivityCompleted | ActivityFailed

datatype task_activity =
    Phase string task_activity_status "string option"
  | Thinking task_activity_status "string option" "nat option"
  | ToolCall string string "string option"
  | ToolResult string bool "string option"

section \<open>The status machine\<close>

fun debug_task_status :: "task_status \<Rightarrow> string" where
  "debug_task_status Queued = ''Queued''"
| "debug_task_status Running = ''Running''"
| "debug_task_status WaitingForConfirmation = ''WaitingForConfirmation''"
| "debug_task_status Cancelling = ''Cancelling''"
| "debug_task_status Cancelled = ''Cancelled''"
| "debug_task_status Succeeded = ''Succeeded''"
| "debug_task_status Failed = ''Failed''"
| "debug_task_status Interrupted = ''Interrupted''"

fun validate_transition :: "task_status \<Rightarrow> task_status \<Rightarrow> unit sresult" where
  "validate_transition Queued Running = Inr ()"
| "validate_transition Queued Interrupted = Inr ()"
| "validate_transition Queued Cancelled = Inr ()"
| "validate_transition Running WaitingForConfirmation = Inr ()"
| "validate_transition Running Succeeded = Inr ()"
| "validate_transition Running Failed = Inr ()"
| "validate_transition Running Interrupted = Inr ()"
| "validate_transition Running Cancelling = Inr ()"
| "validate_transition WaitingForConfirmation Running = Inr ()"
| "validate_transition WaitingForConfirmation Cancelling = Inr ()"
| "validate_transition Cancelling Cancelled = Inr ()"
| "validate_transition Cancelling Failed = Inr ()"
| "validate_transition Cancelling Interrupted = Inr ()"
| "validate_transition Interrupted Queued = Inr ()"
| "validate_transition Interrupted Cancelled = Inr ()"
| "validate_transition current nxt =
     Inl (''Invalid state transition: '' @ debug_task_status current @ '' -> '' @
          debug_task_status nxt)"

section \<open>Cancellation tokens\<close>

text \<open>
  A token is an \<open>Arc<AtomicU8>\<close>: its clones share one cell. A token is the address of
  its cell, the registry maps task ids to tokens, and the cells are part of the state.
\<close>

definition TASK_SIGNAL_RUNNING :: "8 word" where "TASK_SIGNAL_RUNNING = 0"
definition TASK_SIGNAL_CANCELLED :: "8 word" where "TASK_SIGNAL_CANCELLED = 1"
definition TASK_SIGNAL_PAUSED :: "8 word" where "TASK_SIGNAL_PAUSED = 2"

lemmas signal_defs = TASK_SIGNAL_RUNNING_def TASK_SIGNAL_CANCELLED_def TASK_SIGNAL_PAUSED_def

type_synonym token = nat

record cancellation_registry =
  cr_tokens :: "string \<rightharpoonup> token"
  cr_cells :: "token \<Rightarrow> 8 word"
  cr_next :: token

definition token_new :: "cancellation_registry \<Rightarrow> token \<times> cancellation_registry" where
  "token_new r =
     (cr_next r,
      r\<lparr>cr_cells := (cr_cells r)(cr_next r := TASK_SIGNAL_RUNNING), cr_next := Suc (cr_next r)\<rparr>)"

definition token_cancel :: "token \<Rightarrow> cancellation_registry \<Rightarrow> cancellation_registry" where
  "token_cancel a r = r\<lparr>cr_cells := (cr_cells r)(a := TASK_SIGNAL_CANCELLED)\<rparr>"

definition token_is_cancelled :: "cancellation_registry \<Rightarrow> token \<Rightarrow> bool" where
  "token_is_cancelled r a \<longleftrightarrow> cr_cells r a \<noteq> TASK_SIGNAL_RUNNING"

definition token_request_pause :: "token \<Rightarrow> cancellation_registry \<Rightarrow> cancellation_registry" where
  "token_request_pause a r =
     (if cr_cells r a = TASK_SIGNAL_RUNNING
      then r\<lparr>cr_cells := (cr_cells r)(a := TASK_SIGNAL_PAUSED)\<rparr> else r)"

definition token_is_pause_requested :: "cancellation_registry \<Rightarrow> token \<Rightarrow> bool" where
  "token_is_pause_requested r a \<longleftrightarrow> cr_cells r a = TASK_SIGNAL_PAUSED"

definition token_reset :: "token \<Rightarrow> cancellation_registry \<Rightarrow> cancellation_registry" where
  "token_reset a r = r\<lparr>cr_cells := (cr_cells r)(a := TASK_SIGNAL_RUNNING)\<rparr>"

section \<open>The cancellation registry\<close>

definition registry_new :: cancellation_registry where
  "registry_new = \<lparr>cr_tokens = Map.empty, cr_cells = (\<lambda>_. TASK_SIGNAL_RUNNING), cr_next = 0\<rparr>"

definition registry_register ::
  "string \<Rightarrow> cancellation_registry \<Rightarrow> token \<times> cancellation_registry" where
  "registry_register task_id r =
     (let (a, r1) = token_new r in (a, r1\<lparr>cr_tokens := (cr_tokens r1)(task_id \<mapsto> a)\<rparr>))"

definition registry_cancel :: "string \<Rightarrow> cancellation_registry \<Rightarrow> bool \<times> cancellation_registry" where
  "registry_cancel task_id r =
     (case cr_tokens r task_id of
        Some a \<Rightarrow> (True, token_cancel a r)
      | None \<Rightarrow> (False, r))"

definition registry_is_cancelled :: "string \<Rightarrow> cancellation_registry \<Rightarrow> bool" where
  "registry_is_cancelled task_id r =
     (case cr_tokens r task_id of Some a \<Rightarrow> token_is_cancelled r a | None \<Rightarrow> False)"

definition registry_pause :: "string \<Rightarrow> cancellation_registry \<Rightarrow> bool \<times> cancellation_registry" where
  "registry_pause task_id r =
     (case cr_tokens r task_id of
        Some a \<Rightarrow> (True, token_request_pause a r)
      | None \<Rightarrow> (False, r))"

definition registry_reset :: "string \<Rightarrow> cancellation_registry \<Rightarrow> bool \<times> cancellation_registry" where
  "registry_reset task_id r =
     (case cr_tokens r task_id of
        Some a \<Rightarrow> (True, token_reset a r)
      | None \<Rightarrow> (False, r))"

definition registry_remove :: "string \<Rightarrow> cancellation_registry \<Rightarrow> cancellation_registry" where
  "registry_remove task_id r = r\<lparr>cr_tokens := (cr_tokens r)(task_id := None)\<rparr>"

definition registry_clear :: "cancellation_registry \<Rightarrow> cancellation_registry" where
  "registry_clear r = r\<lparr>cr_tokens := Map.empty\<rparr>"

definition registry_get :: "string \<Rightarrow> cancellation_registry \<Rightarrow> token option" where
  "registry_get task_id r = cr_tokens r task_id"

lemmas token_defs = token_new_def token_cancel_def token_is_cancelled_def
  token_request_pause_def token_is_pause_requested_def token_reset_def

lemmas registry_defs = registry_new_def registry_register_def registry_cancel_def
  registry_is_cancelled_def registry_pause_def registry_reset_def registry_remove_def
  registry_clear_def registry_get_def

section \<open>The status machine: lemmas\<close>

definition transition_allowed :: "task_status \<Rightarrow> task_status \<Rightarrow> bool" where
  "transition_allowed s t = is_ok (validate_transition s t)"

definition status_final :: "task_status \<Rightarrow> bool" where
  "status_final s \<longleftrightarrow> s \<in> {Succeeded, Failed, Cancelled}"

lemma status_final_stuck: "status_final s \<Longrightarrow> \<not> transition_allowed s t"
  by (cases s; cases t) (simp_all add: status_final_def transition_allowed_def)

interpretation task_lifecycle: lifecycle transition_allowed status_final
  by unfold_locales (rule status_final_stuck)

lemma predecessor_of_Succeeded: "transition_allowed s Succeeded \<longleftrightarrow> s = Running"
  by (cases s) (simp_all add: transition_allowed_def)

lemma predecessor_of_Running:
  "transition_allowed s Running \<longleftrightarrow> s = Queued \<or> s = WaitingForConfirmation"
  by (cases s) (simp_all add: transition_allowed_def)

lemma cancelling_successor:
  "transition_allowed Cancelling t \<longleftrightarrow> t \<in> {Cancelled, Failed, Interrupted}"
  by (cases t) (simp_all add: transition_allowed_def)

lemma interrupted_successor: "transition_allowed Interrupted t \<longleftrightarrow> t \<in> {Queued, Cancelled}"
  by (cases t) (simp_all add: transition_allowed_def)

lemma cancelling_until_interrupted:
  assumes step: "\<And>k. Suc k < length h \<Longrightarrow> transition_allowed (h ! k) (h ! Suc k)"
    and "h ! i = Cancelling" and "i \<le> j" and "j < length h"
  shows "(\<exists>k. i < k \<and> k \<le> j \<and> h ! k = Interrupted) \<or> h ! j \<in> {Cancelling, Cancelled, Failed}"
  using assms(3,4)
proof (induction rule: dec_induct)
  case (step n)
  show ?case
  proof (cases "h ! Suc n = Interrupted")
    case True
    with step(1) show ?thesis by (auto intro!: exI [of _ "Suc n"])
  next
    case False
    with step assms(1) [of n] status_final_stuck [of "h ! n" "h ! Suc n"] show ?thesis
      by (auto simp: cancelling_successor status_final_def intro: le_SucI)
  qed
qed (use assms(2) in simp)

lemma waiting_predecessor: "transition_allowed s WaitingForConfirmation \<longleftrightarrow> s = Running"
  by (cases s) (simp_all add: transition_allowed_def)

section \<open>Tokens: lemmas\<close>

definition registry_wf :: "cancellation_registry \<Rightarrow> bool" where
  "registry_wf r \<longleftrightarrow> (\<forall>i a. cr_tokens r i = Some a \<longrightarrow> a < cr_next r) \<and>
     (\<forall>a. cr_cells r a \<in> {TASK_SIGNAL_RUNNING, TASK_SIGNAL_CANCELLED, TASK_SIGNAL_PAUSED})"

lemma signals_distinct [simp]:
  "TASK_SIGNAL_RUNNING \<noteq> TASK_SIGNAL_CANCELLED" "TASK_SIGNAL_CANCELLED \<noteq> TASK_SIGNAL_RUNNING"
  "TASK_SIGNAL_RUNNING \<noteq> TASK_SIGNAL_PAUSED" "TASK_SIGNAL_PAUSED \<noteq> TASK_SIGNAL_RUNNING"
  "TASK_SIGNAL_CANCELLED \<noteq> TASK_SIGNAL_PAUSED" "TASK_SIGNAL_PAUSED \<noteq> TASK_SIGNAL_CANCELLED"
  by (simp_all add: signal_defs)

lemma registry_wf_ops [inv_intros]:
  "registry_wf registry_new"
  "registry_wf r \<Longrightarrow> registry_wf (snd (registry_register i r))"
  "registry_wf r \<Longrightarrow> registry_wf (snd (registry_cancel i r))"
  "registry_wf r \<Longrightarrow> registry_wf (snd (registry_pause i r))"
  "registry_wf r \<Longrightarrow> registry_wf (snd (registry_reset i r))"
  "registry_wf r \<Longrightarrow> registry_wf (registry_remove i r)"
  "registry_wf r \<Longrightarrow> registry_wf (registry_clear r)"
  by (auto simp: registry_wf_def registry_defs token_defs less_SucI split: option.splits)

lemma token_signal [simp]:
  "token_is_cancelled (token_cancel a r) a"
  "token_is_cancelled (token_request_pause a r) a"
  "\<not> token_is_cancelled (token_reset a r) a"
  by (auto simp: token_defs)

lemma token_frame [simp]:
  "a \<noteq> b \<Longrightarrow> cr_cells (token_cancel a r) b = cr_cells r b"
  "a \<noteq> b \<Longrightarrow> cr_cells (token_request_pause a r) b = cr_cells r b"
  "a \<noteq> b \<Longrightarrow> cr_cells (token_reset a r) b = cr_cells r b"
  by (auto simp: token_defs)

text \<open>A pause never weakens a cancellation that has already been signalled.\<close>

lemma pause_keeps_cancellation:
  "cr_cells r a = TASK_SIGNAL_CANCELLED \<Longrightarrow> token_request_pause a r = r"
  by (simp add: token_defs)

section \<open>Properties of the status machine and the tokens\<close>

text \<open>
  C17: In every history of statuses whose successive steps \<open>validate_transition\<close> allows:
  Succeeded, Failed and Cancelled stand only at the end; Succeeded comes directly after Running,
  and Running directly after Queued or WaitingForConfirmation; Interrupted is followed directly
  by Queued or Cancelled; and a task that was Cancelling succeeds later only if in between it was
  interrupted and then queued again.
\<close>

theorem status_history_safe:
  assumes "\<forall>k. Suc k < length h \<longrightarrow> validate_transition (h ! k) (h ! Suc k) = Inr ()"
    and "i < j" and "j < length h"
  shows "h ! i \<notin> {Succeeded, Failed, Cancelled} \<and>
     (h ! j = Succeeded \<longrightarrow> h ! (j - 1) = Running) \<and>
     (h ! j = Running \<longrightarrow> h ! (j - 1) \<in> {Queued, WaitingForConfirmation}) \<and>
     (h ! i = Interrupted \<longrightarrow> h ! Suc i \<in> {Queued, Cancelled}) \<and>
     (h ! i = Cancelling \<and> h ! j = Succeeded \<longrightarrow>
        (\<exists>k. i < k \<and> Suc k < j \<and> h ! k = Interrupted \<and> h ! Suc k = Queued))"
proof -
  have step: "transition_allowed (h ! k) (h ! Suc k)" if "Suc k < length h" for k
    using assms(1) that by (simp add: transition_allowed_def)
  have before: "transition_allowed (h ! (j - 1)) (h ! j)"
    using step [of "j - 1"] assms(2,3) by simp
  have fin: "h ! k \<notin> {Succeeded, Failed, Cancelled}" if "k < j" for k
    using status_final_stuck [of "h ! k" "h ! Suc k"] step [of k] assms(3) that
    by (auto simp: status_final_def)
  have resume: "h ! Suc k \<in> {Queued, Cancelled}" if "h ! k = Interrupted" "k < j" for k
    using step [of k] assms(3) that by (simp add: interrupted_successor)
  have again: "\<exists>k. i < k \<and> Suc k < j \<and> h ! k = Interrupted \<and> h ! Suc k = Queued"
    if c: "h ! i = Cancelling" and s: "h ! j = Succeeded"
  proof -
    obtain k where k: "i < k" "k \<le> j" "h ! k = Interrupted"
      using cancelling_until_interrupted [OF step c, of j] assms(2,3) s by auto
    then have "k < j" using s by (cases "k = j") auto
    then have q: "h ! Suc k \<in> {Queued, Cancelled}" using resume k(3) by simp
    then have "Suc k < j" using \<open>k < j\<close> s by (cases "Suc k = j") auto
    with q fin k(1,3) show ?thesis by auto
  qed
  from before have "h ! j = Succeeded \<longrightarrow> h ! (j - 1) = Running"
    and "h ! j = Running \<longrightarrow> h ! (j - 1) \<in> {Queued, WaitingForConfirmation}"
    by (auto simp: predecessor_of_Succeeded predecessor_of_Running)
  with fin [OF assms(2)] resume [OF _ assms(2)] again show ?thesis by blast
qed

theorem status_history_safe_witness:
  "[Queued, Running, Cancelling, Interrupted, Queued, Running, Succeeded] ! 5 = Running \<and>
   (\<exists>k. 2 < k \<and> Suc k < 6 \<and>
      [Queued, Running, Cancelling, Interrupted, Queued, Running, Succeeded] ! k = Interrupted)"
proof -
  let ?h = "[Queued, Running, Cancelling, Interrupted, Queued, Running, Succeeded]"
  have "\<forall>k. Suc k < length ?h \<longrightarrow> validate_transition (?h ! k) (?h ! Suc k) = Inr ()"
  proof (intro allI impI)
    fix k assume "Suc k < length ?h"
    then have "k = 0 \<or> k = 1 \<or> k = 2 \<or> k = 3 \<or> k = 4 \<or> k = 5" by simp linarith
    then show "validate_transition (?h ! k) (?h ! Suc k) = Inr ()" by auto
  qed
  from status_history_safe [OF this, of 2 6] show ?thesis by auto
qed

text \<open>
  Registering a task gives a token no earlier handle can signal: in a well-formed registry
  the new token differs from every token held under another id, starts unsignalled, and
  cancelling another task afterwards leaves it unsignalled.
\<close>

theorem registered_token_isolated:
  assumes "registry_wf r" and "registry_register i r = (a, r')" and "j \<noteq> i"
  shows "registry_get i r' = Some a \<and> registry_get j r' \<noteq> Some a \<and> \<not> registry_is_cancelled i r' \<and>
     \<not> registry_is_cancelled i (snd (registry_cancel j r')) \<and>
     \<not> registry_is_cancelled i (snd (registry_pause j r')) \<and>
     registry_is_cancelled i (snd (registry_cancel i r'))"
proof -
  have "cr_tokens r j \<noteq> Some (cr_next r)"
    using assms(1) by (metis registry_wf_def less_irrefl)
  with assms(2,3) show ?thesis
    by (auto simp: registry_defs token_defs split: option.splits)
qed

theorem registered_token_isolated_witness:
  "\<not> registry_is_cancelled ''b'' (snd (registry_cancel ''a''
     (snd (registry_register ''b'' (snd (registry_register ''a'' registry_new))))))"
proof -
  let ?r = "snd (registry_register ''a'' registry_new)"
  have w: "registry_wf ?r" by (simp add: registry_wf_ops)
  have "registry_register ''b'' ?r = (fst (registry_register ''b'' ?r), snd (registry_register ''b'' ?r))"
    by simp
  from registered_token_isolated [OF w this, of "''a''"] show ?thesis by simp
qed

end
