(* ===== verification/Workflow_Model.thy ===== *)
theory Workflow_Model
  imports Task_Model
begin

text \<open>
  The workflow data model (\<open>models/workflow.rs\<close>): kinds, scopes, routes, stages, results,
  the execution state attached to a workflow task, its projection to a run, and the
  validation of the persisted execution contract.
\<close>

section \<open>Data\<close>

datatype workflow_kind = UpdateWiki | HealthCheck | GenerateContent

datatype workflow_operation_kind = KindBuiltIn | KindAgentLintRepair

record wiki_lint_skill_ref =
  sk_id :: string
  sk_version :: string
  sk_sha256 :: string

record 'x agent_lint_repair_finding =
  fi_id :: string
  fi_issue_type :: 'x
  fi_severity :: 'x
  fi_path :: string
  fi_message :: string
  fi_evidence :: "string option"
  fi_suggested_action :: "string option"

record 'x agent_lint_repair_operation =
  ao_preparation_id :: string
  ao_preparation_revision :: string
  ao_report_id :: string
  ao_selection_revision :: string
  ao_selected_finding_ids :: "string list"
  ao_selected_findings :: "'x agent_lint_repair_finding list"
  ao_skill :: wiki_lint_skill_ref
  ao_authorized_path_hashes :: "(string \<times> string option) list"
  ao_expected_git_head :: string

datatype 'x workflow_operation =
    BuiltIn
  | AgentLintRepairOperation "'x agent_lint_repair_operation"

datatype workflow_display_status =
    DisplayQueued | DisplayRunning | DisplayWaitingForConfirmation | DisplayCompleted
  | DisplayFailed | DisplayCancelled | DisplayInterrupted

datatype agent_kind = Claude | Codex | Openclaw | Hermes
datatype llm_provider_kind = OpenAi | Anthropic | Google | Ollama | Custom

datatype workflow_route =
    LocalRoute string
  | AgentRoute agent_kind "string option" string
  | ByokRoute llm_provider_kind string string

datatype workflow_route_selection = SelectAgent agent_kind | SelectByok llm_provider_kind

record workflow_source_version_ref =
  sv_source_id :: string
  sv_version_id :: string

datatype update_wiki_mode = ChangedSources | FullRecompile
datatype health_check_mode = LocalQuick | Complete
datatype workflow_artifact_type = BeautifulRead | KnowledgeCard | ConceptMap | ProjectReport

datatype workflow_scope =
    ScopeUpdateWiki update_wiki_mode "workflow_source_version_ref list"
  | ScopeHealthCheck health_check_mode
  | ScopeGenerateContent workflow_artifact_type "string list" "string option"

datatype update_wiki_selection = Automatic | Selected "workflow_source_version_ref list"

record update_wiki_request =
  ur_request_id :: string
  ur_retry_of_task_id :: "string option"
  ur_mode :: update_wiki_mode
  ur_selection :: update_wiki_selection
  ur_route_selection :: "workflow_route_selection option"
  ur_acknowledge_remote_provider :: bool

record 'x workflow_execution_options =
  eo_update_request :: "update_wiki_request option"
  eo_update_config_revision :: "string option"
  eo_preparation_revision :: string
  eo_operation :: "'x workflow_operation"
  eo_preparation_fingerprint :: "string option"
  eo_existing_target_hash :: "string option"
  eo_restricted_content_acknowledgement_revision :: "string option"
  eo_remote_provider_acknowledgement_revision :: "string option"

datatype workflow_stage_status =
    StagePending | StageRunning | StageCompleted | StageFailed | StageWaiting | StageSkipped

record workflow_count_progress =
  wp_current :: nat
  wp_total :: "nat option"

datatype workflow_candidate_reference = TaskOwned string | ProjectRelative string

record workflow_pending_action =
  wpa_id :: string
  wpa_action_type :: pending_action_type
  wpa_risk_level :: risk_level
  wpa_affected_paths :: "string list"
  wpa_candidate :: "workflow_candidate_reference option"
  wpa_expires_at :: "string option"
  wpa_checkpoint_hash :: "string option"

record workflow_stage =
  st_id :: string
  st_ordinal :: nat
  st_status :: workflow_stage_status
  st_label_key :: string
  st_started_at :: "string option"
  st_completed_at :: "string option"
  st_current_item :: "string option"
  st_progress :: "workflow_count_progress option"
  st_decision :: "workflow_pending_action option"

datatype workflow_persistence_mode = Persistent | MemoryOnly

datatype workflow_persistence_transition =
    Unchanged | DowngradedToMemoryOnly | UpgradedToPersistent

datatype agent_lint_repair_outcome =
    OutcomeSucceeded | OutcomePartiallyCompleted | OutcomeManualReviewRequired
  | OutcomeCancelled | OutcomeFailed | OutcomeInterrupted | OutcomeRolledBack

datatype 'x workflow_result =
    ResultUpdateWiki nat nat nat nat nat nat nat nat "'x list" "string list" "string option"
      "string option"
  | ResultHealthCheck "string option" bool "string option" nat nat nat "'x option"
      "(string \<times> nat) list"
  | ResultGenerateContent workflow_artifact_type "string option" "string list" "nat option" bool
  | ResultAgentLintRepair agent_lint_repair_outcome "string list" "string list" "string list"
      "string list" "'x list" "string list" "(string \<times> string option) list" "string option"
      "string option" bool bool "string list"

datatype workflow_project_mutation_state = NotModified | Modified | RolledBack | MutationUnknown

datatype workflow_prerequisite_action =
    OpenOrCreateProject | TrustProject | MakeWritable | ConfigureGit | ResolveDirtyGit
  | ImportSources | PrerequisiteUpdateWiki | ConfigureExecutionRoute | ChooseExecutionRoute
  | PrepareAgain | AcknowledgeRemoteProvider | AcknowledgeRestrictedContent

record workflow_error_summary =
  we_code :: string
  we_message_key :: string
  we_recoverable :: bool
  we_user_action_required :: bool
  we_suggested_action :: "workflow_prerequisite_action option"
  we_project_mutation_state :: workflow_project_mutation_state

record workflow_retry_link =
  rl_attempt_of :: string
  rl_attempt_number :: nat

record 'x workflow_execution_state =
  wf_schema_version :: nat
  wf_revision :: nat
  wf_session_id :: string
  wf_canonical_identity_key :: string
  wf_identity_revision :: string
  wf_kind :: workflow_kind
  wf_scope :: workflow_scope
  wf_execution_options :: "'x workflow_execution_options"
  wf_route :: "workflow_route option"
  wf_fingerprint :: string
  wf_baseline_fingerprint :: string
  wf_persistence :: workflow_persistence_mode
  wf_persistence_transition :: "workflow_persistence_transition option"
  wf_stages :: "workflow_stage list"
  wf_current_stage_id :: "string option"
  wf_queue_position :: "nat option"
  wf_continuation_required :: bool
  wf_retry :: "workflow_retry_link option"
  wf_pending_action :: "workflow_pending_action option"
  wf_result :: "'x workflow_result option"
  wf_error :: "workflow_error_summary option"
  wf_cancelled_from_queue :: bool
  wf_undo_cancel_until :: "string option"

record 'x workflow_run =
  wr_schema_version :: nat
  wr_revision :: string
  wr_session_id :: string
  wr_task_id :: string
  wr_project_id :: string
  wr_canonical_identity_key :: string
  wr_identity_revision :: string
  wr_kind :: workflow_kind
  wr_operation :: "'x workflow_operation"
  wr_display_status :: workflow_display_status
  wr_scope :: workflow_scope
  wr_route :: "workflow_route option"
  wr_fingerprint :: string
  wr_baseline_fingerprint :: string
  wr_persistence :: workflow_persistence_mode
  wr_persistence_transition :: "workflow_persistence_transition option"
  wr_stages :: "workflow_stage list"
  wr_current_stage_id :: "string option"
  wr_queue_position :: "nat option"
  wr_continuation_required :: bool
  wr_retry :: "workflow_retry_link option"
  wr_pending_action :: "workflow_pending_action option"
  wr_decision_review :: "'x option"
  wr_result :: "'x workflow_result option"
  wr_error :: "workflow_error_summary option"
  wr_started_at :: string
  wr_updated_at :: string
  wr_completed_at :: "string option"
  wr_cancellable :: bool
  wr_undo_cancel_until :: "string option"

section \<open>Projections\<close>

fun workflow_operation_kind_of :: "'x workflow_operation \<Rightarrow> workflow_operation_kind" where
  "workflow_operation_kind_of BuiltIn = KindBuiltIn"
| "workflow_operation_kind_of (AgentLintRepairOperation _) = KindAgentLintRepair"

fun display_status_from :: "task_status \<Rightarrow> workflow_display_status" where
  "display_status_from Queued = DisplayQueued"
| "display_status_from Running = DisplayRunning"
| "display_status_from Cancelling = DisplayRunning"
| "display_status_from WaitingForConfirmation = DisplayWaitingForConfirmation"
| "display_status_from Succeeded = DisplayCompleted"
| "display_status_from Failed = DisplayFailed"
| "display_status_from Cancelled = DisplayCancelled"
| "display_status_from Interrupted = DisplayInterrupted"

definition advance_revision ::
  "'x workflow_execution_state \<Rightarrow> 'x workflow_execution_state sresult" where
  "advance_revision w =
     (case checked_add (wf_revision w) 1 of
        None \<Rightarrow> Inl ''Workflow revision exhausted''
      | Some n \<Rightarrow> Inr (w\<lparr>wf_revision := n\<rparr>))"

definition to_run ::
  "'x workflow_execution_state \<Rightarrow> 'x backend_task \<Rightarrow> 'x workflow_run option" where
  "to_run w t = (case bt_project_id t of None \<Rightarrow> None | Some pid \<Rightarrow> Some
     \<lparr>wr_schema_version = wf_schema_version w, wr_revision = show_nat (wf_revision w),
      wr_session_id = wf_session_id w, wr_task_id = bt_id t, wr_project_id = pid,
      wr_canonical_identity_key = wf_canonical_identity_key w,
      wr_identity_revision = wf_identity_revision w, wr_kind = wf_kind w,
      wr_operation = eo_operation (wf_execution_options w),
      wr_display_status = display_status_from (bt_status t), wr_scope = wf_scope w,
      wr_route = wf_route w, wr_fingerprint = wf_fingerprint w,
      wr_baseline_fingerprint = wf_baseline_fingerprint w, wr_persistence = wf_persistence w,
      wr_persistence_transition = wf_persistence_transition w, wr_stages = wf_stages w,
      wr_current_stage_id = wf_current_stage_id w, wr_queue_position = wf_queue_position w,
      wr_continuation_required = wf_continuation_required w, wr_retry = wf_retry w,
      wr_pending_action = wf_pending_action w, wr_decision_review = None,
      wr_result = wf_result w, wr_error = wf_error w, wr_started_at = bt_started_at t,
      wr_updated_at = bt_updated_at t, wr_completed_at = bt_completed_at t,
      wr_cancellable = bt_cancellable t, wr_undo_cancel_until = wf_undo_cancel_until w\<rparr>)"

section \<open>The execution contract\<close>

definition WIKI_LINT_SKILL_ID :: string where
  "WIKI_LINT_SKILL_ID = ''builtin.wiki-lint''"
definition WIKI_LINT_SKILL_VERSION :: string where
  "WIKI_LINT_SKILL_VERSION = ''2026-08-12.1''"
definition WIKI_LINT_SKILL_SHA256 :: string where
  "WIKI_LINT_SKILL_SHA256 =
     ''29e903710745451da287de9d08297ae6863de944bd7d9abd7f4243b5b9f76eb0''"

definition is_builtin :: "wiki_lint_skill_ref \<Rightarrow> bool" where
  "is_builtin s \<longleftrightarrow> sk_id s = WIKI_LINT_SKILL_ID \<and> sk_version s = WIKI_LINT_SKILL_VERSION \<and>
     sk_sha256 s = WIKI_LINT_SKILL_SHA256"

definition validate_revision :: "string \<Rightarrow> string \<Rightarrow> unit sresult" where
  "validate_revision label v =
     (if v = [] \<or> length v > 128 \<or>
         \<not> list_all (\<lambda>c. is_ascii_alphanumeric c \<or> c \<in> {CHR ''-'', CHR ''_'', CHR ''.''}) v
      then Inl (label @ '' is not a bounded backend revision'') else Inr ())"

definition bounded_fact :: "string \<Rightarrow> bool" where
  "bounded_fact v \<longleftrightarrow> \<not> (trim v = [] \<or> length v > 256)"

definition finding_bounded :: "'x agent_lint_repair_finding \<Rightarrow> bool" where
  "finding_bounded f \<longleftrightarrow> \<not> (length (fi_id f) > 1024 \<or> trim (fi_path f) = [] \<or>
     length (fi_path f) > 1024 \<or> trim (fi_message f) = [] \<or> chars_count (fi_message f) > 8192 \<or>
     (case fi_evidence f of None \<Rightarrow> False | Some v \<Rightarrow> chars_count v > 8192) \<or>
     (case fi_suggested_action f of None \<Rightarrow> False | Some v \<Rightarrow> chars_count v > 8192))"

definition sha256_hex :: "string \<Rightarrow> bool" where
  "sha256_hex v \<longleftrightarrow> length v = 64 \<and> list_all is_ascii_hexdigit v"

definition path_hash_ok :: "string \<times> string option \<Rightarrow> bool" where
  "path_hash_ok ph \<longleftrightarrow> \<not> (trim (fst ph) = [] \<or> length (fst ph) > 1024 \<or>
     (case snd ph of None \<Rightarrow> False | Some v \<Rightarrow> \<not> sha256_hex v))"

definition validate_agent_lint_repair ::
  "'x agent_lint_repair_operation \<Rightarrow> unit sresult" where
  "validate_agent_lint_repair a =
    (let ids = ao_selected_finding_ids a; fs = ao_selected_findings a;
         head = ao_expected_git_head a; hs = ao_authorized_path_hashes a in
     case List.find (\<lambda>(label, v). \<not> bounded_fact v)
       [(''preparationId'', ao_preparation_id a),
        (''preparationRevision'', ao_preparation_revision a),
        (''reportId'', ao_report_id a), (''selectionRevision'', ao_selection_revision a)] of
       Some (label, _) \<Rightarrow> Inl (label @ '' is not a bounded operation fact'')
     | None \<Rightarrow>
       if ids = [] \<or> length ids > 100 \<or> list_ex (\<lambda>v. trim v = []) ids
       then Inl ''Agent lint repair requires 1..=100 selected finding ids''
       else if sort ids \<noteq> ids \<or>
           list_ex (\<lambda>i. sort ids ! i = sort ids ! Suc i) [0..<length ids - 1]
       then Inl ''Agent lint repair finding ids must be sorted and unique''
       else if fs = [] \<or> length fs \<noteq> length ids \<or> length fs > 100 \<or> map fi_id fs \<noteq> ids
       then Inl ''Agent lint repair finding snapshots must exactly match selected finding ids''
       else if list_ex (\<lambda>f. \<not> finding_bounded f) fs
       then Inl ''Agent lint repair finding snapshots are not bounded''
       else if \<not> is_builtin (ao_skill a)
       then Inl ''Agent lint repair must use the pinned built-in Skill''
       else if hs = [] \<or> length hs > 256 \<or> list_ex (\<lambda>ph. \<not> path_hash_ok ph) hs
       then Inl ''Agent lint repair authorized path hashes are invalid''
       else if \<not> (7 \<le> length head \<and> length head \<le> 64) \<or> \<not> list_all is_ascii_hexdigit head
       then Inl ''Agent lint repair expected Git HEAD is invalid''
       else Inr ())"

definition validate_operation :: "'x workflow_operation \<Rightarrow> unit sresult" where
  "validate_operation op =
     (case op of BuiltIn \<Rightarrow> Inr () | AgentLintRepairOperation a \<Rightarrow> validate_agent_lint_repair a)"

text \<open>
  The loop over the selected source versions stops at the first empty or repeated source id;
  \<open>seen\<close> is the \<open>HashSet\<close> of the ids met before.
\<close>

fun source_selection_ambiguous ::
  "string list \<Rightarrow> workflow_source_version_ref list \<Rightarrow> bool" where
  "source_selection_ambiguous seen [] = False"
| "source_selection_ambiguous seen (s # ss) =
     (sv_source_id s = [] \<or> sv_version_id s = [] \<or> sv_source_id s \<in> set seen \<or>
      source_selection_ambiguous (sv_source_id s # seen) ss)"

text \<open>The bind of the sources' \<open>?\<close> on unit results.\<close>

definition and_then :: "unit sresult \<Rightarrow> 'a sresult \<Rightarrow> 'a sresult" where
  "and_then r k = (case r of Inl e \<Rightarrow> Inl e | Inr _ \<Rightarrow> k)"

definition validate_optional :: "string \<Rightarrow> string option \<Rightarrow> unit sresult" where
  "validate_optional label v = (case v of None \<Rightarrow> Inr () | Some r \<Rightarrow> validate_revision label r)"

definition validate_update_request ::
  "(string \<Rightarrow> bool) \<Rightarrow> update_wiki_request option \<Rightarrow> string option \<Rightarrow> unit sresult" where
  "validate_update_request uuid_ok request config =
    (case (request, config) of
       (Some intent, Some revision) \<Rightarrow>
         and_then (validate_revision ''updateConfigRevision'' revision)
          (if \<not> uuid_ok (ur_request_id intent) then Inl ''Update request requires a UUID''
           else case ur_selection intent of
             Automatic \<Rightarrow> Inr ()
           | Selected vs \<Rightarrow>
               if vs = [] \<or> source_selection_ambiguous [] vs
               then Inl ''Update requires a nonempty unambiguous source selection''
               else Inr ())
     | (None, None) \<Rightarrow> Inr ()
     | _ \<Rightarrow> Inl ''Update request and configuration revision must be stored together'')"

definition validate_execution_options ::
  "(string \<Rightarrow> bool) \<Rightarrow> 'x workflow_execution_options \<Rightarrow> unit sresult" where
  "validate_execution_options uuid_ok eo =
     and_then (validate_revision ''preparationRevision'' (eo_preparation_revision eo))
    (and_then (validate_operation (eo_operation eo))
    (and_then
      (validate_update_request uuid_ok (eo_update_request eo) (eo_update_config_revision eo))
    (and_then (validate_optional ''preparationFingerprint'' (eo_preparation_fingerprint eo))
    (and_then
      (case eo_existing_target_hash eo of
         None \<Rightarrow> Inr ()
       | Some h \<Rightarrow> if \<not> sha256_hex h then Inl ''existingTargetHash must be a SHA-256 hex digest''
                  else Inr ())
    (and_then (validate_optional ''restrictedContentAcknowledgementRevision''
        (eo_restricted_content_acknowledgement_revision eo))
      (validate_optional ''remoteProviderAcknowledgementRevision''
        (eo_remote_provider_acknowledgement_revision eo)))))))"

definition validate_workflow_execution_contract ::
  "(string \<Rightarrow> bool) \<Rightarrow> workflow_kind \<Rightarrow> workflow_scope \<Rightarrow> workflow_route option \<Rightarrow>
   'x workflow_execution_options \<Rightarrow> unit sresult" where
  "validate_workflow_execution_contract uuid_ok kind scope route eo =
     and_then (validate_execution_options uuid_ok eo)
      (if (case eo_update_request eo of
            None \<Rightarrow> False
          | Some intent \<Rightarrow> kind \<noteq> UpdateWiki \<or>
              \<not> (case scope of ScopeUpdateWiki mode _ \<Rightarrow> mode = ur_mode intent | _ \<Rightarrow> False) \<or>
              \<not> (case eo_operation eo of BuiltIn \<Rightarrow> True | _ \<Rightarrow> False))
       then Inl ''Update intent must belong to the matching built-in Update Wiki operation''
       else if (case eo_operation eo of AgentLintRepairOperation _ \<Rightarrow> False | _ \<Rightarrow> True)
       then Inr ()
       else if kind \<noteq> HealthCheck
       then Inl ''Agent lint repair must remain a Health Check operation''
       else if \<not> (case scope of ScopeHealthCheck Complete \<Rightarrow> True | _ \<Rightarrow> False)
       then Inl ''Agent lint repair requires Complete Health scope''
       else if \<not> (case route of Some (AgentRoute _ _ _) \<Rightarrow> True | _ \<Rightarrow> False)
       then Inl ''Agent lint repair requires an Agent route''
       else Inr ())"

section \<open>Lemmas\<close>

lemma and_then_ok [simp]: "and_then r k = Inr v \<longleftrightarrow> is_ok r \<and> k = Inr v"
  by (cases r) (simp_all add: and_then_def)

lemma is_ok_and_then [simp]: "is_ok (and_then r k) \<longleftrightarrow> is_ok r \<and> is_ok k"
  by (cases r) (simp_all add: and_then_def)

lemma adjacent_distinct:
  fixes xs :: "'a :: linorder list"
  assumes "sorted xs" and "\<forall>i < length xs - 1. xs ! i \<noteq> xs ! Suc i"
  shows "distinct xs"
  using assms
proof (induction xs)
  case (Cons x xs)
  have "\<forall>i < length xs - 1. xs ! i \<noteq> xs ! Suc i"
    using Cons.prems(2) by (metis Suc_less_eq diff_Suc_1 length_Cons less_diff_conv nth_Cons_Suc Suc_eq_plus1)
  with Cons have d: "distinct xs" by simp
  have "x \<notin> set xs"
  proof (cases xs)
    case (Cons y ys)
    with \<open>\<forall>i < length (x # xs) - 1. (x # xs) ! i \<noteq> (x # xs) ! Suc i\<close> have "x \<noteq> y" by auto
    moreover have "x \<le> y" and "\<forall>z \<in> set ys. y \<le> z"
      using Cons \<open>sorted (x # xs)\<close> by auto
    ultimately show ?thesis using Cons by auto
  qed simp
  with d show ?case by simp
qed simp

lemma source_selection_unambiguous:
  "\<not> source_selection_ambiguous seen ss \<longleftrightarrow>
     (\<forall>s \<in> set ss. sv_source_id s \<noteq> [] \<and> sv_version_id s \<noteq> [] \<and> sv_source_id s \<notin> set seen) \<and>
     distinct (map sv_source_id ss)"
  by (induction seen ss rule: source_selection_ambiguous.induct) (auto simp: image_iff)

lemma sorted_unique_ids:
  assumes "sort ids = ids" and "\<not> list_ex (\<lambda>i. sort ids ! i = sort ids ! Suc i) [0..<length ids - 1]"
  shows "sorted ids \<and> distinct (ids :: string list)"
proof -
  have "sorted ids" using assms(1) by (metis sorted_sort)
  moreover have "\<forall>i < length ids - 1. ids ! i \<noteq> ids ! Suc i"
    using assms by (auto simp: list_ex_iff)
  ultimately show ?thesis using adjacent_distinct by blast
qed

lemma repair_operation_accepted:
  assumes "is_ok (validate_agent_lint_repair a)"
  shows "sorted (ao_selected_finding_ids a) \<and> distinct (ao_selected_finding_ids a) \<and>
    ao_selected_finding_ids a \<noteq> [] \<and> length (ao_selected_finding_ids a) \<le> 100 \<and>
    map fi_id (ao_selected_findings a) = ao_selected_finding_ids a \<and>
    list_all finding_bounded (ao_selected_findings a) \<and> is_builtin (ao_skill a) \<and>
    ao_authorized_path_hashes a \<noteq> [] \<and> list_all path_hash_ok (ao_authorized_path_hashes a)"
  using assms sorted_unique_ids [of "ao_selected_finding_ids a"]
  by (auto simp: validate_agent_lint_repair_def Let_def list_all_iff list_ex_iff is_ok_def
      split: option.splits if_splits)

section \<open>Properties\<close>

text \<open>
  an execution contract that passes validation never lets an Agent repair out of its bounds.
  The repair is a complete Health Check on an Agent route, carries no Update Wiki intent, uses the
  pinned built-in Skill, and names between one and one hundred findings, sorted and without
  repetition, each with its bounded snapshot, and at least one authorised path with a digest.
\<close>

theorem agent_repair_contract:
  assumes "is_ok (validate_workflow_execution_contract uuid_ok kind scope route eo)"
    and "eo_operation eo = AgentLintRepairOperation a"
  shows "kind = HealthCheck \<and> scope = ScopeHealthCheck Complete \<and>
    (\<exists>agent version model. route = Some (AgentRoute agent version model)) \<and>
    eo_update_request eo = None \<and> is_builtin (ao_skill a) \<and>
    sorted (ao_selected_finding_ids a) \<and> distinct (ao_selected_finding_ids a) \<and>
    1 \<le> length (ao_selected_finding_ids a) \<and> length (ao_selected_finding_ids a) \<le> 100 \<and>
    map fi_id (ao_selected_findings a) = ao_selected_finding_ids a \<and>
    list_all finding_bounded (ao_selected_findings a) \<and>
    ao_authorized_path_hashes a \<noteq> [] \<and> list_all path_hash_ok (ao_authorized_path_hashes a)"
proof -
  have "is_ok (validate_execution_options uuid_ok eo)"
    using assms(1) by (simp add: validate_workflow_execution_contract_def)
  then have "is_ok (validate_agent_lint_repair a)"
    using assms(2) by (simp add: validate_execution_options_def validate_operation_def)
  note op = repair_operation_accepted [OF this]
  have "eo_update_request eo = None \<and> kind = HealthCheck \<and> scope = ScopeHealthCheck Complete \<and>
      (\<exists>agent version model. route = Some (AgentRoute agent version model))"
    using assms by (auto simp: validate_workflow_execution_contract_def
        split: option.splits if_splits workflow_scope.splits health_check_mode.splits
          workflow_route.splits)
  with op show ?thesis by (simp add: Suc_le_eq)
qed

definition sample_repair :: "unit agent_lint_repair_operation" where
  "sample_repair = \<lparr>ao_preparation_id = ''p'', ao_preparation_revision = ''1'', ao_report_id = ''r'',
     ao_selection_revision = ''1'', ao_selected_finding_ids = [''f''],
     ao_selected_findings = [\<lparr>fi_id = ''f'', fi_issue_type = (), fi_severity = (),
       fi_path = ''a.md'', fi_message = ''m'', fi_evidence = None, fi_suggested_action = None\<rparr>],
     ao_skill = \<lparr>sk_id = WIKI_LINT_SKILL_ID, sk_version = WIKI_LINT_SKILL_VERSION,
       sk_sha256 = WIKI_LINT_SKILL_SHA256\<rparr>,
     ao_authorized_path_hashes = [(''a.md'', None)], ao_expected_git_head = ''0123abc''\<rparr>"

definition sample_repair_options :: "unit workflow_execution_options" where
  "sample_repair_options = \<lparr>eo_update_request = None, eo_update_config_revision = None,
     eo_preparation_revision = ''1'', eo_operation = AgentLintRepairOperation sample_repair,
     eo_preparation_fingerprint = None, eo_existing_target_hash = None,
     eo_restricted_content_acknowledgement_revision = None,
     eo_remote_provider_acknowledgement_revision = None\<rparr>"

lemma sample_repair_valid: "validate_agent_lint_repair sample_repair = Inr ()"
  by (simp add: validate_agent_lint_repair_def sample_repair_def bounded_fact_def
      finding_bounded_def path_hash_ok_def trim_graphic graphic_def chars_count_def is_builtin_def
      is_ascii_hexdigit_def)

lemma sample_repair_accepted:
  "is_ok (validate_workflow_execution_contract (\<lambda>_. False) HealthCheck (ScopeHealthCheck Complete)
     (Some (AgentRoute Codex None ''m'')) sample_repair_options)"
  by (simp add: validate_workflow_execution_contract_def validate_execution_options_def
      sample_repair_options_def validate_operation_def sample_repair_valid validate_revision_def
      validate_update_request_def validate_optional_def is_ascii_alphanumeric_def
      is_ascii_digit_def)

theorem agent_repair_contract_witness:
  "is_builtin (ao_skill sample_repair) \<and> distinct (ao_selected_finding_ids sample_repair)"
  using agent_repair_contract [OF sample_repair_accepted, of sample_repair]
  by (simp add: sample_repair_options_def)

end
