(* ===== verification/Summary_Index.thy ===== *)
theory Summary_Index
  imports Workflow_Model "HOL-Library.Product_Lexorder"
begin

text \<open>
  The index of workflow summaries that the task service derives from its tasks
  (\<open>tasks/task_service.rs\<close>, \<open>models/workflow.rs\<close>): the summary of a run, the ordered sets
  kept per owner, the snapshot read by the overview, and the index over all owners.

  A \<open>BTreeSet\<close> is a finite set, read in the order of its elements (\<open>last\<close> is the greatest);
  a \<open>HashMap\<close> is a partial map, and \<open>entry().or_default()\<close> creates the empty set.
\<close>

section \<open>Summaries\<close>

datatype workflow_run_outcome_summary =
    OutUpdateWiki nat nat nat
  | OutHealthCheck nat nat nat
  | OutGenerateContent workflow_artifact_type nat bool
  | OutAgentLintRepair agent_lint_repair_outcome nat nat nat bool

fun outcome_summary_from :: "'x workflow_result \<Rightarrow> workflow_run_outcome_summary" where
  "outcome_summary_from (ResultUpdateWiki created updated skipped _ _ _ _ _ _ _ _ _) =
     OutUpdateWiki created updated skipped"
| "outcome_summary_from (ResultHealthCheck _ _ _ errors warnings infos _ _) =
     OutHealthCheck errors warnings infos"
| "outcome_summary_from (ResultGenerateContent artifact _ paths cnt passed) =
     OutGenerateContent artifact (case cnt of None \<Rightarrow> length paths | Some n \<Rightarrow> n) passed"
| "outcome_summary_from (ResultAgentLintRepair outcome resolved unresolved introduced _ _ _ _ _ _ _ _
       warnings) =
     OutAgentLintRepair outcome (length resolved) (length unresolved) (length introduced)
       (warnings \<noteq> [])"

record 'x workflow_run_summary =
  su_schema_version :: nat
  su_revision :: string
  su_session_id :: string
  su_task_id :: string
  su_project_id :: string
  su_canonical_identity_key :: string
  su_identity_revision :: string
  su_kind :: workflow_kind
  su_operation :: "'x workflow_operation"
  su_display_status :: workflow_display_status
  su_queue_position :: "nat option"
  su_continuation_required :: bool
  su_current_stage_id :: "string option"
  su_current_stage :: "workflow_stage option"
  su_stages :: "workflow_stage list"
  su_cancellable :: bool
  su_retry :: "workflow_retry_link option"
  su_outcome :: "workflow_run_outcome_summary option"
  su_started_at :: string
  su_updated_at :: string
  su_completed_at :: "string option"

definition stage_summary :: "workflow_stage \<Rightarrow> workflow_stage" where
  "stage_summary st = \<lparr>st_id = st_id st, st_ordinal = st_ordinal st, st_status = st_status st,
     st_label_key = st_label_key st, st_started_at = st_started_at st,
     st_completed_at = st_completed_at st, st_current_item = st_current_item st,
     st_progress = st_progress st, st_decision = None\<rparr>"

definition current_stage_of :: "workflow_stage list \<Rightarrow> string option \<Rightarrow> workflow_stage option" where
  "current_stage_of stages current =
     map_option stage_summary (List.find (\<lambda>st. Some (st_id st) = current) stages)"

definition summary_of_run :: "'x workflow_run \<Rightarrow> 'x workflow_run_summary" where
  "summary_of_run r = \<lparr>su_schema_version = wr_schema_version r, su_revision = wr_revision r,
     su_session_id = wr_session_id r, su_task_id = wr_task_id r, su_project_id = wr_project_id r,
     su_canonical_identity_key = wr_canonical_identity_key r,
     su_identity_revision = wr_identity_revision r, su_kind = wr_kind r,
     su_operation = wr_operation r, su_display_status = wr_display_status r,
     su_queue_position = wr_queue_position r,
     su_continuation_required = wr_continuation_required r,
     su_current_stage_id = wr_current_stage_id r,
     su_current_stage = current_stage_of (wr_stages r) (wr_current_stage_id r),
     su_stages = map stage_summary (wr_stages r), su_cancellable = wr_cancellable r,
     su_retry = wr_retry r, su_outcome = map_option outcome_summary_from (wr_result r),
     su_started_at = wr_started_at r, su_updated_at = wr_updated_at r,
     su_completed_at = wr_completed_at r\<rparr>"

definition to_summary ::
  "'x workflow_execution_state \<Rightarrow> 'x backend_task \<Rightarrow> 'x workflow_run_summary option" where
  "to_summary w t = (case bt_project_id t of None \<Rightarrow> None | Some pid \<Rightarrow> Some
     \<lparr>su_schema_version = wf_schema_version w, su_revision = show_nat (wf_revision w),
      su_session_id = wf_session_id w, su_task_id = bt_id t, su_project_id = pid,
      su_canonical_identity_key = wf_canonical_identity_key w,
      su_identity_revision = wf_identity_revision w, su_kind = wf_kind w,
      su_operation = eo_operation (wf_execution_options w),
      su_display_status = display_status_from (bt_status t),
      su_queue_position = wf_queue_position w,
      su_continuation_required = wf_continuation_required w,
      su_current_stage_id = wf_current_stage_id w,
      su_current_stage = current_stage_of (wf_stages w) (wf_current_stage_id w),
      su_stages = map stage_summary (wf_stages w), su_cancellable = bt_cancellable t,
      su_retry = wf_retry w, su_outcome = map_option outcome_summary_from (wf_result w),
      su_started_at = bt_started_at t, su_updated_at = bt_updated_at t,
      su_completed_at = bt_completed_at t\<rparr>)"

section \<open>The index of one owner\<close>

type_synonym workflow_order = "string \<times> string"

record 'x workflow_owner_index =
  ox_summaries :: "string \<rightharpoonup> 'x workflow_run_summary"
  ox_recent :: "workflow_order set"
  ox_by_status :: "workflow_kind \<times> workflow_display_status \<rightharpoonup> workflow_order set"
  ox_by_kind :: "workflow_kind \<rightharpoonup> workflow_order set"
  ox_completed :: "workflow_kind \<rightharpoonup> workflow_order set"
  ox_queued :: "(nat \<times> string \<times> string) set"
  ox_health :: "workflow_order set"
  ox_artifacts :: "workflow_order set"

definition owner_default :: "'x workflow_owner_index" where
  "owner_default = \<lparr>ox_summaries = Map.empty, ox_recent = {}, ox_by_status = Map.empty,
     ox_by_kind = Map.empty, ox_completed = Map.empty, ox_queued = {}, ox_health = {},
     ox_artifacts = {}\<rparr>"

definition u32_max :: nat where "u32_max = 2 ^ 32 - 1"

definition set_update :: "bool \<Rightarrow> 'a \<Rightarrow> 'a set \<Rightarrow> 'a set" where
  "set_update ins v S = (if ins then insert v S else S - {v})"

definition or_default :: "'a set option \<Rightarrow> 'a set" where
  "or_default S = (case S of None \<Rightarrow> {} | Some T \<Rightarrow> T)"

definition entry_update ::
  "bool \<Rightarrow> 'k \<Rightarrow> 'a \<Rightarrow> ('k \<rightharpoonup> 'a set) \<Rightarrow> ('k \<rightharpoonup> 'a set)" where
  "entry_update ins k v m = m(k \<mapsto> set_update ins v (or_default (m k)))"

definition queue_key :: "'x workflow_run_summary \<Rightarrow> nat \<times> string \<times> string" where
  "queue_key r = (case su_queue_position r of None \<Rightarrow> u32_max | Some p \<Rightarrow> p,
     su_started_at r, su_task_id r)"

definition is_health :: "'x workflow_run_summary \<Rightarrow> bool" where
  "is_health r \<longleftrightarrow> su_kind r = HealthCheck \<and> (case su_operation r of BuiltIn \<Rightarrow> True | _ \<Rightarrow> False) \<and>
     (case su_outcome r of Some (OutHealthCheck _ _ _) \<Rightarrow> True | _ \<Rightarrow> False)"

definition is_artifact :: "'x workflow_run_summary \<Rightarrow> bool" where
  "is_artifact r \<longleftrightarrow> su_kind r = GenerateContent \<and>
     (case su_outcome r of Some (OutGenerateContent _ _ _) \<Rightarrow> True | _ \<Rightarrow> False)"

definition update_completed ::
  "'x workflow_run_summary \<Rightarrow> bool \<Rightarrow> 'x workflow_owner_index \<Rightarrow> 'x workflow_owner_index" where
  "update_completed r ins ox =
    (case su_completed_at r of
       None \<Rightarrow> ox
     | Some completed_at \<Rightarrow>
       (let order = (completed_at, su_task_id r);
            ox1 = ox\<lparr>ox_completed := entry_update ins (su_kind r) order (ox_completed ox)\<rparr>;
            ox2 = (if is_health r then ox1\<lparr>ox_health := set_update ins order (ox_health ox1)\<rparr> else ox1)
        in if is_artifact r then ox2\<lparr>ox_artifacts := set_update ins order (ox_artifacts ox2)\<rparr>
           else ox2))"

definition update_sets ::
  "'x workflow_run_summary \<Rightarrow> bool \<Rightarrow> 'x workflow_owner_index \<Rightarrow> 'x workflow_owner_index" where
  "update_sets r ins ox =
    (let recent = (su_updated_at r, su_task_id r);
         ox1 = ox\<lparr>ox_recent := set_update ins recent (ox_recent ox),
           ox_by_status := entry_update ins (su_kind r, su_display_status r) recent (ox_by_status ox),
           ox_by_kind := entry_update ins (su_kind r) (su_started_at r, su_task_id r) (ox_by_kind ox)\<rparr>;
         ox2 = (if su_display_status r = DisplayQueued
           then ox1\<lparr>ox_queued := set_update ins (queue_key r) (ox_queued ox1)\<rparr> else ox1)
     in if su_display_status r = DisplayCompleted then update_completed r ins ox2 else ox2)"

definition owner_remove :: "string \<Rightarrow> 'x workflow_owner_index \<Rightarrow> 'x workflow_owner_index" where
  "owner_remove i ox =
    (case ox_summaries ox i of
       None \<Rightarrow> ox
     | Some previous \<Rightarrow>
         update_sets previous False (ox\<lparr>ox_summaries := (ox_summaries ox)(i := None)\<rparr>))"

definition owner_insert ::
  "'x workflow_run_summary \<Rightarrow> 'x workflow_owner_index \<Rightarrow> 'x workflow_owner_index" where
  "owner_insert r ox =
    (let ox1 = update_sets r True (owner_remove (su_task_id r) ox)
     in ox1\<lparr>ox_summaries := (ox_summaries ox1)(su_task_id r \<mapsto> r)\<rparr>)"

section \<open>The snapshot of an owner\<close>

record workflow_health_context_summary =
  hc_task_id :: string
  hc_completed_at :: string
  hc_error_count :: nat
  hc_warning_count :: nat
  hc_info_count :: nat

record workflow_artifact_context_summary =
  ac_task_id :: string
  ac_completed_at :: string
  ac_artifact_type :: workflow_artifact_type

record 'x workflow_queue_context_item =
  qi_task_id :: string
  qi_kind :: workflow_kind
  qi_operation :: "'x workflow_operation"
  qi_queue_position :: "nat option"
  qi_started_at :: string

record 'x workflow_context_summary =
  cs_pending_source_count :: "nat option"
  cs_last_health :: "workflow_health_context_summary option"
  cs_recent_artifact :: "workflow_artifact_context_summary option"
  cs_queue_count :: nat
  cs_queued_runs :: "'x workflow_queue_context_item list"

record 'x workflow_owner_snapshot =
  ws_recent_runs :: "'x workflow_run_summary list"
  ws_attention :: "'x workflow_run_summary list"
  ws_completed :: "'x workflow_run_summary list"
  ws_context :: "'x workflow_context_summary"

definition head :: "'x workflow_owner_index \<Rightarrow> workflow_order set option \<Rightarrow> 'x workflow_run_summary option" where
  "head ox order = (case order of None \<Rightarrow> None
     | Some S \<Rightarrow> if S = {} then None else ox_summaries ox (snd (Max S)))"

definition all_kinds :: "workflow_kind list" where
  "all_kinds = [UpdateWiki, HealthCheck, GenerateContent]"

definition attention_statuses :: "workflow_display_status list" where
  "attention_statuses = [DisplayWaitingForConfirmation, DisplayRunning, DisplayQueued, DisplayFailed,
     DisplayInterrupted]"

definition superseded ::
  "'x workflow_run_summary option \<Rightarrow> 'x workflow_run_summary \<Rightarrow> bool" where
  "superseded latest r = (case latest of None \<Rightarrow> False
     | Some l \<Rightarrow> (su_started_at l, su_task_id l) > (su_started_at r, su_task_id r))"

text \<open>The inner loop: \<open>continue\<close> passes over a superseded failure, a pushed run ends it.\<close>

fun attention_for ::
  "'x workflow_owner_index \<Rightarrow> workflow_kind \<Rightarrow> workflow_display_status list \<Rightarrow>
   'x workflow_run_summary option" where
  "attention_for ox kind [] = None"
| "attention_for ox kind (status # rest) =
    (case head ox (ox_by_status ox (kind, status)) of
       None \<Rightarrow> attention_for ox kind rest
     | Some r \<Rightarrow>
         if status \<in> {DisplayFailed, DisplayInterrupted} \<and>
            superseded (head ox (ox_by_kind ox kind)) r
         then attention_for ox kind rest else Some r)"

definition last_health_of :: "'x workflow_owner_index \<Rightarrow> workflow_health_context_summary option" where
  "last_health_of ox = Option.bind (head ox (Some (ox_health ox))) (\<lambda>r.
     case su_outcome r of
       Some (OutHealthCheck errors warnings infos) \<Rightarrow> map_option (\<lambda>c.
         \<lparr>hc_task_id = su_task_id r, hc_completed_at = c, hc_error_count = errors,
          hc_warning_count = warnings, hc_info_count = infos\<rparr>) (su_completed_at r)
     | _ \<Rightarrow> None)"

definition recent_artifact_of :: "'x workflow_owner_index \<Rightarrow> workflow_artifact_context_summary option" where
  "recent_artifact_of ox = Option.bind (head ox (Some (ox_artifacts ox))) (\<lambda>r.
     case su_outcome r of
       Some (OutGenerateContent artifact _ _) \<Rightarrow> map_option (\<lambda>c.
         \<lparr>ac_task_id = su_task_id r, ac_completed_at = c, ac_artifact_type = artifact\<rparr>)
         (su_completed_at r)
     | _ \<Rightarrow> None)"

definition queue_item :: "'x workflow_run_summary \<Rightarrow> 'x workflow_queue_context_item" where
  "queue_item r = \<lparr>qi_task_id = su_task_id r, qi_kind = su_kind r, qi_operation = su_operation r,
     qi_queue_position = su_queue_position r, qi_started_at = su_started_at r\<rparr>"

definition snapshot :: "'x workflow_owner_index \<Rightarrow> 'x workflow_owner_snapshot" where
  "snapshot ox = \<lparr>
     ws_recent_runs = List.map_filter (\<lambda>(_, i). ox_summaries ox i)
       (take 5 (rev (sorted_list_of_set (ox_recent ox)))),
     ws_attention = List.map_filter (\<lambda>kind. attention_for ox kind attention_statuses) all_kinds,
     ws_completed = List.map_filter (\<lambda>kind. head ox (ox_completed ox kind)) all_kinds,
     ws_context = \<lparr>cs_pending_source_count = None, cs_last_health = last_health_of ox,
       cs_recent_artifact = recent_artifact_of ox, cs_queue_count = card (ox_queued ox),
       cs_queued_runs = List.map_filter (\<lambda>(_, _, i). map_option queue_item (ox_summaries ox i))
         (take 5 (sorted_list_of_set (ox_queued ox)))\<rparr>\<rparr>"

section \<open>The index over all owners\<close>

type_synonym workflow_owner_key = "string \<times> string"

record 'x workflow_summary_index =
  si_owners :: "workflow_owner_key \<rightharpoonup> 'x workflow_owner_index"
  si_task_owners :: "string \<rightharpoonup> workflow_owner_key"

definition index_default :: "'x workflow_summary_index" where
  "index_default = \<lparr>si_owners = Map.empty, si_task_owners = Map.empty\<rparr>"

definition index_remove :: "string \<Rightarrow> 'x workflow_summary_index \<Rightarrow> 'x workflow_summary_index" where
  "index_remove i ix =
    (case si_task_owners ix i of
       None \<Rightarrow> ix
     | Some key \<Rightarrow>
       (let ix1 = ix\<lparr>si_task_owners := (si_task_owners ix)(i := None)\<rparr> in
        case si_owners ix1 key of
          None \<Rightarrow> ix1
        | Some ox \<Rightarrow>
          (let ox1 = owner_remove i ox in
           if ox_summaries ox1 = Map.empty then ix1\<lparr>si_owners := (si_owners ix1)(key := None)\<rparr>
           else ix1\<lparr>si_owners := (si_owners ix1)(key \<mapsto> ox1)\<rparr>)))"

definition owner_key_of :: "'x workflow_run_summary \<Rightarrow> workflow_owner_key" where
  "owner_key_of r = (su_canonical_identity_key r, su_identity_revision r)"

definition index_insert ::
  "'x workflow_run_summary \<Rightarrow> 'x workflow_summary_index \<Rightarrow> 'x workflow_summary_index" where
  "index_insert r ix =
    (let ix1 = index_remove (su_task_id r) ix; key = owner_key_of r;
         ox = (case si_owners ix1 key of None \<Rightarrow> owner_default | Some ox \<Rightarrow> ox)
     in \<lparr>si_owners = (si_owners ix1)(key \<mapsto> owner_insert r ox),
         si_task_owners = (si_task_owners ix1)(su_task_id r \<mapsto> key)\<rparr>)"

section \<open>The index as a derived view\<close>

text \<open>
  Each set of an owner index collects one facet of the summaries. A facet gives at most one
  element per summary, and the element carries the task id, so the facets of different runs
  are disjoint: inserting and removing one run's facet keeps the set equal to the union.
\<close>

definition facet_union :: "('s \<Rightarrow> 'a set) \<Rightarrow> (string \<rightharpoonup> 's) \<Rightarrow> 'a set" where
  "facet_union F m = (\<Union>r \<in> ran m. F r)"

definition keyed :: "(string \<rightharpoonup> 'x workflow_run_summary) \<Rightarrow> bool" where
  "keyed m \<longleftrightarrow> (\<forall>i r. m i = Some r \<longrightarrow> su_task_id r = i)"

definition recent_facet :: "'x workflow_run_summary \<Rightarrow> workflow_order set" where
  "recent_facet r = {(su_updated_at r, su_task_id r)}"

definition status_facet ::
  "workflow_kind \<times> workflow_display_status \<Rightarrow> 'x workflow_run_summary \<Rightarrow> workflow_order set" where
  "status_facet k r = (if (su_kind r, su_display_status r) = k then recent_facet r else {})"

definition kind_facet :: "workflow_kind \<Rightarrow> 'x workflow_run_summary \<Rightarrow> workflow_order set" where
  "kind_facet k r = (if su_kind r = k then {(su_started_at r, su_task_id r)} else {})"

definition done_facet :: "'x workflow_run_summary \<Rightarrow> workflow_order set" where
  "done_facet r = (if su_display_status r = DisplayCompleted
     then (case su_completed_at r of None \<Rightarrow> {} | Some c \<Rightarrow> {(c, su_task_id r)}) else {})"

definition completed_facet :: "workflow_kind \<Rightarrow> 'x workflow_run_summary \<Rightarrow> workflow_order set" where
  "completed_facet k r = (if su_kind r = k then done_facet r else {})"

definition queued_facet :: "'x workflow_run_summary \<Rightarrow> (nat \<times> string \<times> string) set" where
  "queued_facet r = (if su_display_status r = DisplayQueued then {queue_key r} else {})"

definition health_facet :: "'x workflow_run_summary \<Rightarrow> workflow_order set" where
  "health_facet r = (if is_health r then done_facet r else {})"

definition artifact_facet :: "'x workflow_run_summary \<Rightarrow> workflow_order set" where
  "artifact_facet r = (if is_artifact r then done_facet r else {})"

lemmas facet_defs = recent_facet_def status_facet_def kind_facet_def done_facet_def
  completed_facet_def queued_facet_def health_facet_def artifact_facet_def queue_key_def

definition owner_ok :: "'x workflow_owner_index \<Rightarrow> bool" where
  "owner_ok ox \<longleftrightarrow> keyed (ox_summaries ox) \<and> finite (dom (ox_summaries ox)) \<and>
     ox_recent ox = facet_union recent_facet (ox_summaries ox) \<and>
     (\<forall>k. or_default (ox_by_status ox k) = facet_union (status_facet k) (ox_summaries ox)) \<and>
     (\<forall>k. or_default (ox_by_kind ox k) = facet_union (kind_facet k) (ox_summaries ox)) \<and>
     (\<forall>k. or_default (ox_completed ox k) = facet_union (completed_facet k) (ox_summaries ox)) \<and>
     ox_queued ox = facet_union queued_facet (ox_summaries ox) \<and>
     ox_health ox = facet_union health_facet (ox_summaries ox) \<and>
     ox_artifacts ox = facet_union artifact_facet (ox_summaries ox)"

lemma facet_union_empty [simp]: "facet_union F Map.empty = {}"
  by (simp add: facet_union_def)

lemma facet_union_insert:
  "m i = None \<Longrightarrow> facet_union F (m(i \<mapsto> r)) = F r \<union> facet_union F m"
  by (simp add: facet_union_def ran_map_upd)

lemma facet_union_remove:
  assumes "keyed m" and "m i = Some r"
    and "\<And>r x. x \<in> F r \<Longrightarrow> tag x = su_task_id r"
  shows "facet_union F (m(i := None)) = facet_union F m - F r"
proof -
  have "F r \<inter> F r' = {}" if "m j = Some r'" "j \<noteq> i" for j r'
  proof -
    have "su_task_id r' \<noteq> su_task_id r" using assms(1,2) that by (auto simp: keyed_def)
    then show ?thesis using assms(3) by (metis disjoint_iff)
  qed
  then have "x \<notin> F r" if "m j = Some r'" "j \<noteq> i" "x \<in> F r'" for j r' x
    using that by blast
  then show ?thesis
    using assms(2) unfolding facet_union_def ran_def
    by (intro set_eqI iffI) (auto split: if_splits, metis option.inject)
qed

text \<open>What one call of \<open>update_sets\<close> does to each set, in terms of the facets.\<close>

definition apply_facet :: "bool \<Rightarrow> 'a set \<Rightarrow> 'a set \<Rightarrow> 'a set" where
  "apply_facet ins X S = (if ins then X \<union> S else S - X)"

lemma apply_facet_empty [simp]: "apply_facet ins {} S = S"
  by (simp add: apply_facet_def)

lemma set_update_facet: "set_update ins v S = apply_facet ins {v} S"
  by (simp add: set_update_def apply_facet_def)

lemma entry_update_facet:
  "or_default (entry_update ins k v m k') = apply_facet ins (if k' = k then {v} else {}) (or_default (m k'))"
  by (simp add: entry_update_def set_update_facet or_default_def)

lemma update_sets_facets:
  "ox_summaries (update_sets r ins ox) = ox_summaries ox"
  "ox_recent (update_sets r ins ox) = apply_facet ins (recent_facet r) (ox_recent ox)"
  "or_default (ox_by_status (update_sets r ins ox) k) =
     apply_facet ins (status_facet k r) (or_default (ox_by_status ox k))"
  "or_default (ox_by_kind (update_sets r ins ox) k') =
     apply_facet ins (kind_facet k' r) (or_default (ox_by_kind ox k'))"
  "or_default (ox_completed (update_sets r ins ox) k') =
     apply_facet ins (completed_facet k' r) (or_default (ox_completed ox k'))"
  "ox_queued (update_sets r ins ox) = apply_facet ins (queued_facet r) (ox_queued ox)"
  "ox_health (update_sets r ins ox) = apply_facet ins (health_facet r) (ox_health ox)"
  "ox_artifacts (update_sets r ins ox) = apply_facet ins (artifact_facet r) (ox_artifacts ox)"
  by (auto simp: update_sets_def update_completed_def Let_def set_update_facet entry_update_facet
      facet_defs split: option.splits)

lemma facets_tagged:
  "x \<in> recent_facet r \<Longrightarrow> snd x = su_task_id r"
  "x \<in> status_facet k r \<Longrightarrow> snd x = su_task_id r"
  "x \<in> kind_facet k' r \<Longrightarrow> snd x = su_task_id r"
  "x \<in> completed_facet k' r \<Longrightarrow> snd x = su_task_id r"
  "y \<in> queued_facet r \<Longrightarrow> (snd \<circ> snd) y = su_task_id r"
  "x \<in> health_facet r \<Longrightarrow> snd x = su_task_id r"
  "x \<in> artifact_facet r \<Longrightarrow> snd x = su_task_id r"
  by (auto simp: facet_defs split: if_splits option.splits)

lemma facets_removed:
  assumes "keyed m" and "m i = Some r"
  shows "facet_union recent_facet (m(i := None)) = facet_union recent_facet m - recent_facet r"
    and "facet_union (status_facet k) (m(i := None)) = facet_union (status_facet k) m - status_facet k r"
    and "facet_union (kind_facet k') (m(i := None)) = facet_union (kind_facet k') m - kind_facet k' r"
    and "facet_union (completed_facet k') (m(i := None)) =
      facet_union (completed_facet k') m - completed_facet k' r"
    and "facet_union queued_facet (m(i := None)) = facet_union queued_facet m - queued_facet r"
    and "facet_union health_facet (m(i := None)) = facet_union health_facet m - health_facet r"
    and "facet_union artifact_facet (m(i := None)) = facet_union artifact_facet m - artifact_facet r"
  by (rule facet_union_remove [OF assms], erule facets_tagged)+

lemma owner_default_ok: "owner_ok owner_default"
  by (simp add: owner_ok_def owner_default_def keyed_def or_default_def)

lemma owner_remove_ok:
  assumes "owner_ok ox"
  shows "owner_ok (owner_remove i ox)"
    and "ox_summaries (owner_remove i ox) = (ox_summaries ox)(i := None)"
proof -
  have "owner_ok (owner_remove i ox) \<and>
      ox_summaries (owner_remove i ox) = (ox_summaries ox)(i := None)"
  proof (cases "ox_summaries ox i")
    case None
    then have "(ox_summaries ox)(i := None) = ox_summaries ox" by (simp add: fun_upd_idem)
    with None assms show ?thesis by (simp add: owner_remove_def)
  next
    case (Some r)
    have k: "keyed (ox_summaries ox)" using assms by (simp add: owner_ok_def)
    show ?thesis
      using assms k by (auto simp: owner_remove_def Some owner_ok_def update_sets_facets
          apply_facet_def facets_removed [OF k Some] keyed_def split: if_splits)
  qed
  then show "owner_ok (owner_remove i ox)"
    and "ox_summaries (owner_remove i ox) = (ox_summaries ox)(i := None)" by simp_all
qed

lemma owner_insert_ok:
  assumes "owner_ok ox"
  shows "owner_ok (owner_insert r ox)"
    and "ox_summaries (owner_insert r ox) = (ox_summaries ox)(su_task_id r \<mapsto> r)"
proof -
  let ?ox = "owner_remove (su_task_id r) ox"
  note rm = owner_remove_ok [OF assms, of "su_task_id r"]
  have n: "ox_summaries ?ox (su_task_id r) = None" by (simp add: rm(2))
  show s: "ox_summaries (owner_insert r ox) = (ox_summaries ox)(su_task_id r \<mapsto> r)"
    by (simp add: owner_insert_def Let_def update_sets_facets rm(2))
  show "owner_ok (owner_insert r ox)"
    using rm(1) n by (auto simp: owner_insert_def Let_def owner_ok_def update_sets_facets
        apply_facet_def facet_union_insert keyed_def split: if_splits)
qed

section \<open>The interface of the index\<close>

text \<open>
  What the task service relies on: the index behaves as a map from task ids to the summaries
  last published, and its representation invariant survives every update.
\<close>

locale summary_store =
  fixes view :: "'i \<Rightarrow> string \<rightharpoonup> 'r" and add :: "'r \<Rightarrow> 'i \<Rightarrow> 'i" and del :: "string \<Rightarrow> 'i \<Rightarrow> 'i"
    and name :: "'r \<Rightarrow> string" and ok :: "'i \<Rightarrow> bool" and new :: 'i
  assumes new_ok: "ok new" and view_new: "view new = Map.empty"
    and add_ok: "ok ix \<Longrightarrow> ok (add r ix)" and view_add: "ok ix \<Longrightarrow> view (add r ix) = (view ix)(name r \<mapsto> r)"
    and del_ok: "ok ix \<Longrightarrow> ok (del i ix)" and view_del: "ok ix \<Longrightarrow> view (del i ix) = (view ix)(i := None)"
begin

definition publish_all :: "'r list \<Rightarrow> 'i \<Rightarrow> 'i" where
  "publish_all rs ix = foldl (\<lambda>ix r. add r ix) ix rs"

lemma publish_all_ok: "ok ix \<Longrightarrow> ok (publish_all rs ix)"
  by (induction rs arbitrary: ix) (auto simp: publish_all_def add_ok)

lemma view_publish_all: "ok ix \<Longrightarrow> view (publish_all rs ix) = (view ix)(map name rs [\<mapsto>] rs)"
proof (induction rs arbitrary: ix)
  case (Cons r rs)
  then show ?case using Cons.IH [OF add_ok [OF Cons.prems]] view_add [OF Cons.prems]
    by (simp add: publish_all_def fun_upd_def)
qed (simp add: publish_all_def)

end

definition index_view :: "'x workflow_summary_index \<Rightarrow> string \<rightharpoonup> 'x workflow_run_summary" where
  "index_view ix i = Option.bind (si_task_owners ix i) (\<lambda>key.
     Option.bind (si_owners ix key) (\<lambda>ox. ox_summaries ox i))"

definition index_ok :: "'x workflow_summary_index \<Rightarrow> bool" where
  "index_ok ix \<longleftrightarrow>
     (\<forall>key ox. si_owners ix key = Some ox \<longrightarrow> owner_ok ox \<and> ox_summaries ox \<noteq> Map.empty \<and>
        (\<forall>i r. ox_summaries ox i = Some r \<longrightarrow> owner_key_of r = key \<and> si_task_owners ix i = Some key)) \<and>
     (\<forall>i key. si_task_owners ix i = Some key \<longrightarrow>
        (\<exists>ox r. si_owners ix key = Some ox \<and> ox_summaries ox i = Some r))"

lemma index_default_ok: "index_ok index_default" "index_view index_default = Map.empty"
  by (auto simp: index_ok_def index_default_def index_view_def fun_eq_iff)

lemma index_owner_ok:
  assumes "index_ok ix" and "si_owners ix key = Some ox"
  shows "owner_ok ox" and "ox_summaries ox \<noteq> Map.empty"
    and "ox_summaries ox i = Some r \<Longrightarrow> owner_key_of r = key \<and> si_task_owners ix i = Some key"
  using assms unfolding index_ok_def by blast+

lemma index_task_owner:
  assumes "index_ok ix" and "si_task_owners ix i = Some key"
  obtains ox r where "si_owners ix key = Some ox" "ox_summaries ox i = Some r"
  using assms unfolding index_ok_def by blast

lemma index_okI:
  assumes "\<And>key ox. si_owners ix key = Some ox \<Longrightarrow> owner_ok ox \<and> ox_summaries ox \<noteq> Map.empty"
    and "\<And>key ox i r. si_owners ix key = Some ox \<Longrightarrow> ox_summaries ox i = Some r \<Longrightarrow>
      owner_key_of r = key \<and> si_task_owners ix i = Some key"
    and "\<And>i key. si_task_owners ix i = Some key \<Longrightarrow>
      \<exists>ox r. si_owners ix key = Some ox \<and> ox_summaries ox i = Some r"
  shows "index_ok ix"
  unfolding index_ok_def using assms by blast

lemma index_remove_none:
  assumes "si_task_owners ix i = None"
  shows "index_remove i ix = ix"
  using assms by (simp add: index_remove_def)

lemma index_remove_owner:
  assumes "index_ok ix" and "si_task_owners ix i = Some key" and "si_owners ix key = Some ox"
  shows "si_task_owners (index_remove i ix) = (si_task_owners ix)(i := None)"
    and "si_owners (index_remove i ix) = (si_owners ix)(key :=
      if (ox_summaries ox)(i := None) = Map.empty then None else Some (owner_remove i ox))"
  using assms owner_remove_ok(2) [OF index_owner_ok(1) [OF assms(1,3)], of i]
  by (simp_all add: index_remove_def Let_def)

lemma index_remove_ok:
  assumes "index_ok ix"
  shows "index_ok (index_remove i ix)" and "index_view (index_remove i ix) = (index_view ix)(i := None)"
    and "si_task_owners (index_remove i ix) i = None"
proof -
  have "index_ok (index_remove i ix) \<and> index_view (index_remove i ix) = (index_view ix)(i := None) \<and>
      si_task_owners (index_remove i ix) i = None"
  proof (cases "si_task_owners ix i")
    case None
    then have "(index_view ix)(i := None) = index_view ix" by (auto simp: fun_eq_iff index_view_def)
    with None assms show ?thesis by (simp add: index_remove_none)
  next
    case (Some key)
    then obtain ox r where ox: "si_owners ix key = Some ox" "ox_summaries ox i = Some r"
      using index_task_owner [OF assms] by blast
    note own = index_owner_ok [OF assms ox(1)]
    note rm = owner_remove_ok [OF own(1), of i]
    note new = index_remove_owner [OF assms Some ox(1)]
    have v: "index_view (index_remove i ix) j = ((index_view ix)(i := None)) j" for j
    proof (cases "si_task_owners ix j = Some key \<and> j \<noteq> i")
      case True
      then obtain ox' r' where "si_owners ix key = Some ox'" "ox_summaries ox' j = Some r'"
        using index_task_owner [OF assms] by blast
      with ox(1) True have "(ox_summaries ox)(i := None) \<noteq> Map.empty"
        by (auto simp: fun_eq_iff)
      then show ?thesis using True ox(1) by (simp add: index_view_def new rm(2))
    next
      case False
      then show ?thesis by (cases "si_task_owners ix j") (auto simp: index_view_def new)
    qed
    have "index_ok (index_remove i ix)"
    proof (rule index_okI, goal_cases)
      case (1 key' ox')
      then show ?case using rm own(1) index_owner_ok(1,2) [OF assms]
        by (auto simp: new split: if_splits)
    next
      case (2 key' ox' j r')
      then show ?case
      proof (cases "key' = key")
        case True
        with 2 own(3) show ?thesis by (auto simp: new rm(2) split: if_splits)
      next
        case False
        with 2 index_owner_ok(3) [OF assms, of key' ox' j r'] Some show ?thesis
          by (auto simp: new)
      qed
    next
      case (3 j key')
      then have j: "j \<noteq> i" "si_task_owners ix j = Some key'" by (auto simp: new split: if_splits)
      then obtain ox' r' where j': "si_owners ix key' = Some ox'" "ox_summaries ox' j = Some r'"
        using index_task_owner [OF assms] by blast
      show ?case
      proof (cases "key' = key")
        case True
        with j j' ox(1) have "(ox_summaries ox)(i := None) \<noteq> Map.empty" "ox' = ox"
          by (auto simp: fun_eq_iff)
        with True j j' show ?thesis by (simp add: new rm(2))
      qed (use j' in \<open>simp add: new\<close>)
    qed
    with v show ?thesis by (auto simp: new)
  qed
  then show "index_ok (index_remove i ix)" and "index_view (index_remove i ix) = (index_view ix)(i := None)"
    and "si_task_owners (index_remove i ix) i = None" by simp_all
qed

lemma index_insert_ok:
  assumes "index_ok ix"
  shows "index_ok (index_insert r ix)"
    and "index_view (index_insert r ix) = (index_view ix)(su_task_id r \<mapsto> r)"
proof -
  let ?i = "su_task_id r" and ?key = "owner_key_of r"
  define ix1 where "ix1 = index_remove ?i ix"
  define ox where "ox = (case si_owners ix1 ?key of None \<Rightarrow> owner_default | Some ox \<Rightarrow> ox)"
  have ok1: "index_ok ix1" and none: "si_task_owners ix1 ?i = None"
    and view1: "index_view ix1 = (index_view ix)(?i := None)"
    using index_remove_ok [OF assms] by (simp_all add: ix1_def)
  have o: "owner_ok ox"
    using index_owner_ok(1) [OF ok1] owner_default_ok by (auto simp: ox_def split: option.splits)
  note ins = owner_insert_ok [OF o, of r]
  have new: "si_owners (index_insert r ix) = (si_owners ix1)(?key \<mapsto> owner_insert r ox)"
      "si_task_owners (index_insert r ix) = (si_task_owners ix1)(?i \<mapsto> ?key)"
    by (simp_all add: index_insert_def Let_def ix1_def ox_def)
  have inox: "si_owners ix1 ?key = Some ox \<and> si_task_owners ix1 j = Some ?key \<and> owner_key_of r' = ?key"
    if "ox_summaries ox j = Some r'" for j r'
    using that index_owner_ok(3) [OF ok1]
    by (auto simp: ox_def owner_default_def split: option.splits)
  have "index_view (index_insert r ix) j = ((index_view ix1)(?i \<mapsto> r)) j" for j
  proof (cases "si_task_owners ix1 j = Some ?key")
    case True
    then obtain r' where "si_owners ix1 ?key = Some ox"
      using index_task_owner [OF ok1] by (metis option.simps(5) ox_def)
    with True show ?thesis using none by (auto simp: index_view_def new ins(2))
  next
    case False
    then show ?thesis by (cases "si_task_owners ix1 j") (auto simp: index_view_def new ins(2))
  qed
  then show "index_view (index_insert r ix) = (index_view ix)(?i \<mapsto> r)"
    by (simp add: fun_eq_iff view1)
  show "index_ok (index_insert r ix)"
  proof (rule index_okI, goal_cases)
    case (1 key' ox')
    then show ?case using ins index_owner_ok(1,2) [OF ok1]
      by (auto simp: new split: if_splits)
  next
    case (2 key' ox' j r')
    show ?case
    proof (cases "key' = ?key")
      case True
      with 2(1) have "ox' = owner_insert r ox" by (simp add: new)
      with 2(2) have "((ox_summaries ox)(?i \<mapsto> r)) j = Some r'" by (simp only: ins(2))
      with True inox show ?thesis by (auto simp: new split: if_splits)
    next
      case False
      with 2 have "si_owners ix1 key' = Some ox'" by (simp add: new)
      from index_owner_ok(3) [OF ok1 this 2(2)] none show ?thesis by (auto simp: new)
    qed
  next
    case (3 j key')
    show ?case
    proof (cases "j = ?i")
      case True
      with 3 show ?thesis by (auto simp: new ins(2))
    next
      case False
      with 3 have "si_task_owners ix1 j = Some key'" by (simp add: new)
      then obtain ox' r' where "si_owners ix1 key' = Some ox'" "ox_summaries ox' j = Some r'"
        using index_task_owner [OF ok1] by blast
      moreover from this have "ox' = ox" if "key' = ?key" using that by (simp add: ox_def)
      ultimately show ?thesis using False by (cases "key' = ?key") (auto simp: new ins(2))
    qed
  qed
qed

interpretation summaries: summary_store index_view index_insert index_remove su_task_id index_ok
  index_default
  by unfold_locales (simp_all add: index_default_ok index_insert_ok index_remove_ok)

section \<open>Reading the snapshot\<close>

lemma ran_keyed: "keyed m \<Longrightarrow> r \<in> ran m \<longleftrightarrow> m (su_task_id r) = Some r"
  by (auto simp: keyed_def ran_def)

lemma finite_facet_union:
  assumes "finite (dom m)" and "\<And>r. finite (F r)"
  shows "finite (facet_union F m)"
  using assms by (simp add: facet_union_def finite_ran)

lemma finite_facets [simp]:
  "finite (recent_facet r)" "finite (status_facet k r)" "finite (kind_facet k' r)"
  "finite (completed_facet k' r)" "finite (queued_facet r)" "finite (health_facet r)"
  "finite (artifact_facet r)"
  by (auto simp: facet_defs split: option.splits)

lemma head_Max:
  assumes "owner_ok ox" and "or_default S = facet_union F (ox_summaries ox)"
    and "\<forall>r. \<forall>x \<in> F r. snd x = su_task_id r" and "\<forall>r. finite (F r)"
  shows "head ox S = None \<Longrightarrow> r \<in> ran (ox_summaries ox) \<Longrightarrow> F r = {}"
    and "head ox S = Some r \<Longrightarrow> r \<in> ran (ox_summaries ox) \<and> Max (facet_union F (ox_summaries ox)) \<in> F r"
proof -
  let ?U = "facet_union F (ox_summaries ox)"
  have k: "keyed (ox_summaries ox)" and fin: "finite (dom (ox_summaries ox))"
    using assms(1) by (simp_all add: owner_ok_def)
  have finU: "finite ?U" using finite_facet_union [OF fin] assms(4) by blast
  have h: "head ox S = (if ?U = {} then None else ox_summaries ox (snd (Max ?U)))"
    using assms(2) by (cases S) (simp_all add: head_def or_default_def)
  have mx: "\<exists>r. r \<in> ran (ox_summaries ox) \<and> Max ?U \<in> F r \<and> ox_summaries ox (snd (Max ?U)) = Some r"
    if "?U \<noteq> {}"
  proof -
    from Max_in [OF finU that] obtain r where r: "r \<in> ran (ox_summaries ox)" "Max ?U \<in> F r"
      by (auto simp: facet_union_def)
    then have "ox_summaries ox (snd (Max ?U)) = Some r"
      using ran_keyed [OF k] assms(3) by metis
    with r show ?thesis by blast
  qed
  show "F r = {}" if "head ox S = None" "r \<in> ran (ox_summaries ox)"
    using h mx that by (auto simp: facet_union_def split: if_splits)
  show "r \<in> ran (ox_summaries ox) \<and> Max ?U \<in> F r" if "head ox S = Some r"
    using h mx that by (auto split: if_splits)
qed

lemma head_status:
  assumes "owner_ok ox"
  shows "head ox (ox_by_status ox (k, st)) = None \<Longrightarrow> r \<in> ran (ox_summaries ox) \<Longrightarrow> su_kind r = k \<Longrightarrow>
      su_display_status r \<noteq> st"
    and "head ox (ox_by_status ox (k, st)) = Some r \<Longrightarrow>
      r \<in> ran (ox_summaries ox) \<and> su_kind r = k \<and> su_display_status r = st"
proof -
  have s: "or_default (ox_by_status ox (k, st)) = facet_union (status_facet (k, st)) (ox_summaries ox)"
    using assms by (simp add: owner_ok_def)
  have "\<forall>r. \<forall>x \<in> status_facet (k, st) r. snd x = su_task_id r" "\<forall>r. finite (status_facet (k, st) r)"
    by (auto dest: facets_tagged(2))
  note hm = head_Max [OF assms s this]
  show "su_display_status r \<noteq> st"
    if "head ox (ox_by_status ox (k, st)) = None" "r \<in> ran (ox_summaries ox)" "su_kind r = k"
    using hm(1) [OF that(1,2)] that(3) by (auto simp: status_facet_def recent_facet_def)
  show "r \<in> ran (ox_summaries ox) \<and> su_kind r = k \<and> su_display_status r = st"
    if "head ox (ox_by_status ox (k, st)) = Some r"
    using hm(2) [OF that] by (auto simp: status_facet_def split: if_splits)
qed

lemma head_kind_latest:
  assumes "owner_ok ox" and "r \<in> ran (ox_summaries ox)" and "su_kind r = k"
  shows "\<exists>l. head ox (ox_by_kind ox k) = Some l \<and>
    (su_started_at r, su_task_id r) \<le> (su_started_at l, su_task_id l)"
proof -
  have s: "or_default (ox_by_kind ox k) = facet_union (kind_facet k) (ox_summaries ox)"
    using assms(1) by (simp add: owner_ok_def)
  have "\<forall>r. \<forall>x \<in> kind_facet k r. snd x = su_task_id r" "\<forall>r. finite (kind_facet k r)"
    by (auto dest: facets_tagged(3))
  note hm = head_Max [OF assms(1) s this]
  have mem: "(su_started_at r, su_task_id r) \<in> facet_union (kind_facet k) (ox_summaries ox)"
    using assms(2,3) by (auto simp: facet_union_def kind_facet_def)
  have fin: "finite (facet_union (kind_facet k) (ox_summaries ox))"
    using assms(1) by (simp add: finite_facet_union owner_ok_def)
  show ?thesis
  proof (cases "head ox (ox_by_kind ox k)")
    case None
    from hm(1) [OF this assms(2)] assms(3) show ?thesis by (simp add: kind_facet_def)
  next
    case (Some l)
    have "x = (su_started_at l, su_task_id l)" if "x \<in> kind_facet k l" for x
      using that by (auto simp: kind_facet_def split: if_splits)
    with hm(2) [OF Some]
    have "Max (facet_union (kind_facet k) (ox_summaries ox)) = (su_started_at l, su_task_id l)" by blast
    with Max_ge [OF fin mem] Some show ?thesis by auto
  qed
qed

lemma not_superseded_latest:
  assumes "owner_ok ox" and "\<not> superseded (head ox (ox_by_kind ox k)) r"
    and "r' \<in> ran (ox_summaries ox)" and "su_kind r' = k"
  shows "(su_started_at r', su_task_id r') \<le> (su_started_at r, su_task_id r)"
proof -
  obtain l where "head ox (ox_by_kind ox k) = Some l"
    and "(su_started_at r', su_task_id r') \<le> (su_started_at l, su_task_id l)"
    using head_kind_latest [OF assms(1,3,4)] by blast
  with assms(2) show ?thesis unfolding superseded_def by (auto simp: not_less intro: order_trans)
qed

lemma attention_for_sound:
  assumes "owner_ok ox" and "attention_for ox k sts = Some r"
  shows "r \<in> ran (ox_summaries ox) \<and> su_kind r = k \<and> su_display_status r \<in> set sts \<and>
    (su_display_status r \<in> {DisplayFailed, DisplayInterrupted} \<longrightarrow>
      (\<forall>r' \<in> ran (ox_summaries ox). su_kind r' = k \<longrightarrow>
        (su_started_at r', su_task_id r') \<le> (su_started_at r, su_task_id r)))"
  using assms(2)
proof (induction sts)
  case (Cons st rest)
  show ?case
  proof (cases "attention_for ox k rest = Some r")
    case True
    with Cons.IH show ?thesis by simp
  next
    case False
    with Cons.prems have h: "head ox (ox_by_status ox (k, st)) = Some r"
      and n: "\<not> (st \<in> {DisplayFailed, DisplayInterrupted} \<and>
        superseded (head ox (ox_by_kind ox k)) r)"
      by (auto split: option.splits if_splits)
    from head_status(2) [OF assms(1) h] n show ?thesis
      using not_superseded_latest [OF assms(1)] by (metis list.set_intros(1))
  qed
qed simp

lemma attention_for_complete:
  assumes "owner_ok ox" and "r \<in> ran (ox_summaries ox)" and "su_kind r = k"
    and "su_display_status r = st" and "st \<notin> {DisplayFailed, DisplayInterrupted}"
  shows "\<exists>r'. attention_for ox k (before @ st # after) = Some r' \<and>
    su_display_status r' \<in> set (before @ [st])"
proof (induction before)
  case Nil
  then show ?case
    using head_status [OF assms(1), of k st] assms by (cases "head ox (ox_by_status ox (k, st))") auto
next
  case (Cons a before)
  then show ?case
    using head_status(2) [OF assms(1), of k a] by (auto split: option.splits)
qed

lemma map_filter_Some:
  assumes "\<And>p. p \<in> set ps \<Longrightarrow> f p = Some (g p)"
  shows "List.map_filter f ps = map g ps"
  using assms by (induction ps) (simp_all add: List.map_filter_def)

lemma map_filter_keys:
  assumes "\<And>p. p \<in> set ps \<Longrightarrow> \<exists>r. f p = Some r \<and> key r = p"
  shows "map key (List.map_filter f ps) = ps"
proof -
  have "List.map_filter f ps = map (\<lambda>p. the (f p)) ps"
    using assms by (intro map_filter_Some) force
  moreover have "map key (map (\<lambda>p. the (f p)) ps) = ps"
    using assms by (induction ps) force+
  ultimately show ?thesis by simp
qed

lemma recent_runs_exact:
  assumes "owner_ok ox"
  shows "map (\<lambda>r. (su_updated_at r, su_task_id r)) (ws_recent_runs (snapshot ox)) =
    take 5 (rev (sorted_list_of_set ((\<lambda>r. (su_updated_at r, su_task_id r)) ` ran (ox_summaries ox))))"
proof -
  let ?S = "(\<lambda>r. (su_updated_at r, su_task_id r)) ` ran (ox_summaries ox)"
  have k: "keyed (ox_summaries ox)" and fin: "finite (dom (ox_summaries ox))"
    and r: "ox_recent ox = ?S"
    using assms by (auto simp: owner_ok_def facet_union_def recent_facet_def)
  have "set (take 5 (rev (sorted_list_of_set ?S))) \<subseteq> ?S"
    using set_take_subset [of 5 "rev (sorted_list_of_set ?S)"] finite_ran [OF fin] by simp
  then have "\<exists>r. (case p of (_, i) \<Rightarrow> ox_summaries ox i) = Some r \<and> (su_updated_at r, su_task_id r) = p"
    if "p \<in> set (take 5 (rev (sorted_list_of_set ?S)))" for p
    using that ran_keyed [OF k] by fastforce
  then show ?thesis by (simp add: snapshot_def r map_filter_keys)
qed

lemma queued_facets:
  assumes "owner_ok ox"
  shows "ox_queued ox = queue_key ` {r \<in> ran (ox_summaries ox). su_display_status r = DisplayQueued}"
  using assms by (auto simp: owner_ok_def facet_union_def queued_facet_def split: if_splits)

lemma queue_count_exact:
  assumes "owner_ok ox"
  shows "cs_queue_count (ws_context (snapshot ox)) =
    card {r \<in> ran (ox_summaries ox). su_display_status r = DisplayQueued}"
proof -
  have k: "keyed (ox_summaries ox)" using assms by (simp add: owner_ok_def)
  have "r = r'" if "r \<in> ran (ox_summaries ox)" "r' \<in> ran (ox_summaries ox)" "queue_key r = queue_key r'" for r r'
  proof -
    have "su_task_id r = su_task_id r'" using that(3) by (simp add: queue_key_def)
    with that(1,2) show ?thesis by (metis ran_keyed [OF k] option.inject)
  qed
  then have "inj_on queue_key {r \<in> ran (ox_summaries ox). su_display_status r = DisplayQueued}"
    by (auto intro: inj_onI)
  then show ?thesis by (simp add: snapshot_def queued_facets [OF assms] card_image)
qed

lemma queue_items_named:
  assumes "\<forall>p \<in> set ps. \<exists>r. m (snd (snd p)) = Some r \<and> queue_key r = p"
  shows "map qi_task_id (List.map_filter (\<lambda>(_, _, i). map_option queue_item (m i)) ps) =
    map (snd \<circ> snd) ps"
  using assms
  by (induction ps) (auto simp: List.map_filter_def queue_item_def queue_key_def split: prod.splits)

lemma queued_runs_exact:
  assumes "owner_ok ox"
  shows "map qi_task_id (cs_queued_runs (ws_context (snapshot ox))) = map (snd \<circ> snd) (take 5
    (sorted_list_of_set (queue_key ` {r \<in> ran (ox_summaries ox). su_display_status r = DisplayQueued})))"
proof -
  let ?R = "{r \<in> ran (ox_summaries ox). su_display_status r = DisplayQueued}"
  have k: "keyed (ox_summaries ox)" and fin: "finite (dom (ox_summaries ox))"
    using assms by (auto simp: owner_ok_def)
  have "set (take 5 (sorted_list_of_set (queue_key ` ?R))) \<subseteq> queue_key ` ?R"
    using set_take_subset [of 5 "sorted_list_of_set (queue_key ` ?R)"] finite_ran [OF fin] by simp
  moreover have "ox_summaries ox (snd (snd (queue_key r))) = Some r" if "r \<in> ?R" for r
    using that ran_keyed [OF k] by (simp add: queue_key_def)
  ultimately have "\<forall>p \<in> set (take 5 (sorted_list_of_set (queue_key ` ?R))).
      \<exists>r. ox_summaries ox (snd (snd p)) = Some r \<and> queue_key r = p" by blast
  from queue_items_named [OF this] show ?thesis by (simp add: snapshot_def queued_facets [OF assms])
qed

lemma attention_list:
  "set (ws_attention (snapshot ox)) = {r. \<exists>k. attention_for ox k attention_statuses = Some r}"
proof -
  have "k \<in> set all_kinds" for k by (cases k) (simp_all add: all_kinds_def)
  then show ?thesis by (force simp: snapshot_def List.map_filter_def image_iff)
qed

lemma attention_distinct:
  assumes "owner_ok ox"
  shows "distinct (map su_kind (ws_attention (snapshot ox)))"
proof -
  have "su_kind r = k" if "attention_for ox k attention_statuses = Some r" for k r
    using attention_for_sound [OF assms that] by blast
  then show ?thesis
    by (auto simp: snapshot_def all_kinds_def List.map_filter_def)
qed

lemma attention_sound:
  assumes "owner_ok ox" and "r \<in> set (ws_attention (snapshot ox))"
  shows "r \<in> ran (ox_summaries ox)"
    and "su_display_status r \<in> {DisplayFailed, DisplayInterrupted} \<Longrightarrow> r' \<in> ran (ox_summaries ox) \<Longrightarrow>
      su_kind r' = su_kind r \<Longrightarrow> (su_started_at r', su_task_id r') \<le> (su_started_at r, su_task_id r)"
  using assms(2) attention_for_sound [OF assms(1)] by (auto simp: attention_list)

lemma attention_complete:
  assumes "owner_ok ox" and "r \<in> ran (ox_summaries ox)"
    and "attention_statuses = before @ su_display_status r # after \<and>
      su_display_status r \<notin> {DisplayFailed, DisplayInterrupted}"
  shows "\<exists>r' \<in> set (ws_attention (snapshot ox)). su_kind r' = su_kind r \<and>
    su_display_status r' \<in> set (before @ [su_display_status r])"
proof -
  from assms(3) obtain r' where r': "attention_for ox (su_kind r) attention_statuses = Some r'"
      "su_display_status r' \<in> set (before @ [su_display_status r])"
    using attention_for_complete [OF assms(1,2) refl refl] by metis
  with attention_for_sound [OF assms(1) r'(1)] show ?thesis by (auto simp: attention_list)
qed

section \<open>Commands on the index\<close>

datatype 'x index_command = Publish "'x workflow_run_summary" | Forget string

fun run_index :: "'x index_command \<Rightarrow> 'x workflow_summary_index \<Rightarrow> 'x workflow_summary_index" where
  "run_index (Publish r) = index_insert r"
| "run_index (Forget i) = index_remove i"

definition run_indexes :: "'x index_command list \<Rightarrow> 'x workflow_summary_index" where
  "run_indexes cmds = fold run_index cmds index_default"

fun replay :: "'x index_command \<Rightarrow> (string \<rightharpoonup> 'x workflow_run_summary) \<Rightarrow>
  (string \<rightharpoonup> 'x workflow_run_summary)" where
  "replay (Publish r) m = m(su_task_id r \<mapsto> r)"
| "replay (Forget i) m = m(i := None)"

lemma run_index_step:
  "index_ok ix \<Longrightarrow> index_ok (run_index c ix) \<and> index_view (run_index c ix) = replay c (index_view ix)"
  by (cases c) (simp_all add: summaries.add_ok summaries.del_ok summaries.view_add summaries.view_del)

lemma run_index_fold:
  "index_ok ix \<Longrightarrow> index_ok (fold run_index cmds ix) \<and>
     index_view (fold run_index cmds ix) = fold replay cmds (index_view ix)"
  by (induction cmds arbitrary: ix) (simp_all add: run_index_step)

lemma run_indexes_ok: "index_ok (run_indexes cmds)"
  using run_index_fold [OF summaries.new_ok, of cmds] by (simp add: run_indexes_def)

lemma owner_summaries_view:
  assumes "index_ok ix" and "si_owners ix key = Some ox"
  shows "ox_summaries ox i = Some r \<longleftrightarrow> index_view ix i = Some r \<and> owner_key_of r = key"
proof
  assume "ox_summaries ox i = Some r"
  then show "index_view ix i = Some r \<and> owner_key_of r = key"
    using index_owner_ok(3) [OF assms] assms(2) by (simp add: index_view_def)
next
  assume a: "index_view ix i = Some r \<and> owner_key_of r = key"
  then obtain key' ox' where k: "si_task_owners ix i = Some key'" "si_owners ix key' = Some ox'"
      "ox_summaries ox' i = Some r" by (auto simp: index_view_def bind_eq_Some_conv)
  with index_owner_ok(3) [OF assms(1) k(2,3)] a assms(2) show "ox_summaries ox i = Some r" by simp
qed

section \<open>Properties\<close>

text \<open>
  the two projections of a workflow task agree: the summary built directly from the execution
  state is the summary of the run built from it, and neither exists without a project.
\<close>

theorem summary_projections_agree:
  "to_summary w t = map_option summary_of_run (to_run w t)"
  by (simp add: to_summary_def to_run_def summary_of_run_def split: option.splits)

text \<open>
  C33: the index of workflow summaries implements a plain map. After any sequence of publications
  and removals the summary it holds for a task is the one last published and not removed since,
  every owner holds exactly the summaries of its own identity and revision, and no owner is empty.
\<close>

theorem index_refines_map:
  "index_view (run_indexes cmds) = fold replay cmds Map.empty \<and>
   (si_owners (run_indexes cmds) key = None \<longleftrightarrow>
      (\<nexists>i r. fold replay cmds Map.empty i = Some r \<and> owner_key_of r = key)) \<and>
   (si_owners (run_indexes cmds) key = Some ox \<longrightarrow>
      {r. \<exists>i. ox_summaries ox i = Some r} =
      {r. \<exists>i. fold replay cmds Map.empty i = Some r \<and> owner_key_of r = key})"
proof -
  have ok: "index_ok (run_indexes cmds)" by (rule run_indexes_ok)
  have v: "index_view (run_indexes cmds) = fold replay cmds Map.empty"
    using run_index_fold [OF summaries.new_ok, of cmds] by (simp add: run_indexes_def summaries.view_new)
  have ex: "\<exists>ox. si_owners (run_indexes cmds) key = Some ox"
    if "index_view (run_indexes cmds) i = Some r" "owner_key_of r = key" for i r
    using that index_owner_ok(3) [OF ok] by (auto simp: index_view_def bind_eq_Some_conv)
  have ne: "\<exists>i r. index_view (run_indexes cmds) i = Some r \<and> owner_key_of r = key"
    if "si_owners (run_indexes cmds) key = Some ox" for ox
    using index_owner_ok(2) [OF ok that] owner_summaries_view [OF ok that] by (force simp: fun_eq_iff)
  have eq: "{r. \<exists>i. ox_summaries ox i = Some r} =
      {r. \<exists>i. index_view (run_indexes cmds) i = Some r \<and> owner_key_of r = key}"
    if "si_owners (run_indexes cmds) key = Some ox" for ox
    using owner_summaries_view [OF ok that] by blast
  have "si_owners (run_indexes cmds) key = None \<longleftrightarrow>
      (\<nexists>i r. index_view (run_indexes cmds) i = Some r \<and> owner_key_of r = key)"
    using ex ne by (metis not_None_eq)
  with eq show ?thesis unfolding v [symmetric] by blast
qed

definition sample_summary :: "string \<Rightarrow> unit workflow_run_summary" where
  "sample_summary i = \<lparr>su_schema_version = 2, su_revision = ''0'', su_session_id = ''s'',
     su_task_id = i, su_project_id = ''p'', su_canonical_identity_key = ''k'',
     su_identity_revision = ''1'', su_kind = HealthCheck, su_operation = BuiltIn,
     su_display_status = DisplayQueued, su_queue_position = Some 1, su_continuation_required = False,
     su_current_stage_id = None, su_current_stage = None, su_stages = [], su_cancellable = True,
     su_retry = None, su_outcome = None, su_started_at = ''t'', su_updated_at = ''t'',
     su_completed_at = None\<rparr>"

lemma sample_summary_fields [simp]:
  "su_task_id (sample_summary i) = i" "owner_key_of (sample_summary i) = (''k'', ''1'')"
  "su_display_status (sample_summary i) = DisplayQueued"
  by (simp_all add: sample_summary_def owner_key_of_def)

theorem index_refines_map_witness:
  "index_view (run_indexes [Publish (sample_summary ''a''), Publish (sample_summary ''b''), Forget ''a'']) =
     [''b'' \<mapsto> sample_summary ''b''] \<and>
   si_owners (run_indexes [Publish (sample_summary ''a''), Forget ''a'']) (''k'', ''1'') = None"
  using index_refines_map [of "[Publish (sample_summary ''a''), Publish (sample_summary ''b''), Forget ''a'']"]
    index_refines_map [of "[Publish (sample_summary ''a''), Forget ''a'']" "(''k'', ''1'')"]
  by (auto simp: fun_eq_iff)

text \<open>
  C34: the overview of an owner is exact. The recent runs are the five updated last, latest first;
  the queue count is the number of queued runs, and the queue preview its first five in queue order;
  at most one run per kind asks for attention, it is never a failure that a later run of its kind
  has superseded, and a run that waits, runs or is queued is never hidden by one of lower priority.
\<close>

theorem owner_snapshot_exact:
  assumes "si_owners (run_indexes cmds) key = Some ox"
  shows "let runs = ran (ox_summaries ox); shot = snapshot ox;
      queued = {r \<in> runs. su_display_status r = DisplayQueued} in
    map (\<lambda>r. (su_updated_at r, su_task_id r)) (ws_recent_runs shot) =
      take 5 (rev (sorted_list_of_set ((\<lambda>r. (su_updated_at r, su_task_id r)) ` runs))) \<and>
    cs_queue_count (ws_context shot) = card queued \<and>
    map qi_task_id (cs_queued_runs (ws_context shot)) =
      map (snd \<circ> snd) (take 5 (sorted_list_of_set (queue_key ` queued))) \<and>
    distinct (map su_kind (ws_attention shot)) \<and>
    (\<forall>r \<in> set (ws_attention shot). r \<in> runs \<and>
      (su_display_status r \<in> {DisplayFailed, DisplayInterrupted} \<longrightarrow>
        (\<forall>r' \<in> runs. su_kind r' = su_kind r \<longrightarrow>
          (su_started_at r', su_task_id r') \<le> (su_started_at r, su_task_id r)))) \<and>
    (\<forall>r \<in> runs. \<forall>before after. attention_statuses = before @ su_display_status r # after \<and>
      su_display_status r \<notin> {DisplayFailed, DisplayInterrupted} \<longrightarrow>
      (\<exists>r' \<in> set (ws_attention shot). su_kind r' = su_kind r \<and>
        su_display_status r' \<in> set (before @ [su_display_status r])))"
proof -
  have o: "owner_ok ox" using index_owner_ok(1) [OF run_indexes_ok assms] .
  have "\<forall>r \<in> set (ws_attention (snapshot ox)). r \<in> ran (ox_summaries ox) \<and>
      (su_display_status r \<in> {DisplayFailed, DisplayInterrupted} \<longrightarrow>
        (\<forall>r' \<in> ran (ox_summaries ox). su_kind r' = su_kind r \<longrightarrow>
          (su_started_at r', su_task_id r') \<le> (su_started_at r, su_task_id r)))"
    using attention_sound [OF o] by blast
  with recent_runs_exact [OF o] queue_count_exact [OF o] queued_runs_exact [OF o]
    attention_distinct [OF o] attention_complete [OF o]
  show ?thesis unfolding Let_def by blast
qed

theorem owner_snapshot_exact_witness:
  "cs_queue_count (ws_context (snapshot (owner_insert (sample_summary ''a'') owner_default))) = 1"
proof -
  let ?ox = "owner_insert (sample_summary ''a'') owner_default"
  have "si_owners (run_indexes [Publish (sample_summary ''a'')]) (''k'', ''1'') = Some ?ox"
    by (simp add: run_indexes_def index_insert_def index_remove_def index_default_def Let_def)
  from owner_snapshot_exact [OF this]
  have "cs_queue_count (ws_context (snapshot ?ox)) =
      card {r \<in> ran (ox_summaries ?ox). su_display_status r = DisplayQueued}"
    by (simp add: Let_def)
  also have "ran (ox_summaries ?ox) = {sample_summary ''a''}"
    using owner_insert_ok(2) [OF owner_default_ok, of "sample_summary ''a''"]
    by (simp add: owner_default_def)
  finally show ?thesis by (simp add: Collect_conv_if)
qed

end
