(* ===== verification/Task_Service.thy ===== *)
theory Task_Service
  imports Summary_Index
begin

text \<open>
  The task service (\<open>tasks/task_service.rs\<close>): its in-memory registry, the persistence
  lane of a task, the snapshot writer, and the operations on plain (non-workflow) tasks.

  Every operation takes the state and returns a result with the new state. What the operation
  observes of the outside is an environment: the successive readings of \<open>Utc::now\<close>, the
  millisecond clock, the directory check of \<open>utils/path_safety.rs\<close> and the outcome of
  the snapshot write. An operation that persists twice takes one environment per step. A failed
  write returns the error and leaves the stored snapshot as it was.

  The locks order the operations: each runs under the persistence lane of its task, so it is
  one step of the model.
\<close>

section \<open>State\<close>

record 'x task_entry =
  te_task :: "'x backend_task"
  te_cancellation :: token
  te_log_lines :: "log_line list"
  te_activities :: "task_activity list"
  te_persisted_path :: "string option"
  te_workflow :: "'x workflow_execution_state option"

record persistence_lane =
  la_next_revision :: nat
  la_persisted_revision :: nat
  la_last_observational_write_ms :: "nat option"
  la_pending_observational_revision :: "nat option"
  la_trailing_flush_scheduled :: bool
  la_trailing_flush_generation :: nat
  la_pending_error :: "string option"

definition lane_default :: persistence_lane where
  "lane_default = \<lparr>la_next_revision = 0, la_persisted_revision = 0,
     la_last_observational_write_ms = None, la_pending_observational_revision = None,
     la_trailing_flush_scheduled = False, la_trailing_flush_generation = 0,
     la_pending_error = None\<rparr>"

record 'x persisted_task_entry =
  pe_schema_version :: nat
  pe_task :: "'x backend_task"
  pe_log_lines :: "log_line list"
  pe_journal :: bool
  pe_activities :: "task_activity list"
  pe_workflow :: "'x workflow_execution_state option"

record 'x task_service =
  ts_tasks :: "string \<rightharpoonup> 'x task_entry"
  ts_roots :: "string \<rightharpoonup> string"
  ts_dirs :: "string \<rightharpoonup> string"
  ts_lanes :: "string \<rightharpoonup> persistence_lane"
  ts_cancellation :: cancellation_registry
  ts_disk :: "string \<rightharpoonup> 'x persisted_task_entry"
  ts_events :: "captured_event list"
  ts_history_revision :: nat
  ts_index :: "'x workflow_summary_index"
  ts_session_id :: string
  ts_flushes :: "(string \<times> nat \<times> nat) list"

record 'x service_env =
  se_clock :: "nat \<Rightarrow> string"
  se_now_ms :: nat
  se_validate_dir :: "string \<Rightarrow> string \<Rightarrow> string sresult"
  se_write :: "string \<Rightarrow> string \<Rightarrow> string \<Rightarrow> 'x persisted_task_entry \<Rightarrow> string sresult"
  se_remove :: "string \<Rightarrow> string \<Rightarrow> string \<Rightarrow> string \<Rightarrow> unit sresult"

definition PERSISTED_TASK_SCHEMA_VERSION :: nat where
  "PERSISTED_TASK_SCHEMA_VERSION = 3"

definition persisted_of :: "'x task_entry \<Rightarrow> 'x persisted_task_entry" where
  "persisted_of en = \<lparr>pe_schema_version = PERSISTED_TASK_SCHEMA_VERSION, pe_task = te_task en,
     pe_log_lines = [], pe_journal = True, pe_activities = [], pe_workflow = te_workflow en\<rparr>"

section \<open>Lanes, events and persistence\<close>

definition get_task :: "string \<Rightarrow> 'x task_service \<Rightarrow> 'x backend_task option" where
  "get_task i s = map_option te_task (ts_tasks s i)"

definition not_found :: "string \<Rightarrow> string" where
  "not_found task = ''Task not found: '' @ task"

definition workflow_persistence_lane :: "string \<Rightarrow> 'x task_service \<Rightarrow> 'x task_service" where
  "workflow_persistence_lane i s =
     (case ts_lanes s i of Some _ \<Rightarrow> s
      | None \<Rightarrow> s\<lparr>ts_lanes := (ts_lanes s)(i \<mapsto> lane_default)\<rparr>)"

definition lane_update ::
  "string \<Rightarrow> (persistence_lane \<Rightarrow> persistence_lane) \<Rightarrow> 'x task_service \<Rightarrow> 'x task_service" where
  "lane_update i f s =
     s\<lparr>ts_lanes := (ts_lanes s)(i := map_option f (ts_lanes s i))\<rparr>"

definition lane_settled :: "persistence_lane \<Rightarrow> persistence_lane" where
  "lane_settled l = l\<lparr>la_pending_observational_revision := None,
     la_trailing_flush_scheduled := False,
     la_trailing_flush_generation := saturating_add (la_trailing_flush_generation l) 1,
     la_pending_error := None\<rparr>"

definition lane_bump :: "persistence_lane \<Rightarrow> persistence_lane" where
  "lane_bump l = l\<lparr>la_next_revision := saturating_add (la_next_revision l) 1\<rparr>"

definition bump_workflow_history_revision :: "'x task_service \<Rightarrow> 'x task_service" where
  "bump_workflow_history_revision s =
     s\<lparr>ts_history_revision := (ts_history_revision s + 1) mod 2 ^ 64\<rparr>"

definition index_workflow_summary ::
  "string \<Rightarrow> 'x task_service \<Rightarrow> 'x workflow_run_summary option \<times> 'x task_service" where
  "index_workflow_summary i s =
    (case Option.bind (ts_tasks s i) (\<lambda>en. Option.bind (te_workflow en) (\<lambda>w. to_summary w (te_task en))) of
       None \<Rightarrow> (None, s)
     | Some su \<Rightarrow>
       (let previous = Option.bind (si_owners (ts_index s) (owner_key_of su)) (\<lambda>ox. ox_summaries ox i);
            changed = (case previous of None \<Rightarrow> True
              | Some p \<Rightarrow> su_display_status p \<noteq> su_display_status su \<or> su_kind p \<noteq> su_kind su \<or>
                  su_outcome p \<noteq> su_outcome su);
            s1 = s\<lparr>ts_index := index_insert su (ts_index s)\<rparr>
        in (Some su, if changed then bump_workflow_history_revision s1 else s1)))"

definition push_event ::
  "backend_event_type \<Rightarrow> string option \<Rightarrow> string option \<Rightarrow> 'x task_service \<Rightarrow> 'x task_service"
where
  "push_event ev pid tid s = s\<lparr>ts_events := ts_events s @
     [\<lparr>ce_event_type = ev, ce_project_id = pid, ce_task_id = tid\<rparr>]\<rparr>"

text \<open>
  A workflow update publishes the summary it has just indexed, and nothing when there is none;
  log lines and activities refresh the index before they are published.
\<close>

definition emit ::
  "backend_event_type \<Rightarrow> string option \<Rightarrow> string option \<Rightarrow> 'x task_service \<Rightarrow> 'x task_service"
where
  "emit ev pid tid s =
    (if ev = WorkflowUpdated then
       (case tid of
          None \<Rightarrow> s
        | Some i \<Rightarrow> (case index_workflow_summary i s of
            (None, s1) \<Rightarrow> s1
          | (Some su, s1) \<Rightarrow> push_event ev (Some (su_project_id su)) tid s1))
     else push_event ev pid tid
       (case tid of
          Some i \<Rightarrow> if ev \<in> {TaskLog, TaskActivityEvent} then snd (index_workflow_summary i s) else s
        | None \<Rightarrow> s))"

definition emit_task ::
  "backend_event_type \<Rightarrow> 'x backend_task \<Rightarrow> 'x task_service \<Rightarrow> 'x task_service" where
  "emit_task ev t s = emit ev (bt_project_id t) (Some (bt_id t)) s"

definition validate_persistence_dir ::
  "'x service_env \<Rightarrow> string \<Rightarrow> string \<Rightarrow> string sresult" where
  "validate_persistence_dir e root dir =
     (case se_validate_dir e root dir of
        Inl err \<Rightarrow> Inl (''Task persistence path is unsafe: '' @ err) | Inr d \<Rightarrow> Inr d)"

definition persist_current_task_with_lane ::
  "'x service_env \<Rightarrow> string \<Rightarrow> bool \<Rightarrow> 'x task_service \<Rightarrow> unit sresult \<times> 'x task_service" where
  "persist_current_task_with_lane e i with_lane s =
    (case ts_roots s i of
       None \<Rightarrow> (Inr (), if with_lane then lane_update i lane_settled s else s)
     | Some root \<Rightarrow> (case ts_dirs s i of
         None \<Rightarrow> (Inr (), if with_lane then lane_update i lane_settled s else s)
       | Some dir \<Rightarrow> (case ts_tasks s i of
           None \<Rightarrow> (Inl (not_found i), s)
         | Some en \<Rightarrow> (case validate_persistence_dir e root dir of
             Inl err \<Rightarrow> (Inl err, s)
           | Inr d \<Rightarrow>
             (let s1 = (if with_lane then lane_update i lane_bump s else s) in
              case se_write e root d i (persisted_of en) of
                Inl err \<Rightarrow> (Inl err, if with_lane
                    then lane_update i (\<lambda>l. l\<lparr>la_pending_error := Some err\<rparr>) s1 else s1)
              | Inr path \<Rightarrow>
                  let s2 = (if with_lane
                      then lane_update i (\<lambda>l. lane_settled
                             (l\<lparr>la_persisted_revision := la_next_revision l\<rparr>)) s1 else s1)
                  in (Inr (), s2\<lparr>ts_tasks := (ts_tasks s2)(i \<mapsto>
                          en\<lparr>te_persisted_path := Some path\<rparr>),
                        ts_disk := (ts_disk s2)(path \<mapsto> persisted_of en)\<rparr>))))))"

definition set_task :: "string \<Rightarrow> 'x backend_task \<Rightarrow> 'x task_service \<Rightarrow> 'x task_service" where
  "set_task i t s = s\<lparr>ts_tasks := (ts_tasks s)(i :=
     map_option (\<lambda>en. en\<lparr>te_task := t\<rparr>) (ts_tasks s i))\<rparr>"

definition set_cancellation ::
  "(cancellation_registry \<Rightarrow> cancellation_registry) \<Rightarrow> 'x task_service \<Rightarrow> 'x task_service" where
  "set_cancellation f s = s\<lparr>ts_cancellation := f (ts_cancellation s)\<rparr>"

text \<open>
  The common tail of the mutating operations: the mutated task is in the registry; persist
  it, on failure put the previous task back (and undo what was done to the token), on success
  publish the event.
\<close>

definition persist_or_rollback ::
  "'x service_env \<Rightarrow> string \<Rightarrow> 'x backend_task \<Rightarrow> (cancellation_registry \<Rightarrow> cancellation_registry) \<Rightarrow>
   backend_event_type option \<Rightarrow> 'x backend_task \<Rightarrow> 'x task_service \<Rightarrow>
   'x backend_task sresult \<times> 'x task_service" where
  "persist_or_rollback e i previous undo ev t s =
    (case persist_current_task_with_lane e i True s of
       (Inl err, s1) \<Rightarrow> (Inl err, set_cancellation undo (set_task i previous s1))
     | (Inr _, s1) \<Rightarrow>
         (Inr t, case ev of None \<Rightarrow> s1 | Some x \<Rightarrow> emit_task x t s1))"

section \<open>Creation\<close>

definition persist_current_task ::
  "'x service_env \<Rightarrow> string \<Rightarrow> 'x task_service \<Rightarrow> unit sresult \<times> 'x task_service" where
  "persist_current_task e i s =
     persist_current_task_with_lane e i True (workflow_persistence_lane i s)"

definition insert_optional :: "'k \<Rightarrow> 'v option \<Rightarrow> ('k \<rightharpoonup> 'v) \<Rightarrow> ('k \<rightharpoonup> 'v)" where
  "insert_optional k v m = (case v of None \<Rightarrow> m | Some x \<Rightarrow> m(k \<mapsto> x))"

text \<open>The arguments of \<open>create_task_internal\<close>; \<open>Uuid::new_v4\<close> is the argument \<open>i\<close>.\<close>

record 'x task_request =
  rq_task_type :: task_type
  rq_project_id :: "string option"
  rq_project_root :: "string option"
  rq_title :: string
  rq_cancellable :: bool
  rq_batch_id :: "string option"
  rq_operation :: "task_operation option"
  rq_require_persistence :: bool
  rq_workflow :: "'x workflow_execution_state option"
  rq_persistence_dir :: "string option"

definition new_task :: "'x service_env \<Rightarrow> string \<Rightarrow> 'x task_request \<Rightarrow> 'x backend_task" where
  "new_task e i q =
     \<lparr>bt_id = i, bt_task_type = rq_task_type q, bt_project_id = rq_project_id q,
      bt_batch_id = (case rq_operation q of Some _ \<Rightarrow> Some i | None \<Rightarrow> rq_batch_id q),
      bt_operation = rq_operation q, bt_title = rq_title q, bt_status = Queued,
      bt_progress = None, bt_started_at = se_clock e 0, bt_updated_at = se_clock e 0,
      bt_completed_at = None, bt_cancellable = rq_cancellable q, bt_log_path = None,
      bt_result = None, bt_error = None\<rparr>"

definition create_task_internal ::
  "'x service_env \<Rightarrow> string \<Rightarrow> 'x task_request \<Rightarrow> 'x task_service \<Rightarrow>
   'x backend_task sresult \<times> 'x task_service" where
  "create_task_internal e i q s =
    (let (tok, reg) = registry_register i (ts_cancellation s);
         t = new_task e i q;
         en = \<lparr>te_task = t, te_cancellation = tok, te_log_lines = [], te_activities = [],
               te_persisted_path = None,
               te_workflow = map_option (\<lambda>w. w\<lparr>wf_revision := 1,
                 wf_session_id := ts_session_id s\<rparr>) (rq_workflow q)\<rparr>;
         s1 = s\<lparr>ts_cancellation := reg, ts_tasks := (ts_tasks s)(i \<mapsto> en),
                ts_roots := insert_optional i (rq_project_root q) (ts_roots s),
                ts_dirs := insert_optional i (rq_persistence_dir q) (ts_dirs s)\<rparr>;
         (r, s2) = persist_current_task e i s1 in
     if \<not> is_ok r \<and> rq_require_persistence q
     then (case r of Inl err \<Rightarrow>
        (Inl err, s2\<lparr>ts_tasks := (ts_tasks s2)(i := None), ts_roots := (ts_roots s2)(i := None),
           ts_dirs := (ts_dirs s2)(i := None),
           ts_cancellation := registry_remove i (ts_cancellation s2)\<rparr>))
     else
       (let s3 = (if bt_task_type t = Workflow then bump_workflow_history_revision s2 else s2)
        in (Inr t, emit TaskUpdated (rq_project_id q) (Some i) s3)))"

section \<open>Status transitions of plain tasks\<close>

definition terminal_status :: "task_status \<Rightarrow> bool" where
  "terminal_status st \<longleftrightarrow> st \<in> {Succeeded, Failed, Cancelled, Interrupted}"

fun transition_event :: "task_status \<Rightarrow> backend_event_type" where
  "transition_event WaitingForConfirmation = ConfirmationRequested"
| "transition_event Succeeded = TaskCompleted"
| "transition_event Failed = TaskFailed"
| "transition_event Cancelled = TaskCancelled"
| "transition_event _ = TaskUpdated"

definition transition_plain_status ::
  "'x service_env \<Rightarrow> string \<Rightarrow> task_status \<Rightarrow> 'x task_service \<Rightarrow>
   'x backend_task sresult \<times> 'x task_service" where
  "transition_plain_status e i new s0 =
    (let s = workflow_persistence_lane i s0 in
     case ts_tasks s i of
       None \<Rightarrow> (Inl (not_found i), s)
     | Some en \<Rightarrow>
       (let previous = te_task en in
        case validate_transition (bt_status previous) new of
          Inl err \<Rightarrow> (Inl err, s)
        | Inr _ \<Rightarrow>
          (let t1 = previous\<lparr>bt_status := new, bt_updated_at := se_clock e 0\<rparr>;
               t2 = (if terminal_status new
                     then t1\<lparr>bt_completed_at := Some (se_clock e 1)\<rparr> else t1)
           in persist_or_rollback e i previous id (Some (transition_event new)) t2
                (set_task i t2 s))))"

section \<open>Cancellation\<close>

definition cancel_next_status :: "task_status \<Rightarrow> task_status" where
  "cancel_next_status st =
     (if st = Queued then Cancelled else if st = Cancelling then Cancelling else Cancelling)"

definition cancel_requested_task :: "'x service_env \<Rightarrow> 'x backend_task \<Rightarrow> 'x backend_task" where
  "cancel_requested_task e t =
    (let nxt = cancel_next_status (bt_status t);
         t1 = t\<lparr>bt_status := nxt, bt_updated_at := se_clock e 0\<rparr>
     in if nxt = Cancelled then t1\<lparr>bt_completed_at := Some (se_clock e 0)\<rparr> else t1)"

definition request_cancel_with_previous_status ::
  "'x service_env \<Rightarrow> string \<Rightarrow> 'x task_service \<Rightarrow>
   ('x backend_task \<times> task_status) sresult \<times> 'x task_service" where
  "request_cancel_with_previous_status e i s0 =
    (let s = workflow_persistence_lane i s0 in
     case ts_tasks s i of
       None \<Rightarrow> (Inl (not_found i), s)
     | Some en \<Rightarrow>
       (let previous = te_task en; st = bt_status previous in
        if \<not> bt_cancellable previous then (Inl (''Task is not cancellable: '' @ i), s)
        else if terminal_status st then (Inr (previous, st), s)
        else
         (let s1 = set_cancellation (token_cancel (te_cancellation en)) s;
              t = cancel_requested_task e previous
          in case persist_current_task_with_lane e i True (set_task i t s1) of
               (Inl err, s2) \<Rightarrow> (Inl err, s2)
             | (Inr _, s2) \<Rightarrow> (Inr (t, st), emit_task
                  (if cancel_next_status st = Cancelled then TaskCancelled else TaskUpdated) t s2))))"

definition request_cancel ::
  "'x service_env \<Rightarrow> string \<Rightarrow> 'x task_service \<Rightarrow> 'x backend_task sresult \<times> 'x task_service" where
  "request_cancel e i s =
    (case request_cancel_with_previous_status e i s of
       (Inl err, s1) \<Rightarrow> (Inl err, s1) | (Inr (t, _), s1) \<Rightarrow> (Inr t, s1))"

definition require_app_capability_task_revision ::
  "'x backend_task \<Rightarrow> string \<Rightarrow> unit sresult" where
  "require_app_capability_task_revision t expected =
    (if bt_task_type t \<noteq> CapabilityInstallTask \<or>
        \<not> (case bt_operation t of Some (AppCapabilityInstall _ _ _ _ _) \<Rightarrow> True | _ \<Rightarrow> False) \<or>
        bt_project_id t \<noteq> None
     then Inl (''Task is not an application capability install: '' @ bt_id t)
     else if bt_updated_at t \<noteq> expected then Inl (''Task revision is stale: '' @ bt_id t)
     else Inr ())"

definition request_app_task_pause ::
  "'x service_env \<Rightarrow> string \<Rightarrow> string \<Rightarrow> 'x task_service \<Rightarrow>
   'x backend_task sresult \<times> 'x task_service" where
  "request_app_task_pause e i expected s0 =
    (let s = workflow_persistence_lane i s0 in
     case ts_tasks s i of
       None \<Rightarrow> (Inl (not_found i), s)
     | Some en \<Rightarrow>
       (let previous = te_task en; st = bt_status previous; tok = te_cancellation en in
        case require_app_capability_task_revision previous expected of
          Inl err \<Rightarrow> (Inl err, s)
        | Inr _ \<Rightarrow>
          if st = Interrupted then (Inr previous, s)
          else if st \<noteq> Queued \<and> st \<noteq> Running
          then (Inl (''Task cannot be paused from its current state: '' @ i), s)
          else
           (let s1 = set_cancellation (token_request_pause tok) s;
                t1 = (if st = Queued
                      then previous\<lparr>bt_status := Interrupted,
                             bt_completed_at := Some (se_clock e 0)\<rparr> else previous);
                t2 = t1\<lparr>bt_updated_at := se_clock e 1\<rparr>
            in persist_or_rollback e i previous (token_reset tok) (Some TaskUpdated) t2
                 (set_task i t2 s1))))"

definition resume_app_task ::
  "'x service_env \<Rightarrow> string \<Rightarrow> string \<Rightarrow> 'x task_service \<Rightarrow>
   'x backend_task sresult \<times> 'x task_service" where
  "resume_app_task e i expected s0 =
    (let s = workflow_persistence_lane i s0 in
     case ts_tasks s i of
       None \<Rightarrow> (Inl (not_found i), s)
     | Some en \<Rightarrow>
       (let previous = te_task en; tok = te_cancellation en in
        case require_app_capability_task_revision previous expected of
          Inl err \<Rightarrow> (Inl err, s)
        | Inr _ \<Rightarrow>
          if bt_status previous \<noteq> Interrupted
          then (Inl (''Task is not a paused application capability install: '' @ i), s)
          else
           (let s1 = set_cancellation (token_reset tok) s;
                t = previous\<lparr>bt_status := Queued, bt_error := None, bt_completed_at := None,
                      bt_updated_at := se_clock e 0\<rparr>
            in persist_or_rollback e i previous (token_request_pause tok) (Some TaskUpdated) t
                 (set_task i t s1))))"

definition cancel_paused_app_task ::
  "'x service_env \<Rightarrow> string \<Rightarrow> string \<Rightarrow> 'x task_service \<Rightarrow>
   'x backend_task sresult \<times> 'x task_service" where
  "cancel_paused_app_task e i expected s0 =
    (let s = workflow_persistence_lane i s0 in
     case ts_tasks s i of
       None \<Rightarrow> (Inl (not_found i), s)
     | Some en \<Rightarrow>
       (let previous = te_task en; tok = te_cancellation en in
        case require_app_capability_task_revision previous expected of
          Inl err \<Rightarrow> (Inl err, s)
        | Inr _ \<Rightarrow>
          if bt_status previous \<noteq> Interrupted
          then (Inl (''Task is not a paused application capability install: '' @ i), s)
          else
           (let s1 = set_cancellation (token_cancel tok) s;
                t = previous\<lparr>bt_status := Cancelled, bt_updated_at := se_clock e 0,
                      bt_completed_at := Some (se_clock e 0)\<rparr>
            in persist_or_rollback e i previous (token_request_pause tok) (Some TaskCancelled) t
                 (set_task i t s1))))"

definition request_app_task_cancel ::
  "'x service_env \<Rightarrow> string \<Rightarrow> string \<Rightarrow> 'x task_service \<Rightarrow>
   'x backend_task sresult \<times> 'x task_service" where
  "request_app_task_cancel e i expected s0 =
    (let s = workflow_persistence_lane i s0 in
     case ts_tasks s i of
       None \<Rightarrow> (Inl (not_found i), s)
     | Some en \<Rightarrow>
       (let previous = te_task en; st = bt_status previous; tok = te_cancellation en in
        case require_app_capability_task_revision previous expected of
          Inl err \<Rightarrow> (Inl err, s)
        | Inr _ \<Rightarrow>
          if terminal_status st then (Inr previous, s)
          else
           (let s1 = set_cancellation (token_cancel tok) s;
                nxt = (if st = Queued then Cancelled else Cancelling);
                t1 = previous\<lparr>bt_status := nxt, bt_updated_at := se_clock e 0\<rparr>;
                t2 = (if nxt = Cancelled then t1\<lparr>bt_completed_at := Some (se_clock e 0)\<rparr>
                      else t1)
            in persist_or_rollback e i previous (token_reset tok)
                 (Some (if nxt = Cancelled then TaskCancelled else TaskUpdated)) t2
                 (set_task i t2 s1))))"

section \<open>Results and completion\<close>

definition set_result ::
  "'x service_env \<Rightarrow> string \<Rightarrow> 'x task_result \<Rightarrow> 'x task_service \<Rightarrow>
   'x backend_task sresult \<times> 'x task_service" where
  "set_result e i result s0 =
    (let s = workflow_persistence_lane i s0 in
     case ts_tasks s i of
       None \<Rightarrow> (Inl (not_found i), s)
     | Some en \<Rightarrow>
       (let previous = te_task en;
            t = previous\<lparr>bt_result := Some result, bt_updated_at := se_clock e 0\<rparr>
        in persist_or_rollback e i previous id (Some TaskUpdated) t (set_task i t s)))"

definition complete_running_with_result ::
  "'x service_env \<Rightarrow> string \<Rightarrow> 'x task_result \<Rightarrow> 'x task_service \<Rightarrow>
   'x backend_task sresult \<times> 'x task_service" where
  "complete_running_with_result e i result s0 =
    (let s = workflow_persistence_lane i s0 in
     case ts_tasks s i of
       None \<Rightarrow> (Inl (not_found i), s)
     | Some en \<Rightarrow>
       (let previous = te_task en in
        if bt_status previous \<noteq> Running \<or>
           token_is_cancelled (ts_cancellation s) (te_cancellation en)
        then (Inl (''Task is no longer running: '' @ i), s)
        else
         (let t = previous\<lparr>bt_result := Some result, bt_status := Succeeded,
                    bt_updated_at := se_clock e 0, bt_completed_at := Some (se_clock e 0)\<rparr>
          in persist_or_rollback e i previous id (Some TaskCompleted) t (set_task i t s))))"

definition close_export_cancellation ::
  "'x service_env \<Rightarrow> string \<Rightarrow> 'x task_service \<Rightarrow> unit sresult \<times> 'x task_service" where
  "close_export_cancellation e i s0 =
    (let s = workflow_persistence_lane i s0 in
     case ts_tasks s i of
       None \<Rightarrow> (Inl (not_found i), s)
     | Some en \<Rightarrow>
       (let previous = te_task en in
        if bt_task_type previous \<noteq> Export \<or> te_workflow en \<noteq> None \<or>
           bt_status previous \<noteq> Running \<or>
           token_is_cancelled (ts_cancellation s) (te_cancellation en)
        then (Inl (''Export task is no longer running: '' @ i), s)
        else
         (let t = previous\<lparr>bt_cancellable := False, bt_updated_at := se_clock e 0\<rparr> in
          case persist_or_rollback e i previous id None t (set_task i t s) of
            (Inl err, s1) \<Rightarrow> (Inl err, s1) | (Inr _, s1) \<Rightarrow> (Inr (), s1))))"

definition seal_running_with_result ::
  "'x service_env \<Rightarrow> string \<Rightarrow> 'x task_result \<Rightarrow> 'x task_service \<Rightarrow>
   'x backend_task sresult \<times> 'x task_service" where
  "seal_running_with_result e i result s0 =
    (let s = workflow_persistence_lane i s0 in
     case ts_tasks s i of
       None \<Rightarrow> (Inl (not_found i), s)
     | Some en \<Rightarrow>
       (let previous = te_task en in
        if bt_status previous \<noteq> Running \<or>
           token_is_cancelled (ts_cancellation s) (te_cancellation en)
        then (Inl (''Task is no longer running: '' @ i), s)
        else
         (let t = previous\<lparr>bt_result := Some result, bt_cancellable := False,
                    bt_updated_at := se_clock e 0\<rparr>
          in persist_or_rollback e i previous id None t (set_task i t s))))"

definition recover_sealed_agent_completion ::
  "'x service_env \<Rightarrow> string \<Rightarrow> 'x task_service \<Rightarrow> 'x backend_task sresult \<times> 'x task_service" where
  "recover_sealed_agent_completion e i s0 =
    (let s = workflow_persistence_lane i s0 in
     case ts_tasks s i of
       None \<Rightarrow> (Inl (not_found i), s)
     | Some en \<Rightarrow>
       (let previous = te_task en in
        if bt_status previous \<noteq> Failed \<or> bt_task_type previous \<noteq> AgentRun \<or>
           bt_result previous = None
        then (Inl (''Task is not a recoverable sealed Agent completion: '' @ i), s)
        else
         (let t = previous\<lparr>bt_status := Succeeded, bt_error := None,
                    bt_updated_at := se_clock e 0, bt_completed_at := Some (se_clock e 0)\<rparr>
          in persist_or_rollback e i previous id (Some TaskCompleted) t (set_task i t s))))"

fun finish_event :: "task_status \<Rightarrow> backend_event_type option" where
  "finish_event Succeeded = Some TaskCompleted"
| "finish_event Failed = Some TaskFailed"
| "finish_event Cancelled = Some TaskCancelled"
| "finish_event WaitingForConfirmation = Some ConfirmationRequested"
| "finish_event _ = None"

definition finish_running_operation ::
  "'x service_env \<Rightarrow> string \<Rightarrow> 'x task_result \<Rightarrow> task_status \<Rightarrow> backend_error option \<Rightarrow>
   'x task_service \<Rightarrow> 'x backend_task sresult \<times> 'x task_service" where
  "finish_running_operation e i result desired err s0 =
    (if desired \<notin> {Succeeded, Failed, WaitingForConfirmation}
     then (Inl ''Operation finish status is invalid'', s0)
     else if (desired = Failed) \<noteq> (err \<noteq> None)
     then (Inl ''Operation failure status and error must agree'', s0)
     else
     (let s = workflow_persistence_lane i s0 in
      case ts_tasks s i of
        None \<Rightarrow> (Inl (not_found i), s)
      | Some en \<Rightarrow>
        (let previous = te_task en;
             cancelled = (bt_status previous = Cancelling \<or>
               token_is_cancelled (ts_cancellation s) (te_cancellation en)) in
         if \<not> cancelled \<and> bt_status previous \<noteq> Running
         then (Inl (''Task is no longer running: '' @ i), s)
         else
          (let t1 = (if cancelled
                then previous\<lparr>bt_status := Cancelled, bt_result := None, bt_error := None,
                       bt_completed_at := Some (se_clock e 0)\<rparr>
                else previous\<lparr>bt_status := desired, bt_result := Some result, bt_error := err,
                       bt_completed_at := (if desired \<in> {Succeeded, Failed}
                         then Some (se_clock e 0) else None)\<rparr>);
               t = t1\<lparr>bt_updated_at := se_clock e 0\<rparr>
           in persist_or_rollback e i previous id (finish_event (bt_status t)) t
                (set_task i t s)))))"

definition set_error ::
  "'x service_env \<Rightarrow> string \<Rightarrow> backend_error \<Rightarrow> 'x task_service \<Rightarrow>
   'x backend_task sresult \<times> 'x task_service" where
  "set_error e i err s0 =
    (let s = (if ts_tasks s0 i \<noteq> None then workflow_persistence_lane i s0 else s0) in
     case ts_tasks s i of
       None \<Rightarrow> (Inl (not_found i), s)
     | Some en \<Rightarrow>
       (let t = (te_task en)\<lparr>bt_error := Some err, bt_updated_at := se_clock e 0\<rparr> in
        case persist_current_task_with_lane e i True (set_task i t s) of
          (Inl m, s1) \<Rightarrow> (Inl m, s1)
        | (Inr _, s1) \<Rightarrow> (Inr t, emit_task TaskUpdated t s1)))"

section \<open>The plain operations as commands\<close>

text \<open>
  The operations that set the status, the result, the error or the cancellability of a plain
  task. One command per operation that persists with rollback, so that a fact about all of
  them is one statement; \<open>request_cancel\<close> and \<open>set_error\<close> have no rollback.
\<close>

datatype 'x task_command =
    TransitionTo task_status
  | Pause string
  | Resume string
  | CancelPaused string
  | AppCancel string
  | SetResult "'x task_result"
  | CompleteRunning "'x task_result"
  | SealRunning "'x task_result"
  | RecoverSealed
  | FinishOperation "'x task_result" task_status "backend_error option"
  | CloseExport

datatype 'x plain_operation =
    Transactional "'x task_command"
  | RequestCancel
  | SetError backend_error

definition forget :: "'a sresult \<times> 'x task_service \<Rightarrow> unit sresult \<times> 'x task_service" where
  "forget r = (case fst r of Inl err \<Rightarrow> Inl err | Inr _ \<Rightarrow> Inr (), snd r)"

fun run_command ::
  "'x service_env \<Rightarrow> string \<Rightarrow> 'x task_command \<Rightarrow> 'x task_service \<Rightarrow>
   unit sresult \<times> 'x task_service" where
  "run_command e i (TransitionTo st) s = forget (transition_plain_status e i st s)"
| "run_command e i (Pause r) s = forget (request_app_task_pause e i r s)"
| "run_command e i (Resume r) s = forget (resume_app_task e i r s)"
| "run_command e i (CancelPaused r) s = forget (cancel_paused_app_task e i r s)"
| "run_command e i (AppCancel r) s = forget (request_app_task_cancel e i r s)"
| "run_command e i (SetResult r) s = forget (set_result e i r s)"
| "run_command e i (CompleteRunning r) s = forget (complete_running_with_result e i r s)"
| "run_command e i (SealRunning r) s = forget (seal_running_with_result e i r s)"
| "run_command e i RecoverSealed s = forget (recover_sealed_agent_completion e i s)"
| "run_command e i (FinishOperation r st err) s = forget (finish_running_operation e i r st err s)"
| "run_command e i CloseExport s = forget (close_export_cancellation e i s)"

fun run_plain ::
  "'x service_env \<Rightarrow> string \<Rightarrow> 'x plain_operation \<Rightarrow> 'x task_service \<Rightarrow>
   unit sresult \<times> 'x task_service" where
  "run_plain e i (Transactional cmd) s = run_command e i cmd s"
| "run_plain e i RequestCancel s = forget (request_cancel e i s)"
| "run_plain e i (SetError err) s = forget (set_error e i err s)"

lemmas command_defs = transition_plain_status_def request_app_task_pause_def
  resume_app_task_def cancel_paused_app_task_def request_app_task_cancel_def set_result_def
  complete_running_with_result_def seal_running_with_result_def
  recover_sealed_agent_completion_def finish_running_operation_def close_export_cancellation_def

section \<open>Frame lemmas\<close>

lemma forget_simps [simp]:
  "forget (Inl err, s) = (Inl err, s)" "forget (Inr v, s) = (Inr (), s)"
  by (simp_all add: forget_def)

lemma lane_frame [simp]:
  "ts_tasks (lane_update i f s) = ts_tasks s" "ts_disk (lane_update i f s) = ts_disk s"
  "ts_events (lane_update i f s) = ts_events s" "ts_roots (lane_update i f s) = ts_roots s"
  "ts_dirs (lane_update i f s) = ts_dirs s"
  "ts_cancellation (lane_update i f s) = ts_cancellation s"
  by (simp_all add: lane_update_def)

lemma new_lane_frame [simp]:
  "ts_tasks (workflow_persistence_lane i s) = ts_tasks s"
  "ts_disk (workflow_persistence_lane i s) = ts_disk s"
  "ts_events (workflow_persistence_lane i s) = ts_events s"
  "ts_roots (workflow_persistence_lane i s) = ts_roots s"
  "ts_dirs (workflow_persistence_lane i s) = ts_dirs s"
  "ts_cancellation (workflow_persistence_lane i s) = ts_cancellation s"
  by (auto simp: workflow_persistence_lane_def split: option.splits)

lemma set_task_frame [simp]:
  "ts_disk (set_task i t s) = ts_disk s" "ts_events (set_task i t s) = ts_events s"
  "ts_roots (set_task i t s) = ts_roots s" "ts_dirs (set_task i t s) = ts_dirs s"
  "ts_cancellation (set_task i t s) = ts_cancellation s"
  "j \<noteq> i \<Longrightarrow> ts_tasks (set_task i t s) j = ts_tasks s j"
  "ts_tasks (set_task i t s) i = map_option (\<lambda>en. en\<lparr>te_task := t\<rparr>) (ts_tasks s i)"
  by (simp_all add: set_task_def)

lemma set_cancellation_frame [simp]:
  "ts_tasks (set_cancellation f s) = ts_tasks s" "ts_disk (set_cancellation f s) = ts_disk s"
  "ts_events (set_cancellation f s) = ts_events s" "ts_roots (set_cancellation f s) = ts_roots s"
  "ts_dirs (set_cancellation f s) = ts_dirs s"
  "ts_cancellation (set_cancellation f s) = f (ts_cancellation s)"
  by (simp_all add: set_cancellation_def)

lemma index_workflow_summary_frame [simp]:
  "ts_tasks (snd (index_workflow_summary i s)) = ts_tasks s"
  "ts_disk (snd (index_workflow_summary i s)) = ts_disk s"
  "ts_roots (snd (index_workflow_summary i s)) = ts_roots s"
  "ts_dirs (snd (index_workflow_summary i s)) = ts_dirs s"
  "ts_lanes (snd (index_workflow_summary i s)) = ts_lanes s"
  "ts_cancellation (snd (index_workflow_summary i s)) = ts_cancellation s"
  "ts_events (snd (index_workflow_summary i s)) = ts_events s"
  "ts_flushes (snd (index_workflow_summary i s)) = ts_flushes s"
  "ts_session_id (snd (index_workflow_summary i s)) = ts_session_id s"
  by (simp_all add: index_workflow_summary_def Let_def bump_workflow_history_revision_def
      split: option.splits)

lemma push_event_frame [simp]:
  "ts_tasks (push_event ev pid tid s) = ts_tasks s" "ts_disk (push_event ev pid tid s) = ts_disk s"
  "ts_roots (push_event ev pid tid s) = ts_roots s" "ts_dirs (push_event ev pid tid s) = ts_dirs s"
  "ts_lanes (push_event ev pid tid s) = ts_lanes s"
  "ts_cancellation (push_event ev pid tid s) = ts_cancellation s"
  "ts_flushes (push_event ev pid tid s) = ts_flushes s"
  "ts_session_id (push_event ev pid tid s) = ts_session_id s"
  "ts_index (push_event ev pid tid s) = ts_index s"
  "ts_events (push_event ev pid tid s) = ts_events s @
     [\<lparr>ce_event_type = ev, ce_project_id = pid, ce_task_id = tid\<rparr>]"
  by (simp_all add: push_event_def)

text \<open>Publishing indexes at most the named task and appends at most one event.\<close>

lemma emit_shape:
  obtains s1 where "s1 = s \<or> (\<exists>i. s1 = snd (index_workflow_summary i s))"
    and "emit ev pid tid s = s1 \<or> (\<exists>p. emit ev pid tid s = push_event ev p tid s1)"
proof (cases "ev = WorkflowUpdated")
  case True
  show thesis
  proof (cases tid)
    case None
    with True show thesis by (intro that [of s]) (simp_all add: emit_def)
  next
    case (Some i)
    with True show thesis
      by (intro that [of "snd (index_workflow_summary i s)"])
        (auto simp: emit_def split: prod.splits option.splits)
  qed
next
  case False
  then show thesis
    by (intro that [of "case tid of
          Some i \<Rightarrow> if ev \<in> {TaskLog, TaskActivityEvent} then snd (index_workflow_summary i s) else s
        | None \<Rightarrow> s"]) (auto simp: emit_def split: option.splits)
qed

lemma emit_frame [simp]:
  "ts_tasks (emit ev pid tid s) = ts_tasks s" "ts_disk (emit ev pid tid s) = ts_disk s"
  "ts_roots (emit ev pid tid s) = ts_roots s" "ts_dirs (emit ev pid tid s) = ts_dirs s"
  "ts_lanes (emit ev pid tid s) = ts_lanes s" "ts_cancellation (emit ev pid tid s) = ts_cancellation s"
  "ts_flushes (emit ev pid tid s) = ts_flushes s" "ts_session_id (emit ev pid tid s) = ts_session_id s"
  by (rule emit_shape [of s ev pid tid]; fastforce)+

lemma emit_events:
  "ev \<noteq> WorkflowUpdated \<Longrightarrow> ts_events (emit ev pid tid s) = ts_events s @
     [\<lparr>ce_event_type = ev, ce_project_id = pid, ce_task_id = tid\<rparr>]"
  by (simp add: emit_def push_event_def split: option.splits)

lemma emit_task_frame [simp]:
  "ts_tasks (emit_task ev t s) = ts_tasks s" "ts_disk (emit_task ev t s) = ts_disk s"
  "ts_cancellation (emit_task ev t s) = ts_cancellation s"
  "ev \<noteq> WorkflowUpdated \<Longrightarrow> ts_events (emit_task ev t s) = ts_events s @
     [\<lparr>ce_event_type = ev, ce_project_id = bt_project_id t, ce_task_id = Some (bt_id t)\<rparr>]"
  by (simp_all add: emit_task_def emit_events)

lemma set_task_restores:
  "ts_tasks s i = Some en \<Longrightarrow>
   ts_tasks (set_task i (te_task en) (set_task i t s)) = ts_tasks s"
  by (auto simp: set_task_def)

text \<open>A failed write changes neither tasks, tokens, events nor the stored snapshots.\<close>

lemma persist_fail:
  assumes "persist_current_task_with_lane e i wl s = (Inl err, s')"
  shows "ts_tasks s' = ts_tasks s \<and> ts_disk s' = ts_disk s \<and> ts_events s' = ts_events s \<and>
     ts_cancellation s' = ts_cancellation s"
  using assms
  by (auto simp: persist_current_task_with_lane_def Let_def split: option.splits sum.splits if_splits)

lemma persist_ok_frame:
  assumes "persist_current_task_with_lane e i wl s = (Inr u, s')"
  shows "ts_events s' = ts_events s \<and> ts_cancellation s' = ts_cancellation s \<and>
     (\<forall>j. j \<noteq> i \<longrightarrow> ts_tasks s' j = ts_tasks s j) \<and>
     map_option te_task (ts_tasks s' i) = map_option te_task (ts_tasks s i) \<and>
     map_option te_cancellation (ts_tasks s' i) = map_option te_cancellation (ts_tasks s i) \<and>
     map_option te_workflow (ts_tasks s' i) = map_option te_workflow (ts_tasks s i)"
  using assms
  by (auto simp: persist_current_task_with_lane_def Let_def split: option.splits sum.splits if_splits)

lemma persist_ok_durable:
  assumes "persist_current_task_with_lane e i wl s = (Inr u, s')"
    and "ts_roots s i = Some root" and "ts_dirs s i = Some dir" and "ts_tasks s i = Some en"
  shows "\<exists>path. map_option te_persisted_path (ts_tasks s' i) = Some (Some path) \<and>
     ts_disk s' path = Some (persisted_of en)"
  using assms
  by (auto simp: persist_current_task_with_lane_def Let_def split: sum.splits if_splits)

lemma rollback_fail:
  assumes "persist_or_rollback e i previous undo ev t (set_task i t s) = (Inl err, s')"
    and "ts_tasks s i = Some en" and "te_task en = previous"
  shows "ts_tasks s' = ts_tasks s \<and> ts_disk s' = ts_disk s \<and> ts_events s' = ts_events s \<and>
     ts_cancellation s' = undo (ts_cancellation s)"
proof -
  obtain s1 where p: "persist_current_task_with_lane e i True (set_task i t s) = (Inl err, s1)"
    and s': "s' = set_cancellation undo (set_task i previous s1)"
    using assms(1) by (auto simp: persist_or_rollback_def split: prod.splits sum.splits)
  from persist_fail [OF p] have "ts_tasks s1 = ts_tasks (set_task i t s)" by simp
  then have "ts_tasks (set_task i previous s1) = ts_tasks s"
    using assms(2,3) set_task_restores [of s i en t] by (auto simp: set_task_def)
  with persist_fail [OF p] s' show ?thesis by simp
qed

lemma rollback_ok:
  assumes "persist_or_rollback e i previous undo ev t (set_task i t s) = (Inr t', s')"
    and "ts_tasks s i = Some en"
  shows "t' = t \<and> get_task i s' = Some t \<and> ts_cancellation s' = ts_cancellation s \<and>
     (\<forall>j. j \<noteq> i \<longrightarrow> ts_tasks s' j = ts_tasks s j) \<and>
     map_option te_cancellation (ts_tasks s' i) = Some (te_cancellation en) \<and>
     (ev \<noteq> Some WorkflowUpdated \<longrightarrow> ts_events s' = ts_events s @ (case ev of None \<Rightarrow> [] | Some x \<Rightarrow>
       [\<lparr>ce_event_type = x, ce_project_id = bt_project_id t, ce_task_id = Some (bt_id t)\<rparr>]))"
proof -
  obtain u s1 where p: "persist_current_task_with_lane e i True (set_task i t s) = (Inr u, s1)"
    and s': "s' = (case ev of None \<Rightarrow> s1 | Some x \<Rightarrow> emit_task x t s1)" and t': "t' = t"
    using assms(1) by (auto simp: persist_or_rollback_def split: prod.splits sum.splits)
  from persist_ok_frame [OF p] assms(2) have "get_task i s1 = Some t"
    and "map_option te_cancellation (ts_tasks s1 i) = Some (te_cancellation en)"
    by (simp_all add: get_task_def)
  with persist_ok_frame [OF p] s' t' show ?thesis
    by (cases ev) (simp_all add: get_task_def)
qed

lemma rollback_durable:
  assumes "persist_or_rollback e i previous undo ev t (set_task i t s) = (Inr t', s')"
    and "ts_tasks s i = Some en" and "ts_roots s i = Some root" and "ts_dirs s i = Some dir"
  shows "\<exists>path pe. map_option te_persisted_path (ts_tasks s' i) = Some (Some path) \<and>
     ts_disk s' path = Some pe \<and> pe_task pe = t"
proof -
  obtain u s1 where p: "persist_current_task_with_lane e i True (set_task i t s) = (Inr u, s1)"
    and s': "s' = (case ev of None \<Rightarrow> s1 | Some x \<Rightarrow> emit_task x t s1)"
    using assms(1) by (auto simp: persist_or_rollback_def split: prod.splits sum.splits)
  from persist_ok_durable [OF p, of root dir "en\<lparr>te_task := t\<rparr>"] assms(2-4)
  obtain path where "map_option te_persisted_path (ts_tasks s1 i) = Some (Some path)"
    and "ts_disk s1 path = Some (persisted_of (en\<lparr>te_task := t\<rparr>))" by auto
  with s' show ?thesis by (auto simp: persisted_of_def split: option.splits)
qed

section \<open>What every operation promises\<close>

text \<open>
  The effect of an admitted operation on the task: its identity is kept, its status changes
  along the status machine (or as the two recovery paths say), and a status that ends the task
  comes with its completion time. The flag says whether the token of the task was signalled.
\<close>

definition plain_status_ok ::
  "bool \<Rightarrow> 'x plain_operation \<Rightarrow> 'x backend_task \<Rightarrow> 'x backend_task \<Rightarrow> bool" where
  "plain_status_ok sig op a b \<longleftrightarrow> bt_status b = bt_status a \<or>
     transition_allowed (bt_status a) (bt_status b) \<or>
     (case op of
        Transactional RecoverSealed \<Rightarrow> bt_status a = Failed \<and> bt_status b = Succeeded \<and>
          bt_task_type a = AgentRun \<and> bt_result a \<noteq> None
      | Transactional (FinishOperation _ _ _) \<Rightarrow> bt_status b = Cancelled \<and> sig
      | _ \<Rightarrow> False)"

definition plain_effect ::
  "bool \<Rightarrow> 'x plain_operation \<Rightarrow> 'x backend_task \<Rightarrow> 'x backend_task \<Rightarrow> bool" where
  "plain_effect sig op a b \<longleftrightarrow> bt_id b = bt_id a \<and> bt_task_type b = bt_task_type a \<and>
     bt_project_id b = bt_project_id a \<and> bt_operation b = bt_operation a \<and>
     bt_started_at b = bt_started_at a \<and> plain_status_ok sig op a b \<and>
     (terminal_status (bt_status b) \<longrightarrow>
        bt_completed_at b \<noteq> None \<or> (bt_status b = bt_status a \<and> bt_completed_at b = bt_completed_at a))"

text \<open>
  What an operation may do to the tokens: the signalling operations write the cell of the
  task's own token, the others write none.
\<close>

fun signals :: "'x plain_operation \<Rightarrow> bool" where
  "signals (Transactional (Pause _)) \<longleftrightarrow> True"
| "signals (Transactional (Resume _)) \<longleftrightarrow> True"
| "signals (Transactional (CancelPaused _)) \<longleftrightarrow> True"
| "signals (Transactional (AppCancel _)) \<longleftrightarrow> True"
| "signals RequestCancel \<longleftrightarrow> True"
| "signals _ \<longleftrightarrow> False"

definition own_cell ::
  "bool \<Rightarrow> token \<Rightarrow> cancellation_registry \<Rightarrow> cancellation_registry \<Rightarrow> bool" where
  "own_cell sig a r r' \<longleftrightarrow> cr_tokens r' = cr_tokens r \<and> cr_next r' = cr_next r \<and>
     (\<forall>c. cr_cells r' c \<noteq> cr_cells r c \<longrightarrow> sig \<and> c = a)"

lemma own_cell_refl [simp]: "own_cell sig a r r"
  by (simp add: own_cell_def)

lemma own_cell_trans [trans]:
  "own_cell sig a r r' \<Longrightarrow> own_cell sig a r' r'' \<Longrightarrow> own_cell sig a r r''"
  unfolding own_cell_def by metis

lemma own_cell_ops [simp]:
  "own_cell True a r (token_cancel a r)" "own_cell True a r (token_request_pause a r)"
  "own_cell True a r (token_reset a r)"
  by (simp_all add: own_cell_def token_defs)

definition token_signalled :: "string \<Rightarrow> 'x task_service \<Rightarrow> bool" where
  "token_signalled i s = (case ts_tasks s i of
     None \<Rightarrow> False | Some en \<Rightarrow> token_is_cancelled (ts_cancellation s) (te_cancellation en))"

definition own_token :: "bool \<Rightarrow> string \<Rightarrow> 'x task_service \<Rightarrow> 'x task_service \<Rightarrow> bool" where
  "own_token sig i s s' \<longleftrightarrow> ts_cancellation s' = ts_cancellation s \<or>
     (\<exists>en. ts_tasks s i = Some en \<and>
        own_cell sig (te_cancellation en) (ts_cancellation s) (ts_cancellation s'))"

text \<open>
  The shape of every command: refused with nothing changed, or the entry's task replaced under
  \<open>persist_or_rollback\<close>, after the token was signalled. The rules follow the structure of
  the definitions, so each command is shown to have it by introduction. Every event a command
  publishes belongs to the task, so none is a workflow update.
\<close>

inductive command_shape ::
  "'x task_command \<Rightarrow> 'x service_env \<Rightarrow> string \<Rightarrow> 'x task_service \<Rightarrow> 'a sresult \<times> 'x task_service \<Rightarrow> bool"
  for cmd e i s where
  refused: "ts_tasks s' = ts_tasks s \<Longrightarrow> ts_disk s' = ts_disk s \<Longrightarrow> ts_events s' = ts_events s \<Longrightarrow>
     ts_cancellation s' = ts_cancellation s \<Longrightarrow> command_shape cmd e i s (r, s')"
| admitted: "ts_tasks s i = Some en \<Longrightarrow>
     plain_effect (token_is_cancelled (ts_cancellation s) (te_cancellation en))
       (Transactional cmd) (te_task en) t \<Longrightarrow>
     (\<And>r. own_cell (signals (Transactional cmd)) (te_cancellation en) r (f r)) \<Longrightarrow>
     (\<And>r. own_cell (signals (Transactional cmd)) (te_cancellation en) r (undo r)) \<Longrightarrow>
     ev \<noteq> Some WorkflowUpdated \<Longrightarrow>
     persist_or_rollback e i (te_task en) undo ev t
       (set_task i t (set_cancellation f (workflow_persistence_lane i s))) = (r, s') \<Longrightarrow>
     (\<And>v. r = Inr v \<Longrightarrow> r' = Inr (g v)) \<Longrightarrow> (\<And>err. r = Inl err \<Longrightarrow> r' = Inl err) \<Longrightarrow>
     command_shape cmd e i s (r', s')"

lemma shape_admitted:
  assumes "ts_tasks s i = Some en"
    and "plain_effect (token_is_cancelled (ts_cancellation s) (te_cancellation en))
       (Transactional cmd) (te_task en) t"
    and "\<And>r. own_cell (signals (Transactional cmd)) (te_cancellation en) r (f r)"
    and "\<And>r. own_cell (signals (Transactional cmd)) (te_cancellation en) r (undo r)"
    and "ev \<noteq> Some WorkflowUpdated"
  shows "command_shape cmd e i s (persist_or_rollback e i (te_task en) undo ev t
     (set_task i t (set_cancellation f (workflow_persistence_lane i s))))"
proof -
  obtain r s' where p: "persist_or_rollback e i (te_task en) undo ev t
     (set_task i t (set_cancellation f (workflow_persistence_lane i s))) = (r, s')" by fastforce
  show ?thesis unfolding p
    by (rule admitted [OF assms p, of r "\<lambda>v. v"]) simp_all
qed

lemma set_cancellation_id [simp]: "set_cancellation (\<lambda>r. r) s = s"
  by (simp add: set_cancellation_def)

lemma shape_admitted_plain:
  assumes "ts_tasks s i = Some en"
    and "plain_effect (token_is_cancelled (ts_cancellation s) (te_cancellation en))
       (Transactional cmd) (te_task en) t"
    and "\<And>r. own_cell (signals (Transactional cmd)) (te_cancellation en) r (undo r)"
    and "ev \<noteq> Some WorkflowUpdated"
  shows "command_shape cmd e i s (persist_or_rollback e i (te_task en) undo ev t
     (set_task i t (workflow_persistence_lane i s)))"
  using shape_admitted [OF assms(1,2) _ assms(3,4), where f = "\<lambda>r. r"]
  by (simp only: set_cancellation_id own_cell_refl simp_thms)

lemma shape_if:
  "(c \<Longrightarrow> command_shape cmd e i s a) \<Longrightarrow> (\<not> c \<Longrightarrow> command_shape cmd e i s b) \<Longrightarrow>
   command_shape cmd e i s (if c then a else b)"
  by simp

lemma shape_option:
  "(x = None \<Longrightarrow> command_shape cmd e i s a) \<Longrightarrow>
   (\<And>y. x = Some y \<Longrightarrow> command_shape cmd e i s (b y)) \<Longrightarrow>
   command_shape cmd e i s (case x of None \<Rightarrow> a | Some y \<Rightarrow> b y)"
  by (cases x) simp_all

lemma shape_sum:
  "(\<And>y. x = Inl y \<Longrightarrow> command_shape cmd e i s (a y)) \<Longrightarrow>
   (\<And>y. x = Inr y \<Longrightarrow> command_shape cmd e i s (b y)) \<Longrightarrow>
   command_shape cmd e i s (case x of Inl y \<Rightarrow> a y | Inr y \<Rightarrow> b y)"
  by (cases x) simp_all

lemma shape_forget: "command_shape cmd e i s p \<Longrightarrow> command_shape cmd e i s (forget p)"
proof (induction rule: command_shape.induct)
  case (refused s' r)
  then show ?case by (cases r) (auto intro: command_shape.refused)
next
  case (admitted en t f undo ev r s' r' g)
  then show ?case
    by (cases r) (auto intro!: command_shape.admitted [where g = "\<lambda>_. ()", OF admitted(1-6)])
qed

lemma close_export_forget:
  "(case r of (Inl err, s1) \<Rightarrow> (Inl err, s1) | (Inr _, s1) \<Rightarrow> (Inr (), s1)) = forget r"
  by (cases r; cases "fst r") auto

lemmas shape_intros = shape_if shape_option shape_sum shape_admitted shape_admitted_plain
  shape_forget refused

lemmas effect_defs = plain_effect_def plain_status_ok_def transition_allowed_def
  terminal_status_def

lemma own_events [simp]:
  "transition_event st \<noteq> WorkflowUpdated" "finish_event st \<noteq> Some WorkflowUpdated"
  by (cases st; simp)+

lemma not_to_Cancelling:
  "\<not> is_ok (validate_transition st Cancelling) \<Longrightarrow>
   terminal_status st \<or> st = Queued \<or> st = Cancelling"
  by (cases st) (simp_all add: terminal_status_def)

lemma run_command_shape: "command_shape cmd e i s (run_command e i cmd s)"
  by (cases cmd; simp only: run_command.simps command_defs Let_def new_lane_frame
      close_export_forget; intro shape_intros; simp add: effect_defs;
      auto dest!: not_to_Cancelling simp: terminal_status_def)

text \<open>The contract a client of the service relies on, whatever the operation.\<close>

locale atomic_operation =
  fixes operation :: "'x task_service \<Rightarrow> 'a sresult \<times> 'x task_service"
    and i :: string
  assumes failure_keeps_tasks: "operation s = (Inl err, s') \<Longrightarrow> ts_tasks s' = ts_tasks s"
    and failure_silent: "operation s = (Inl err, s') \<Longrightarrow> ts_events s' = ts_events s"
    and failure_not_stored: "operation s = (Inl err, s') \<Longrightarrow> ts_disk s' = ts_disk s"
    and frame: "j \<noteq> i \<Longrightarrow> ts_tasks (snd (operation s)) j = ts_tasks s j"
begin

lemma failure_invisible:
  "operation s = (Inl err, s') \<Longrightarrow>
   get_task j s' = get_task j s \<and> ts_events s' = ts_events s \<and> ts_disk s' = ts_disk s"
  by (simp add: get_task_def failure_keeps_tasks failure_silent failure_not_stored)

lemma other_tasks_kept: "j \<noteq> i \<Longrightarrow> get_task j (snd (operation s)) = get_task j s"
  by (simp add: get_task_def frame)

end

text \<open>
  What \<open>persist_or_rollback\<close> leaves behind, from the state a command calls it in.
\<close>

definition unchanged :: "'x task_service \<Rightarrow> 'x task_service \<Rightarrow> bool" where
  "unchanged s s' \<longleftrightarrow> ts_tasks s' = ts_tasks s \<and> ts_events s' = ts_events s \<and> ts_disk s' = ts_disk s"

definition stored :: "string \<Rightarrow> 'x task_service \<Rightarrow> bool" where
  "stored i s \<longleftrightarrow> (\<exists>path pe. map_option te_persisted_path (ts_tasks s i) = Some (Some path) \<and>
     ts_disk s path = Some pe \<and> Some (pe_task pe) = get_task i s)"

definition settled :: "string \<Rightarrow> 'x backend_task \<Rightarrow> 'x task_service \<Rightarrow> 'x task_service \<Rightarrow> bool" where
  "settled i t s s' \<longleftrightarrow> get_task i s' = Some t \<and> (\<forall>j. j \<noteq> i \<longrightarrow> ts_tasks s' j = ts_tasks s j) \<and>
     (ts_events s' = ts_events s \<or> (\<exists>ev. ts_events s' = ts_events s @
        [\<lparr>ce_event_type = ev, ce_project_id = bt_project_id t, ce_task_id = Some (bt_id t)\<rparr>])) \<and>
     (ts_roots s i \<noteq> None \<and> ts_dirs s i \<noteq> None \<longrightarrow> stored i s')"

lemma admitted_outcome:
  assumes "ts_tasks s i = Some en"
    and "\<And>r. own_cell sig (te_cancellation en) r (f r)"
    and "\<And>r. own_cell sig (te_cancellation en) r (undo r)" and "ev \<noteq> Some WorkflowUpdated"
    and "persist_or_rollback e i (te_task en) undo ev t
       (set_task i t (set_cancellation f (workflow_persistence_lane i s))) = (r, s')"
  shows "own_token sig i s s' \<and>
     ((\<exists>m. r = Inl m \<and> unchanged s s') \<or> (r = Inr t \<and> settled i t s s'))"
proof (cases r)
  case (Inl m)
  with assms rollback_fail [of e i "te_task en" undo ev t
      "set_cancellation f (workflow_persistence_lane i s)" m s' en]
  have "ts_cancellation s' = undo (f (ts_cancellation s))" and "unchanged s s'"
    by (simp_all add: unchanged_def)
  moreover have "own_cell sig (te_cancellation en) (ts_cancellation s) (undo (f (ts_cancellation s)))"
    by (rule own_cell_trans [OF assms(2) assms(3)])
  ultimately show ?thesis using Inl assms(1) by (simp add: own_token_def)
next
  case (Inr v)
  let ?s = "set_cancellation f (workflow_persistence_lane i s)"
  from Inr assms have p: "persist_or_rollback e i (te_task en) undo ev t (set_task i t ?s) = (Inr v, s')"
    and en: "ts_tasks ?s i = Some en" by simp_all
  have "ts_roots s i \<noteq> None \<and> ts_dirs s i \<noteq> None \<longrightarrow> stored i s'"
    using rollback_durable [OF p en] rollback_ok [OF p en] by (auto simp: stored_def)
  then have "settled i t s s'"
    using rollback_ok [OF p en] assms(4) by (cases ev) (auto simp: settled_def)
  then show ?thesis
    using rollback_ok [OF p en] Inr assms(1,2) by (simp add: own_token_def)
qed

text \<open>The operations without rollback leave the changed task in memory when its write fails.\<close>

lemma kept_outcome:
  assumes "persist_current_task_with_lane e i True (set_task i t s) = (r, s')"
    and "ts_tasks s i = Some en"
  shows "ts_cancellation s' = ts_cancellation s \<and> ts_events s' = ts_events s \<and>
     ((\<exists>m. r = Inl m \<and> ts_tasks s' = (ts_tasks s)(i \<mapsto> en\<lparr>te_task := t\<rparr>) \<and> ts_disk s' = ts_disk s) \<or>
      (r = Inr () \<and> settled i t s s'))"
proof (cases r)
  case (Inl m)
  with assms persist_fail [of e i True "set_task i t s" m s'] show ?thesis
    by (auto simp: set_task_def fun_eq_iff)
next
  case (Inr u)
  with assms have p: "persist_current_task_with_lane e i True (set_task i t s) = (Inr u, s')"
    and en: "ts_tasks (set_task i t s) i = Some (en\<lparr>te_task := t\<rparr>)" by simp_all
  from persist_ok_frame [OF p] assms(2) have g: "get_task i s' = Some t" by (simp add: get_task_def)
  have "ts_roots s i \<noteq> None \<and> ts_dirs s i \<noteq> None \<longrightarrow> stored i s'"
  proof
    assume "ts_roots s i \<noteq> None \<and> ts_dirs s i \<noteq> None"
    then obtain root dir where "ts_roots (set_task i t s) i = Some root"
      "ts_dirs (set_task i t s) i = Some dir" by auto
    from persist_ok_durable [OF p this en] g show "stored i s'"
      by (auto simp: stored_def persisted_of_def)
  qed
  with g Inr persist_ok_frame [OF p] show ?thesis by (simp add: settled_def)
qed

lemma settled_emit:
  assumes "settled i t s s'" and "ts_events s' = ts_events s" and "ev \<noteq> WorkflowUpdated"
  shows "settled i t s (emit_task ev t s')"
  using assms by (simp add: settled_def stored_def get_task_def)

lemma settled_cong:
  "ts_tasks s = ts_tasks s1 \<Longrightarrow> ts_events s = ts_events s1 \<Longrightarrow> ts_roots s = ts_roots s1 \<Longrightarrow>
   ts_dirs s = ts_dirs s1 \<Longrightarrow> settled i t s = settled i t s1"
  by (simp add: settled_def fun_eq_iff)

text \<open>
  The task a failed write of an operation without rollback leaves in memory.
\<close>

fun kept_task :: "'x service_env \<Rightarrow> 'x plain_operation \<Rightarrow> 'x backend_task \<Rightarrow> 'x backend_task" where
  "kept_task e RequestCancel a = cancel_requested_task e a"
| "kept_task e (SetError err) a = a\<lparr>bt_error := Some err, bt_updated_at := se_clock e 0\<rparr>"
| "kept_task e (Transactional _) a = a"

definition plain_outcome ::
  "'x service_env \<Rightarrow> string \<Rightarrow> 'x plain_operation \<Rightarrow> 'x task_service \<Rightarrow>
   unit sresult \<Rightarrow> 'x task_service \<Rightarrow> bool" where
  "plain_outcome e i op s r s' \<longleftrightarrow> own_token (signals op) i s s' \<and> (unchanged s s' \<or>
     (\<exists>en t. ts_tasks s i = Some en \<and> plain_effect (token_signalled i s) op (te_task en) t \<and>
        ((\<exists>m. r = Inl m \<and> t = kept_task e op (te_task en) \<and> ts_events s' = ts_events s \<and>
            ts_tasks s' = (ts_tasks s)(i \<mapsto> en\<lparr>te_task := t\<rparr>) \<and> ts_disk s' = ts_disk s) \<or>
         (r = Inr () \<and> settled i t s s'))))"

lemma plain_outcomeI:
  assumes "own_token (signals op) i s s'" and "ts_tasks s i = Some en"
    and "plain_effect (token_signalled i s) op (te_task en) t"
    and "(\<exists>m. r = Inl m \<and> t = kept_task e op (te_task en) \<and> ts_events s' = ts_events s \<and>
        ts_tasks s' = (ts_tasks s)(i \<mapsto> en\<lparr>te_task := t\<rparr>) \<and> ts_disk s' = ts_disk s) \<or>
      (r = Inr () \<and> settled i t s s')"
  shows "plain_outcome e i op s r s'"
  using assms unfolding plain_outcome_def by blast

lemma command_outcome:
  assumes "run_command e i cmd s = (r, s')"
  shows "own_token (signals (Transactional cmd)) i s s' \<and> (unchanged s s' \<or>
     (\<exists>en t. ts_tasks s i = Some en \<and> r = Inr () \<and> settled i t s s' \<and>
        plain_effect (token_signalled i s) (Transactional cmd) (te_task en) t))"
  using run_command_shape [of cmd e i s] unfolding assms
proof cases
  case refused
  then show ?thesis by (simp add: own_token_def unchanged_def)
next
  case (admitted en t f undo ev r0 g)
  with admitted_outcome [OF admitted(1,3,4,5,6)] show ?thesis
    by (auto simp: token_signalled_def)
qed

lemma plain_outcome_task:
  assumes "plain_outcome e i op s r s'" and "\<not> unchanged s s'"
  shows "\<exists>en b. ts_tasks s i = Some en \<and> get_task i s' = Some b \<and>
     plain_effect (token_signalled i s) op (te_task en) b"
proof -
  have "settled i t s s' \<Longrightarrow> get_task i s' = Some t" for t by (simp add: settled_def)
  moreover have "ts_tasks s' = (ts_tasks s)(i \<mapsto> en\<lparr>te_task := t\<rparr>) \<Longrightarrow> get_task i s' = Some t" for en t
    by (simp add: get_task_def)
  ultimately show ?thesis using assms unfolding plain_outcome_def by blast
qed

text \<open>A cancellation request moves the task one step along the status machine.\<close>

lemma cancel_requested_effect:
  "\<not> terminal_status (bt_status a) \<Longrightarrow> plain_effect sig op a (cancel_requested_task e a)"
  by (cases "bt_status a")
    (simp_all add: effect_defs cancel_requested_task_def cancel_next_status_def)

lemma request_cancel_outcome:
  assumes "forget (request_cancel e i s) = (r, s')"
  shows "plain_outcome e i RequestCancel s r s'"
proof (cases "\<exists>en. ts_tasks s i = Some en \<and> bt_cancellable (te_task en) \<and>
    \<not> terminal_status (bt_status (te_task en))")
  case False
  with assms have "unchanged s s' \<and> ts_cancellation s' = ts_cancellation s"
    by (auto simp: request_cancel_def request_cancel_with_previous_status_def Let_def forget_def
        unchanged_def split: option.splits if_splits)
  then show ?thesis by (simp add: plain_outcome_def own_token_def)
next
  case True
  then obtain en where en: "ts_tasks s i = Some en" "bt_cancellable (te_task en)"
    and st: "\<not> terminal_status (bt_status (te_task en))" by auto
  let ?t = "cancel_requested_task e (te_task en)"
  let ?ev = "if cancel_next_status (bt_status (te_task en)) = Cancelled then TaskCancelled
    else TaskUpdated"
  let ?s = "set_cancellation (token_cancel (te_cancellation en)) (workflow_persistence_lane i s)"
  obtain r1 s1 where p: "persist_current_task_with_lane e i True (set_task i ?t ?s) = (r1, s1)"
    by fastforce
  have "forget (request_cancel e i s) = (r1, case r1 of Inl _ \<Rightarrow> s1 | Inr _ \<Rightarrow> emit_task ?ev ?t s1)"
    using en st p
    by (cases r1) (simp_all add: request_cancel_def request_cancel_with_previous_status_def Let_def)
  with assms have r: "r = r1" and s': "s' = (case r1 of Inl _ \<Rightarrow> s1 | Inr _ \<Rightarrow> emit_task ?ev ?t s1)"
    by (metis Pair_inject)+
  have sc: "settled i ?t ?s = settled i ?t s" by (rule settled_cong) simp_all
  from kept_outcome [OF p, of en] en(1) have k: "ts_cancellation s1 = ts_cancellation ?s"
    "ts_events s1 = ts_events s"
    "(\<exists>m. r1 = Inl m \<and> ts_tasks s1 = (ts_tasks s)(i \<mapsto> en\<lparr>te_task := ?t\<rparr>) \<and> ts_disk s1 = ts_disk s) \<or>
     (r1 = Inr () \<and> settled i ?t s s1)"
    by (simp_all add: sc)
  show ?thesis
  proof (rule plain_outcomeI [of _ _ _ _ en ?t])
    show "own_token (signals RequestCancel) i s s'"
      using k(1) en(1) s' by (cases r1) (simp_all add: own_token_def)
    show "(\<exists>m. r = Inl m \<and> ?t = kept_task e RequestCancel (te_task en) \<and> ts_events s' = ts_events s \<and>
        ts_tasks s' = (ts_tasks s)(i \<mapsto> en\<lparr>te_task := ?t\<rparr>) \<and> ts_disk s' = ts_disk s) \<or>
      (r = Inr () \<and> settled i ?t s s')"
      using k(2,3) r s' settled_emit [of i ?t s s1 ?ev] by (cases r1) (simp_all split: if_splits)
  qed (use en(1) cancel_requested_effect [OF st] in simp_all)
qed

lemma set_error_outcome:
  assumes "forget (set_error e i err s) = (r, s')"
  shows "plain_outcome e i (SetError err) s r s'"
proof (cases "ts_tasks s i")
  case None
  with assms show ?thesis
    by (auto simp: set_error_def Let_def forget_def plain_outcome_def own_token_def unchanged_def)
next
  case (Some en)
  let ?t = "(te_task en)\<lparr>bt_error := Some err, bt_updated_at := se_clock e 0\<rparr>"
  obtain r1 s1 where p: "persist_current_task_with_lane e i True
      (set_task i ?t (workflow_persistence_lane i s)) = (r1, s1)"
    by fastforce
  have "forget (set_error e i err s) = (r1, case r1 of Inl _ \<Rightarrow> s1 | Inr _ \<Rightarrow> emit_task TaskUpdated ?t s1)"
    using Some p by (cases r1) (simp_all add: set_error_def Let_def)
  with assms have r: "r = r1" and s': "s' = (case r1 of Inl _ \<Rightarrow> s1 | Inr _ \<Rightarrow> emit_task TaskUpdated ?t s1)"
    by (metis Pair_inject)+
  have sc: "settled i ?t (workflow_persistence_lane i s) = settled i ?t s"
    by (rule settled_cong) simp_all
  from kept_outcome [OF p, of en] Some have k: "ts_cancellation s1 = ts_cancellation s"
    "ts_events s1 = ts_events s"
    "(\<exists>m. r1 = Inl m \<and> ts_tasks s1 = (ts_tasks s)(i \<mapsto> en\<lparr>te_task := ?t\<rparr>) \<and> ts_disk s1 = ts_disk s) \<or>
     (r1 = Inr () \<and> settled i ?t s s1)"
    by (simp_all add: sc)
  show ?thesis
  proof (rule plain_outcomeI [of _ _ _ _ en ?t])
    show "own_token (signals (SetError err)) i s s'"
      using k(1) s' by (cases r1) (simp_all add: own_token_def)
    show "(\<exists>m. r = Inl m \<and> ?t = kept_task e (SetError err) (te_task en) \<and> ts_events s' = ts_events s \<and>
        ts_tasks s' = (ts_tasks s)(i \<mapsto> en\<lparr>te_task := ?t\<rparr>) \<and> ts_disk s' = ts_disk s) \<or>
      (r = Inr () \<and> settled i ?t s s')"
      using k(2,3) r s' settled_emit [of i ?t s s1 TaskUpdated] by (cases r1) simp_all
  qed (use Some in \<open>simp_all add: plain_effect_def plain_status_ok_def\<close>)
qed

lemma run_plain_outcome:
  assumes "run_plain e i op s = (r, s')"
  shows "plain_outcome e i op s r s'"
proof (cases op)
  case (Transactional cmd)
  with assms command_outcome [of e i cmd s r s'] show ?thesis
    by (auto simp: plain_outcome_def)
qed (use assms request_cancel_outcome set_error_outcome in auto)

interpretation command: atomic_operation "run_command e i cmd" i for e i cmd
proof unfold_locales
  fix s err s'
  assume "run_command e i cmd s = (Inl err, s')"
  from command_outcome [OF this]
  show "ts_tasks s' = ts_tasks s" and "ts_events s' = ts_events s" and "ts_disk s' = ts_disk s"
    by (auto simp: unchanged_def)
next
  fix s j
  assume "j \<noteq> i"
  then show "ts_tasks (snd (run_command e i cmd s)) j = ts_tasks s j"
    using command_outcome [of e i cmd s "fst (run_command e i cmd s)"
      "snd (run_command e i cmd s)"] by (auto simp: unchanged_def settled_def)
qed

text \<open>A cancellation request that returns leaves a task that is cancelling or at its end.\<close>

lemma cancel_requested_task_status:
  "bt_status (cancel_requested_task e t) = cancel_next_status (bt_status t) \<and>
   (terminal_status (bt_status (cancel_requested_task e t)) \<longrightarrow>
      bt_completed_at (cancel_requested_task e t) \<noteq> None)"
  by (simp add: cancel_requested_task_def cancel_next_status_def Let_def terminal_status_def)

lemma request_cancel_ok:
  assumes "request_cancel e i s = (Inr t, s')"
  shows "get_task i s' = Some t \<and> (terminal_status (bt_status t) \<or> bt_status t = Cancelling)"
proof -
  obtain st where r: "request_cancel_with_previous_status e i s = (Inr (t, st), s')"
    using assms by (auto simp: request_cancel_def split: prod.splits sum.splits)
  then obtain en where en: "ts_tasks s i = Some en" and c: "bt_cancellable (te_task en)"
    by (auto simp: request_cancel_with_previous_status_def Let_def split: option.splits if_splits)
  show ?thesis
  proof (cases "terminal_status (bt_status (te_task en))")
    case True
    with r en c show ?thesis
      by (auto simp: request_cancel_with_previous_status_def Let_def get_task_def)
  next
    case False
    then obtain u s2 where p: "persist_current_task_with_lane e i True
         (set_task i (cancel_requested_task e (te_task en)) (set_cancellation
           (token_cancel (te_cancellation en)) (workflow_persistence_lane i s))) = (Inr u, s2)"
      and t: "t = cancel_requested_task e (te_task en)" and s2: "ts_tasks s' = ts_tasks s2"
      using r en c by (auto simp: request_cancel_with_previous_status_def Let_def
          split: prod.splits sum.splits)
    from persist_ok_frame [OF p] en t s2 show ?thesis
      by (auto simp: get_task_def terminal_status_def cancel_requested_task_status
          cancel_next_status_def)
  qed
qed

section \<open>Properties of the plain commands\<close>

text \<open>A project task, its service and two environments: writes succeed, or the disk is full.\<close>

definition sample_env :: "unit service_env" where
  "sample_env = \<lparr>se_clock = (\<lambda>n. if n = 0 then ''t1'' else ''t2''), se_now_ms = 0,
     se_validate_dir = (\<lambda>root dir. Inr dir),
     se_write = (\<lambda>root dir i pe. Inr (dir @ ''/'' @ i @ ''.json'')),
     se_remove = (\<lambda>_ _ _ _. Inr ())\<rparr>"

definition full_disk_env :: "unit service_env" where
  "full_disk_env = sample_env\<lparr>se_write := (\<lambda>_ _ _ _. Inl ''disk full'')\<rparr>"

definition sample_task :: "task_status \<Rightarrow> unit backend_task" where
  "sample_task st = \<lparr>bt_id = ''a'', bt_task_type = Export, bt_project_id = Some ''p'',
     bt_batch_id = None, bt_operation = None, bt_title = ''Export'', bt_status = st,
     bt_progress = None, bt_started_at = ''t0'', bt_updated_at = ''t0'', bt_completed_at = None,
     bt_cancellable = True, bt_log_path = None, bt_result = None, bt_error = None\<rparr>"

definition sample_service :: "unit backend_task \<Rightarrow> 8 word \<Rightarrow> unit task_service" where
  "sample_service t sig = \<lparr>ts_tasks = [''a'' \<mapsto> \<lparr>te_task = t, te_cancellation = 0,
       te_log_lines = [], te_activities = [], te_persisted_path = None, te_workflow = None\<rparr>],
     ts_roots = [''a'' \<mapsto> ''/p''], ts_dirs = [''a'' \<mapsto> ''/p/tasks''], ts_lanes = Map.empty,
     ts_cancellation = \<lparr>cr_tokens = [''a'' \<mapsto> 0], cr_cells = (\<lambda>_. sig), cr_next = 1\<rparr>,
     ts_disk = Map.empty, ts_events = [], ts_history_revision = 0, ts_index = index_default,
     ts_session_id = ''s'',
     ts_flushes = []\<rparr>"

lemmas service_eval = sample_env_def full_disk_env_def sample_task_def sample_service_def
  command_defs Let_def workflow_persistence_lane_def
  persist_or_rollback_def set_task_def set_cancellation_def persist_current_task_with_lane_def
  validate_persistence_dir_def forget_def terminal_status_def emit_task_def emit_def push_event_def get_task_def persisted_of_def
  lane_update_def token_defs signal_defs

definition sample_result :: "unit task_result" where
  "sample_result = \<lparr>tr_summary = ''done'', tr_affected_paths = [], tr_reference = None,
     tr_pending_action = None\<rparr>"

definition queued_service :: "unit task_service" where
  "queued_service = sample_service (sample_task Queued) TASK_SIGNAL_RUNNING"

definition running_service :: "unit task_service" where
  "running_service = sample_service (sample_task Running) TASK_SIGNAL_RUNNING"

definition install_task :: "task_status \<Rightarrow> unit backend_task" where
  "install_task st = (sample_task st)\<lparr>bt_task_type := CapabilityInstallTask, bt_project_id := None,
     bt_operation := Some (AppCapabilityInstall ''o'' ''c'' ''v'' ''d'' None)\<rparr>"

lemmas sample_defs = service_eval queued_service_def running_service_def install_task_def

text \<open>
  C8: What an operation on a plain task that returns an error leaves behind (the eleven
  operations of \<open>task_command\<close>, \<open>request_cancel\<close> and \<open>set_error\<close>): no
  event is published, no stored snapshot differs and no other task changes. The operations of
  \<open>task_command\<close> leave the task itself as it was too, whether refused by their guards or
  by a failed write. A failed \<open>request_cancel\<close> or \<open>set_error\<close> leaves the task as it
  was (refused) or with exactly the requested change in memory (the write failed). Only the
  operations that signal may leave a token changed, and only the cell of the task's own token.
\<close>

theorem failed_operation_effect:
  assumes "run_plain e i op s = (Inl err, s')"
  shows "ts_events s' = ts_events s \<and> ts_disk s' = ts_disk s \<and>
     (ts_tasks s' = ts_tasks s \<or>
      (\<exists>en t. ts_tasks s i = Some en \<and> ts_tasks s' = (ts_tasks s)(i \<mapsto> en\<lparr>te_task := t\<rparr>) \<and>
         ((op = RequestCancel \<and> t = cancel_requested_task e (te_task en)) \<or>
          (\<exists>x. op = SetError x \<and>
             t = (te_task en)\<lparr>bt_error := Some x, bt_updated_at := se_clock e 0\<rparr>)))) \<and>
     cr_tokens (ts_cancellation s') = cr_tokens (ts_cancellation s) \<and>
     (\<forall>c. cr_cells (ts_cancellation s') c \<noteq> cr_cells (ts_cancellation s) c \<longrightarrow>
        signals op \<and> map_option te_cancellation (ts_tasks s i) = Some c)"
proof -
  from run_plain_outcome [OF assms] have tok: "own_token (signals op) i s s'"
    and out: "unchanged s s' \<or> (\<exists>en. ts_tasks s i = Some en \<and> ts_events s' = ts_events s \<and>
      ts_disk s' = ts_disk s \<and>
      ts_tasks s' = (ts_tasks s)(i \<mapsto> en\<lparr>te_task := kept_task e op (te_task en)\<rparr>))"
    by (auto simp: plain_outcome_def)
  show ?thesis
  proof (cases op)
    case (Transactional cmd)
    with assms have "run_command e i cmd s = (Inl err, s')" by simp
    from command.failure_keeps_tasks [OF this] command.failure_invisible [OF this] tok
    show ?thesis by (auto simp: own_token_def own_cell_def)
  qed (use tok out in \<open>auto simp: unchanged_def own_token_def own_cell_def\<close>)
qed

theorem failed_operation_effect_witness:
  "fst (run_plain full_disk_env ''a'' (Transactional (TransitionTo Running)) queued_service) =
     Inl ''disk full'' \<and>
   get_task ''a'' (snd (run_plain full_disk_env ''a'' (Transactional (TransitionTo Running))
     queued_service)) = get_task ''a'' queued_service \<and>
   map_option bt_status (get_task ''a'' (snd (run_plain full_disk_env ''a'' RequestCancel
     running_service))) = Some Cancelling"
proof -
  let ?r = "run_plain full_disk_env ''a'' (Transactional (TransitionTo Running)) queued_service"
  let ?q = "run_plain full_disk_env ''a'' RequestCancel running_service"
  have f: "fst ?r = Inl ''disk full''" by (simp add: sample_defs)
  then have r: "?r = (Inl ''disk full'', snd ?r)" by (simp add: prod_eq_iff)
  have "map_option bt_status (get_task ''a'' (snd ?q)) = Some Cancelling"
    by (simp add: sample_defs request_cancel_def request_cancel_with_previous_status_def
        cancel_requested_task_def cancel_next_status_def)
  with failed_operation_effect [OF r] f show ?thesis by (auto simp: get_task_def)
qed

text \<open>
  C7: An operation on a plain task (the eleven of \<open>task_command\<close>, \<open>request_cancel\<close> and
  \<open>set_error\<close>), whatever it returns, leaves the task in the registry with its identity
  (id, type, project, operation, start time) and changes its status only along
  \<open>validate_transition\<close>, with two exceptions: the recovery of an agent run that Failed with
  a sealed result, to Succeeded, and \<open>finish_running_operation\<close> on a task whose token is
  signalled, which ends Cancelled from any status. A status that ends the task comes with a
  completion time, unless the status was there before.
\<close>

theorem operation_keeps_identity_and_status_machine:
  assumes "run_plain e i op s = (r, s')" and "get_task i s = Some a"
  shows "\<exists>b. get_task i s' = Some b \<and> (bt_id b, bt_task_type b, bt_project_id b, bt_operation b,
       bt_started_at b) = (bt_id a, bt_task_type a, bt_project_id a, bt_operation a, bt_started_at a) \<and>
     (bt_status b = bt_status a \<or> transition_allowed (bt_status a) (bt_status b) \<or>
      (op = Transactional RecoverSealed \<and> bt_task_type a = AgentRun \<and> bt_result a \<noteq> None \<and>
         bt_status a = Failed \<and> bt_status b = Succeeded) \<or>
      ((\<exists>res st err. op = Transactional (FinishOperation res st err)) \<and> bt_status b = Cancelled \<and>
         (\<exists>en. ts_tasks s i = Some en \<and>
            token_is_cancelled (ts_cancellation s) (te_cancellation en)))) \<and>
     (terminal_status (bt_status b) \<and> bt_completed_at b = None \<longrightarrow> bt_status b = bt_status a)"
proof (cases "unchanged s s'")
  case True
  with assms(2) show ?thesis by (auto simp: unchanged_def get_task_def)
next
  case False
  with plain_outcome_task [OF run_plain_outcome [OF assms(1)]] assms(2) obtain en b
    where en: "ts_tasks s i = Some en" and b: "get_task i s' = Some b"
    and eff: "plain_effect (token_signalled i s) op a b"
    by (auto simp: get_task_def)
  have "plain_status_ok (token_signalled i s) op a b" using eff by (simp add: plain_effect_def)
  then have "bt_status b = bt_status a \<or> transition_allowed (bt_status a) (bt_status b) \<or>
      (op = Transactional RecoverSealed \<and> bt_task_type a = AgentRun \<and> bt_result a \<noteq> None \<and>
         bt_status a = Failed \<and> bt_status b = Succeeded) \<or>
      ((\<exists>res st err. op = Transactional (FinishOperation res st err)) \<and> bt_status b = Cancelled \<and>
         (\<exists>en. ts_tasks s i = Some en \<and>
            token_is_cancelled (ts_cancellation s) (te_cancellation en)))"
    using en by (auto simp: plain_status_ok_def token_signalled_def
        split: plain_operation.splits task_command.splits)
  with b eff show ?thesis by (auto simp: plain_effect_def)
qed

theorem operation_keeps_identity_and_status_machine_witness:
  "\<exists>b. get_task ''a'' (snd (run_plain sample_env ''a'' (Transactional (CompleteRunning
     sample_result)) running_service)) = Some b \<and> bt_status b = Succeeded \<and> bt_completed_at b \<noteq> None"
proof -
  let ?r = "run_plain sample_env ''a'' (Transactional (CompleteRunning sample_result)) running_service"
  have r: "?r = (fst ?r, snd ?r)" by simp
  have a: "map_option bt_status (get_task ''a'' running_service) = Some Running" by (simp add: sample_defs)
  then obtain a where g: "get_task ''a'' running_service = Some a" by auto
  have s: "map_option bt_status (get_task ''a'' (snd ?r)) = Some Succeeded" by (simp add: sample_defs)
  from operation_keeps_identity_and_status_machine [OF r g] a g s show ?thesis
    by (auto simp: terminal_status_def)
qed



text \<open>
  Once a run has sealed its result (the result is stored and the task is no longer
  cancellable), no cancellation gets in between the seal and the completion: the request is
  refused and changes nothing.
\<close>

theorem sealed_refuses_cancel:
  assumes "seal_running_with_result e i result s = (Inr t, s')"
  shows "bt_result t = Some result \<and> bt_status t = Running \<and> get_task i s' = Some t \<and>
     fst (request_cancel e' i s') = Inl (''Task is not cancellable: '' @ i) \<and>
     unchanged s' (snd (request_cancel e' i s')) \<and>
     ts_cancellation (snd (request_cancel e' i s')) = ts_cancellation s'"
proof -
  obtain en where en: "ts_tasks s i = Some en" and st: "bt_status (te_task en) = Running"
    and p: "persist_or_rollback e i (te_task en) id None ((te_task en)\<lparr>bt_result := Some result,
       bt_cancellable := False, bt_updated_at := se_clock e 0\<rparr>) (set_task i ((te_task en)\<lparr>
       bt_result := Some result, bt_cancellable := False, bt_updated_at := se_clock e 0\<rparr>)
       (workflow_persistence_lane i s)) = (Inr t, s')"
    using assms by (auto simp: seal_running_with_result_def Let_def split: option.splits if_splits)
  from rollback_ok [OF p, of en] en have t: "t = (te_task en)\<lparr>bt_result := Some result,
       bt_cancellable := False, bt_updated_at := se_clock e 0\<rparr>" and g: "get_task i s' = Some t"
    by simp_all
  from g obtain en' where "ts_tasks s' i = Some en'" and "te_task en' = t"
    by (auto simp: get_task_def)
  with t st g show ?thesis
    by (simp add: request_cancel_def request_cancel_with_previous_status_def unchanged_def)
qed

theorem sealed_refuses_cancel_witness:
  "fst (request_cancel sample_env ''a'' (snd (seal_running_with_result sample_env ''a''
     sample_result running_service))) = Inl ''Task is not cancellable: a''"
proof -
  let ?r = "seal_running_with_result sample_env ''a'' sample_result running_service"
  obtain t where "fst ?r = Inr t" by (simp add: sample_defs)
  then have "?r = (Inr t, snd ?r)" by (simp add: prod_eq_iff)
  from sealed_refuses_cancel [OF this] show ?thesis by simp
qed

text \<open>
  The other order: once a cancellation request returned, neither a seal nor a completion
  can claim the task, whatever it was doing.
\<close>

theorem cancelled_refuses_completion:
  assumes "request_cancel e i s = (Inr t, s')"
  shows "fst (seal_running_with_result e' i result s') = Inl (''Task is no longer running: '' @ i) \<and>
     fst (complete_running_with_result e' i result s') = Inl (''Task is no longer running: '' @ i) \<and>
     (bt_task_type t = Export \<longrightarrow>
        fst (close_export_cancellation e' i s') = Inl (''Export task is no longer running: '' @ i))"
proof -
  have g: "get_task i s' = Some t \<and> bt_status t \<noteq> Running"
    using request_cancel_ok [OF assms] by (auto simp: terminal_status_def)
  then obtain en where "ts_tasks s' i = Some en" and "te_task en = t" by (auto simp: get_task_def)
  with g show ?thesis
    by (simp add: seal_running_with_result_def complete_running_with_result_def
        close_export_cancellation_def Let_def)
qed

theorem cancelled_refuses_completion_witness:
  "fst (seal_running_with_result sample_env ''a'' sample_result
     (snd (request_cancel sample_env ''a'' running_service))) = Inl ''Task is no longer running: a''"
proof -
  let ?r = "request_cancel sample_env ''a'' running_service"
  obtain t where "fst ?r = Inr t"
    by (simp add: sample_defs request_cancel_def request_cancel_with_previous_status_def)
  then have "?r = (Inr t, snd ?r)" by (simp add: prod_eq_iff)
  from cancelled_refuses_completion [OF this] show ?thesis by simp
qed

text \<open>
  The end of a long-running operation: cancellation wins over the outcome the worker
  reports. If the task was cancelling or its token signalled, the task ends Cancelled with
  neither result nor error; otherwise it was running and ends with exactly the reported
  status, result and error, an error being there if and only if the status is Failed.
\<close>

theorem finish_running_operation_outcome:
  assumes "finish_running_operation e i result desired err s = (Inr t, s')"
    and "ts_tasks s i = Some en"
  shows "get_task i s' = Some t \<and> (desired = Failed \<longleftrightarrow> err \<noteq> None) \<and>
     (if bt_status (te_task en) = Cancelling \<or> token_is_cancelled (ts_cancellation s) (te_cancellation en)
      then bt_status t = Cancelled \<and> bt_result t = None \<and> bt_error t = None \<and> bt_completed_at t \<noteq> None
      else bt_status (te_task en) = Running \<and> bt_status t = desired \<and> bt_result t = Some result \<and>
        bt_error t = err \<and> (bt_completed_at t = None \<longleftrightarrow> desired = WaitingForConfirmation))"
  using assms
  by (auto simp: finish_running_operation_def Let_def dest!: rollback_ok split: if_splits)

theorem finish_running_operation_outcome_witness:
  "\<exists>t. fst (finish_running_operation sample_env ''a'' sample_result Succeeded None
       (sample_service (sample_task Cancelling) TASK_SIGNAL_CANCELLED)) = Inr t \<and>
     bt_status t = Cancelled \<and> bt_result t = None"
proof -
  let ?s = "sample_service (sample_task Cancelling) TASK_SIGNAL_CANCELLED"
  let ?r = "finish_running_operation sample_env ''a'' sample_result Succeeded None ?s"
  obtain t where f: "fst ?r = Inr t" by (simp add: sample_defs)
  then have r: "?r = (Inr t, snd ?r)" by (simp add: prod_eq_iff)
  obtain en where en: "ts_tasks ?s ''a'' = Some en" and "bt_status (te_task en) = Cancelling"
    by (simp add: sample_defs)
  with finish_running_operation_outcome [OF r en] f show ?thesis by auto
qed

text \<open>
  C36: Pausing a queued application install and resuming it gives the install back: the task is
  the one before the pause, without error and with the resume time as its revision, and its
  token no longer stops the worker.
\<close>

theorem pause_resume_roundtrip:
  assumes "request_app_task_pause e i expected s = (Inr t1, s1)"
    and "resume_app_task e' i expected' s1 = (Inr t2, s2)"
    and "ts_tasks s i = Some en" and "bt_status (te_task en) = Queued"
  shows "bt_status t1 = Interrupted \<and> token_is_cancelled (ts_cancellation s1) (te_cancellation en) \<and>
     expected' = bt_updated_at t1 \<and>
     t2 = (te_task en)\<lparr>bt_error := None, bt_completed_at := None, bt_updated_at := se_clock e' 0\<rparr> \<and>
     \<not> token_is_cancelled (ts_cancellation s2) (te_cancellation en)"
proof -
  let ?t = "(te_task en)\<lparr>bt_status := Interrupted, bt_completed_at := Some (se_clock e 0),
     bt_updated_at := se_clock e 1\<rparr>"
  have p: "persist_or_rollback e i (te_task en) (token_reset (te_cancellation en))
       (Some TaskUpdated) ?t (set_task i ?t (set_cancellation
         (token_request_pause (te_cancellation en)) (workflow_persistence_lane i s))) = (Inr t1, s1)"
    using assms(1,3,4) by (auto simp: request_app_task_pause_def Let_def split: sum.splits)
  from rollback_ok [OF p, of en] assms(3) have t1: "t1 = ?t" and g: "get_task i s1 = Some ?t"
    and c: "ts_cancellation s1 = token_request_pause (te_cancellation en) (ts_cancellation s)"
    and tc: "map_option te_cancellation (ts_tasks s1 i) = Some (te_cancellation en)" by simp_all
  from g tc obtain en1 where en1: "ts_tasks s1 i = Some en1" "te_task en1 = ?t"
    "te_cancellation en1 = te_cancellation en" by (auto simp: get_task_def)
  let ?u = "?t\<lparr>bt_status := Queued, bt_error := None, bt_completed_at := None,
     bt_updated_at := se_clock e' 0\<rparr>"
  have q: "persist_or_rollback e' i (te_task en1) (token_request_pause (te_cancellation en1))
       (Some TaskUpdated) ?u (set_task i ?u (set_cancellation
         (token_reset (te_cancellation en1)) (workflow_persistence_lane i s1))) = (Inr t2, s2)"
    and rev: "expected' = bt_updated_at t1"
    using assms(2) en1 t1
    by (auto simp: resume_app_task_def require_app_capability_task_revision_def Let_def
        split: sum.splits if_splits)
  from rollback_ok [OF q, of en1] en1 t1 c rev assms(4) show ?thesis
    by (cases "te_task en") simp
qed

theorem pause_resume_roundtrip_witness:
  "\<exists>t1 t2. fst (request_app_task_pause sample_env ''a'' ''t0''
       (sample_service (install_task Queued) TASK_SIGNAL_RUNNING)) = Inr t1 \<and>
     fst (resume_app_task sample_env ''a'' (bt_updated_at t1) (snd (request_app_task_pause sample_env
       ''a'' ''t0'' (sample_service (install_task Queued) TASK_SIGNAL_RUNNING)))) = Inr t2 \<and>
     bt_status t1 = Interrupted \<and> bt_status t2 = Queued"
proof -
  let ?s = "sample_service (install_task Queued) TASK_SIGNAL_RUNNING"
  let ?r = "request_app_task_pause sample_env ''a'' ''t0'' ?s"
  let ?q = "\<lambda>rev. resume_app_task sample_env ''a'' rev (snd ?r)"
  obtain t1 where f: "fst ?r = Inr t1" and u: "bt_updated_at t1 = ''t2''"
    by (simp add: sample_defs require_app_capability_task_revision_def)
  obtain t2 where h: "fst (?q ''t2'') = Inr t2"
    by (simp add: sample_defs require_app_capability_task_revision_def)
  obtain en where en: "ts_tasks ?s ''a'' = Some en" "bt_status (te_task en) = Queued"
    by (simp add: sample_defs)
  have r: "?r = (Inr t1, snd ?r)" and q: "?q ''t2'' = (Inr t2, snd (?q ''t2''))"
    using f h by (simp_all add: prod_eq_iff)
  from pause_resume_roundtrip [OF r q en] f h u en show ?thesis by auto
qed

text \<open>
  When the snapshot of the cancellation of a paused install cannot be written, the
  task is put back as Interrupted, but its token is not put back to paused:
  \<open>request_pause\<close> only takes a running token, so the rollback leaves the cancellation signal.
\<close>

theorem cancel_paused_rollback_keeps_cancel_signal:
  assumes "cancel_paused_app_task e i expected s = (Inl err, s')" and "ts_tasks s i = Some en"
    and "bt_status (te_task en) = Interrupted"
    and "is_ok (require_app_capability_task_revision (te_task en) expected)"
    and "token_is_pause_requested (ts_cancellation s) (te_cancellation en)"
  shows "get_task i s' = Some (te_task en) \<and>
     \<not> token_is_pause_requested (ts_cancellation s') (te_cancellation en) \<and>
     cr_cells (ts_cancellation s') (te_cancellation en) = TASK_SIGNAL_CANCELLED"
proof -
  let ?t = "(te_task en)\<lparr>bt_status := Cancelled, bt_updated_at := se_clock e 0,
     bt_completed_at := Some (se_clock e 0)\<rparr>"
  have p: "persist_or_rollback e i (te_task en) (token_request_pause (te_cancellation en))
       (Some TaskCancelled) ?t (set_task i ?t (set_cancellation
         (token_cancel (te_cancellation en)) (workflow_persistence_lane i s))) = (Inl err, s')"
    using assms(1-4) by (auto simp: cancel_paused_app_task_def Let_def split: sum.splits)
  from rollback_fail [OF p, of en] assms(2) show ?thesis
    by (simp add: get_task_def token_defs)
qed

theorem cancel_paused_rollback_keeps_cancel_signal_witness:
  "cr_cells (ts_cancellation (snd (cancel_paused_app_task full_disk_env ''a'' ''t0''
     (sample_service (install_task Interrupted) TASK_SIGNAL_PAUSED)))) 0 = TASK_SIGNAL_CANCELLED"
proof -
  let ?s = "sample_service (install_task Interrupted) TASK_SIGNAL_PAUSED"
  let ?r = "cancel_paused_app_task full_disk_env ''a'' ''t0'' ?s"
  obtain en where en: "ts_tasks ?s ''a'' = Some en" "bt_status (te_task en) = Interrupted"
    "is_ok (require_app_capability_task_revision (te_task en) ''t0'')"
    "token_is_pause_requested (ts_cancellation ?s) (te_cancellation en)" "te_cancellation en = 0"
    by (simp add: sample_defs require_app_capability_task_revision_def)
  have "fst ?r = Inl ''disk full''"
    by (simp add: sample_defs require_app_capability_task_revision_def)
  then have "?r = (Inl ''disk full'', snd ?r)" by (simp add: prod_eq_iff)
  from cancel_paused_rollback_keeps_cancel_signal [OF this en(1-4)] en(5) show ?thesis by simp
qed

end
