(* ===== verification/Workflow_Service.thy ===== *)
theory Workflow_Service
  imports Task_Service
begin

text \<open>
  Workflow tasks (\<open>tasks/task_service.rs\<close>): the transactional mutation
  \<open>mutate_workflow_with_durability\<close>, the stage machine driven through it, and the
  operations that dispatch on the task type (\<open>transition_status\<close>, \<open>cancel_task\<close>,
  \<open>finalize_cancellation\<close>, \<open>finalize_app_task_pause\<close>).

  A mutation is a function from the task and its execution state to an error or their new
  values: the closures of the source check everything before they write, so an error leaves
  both unchanged.
\<close>

section \<open>Transactional mutation\<close>

datatype workflow_mutation_durability = Barrier | ObservationalProgress

type_synonym 'x mutation =
  "'x backend_task \<Rightarrow> 'x workflow_execution_state \<Rightarrow>
   ('x backend_task \<times> 'x workflow_execution_state) sresult"

definition TASK_PROGRESS_PERSISTENCE_WINDOW :: nat where
  "TASK_PROGRESS_PERSISTENCE_WINDOW = 500"

definition schedule_workflow_progress_flush ::
  "string \<Rightarrow> nat \<Rightarrow> nat \<Rightarrow> 'x task_service \<Rightarrow> 'x task_service" where
  "schedule_workflow_progress_flush i delay generation s =
     s\<lparr>ts_flushes := ts_flushes s @ [(i, delay, generation)]\<rparr>"

definition set_entry ::
  "string \<Rightarrow> 'x backend_task \<Rightarrow> 'x workflow_execution_state option \<Rightarrow> 'x task_service \<Rightarrow>
   'x task_service" where
  "set_entry i t w s = s\<lparr>ts_tasks := (ts_tasks s)(i :=
     map_option (\<lambda>en. en\<lparr>te_task := t, te_workflow := w\<rparr>) (ts_tasks s i))\<rparr>"

definition emit_workflow ::
  "string \<Rightarrow> 'x backend_task \<Rightarrow> 'x task_service \<Rightarrow> 'x task_service" where
  "emit_workflow i t s =
     emit (transition_event (bt_status t)) (bt_project_id t) (Some i)
       (emit WorkflowUpdated (bt_project_id t) (Some i) s)"

definition lane_of :: "'x task_service \<Rightarrow> string \<Rightarrow> persistence_lane" where
  "lane_of s i = (case ts_lanes s i of None \<Rightarrow> lane_default | Some l \<Rightarrow> l)"

text \<open>Whether the mutated state is written now, and what its write outcome does to the lane.\<close>

definition observational_due :: "nat \<Rightarrow> persistence_lane \<Rightarrow> bool" where
  "observational_due now_ms l \<longleftrightarrow>
     (case la_last_observational_write_ms l of
        None \<Rightarrow> True | Some prev \<Rightarrow> now_ms - prev \<ge> TASK_PROGRESS_PERSISTENCE_WINDOW)"

definition lane_written ::
  "workflow_mutation_durability \<Rightarrow> nat \<Rightarrow> persistence_lane \<Rightarrow> persistence_lane" where
  "lane_written d now_ms l =
     (let l1 = lane_settled (l\<lparr>la_persisted_revision := la_next_revision l\<rparr>) in
      if d = ObservationalProgress then l1\<lparr>la_last_observational_write_ms := Some now_ms\<rparr>
      else l1)"

definition lane_memory_only :: "persistence_lane \<Rightarrow> persistence_lane" where
  "lane_memory_only l = lane_settled (l\<lparr>la_persisted_revision := la_next_revision l\<rparr>)"

definition lane_deferred :: "persistence_lane \<Rightarrow> persistence_lane" where
  "lane_deferred l =
     (let l1 = l\<lparr>la_pending_observational_revision := Some (la_next_revision l)\<rparr> in
      if la_trailing_flush_scheduled l then l1
      else l1\<lparr>la_trailing_flush_scheduled := True,
             la_trailing_flush_generation := saturating_add (la_trailing_flush_generation l) 1\<rparr>)"

definition flush_of ::
  "string \<Rightarrow> nat \<Rightarrow> persistence_lane \<Rightarrow> 'x task_service \<Rightarrow> 'x task_service" where
  "flush_of i delay before s =
     (if la_trailing_flush_scheduled before then s
      else schedule_workflow_progress_flush i delay (la_trailing_flush_generation (lane_of s i)) s)"

definition history_changed ::
  "'x backend_task \<Rightarrow> 'x workflow_execution_state \<Rightarrow> 'x backend_task \<Rightarrow>
   'x workflow_execution_state \<Rightarrow> bool" where
  "history_changed t0 w0 t w \<longleftrightarrow>
     bt_status t0 \<noteq> bt_status t \<or> (wf_result w0, wf_error w0) \<noteq> (wf_result w, wf_error w)"

definition publish_workflow ::
  "string \<Rightarrow> bool \<Rightarrow> 'x backend_task \<Rightarrow> 'x task_service \<Rightarrow> 'x task_service" where
  "publish_workflow i changed t s =
     emit_workflow i t (if changed then bump_workflow_history_revision s else s)"

text \<open>The write of an admitted mutation: the task and workflow are already in the registry.\<close>

definition persist_mutation ::
  "'x service_env \<Rightarrow> workflow_mutation_durability \<Rightarrow> string \<Rightarrow> 'x backend_task \<Rightarrow>
   'x workflow_execution_state \<Rightarrow> 'x backend_task \<Rightarrow> 'x workflow_execution_state \<Rightarrow>
   'x workflow_run \<Rightarrow> 'x task_service \<Rightarrow> 'x workflow_run sresult \<times> 'x task_service" where
  "persist_mutation e d i t0 w0 t w run s =
    (let lane = lane_of s i; now_ms = se_now_ms e; changed = history_changed t0 w0 t w;
         pe = \<lparr>pe_schema_version = PERSISTED_TASK_SCHEMA_VERSION, pe_task = t,
               pe_log_lines = [], pe_journal = True, pe_activities = [],
               pe_workflow = Some w\<rparr> in
     case ts_dirs s i of
       None \<Rightarrow> (Inr run, publish_workflow i changed t (lane_update i lane_memory_only s))
     | Some dir \<Rightarrow>
       if d = Barrier \<or> observational_due now_ms lane then
         (case ts_roots s i of
            None \<Rightarrow> (Inl (''Workflow task has no project root: '' @ i), s)
          | Some root \<Rightarrow>
            (case se_write e root dir i pe of
               Inr path \<Rightarrow>
                 (let s1 = lane_update i (lane_written d now_ms) s;
                      s2 = s1\<lparr>ts_tasks := (ts_tasks s1)(i := map_option
                               (\<lambda>en. en\<lparr>te_persisted_path := Some path\<rparr>) (ts_tasks s1 i)),
                             ts_disk := (ts_disk s1)(path \<mapsto> pe)\<rparr>
                  in (Inr run, publish_workflow i changed t s2))
             | Inl err \<Rightarrow>
                 if d = ObservationalProgress then
                   (let s1 = lane_update i (\<lambda>l. lane_deferred (l\<lparr>la_pending_error := Some err\<rparr>)) s
                    in (Inr run, flush_of i TASK_PROGRESS_PERSISTENCE_WINDOW lane
                          (publish_workflow i changed t s1)))
                 else
                   (Inl err, lane_update i (\<lambda>l. l\<lparr>la_pending_error := Some err\<rparr>)
                      (set_entry i t0 (Some w0) s))))
       else
         (let s1 = lane_update i lane_deferred s;
              elapsed = (case la_last_observational_write_ms lane of
                 None \<Rightarrow> 0 | Some prev \<Rightarrow> now_ms - prev)
          in (Inr run, flush_of i (TASK_PROGRESS_PERSISTENCE_WINDOW - elapsed) lane
                (publish_workflow i changed t s1))))"

definition stamp_mutation ::
  "'x service_env \<Rightarrow> 'x backend_task \<Rightarrow> 'x backend_task" where
  "stamp_mutation e t =
     (let t1 = t\<lparr>bt_updated_at := se_clock e 1\<rparr> in
      if terminal_status (bt_status t1) \<and> bt_completed_at t1 = None
      then t1\<lparr>bt_completed_at := Some (bt_updated_at t1)\<rparr> else t1)"

definition mutate_workflow_with_durability ::
  "'x service_env \<Rightarrow> workflow_mutation_durability \<Rightarrow> string \<Rightarrow> 'x mutation \<Rightarrow> 'x task_service \<Rightarrow>
   'x workflow_run sresult \<times> 'x task_service" where
  "mutate_workflow_with_durability e d i mutate s0 =
    (let s = workflow_persistence_lane i s0 in
     case ts_tasks s i of
       None \<Rightarrow> (Inl (not_found i), s)
     | Some en \<Rightarrow>
       (case te_workflow en of
          None \<Rightarrow> (Inl (''Task is not a workflow: '' @ i), s)
        | Some w0 \<Rightarrow>
          (case mutate (te_task en) w0 of
             Inl err \<Rightarrow> (Inl err, s)
           | Inr (t1, w1) \<Rightarrow>
             (case advance_revision w1 of
                Inl err \<Rightarrow> (Inl err, set_entry i t1 (Some w1) s)
              | Inr w2 \<Rightarrow>
                (let t2 = stamp_mutation e t1;
                     s1 = lane_update i lane_bump (set_entry i t2 (Some w2) s)
                 in case to_run w2 t2 of
                      None \<Rightarrow> (Inl (''Workflow task has no project: '' @ i), s1)
                    | Some run \<Rightarrow>
                        persist_mutation e d i (te_task en) w0 t2 w2 run s1)))))"

definition mutate_workflow ::
  "'x service_env \<Rightarrow> string \<Rightarrow> 'x mutation \<Rightarrow> 'x task_service \<Rightarrow>
   'x workflow_run sresult \<times> 'x task_service" where
  "mutate_workflow e i m s = mutate_workflow_with_durability e Barrier i m s"

text \<open>The delayed write of progress that was only kept in memory.\<close>

definition flush_pending_workflow_progress ::
  "'x service_env \<Rightarrow> string \<Rightarrow> nat \<Rightarrow> 'x task_service \<Rightarrow> 'x task_service" where
  "flush_pending_workflow_progress e i generation s0 =
    (case ts_tasks s0 i of
       None \<Rightarrow> s0
     | Some en \<Rightarrow>
       (let s = workflow_persistence_lane i s0; lane = lane_of s i in
        if la_trailing_flush_generation lane \<noteq> generation then s
        else case la_pending_observational_revision lane of
          None \<Rightarrow> lane_update i (\<lambda>l. l\<lparr>la_trailing_flush_scheduled := False\<rparr>) s
        | Some revision \<Rightarrow>
          (case (ts_roots s i, ts_dirs s i) of
             (Some root, Some dir) \<Rightarrow>
               (case se_write e root dir i (persisted_of en) of
                  Inr path \<Rightarrow>
                    (let s1 = lane_update i (\<lambda>l. l\<lparr>la_persisted_revision := revision,
                           la_last_observational_write_ms := Some (se_now_ms e),
                           la_pending_observational_revision := None, la_pending_error := None,
                           la_trailing_flush_scheduled := False\<rparr>) s
                     in s1\<lparr>ts_tasks := (ts_tasks s1)(i \<mapsto> en\<lparr>te_persisted_path := Some path\<rparr>),
                           ts_disk := (ts_disk s1)(path \<mapsto> persisted_of en)\<rparr>)
                | Inl err \<Rightarrow> lane_update i (\<lambda>l. l\<lparr>la_pending_error := Some err,
                    la_trailing_flush_scheduled := False\<rparr>) s)
           | _ \<Rightarrow> lane_update i (\<lambda>l. l\<lparr>la_pending_observational_revision := None,
                    la_trailing_flush_scheduled := False\<rparr>) s)))"

section \<open>Guards\<close>

definition cancel_signalled :: "string \<Rightarrow> 'x task_service \<Rightarrow> bool" where
  "cancel_signalled i s =
     (case registry_get i (ts_cancellation s) of
        None \<Rightarrow> False | Some tok \<Rightarrow> token_is_cancelled (ts_cancellation s) tok)"

definition require_running_workflow :: "'x backend_task \<Rightarrow> bool \<Rightarrow> string \<Rightarrow> unit sresult" where
  "require_running_workflow t signalled i =
     (if signalled then Inl (''Workflow cancellation was requested: '' @ i)
      else if bt_status t \<noteq> Running then Inl (''Workflow is not running: '' @ i) else Inr ())"

definition require_current_stage ::
  "'x workflow_execution_state \<Rightarrow> string \<Rightarrow> unit sresult" where
  "require_current_stage w sid =
     (if wf_current_stage_id w \<noteq> Some sid then Inl (''Workflow stage is not current: '' @ sid)
      else Inr ())"

definition stage_done :: "workflow_stage \<Rightarrow> bool" where
  "stage_done st \<longleftrightarrow> st_status st \<in> {StageCompleted, StageSkipped}"

definition stage_active :: "workflow_stage \<Rightarrow> bool" where
  "stage_active st \<longleftrightarrow> st_status st \<in> {StageRunning, StageWaiting}"

definition find_stage :: "string \<Rightarrow> workflow_stage list \<Rightarrow> workflow_stage option" where
  "find_stage sid ss = List.find (\<lambda>st. st_id st = sid) ss"

text \<open>\<open>iter_mut().find(..)\<close>: the update applies to the first stage with the id.\<close>

fun update_stage ::
  "string \<Rightarrow> (workflow_stage \<Rightarrow> workflow_stage) \<Rightarrow> workflow_stage list \<Rightarrow> workflow_stage list"
where
  "update_stage sid f [] = []"
| "update_stage sid f (st # ss) =
     (if st_id st = sid then f st # ss else st # update_stage sid f ss)"

section \<open>The stage machine\<close>

definition set_workflow_queue_state ::
  "'x service_env \<Rightarrow> string \<Rightarrow> nat option \<Rightarrow> bool \<Rightarrow> 'x task_service \<Rightarrow>
   'x workflow_run sresult \<times> 'x task_service" where
  "set_workflow_queue_state e i pos cont s =
     mutate_workflow e i (\<lambda>t w. Inr (t, w\<lparr>wf_queue_position := pos,
       wf_continuation_required := cont\<rparr>)) s"

definition transition_mutation :: "task_status \<Rightarrow> 'x mutation" where
  "transition_mutation st t w =
     (case validate_transition (bt_status t) st of
        Inl err \<Rightarrow> Inl err
      | Inr _ \<Rightarrow> Inr (t\<lparr>bt_status := st\<rparr>,
          if st = Running then w\<lparr>wf_queue_position := None, wf_continuation_required := False,
              wf_cancelled_from_queue := False, wf_undo_cancel_until := None\<rparr> else w))"

definition transition_workflow_status ::
  "'x service_env \<Rightarrow> string \<Rightarrow> task_status \<Rightarrow> 'x task_service \<Rightarrow>
   'x workflow_run sresult \<times> 'x task_service" where
  "transition_workflow_status e i st s = mutate_workflow e i (transition_mutation st) s"

definition earlier_incomplete :: "nat \<Rightarrow> workflow_stage list \<Rightarrow> bool" where
  "earlier_incomplete n ss = list_ex (\<lambda>st. st_ordinal st < n \<and> \<not> stage_done st) ss"

definition start_stage_mutation ::
  "'x service_env \<Rightarrow> bool \<Rightarrow> string \<Rightarrow> string \<Rightarrow> 'x mutation" where
  "start_stage_mutation e signalled i sid t w =
     and_then (require_running_workflow t signalled i)
      (if wf_current_stage_id w \<noteq> None \<or> list_ex stage_active (wf_stages w)
       then Inl (''Workflow already has an active stage: '' @ i)
       else case find_stage sid (wf_stages w) of
         None \<Rightarrow> Inl (''Workflow stage not found: '' @ sid)
       | Some target \<Rightarrow>
         if earlier_incomplete (st_ordinal target) (wf_stages w)
         then Inl (''Earlier workflow stages are incomplete: '' @ sid)
         else if st_status target \<noteq> StagePending
         then Inl (''Workflow stage is not pending: '' @ sid)
         else Inr (t, w\<lparr>wf_stages := update_stage sid (\<lambda>st. st\<lparr>st_status := StageRunning,
                st_started_at := (case st_started_at st of
                   None \<Rightarrow> Some (se_clock e 0) | Some x \<Rightarrow> Some x),
                st_completed_at := None\<rparr>) (wf_stages w),
              wf_current_stage_id := Some sid\<rparr>))"

definition start_workflow_stage ::
  "'x service_env \<Rightarrow> string \<Rightarrow> string \<Rightarrow> 'x task_service \<Rightarrow>
   'x workflow_run sresult \<times> 'x task_service" where
  "start_workflow_stage e i sid s =
     mutate_workflow e i (start_stage_mutation e (cancel_signalled i s) i sid) s"

text \<open>The guard shared by the operations on the current, running stage.\<close>

definition current_running_stage ::
  "bool \<Rightarrow> string \<Rightarrow> string \<Rightarrow> 'x backend_task \<Rightarrow> 'x workflow_execution_state \<Rightarrow> unit sresult" where
  "current_running_stage signalled i sid t w =
     and_then (require_running_workflow t signalled i)
      (and_then (require_current_stage w sid)
        (case find_stage sid (wf_stages w) of
           None \<Rightarrow> Inl (''Workflow stage not found: '' @ sid)
         | Some st \<Rightarrow> if st_status st \<noteq> StageRunning
             then Inl (''Workflow stage is not running: '' @ sid) else Inr ()))"

definition stage_progress_mutation ::
  "bool \<Rightarrow> string \<Rightarrow> string \<Rightarrow> string option \<Rightarrow> nat \<Rightarrow> nat option \<Rightarrow> 'x mutation" where
  "stage_progress_mutation signalled i sid item current tot t w =
     and_then (current_running_stage signalled i sid t w)
      (Inr (t, w\<lparr>wf_stages := update_stage sid (\<lambda>st. st\<lparr>st_current_item := item,
         st_progress := Some \<lparr>wp_current = current, wp_total = tot\<rparr>\<rparr>) (wf_stages w)\<rparr>))"

definition update_workflow_stage_progress ::
  "'x service_env \<Rightarrow> string \<Rightarrow> string \<Rightarrow> string option \<Rightarrow> nat \<Rightarrow> nat option \<Rightarrow> 'x task_service \<Rightarrow>
   'x workflow_run sresult \<times> 'x task_service" where
  "update_workflow_stage_progress e i sid item current tot s =
     mutate_workflow_with_durability e ObservationalProgress i
       (stage_progress_mutation (cancel_signalled i s) i sid item current tot) s"

definition complete_stage_mutation ::
  "'x service_env \<Rightarrow> bool \<Rightarrow> string \<Rightarrow> string \<Rightarrow> 'x mutation" where
  "complete_stage_mutation e signalled i sid t w =
     and_then (current_running_stage signalled i sid t w)
      (Inr (t, w\<lparr>wf_stages := update_stage sid (\<lambda>st. st\<lparr>st_status := StageCompleted,
           st_completed_at := Some (se_clock e 0), st_decision := None\<rparr>) (wf_stages w),
         wf_current_stage_id := None\<rparr>))"

definition complete_workflow_stage ::
  "'x service_env \<Rightarrow> string \<Rightarrow> string \<Rightarrow> 'x task_service \<Rightarrow>
   'x workflow_run sresult \<times> 'x task_service" where
  "complete_workflow_stage e i sid s =
     mutate_workflow e i (complete_stage_mutation e (cancel_signalled i s) i sid) s"

definition skip_stage_mutation ::
  "'x service_env \<Rightarrow> bool \<Rightarrow> string \<Rightarrow> string \<Rightarrow> 'x mutation" where
  "skip_stage_mutation e signalled i sid t w =
     and_then (require_running_workflow t signalled i)
      (if wf_current_stage_id w \<noteq> None
       then Inl (''Workflow already has an active stage: '' @ i)
       else case find_stage sid (wf_stages w) of
         None \<Rightarrow> Inl (''Workflow stage not found: '' @ sid)
       | Some target \<Rightarrow>
         if earlier_incomplete (st_ordinal target) (wf_stages w)
         then Inl (''Earlier workflow stages are incomplete: '' @ sid)
         else if st_status target \<noteq> StagePending
         then Inl (''Workflow stage is not pending: '' @ sid)
         else Inr (t, w\<lparr>wf_stages := update_stage sid (\<lambda>st. st\<lparr>st_status := StageSkipped,
                st_started_at := Some (se_clock e 0), st_completed_at := Some (se_clock e 0),
                st_current_item := None, st_progress := None, st_decision := None\<rparr>)
                (wf_stages w)\<rparr>))"

definition skip_workflow_stage ::
  "'x service_env \<Rightarrow> string \<Rightarrow> string \<Rightarrow> 'x task_service \<Rightarrow>
   'x workflow_run sresult \<times> 'x task_service" where
  "skip_workflow_stage e i sid s =
     mutate_workflow e i (skip_stage_mutation e (cancel_signalled i s) i sid) s"

definition cancellable_mutation :: "bool \<Rightarrow> string \<Rightarrow> bool \<Rightarrow> 'x mutation" where
  "cancellable_mutation signalled i cancellable t w =
     and_then (if \<not> cancellable then require_running_workflow t signalled i else Inr ())
       (Inr (t\<lparr>bt_cancellable := cancellable\<rparr>, w))"

text \<open>\<open>self.get_task(id).ok_or_else(..)\<close>, after a mutation that returned \<open>Ok\<close>.\<close>

definition then_get_task ::
  "string \<Rightarrow> 'a sresult \<times> 'x task_service \<Rightarrow> 'x backend_task sresult \<times> 'x task_service" where
  "then_get_task i r =
     (case r of
        (Inl err, s) \<Rightarrow> (Inl err, s)
      | (Inr _, s) \<Rightarrow> (case get_task i s of None \<Rightarrow> (Inl (not_found i), s) | Some t \<Rightarrow> (Inr t, s)))"

definition set_task_cancellable ::
  "'x service_env \<Rightarrow> string \<Rightarrow> bool \<Rightarrow> 'x task_service \<Rightarrow>
   'x backend_task sresult \<times> 'x task_service" where
  "set_task_cancellable e i cancellable s =
     then_get_task i (mutate_workflow e i (cancellable_mutation (cancel_signalled i s) i cancellable) s)"

definition fail_stage_mutation ::
  "'x service_env \<Rightarrow> bool \<Rightarrow> string \<Rightarrow> string \<Rightarrow> workflow_error_summary \<Rightarrow>
   'x workflow_result option \<Rightarrow> 'x mutation" where
  "fail_stage_mutation e signalled i sid err result t w =
     and_then (current_running_stage signalled i sid t w)
      (and_then (validate_transition (bt_status t) Failed)
        (Inr (t\<lparr>bt_status := Failed\<rparr>,
          w\<lparr>wf_stages := update_stage sid (\<lambda>st. st\<lparr>st_status := StageFailed,
               st_completed_at := Some (se_clock e 0)\<rparr>) (wf_stages w),
            wf_current_stage_id := Some sid, wf_error := Some err, wf_result := result\<rparr>)))"

definition fail_workflow_stage_with_result ::
  "'x service_env \<Rightarrow> string \<Rightarrow> string \<Rightarrow> workflow_error_summary \<Rightarrow> 'x workflow_result option \<Rightarrow>
   'x task_service \<Rightarrow> 'x workflow_run sresult \<times> 'x task_service" where
  "fail_workflow_stage_with_result e i sid err result s =
     mutate_workflow e i (fail_stage_mutation e (cancel_signalled i s) i sid err result) s"

definition between_stages_mutation ::
  "'x service_env \<Rightarrow> workflow_error_summary \<Rightarrow> 'x workflow_result \<Rightarrow> 'x mutation" where
  "between_stages_mutation e err result t w =
     (if (case eo_operation (wf_execution_options w) of
            AgentLintRepairOperation _ \<Rightarrow> False | _ \<Rightarrow> True)
      then Inl ''The workflow is not an Agent lint repair''
      else and_then
        (if bt_status t \<noteq> WaitingForConfirmation then validate_transition (bt_status t) Failed
         else Inr ())
        (Inr (t\<lparr>bt_status := Failed, bt_cancellable := False\<rparr>,
          w\<lparr>wf_stages := map (\<lambda>st. (if stage_active st
                 then st\<lparr>st_status := StageFailed, st_completed_at := Some (se_clock e 0)\<rparr>
                 else st)\<lparr>st_decision := None\<rparr>) (wf_stages w),
            wf_error := Some err, wf_result := Some result, wf_pending_action := None,
            wf_current_stage_id := None, wf_queue_position := None,
            wf_continuation_required := False\<rparr>)))"

definition fail_agent_lint_repair_between_stages ::
  "'x service_env \<Rightarrow> string \<Rightarrow> workflow_error_summary \<Rightarrow> 'x workflow_result \<Rightarrow>
   'x task_service \<Rightarrow> 'x workflow_run sresult \<times> 'x task_service" where
  "fail_agent_lint_repair_between_stages e i err result s =
     (if (case result of ResultAgentLintRepair _ _ _ _ _ _ _ _ _ _ _ _ _ \<Rightarrow> False | _ \<Rightarrow> True)
      then (Inl ''Only Agent lint repair may use this terminal path'', s)
      else mutate_workflow e i (between_stages_mutation e err result) s)"

definition wait_stage_mutation ::
  "bool \<Rightarrow> string \<Rightarrow> string \<Rightarrow> workflow_pending_action \<Rightarrow> 'x workflow_result option \<Rightarrow>
   'x mutation" where
  "wait_stage_mutation signalled i sid pending result t w =
     and_then (current_running_stage signalled i sid t w)
      (and_then (validate_transition (bt_status t) WaitingForConfirmation)
        (Inr (t\<lparr>bt_status := WaitingForConfirmation\<rparr>,
          w\<lparr>wf_stages := update_stage sid (\<lambda>st. st\<lparr>st_status := StageWaiting,
               st_decision := Some pending\<rparr>) (wf_stages w),
            wf_current_stage_id := Some sid, wf_pending_action := Some pending,
            wf_result := result\<rparr>)))"

definition wait_workflow_stage_with_result ::
  "'x service_env \<Rightarrow> string \<Rightarrow> string \<Rightarrow> workflow_pending_action \<Rightarrow> 'x workflow_result option \<Rightarrow>
   'x task_service \<Rightarrow> 'x workflow_run sresult \<times> 'x task_service" where
  "wait_workflow_stage_with_result e i sid pending result s =
     mutate_workflow e i (wait_stage_mutation (cancel_signalled i s) i sid pending result) s"

text \<open>Resuming the waiting stage, shared by the two confirmation paths.\<close>

definition resume_current_stage ::
  "'x workflow_execution_state \<Rightarrow> 'x workflow_execution_state" where
  "resume_current_stage w =
     (let w1 = w\<lparr>wf_pending_action := None\<rparr> in
      case wf_current_stage_id w of
        None \<Rightarrow> w1
      | Some sid \<Rightarrow> w1\<lparr>wf_stages := update_stage sid (\<lambda>st. st\<lparr>st_decision := None,
          st_status := StageRunning\<rparr>) (wf_stages w)\<rparr>)"

definition clear_pending_mutation :: "bool \<Rightarrow> string \<Rightarrow> 'x mutation" where
  "clear_pending_mutation signalled i t w =
     (if signalled then Inl (''Workflow cancellation was requested: '' @ i)
      else if bt_status t \<noteq> WaitingForConfirmation
      then Inl (''Workflow is not waiting for confirmation: '' @ i)
      else Inr (t\<lparr>bt_status := Running\<rparr>, resume_current_stage w))"

definition clear_workflow_pending_action ::
  "'x service_env \<Rightarrow> string \<Rightarrow> 'x task_service \<Rightarrow> 'x workflow_run sresult \<times> 'x task_service" where
  "clear_workflow_pending_action e i s =
     mutate_workflow e i (clear_pending_mutation (cancel_signalled i s) i) s"

definition confirmed_apply_mutation :: "bool \<Rightarrow> string \<Rightarrow> 'x mutation" where
  "confirmed_apply_mutation signalled i t w =
     (if signalled then Inl (''Workflow cancellation was requested: '' @ i)
      else if bt_status t \<noteq> WaitingForConfirmation \<or> \<not> bt_cancellable t
      then Inl (''Workflow is not confirmable: '' @ i)
      else Inr (t\<lparr>bt_status := Running, bt_cancellable := False\<rparr>, resume_current_stage w))"

definition begin_confirmed_workflow_apply ::
  "'x service_env \<Rightarrow> string \<Rightarrow> 'x task_service \<Rightarrow> 'x workflow_run sresult \<times> 'x task_service" where
  "begin_confirmed_workflow_apply e i s =
     mutate_workflow e i (confirmed_apply_mutation (cancel_signalled i s) i) s"

definition complete_workflow_mutation ::
  "bool \<Rightarrow> string \<Rightarrow> 'x workflow_result \<Rightarrow> 'x mutation" where
  "complete_workflow_mutation signalled i result t w =
     and_then (require_running_workflow t signalled i)
      (if wf_current_stage_id w \<noteq> None \<or> wf_pending_action w \<noteq> None \<or>
          list_ex (\<lambda>st. \<not> stage_done st) (wf_stages w)
       then Inl (''Workflow cannot finish before every stage is completed or skipped: '' @ i)
       else and_then (validate_transition (bt_status t) Succeeded)
         (Inr (t\<lparr>bt_status := Succeeded\<rparr>,
           w\<lparr>wf_result := Some result, wf_pending_action := None, wf_current_stage_id := None\<rparr>)))"

definition complete_workflow ::
  "'x service_env \<Rightarrow> string \<Rightarrow> 'x workflow_result \<Rightarrow> 'x task_service \<Rightarrow>
   'x workflow_run sresult \<times> 'x task_service" where
  "complete_workflow e i result s =
     mutate_workflow e i (complete_workflow_mutation (cancel_signalled i s) i result) s"

section \<open>Cancellation and rejection of workflows\<close>

definition get_workflow_run :: "string \<Rightarrow> 'x task_service \<Rightarrow> 'x workflow_run option" where
  "get_workflow_run i s =
     (case ts_tasks s i of
        None \<Rightarrow> None
      | Some en \<Rightarrow> (case te_workflow en of None \<Rightarrow> None | Some w \<Rightarrow> to_run w (te_task en)))"

definition cancel_mutation :: "string \<Rightarrow> bool \<Rightarrow> 'x mutation" where
  "cancel_mutation i clear t w =
     (if \<not> bt_cancellable t then Inl (''Task is not cancellable: '' @ i)
      else Inr (t\<lparr>bt_status := Cancelling\<rparr>, if clear then w\<lparr>wf_pending_action := None\<rparr> else w))"

definition request_workflow_cancel ::
  "'x service_env \<Rightarrow> string \<Rightarrow> 'x task_service \<Rightarrow> 'x workflow_run sresult \<times> 'x task_service" where
  "request_workflow_cancel e i s =
    (case get_workflow_run i s of
       None \<Rightarrow> (Inl (''Workflow not found: '' @ i), s)
     | Some run \<Rightarrow>
       (case (if wr_display_status run = DisplayRunning
                then mutate_workflow e i (cancel_mutation i False) s
              else if wr_display_status run = DisplayWaitingForConfirmation
                then mutate_workflow e i (cancel_mutation i True) s
              else (Inr run, s)) of
          (Inl err, s1) \<Rightarrow> (Inl err, s1)
        | (Inr updated, s1) \<Rightarrow>
            (Inr updated, set_cancellation (\<lambda>r. snd (registry_cancel i r)) s1)))"

definition finalize_cancel_mutation ::
  "bool \<Rightarrow> string \<Rightarrow> 'x workflow_result option \<Rightarrow> 'x mutation" where
  "finalize_cancel_mutation cancelled i result t w =
     (if terminal_status (bt_status t) then Inr (t, w)
      else if bt_status t \<noteq> Cancelling \<or> \<not> cancelled
      then Inl (''Workflow cancellation has not reached a finalizable state: '' @ i)
      else Inr (t\<lparr>bt_status := Cancelled, bt_cancellable := False\<rparr>,
        w\<lparr>wf_pending_action := None, wf_queue_position := None,
          wf_continuation_required := False, wf_error := None,
          wf_result := (case result of
              Some r \<Rightarrow> Some r
            | None \<Rightarrow> (case wf_result w of
                Some (ResultHealthCheck a b c d f g h j) \<Rightarrow> wf_result w | _ \<Rightarrow> None)),
          wf_stages := map (\<lambda>st. st\<lparr>st_decision := None\<rparr>) (wf_stages w)\<rparr>))"

definition finalize_workflow_cancellation_with_result ::
  "'x service_env \<Rightarrow> string \<Rightarrow> 'x workflow_result option \<Rightarrow> 'x task_service \<Rightarrow>
   'x workflow_run sresult \<times> 'x task_service" where
  "finalize_workflow_cancellation_with_result e i result s =
     mutate_workflow e i
       (finalize_cancel_mutation (registry_is_cancelled i (ts_cancellation s)) i result) s"

text \<open>\<open>position\<close> of the current stage, or else of the first pending one.\<close>

fun position :: "('a \<Rightarrow> bool) \<Rightarrow> 'a list \<Rightarrow> nat option" where
  "position p [] = None"
| "position p (x # xs) = (if p x then Some 0 else map_option Suc (position p xs))"

definition rejected_stage_index :: "'x workflow_execution_state \<Rightarrow> nat option" where
  "rejected_stage_index w =
     (case Option.bind (wf_current_stage_id w)
              (\<lambda>cur. position (\<lambda>st. st_id st = cur) (wf_stages w)) of
        Some n \<Rightarrow> Some n
      | None \<Rightarrow> position (\<lambda>st. st_status st = StagePending) (wf_stages w))"

definition reject_mutation ::
  "'x service_env \<Rightarrow> bool \<Rightarrow> string \<Rightarrow> task_status \<Rightarrow> workflow_error_summary \<Rightarrow> bool \<Rightarrow>
   'x workflow_result option \<Rightarrow> 'x mutation" where
  "reject_mutation e signalled i status err allow_waiting result t w =
    (if signalled then Inl (''Workflow cancellation was requested: '' @ i)
     else if \<not> (bt_status t = Running \<or> (allow_waiting \<and> bt_status t = WaitingForConfirmation))
     then Inl (''Workflow is not rejectable from its current state: '' @ i)
     else
      (let w1 = (case rejected_stage_index w of
             None \<Rightarrow> w
           | Some n \<Rightarrow>
               let st = wf_stages w ! n; now = se_clock e 0;
                   st' = st\<lparr>st_status := StageFailed,
                     st_started_at := (case st_started_at st of None \<Rightarrow> Some now | Some x \<Rightarrow> Some x),
                     st_completed_at := Some now, st_decision := None\<rparr>
               in w\<lparr>wf_stages := (wf_stages w)[n := st'], wf_current_stage_id := Some (st_id st)\<rparr>)
       in Inr (t\<lparr>bt_error := Some (backend_error_new (we_code err) (we_message_key err)
                   (we_recoverable err) (we_user_action_required err)),
                bt_status := status, bt_cancellable := False\<rparr>,
              w1\<lparr>wf_pending_action := None, wf_queue_position := None,
                 wf_continuation_required := False, wf_error := Some err, wf_result := result\<rparr>)))"

definition reject_workflow_execution ::
  "'x service_env \<Rightarrow> string \<Rightarrow> task_status \<Rightarrow> workflow_error_summary \<Rightarrow> bool \<Rightarrow>
   'x workflow_result option \<Rightarrow> 'x task_service \<Rightarrow> 'x workflow_run sresult \<times> 'x task_service" where
  "reject_workflow_execution e i status err allow_waiting result s =
    (if status \<noteq> Failed \<and> status \<noteq> Interrupted
     then (Inl ''Dispatch rejection must use Failed or Interrupted'', s)
     else mutate_workflow e i
       (reject_mutation e (cancel_signalled i s) i status err allow_waiting result) s)"

definition reset_workflow_cancellation ::
  "string \<Rightarrow> 'x task_service \<Rightarrow> unit sresult \<times> 'x task_service" where
  "reset_workflow_cancellation i s =
    (let (tok, r) = registry_register i (ts_cancellation s); s1 = s\<lparr>ts_cancellation := r\<rparr> in
     case ts_tasks s1 i of
       None \<Rightarrow> (Inl (not_found i), s1)
     | Some en \<Rightarrow>
         (Inr (), s1\<lparr>ts_tasks := (ts_tasks s1)(i \<mapsto> en\<lparr>te_cancellation := tok\<rparr>)\<rparr>))"

section \<open>Progress of a task\<close>

definition progress_mutation :: "task_progress \<Rightarrow> 'x mutation" where
  "progress_mutation p t w =
     Inr (if terminal_status (bt_status t) then t else t\<lparr>bt_progress := Some p\<rparr>, w)"

text \<open>
  The write of the progress of a plain task, which is in the registry already: now, when the
  window since the last one is over, otherwise later; a failed write is retried later.
\<close>

definition persist_progress ::
  "'x service_env \<Rightarrow> string \<Rightarrow> 'x backend_task \<Rightarrow> 'x task_service \<Rightarrow>
   'x backend_task sresult \<times> 'x task_service" where
  "persist_progress e i t s =
    (let lane = lane_of s i; now_ms = se_now_ms e in
     case ts_dirs s i of
       None \<Rightarrow> (Inr t, emit_task TaskUpdated t (lane_update i lane_memory_only s))
     | Some dir \<Rightarrow>
       if observational_due now_ms lane then
         (case ts_tasks s i of
            None \<Rightarrow> (Inl (''Task disappeared during persistence: '' @ i), s)
          | Some en \<Rightarrow>
            (case ts_roots s i of
               None \<Rightarrow> (Inl (''Persistent task has no project root: '' @ i), s)
             | Some root \<Rightarrow>
               (case se_write e root dir i (persisted_of en) of
                  Inr path \<Rightarrow>
                    (let s1 = lane_update i (lane_written ObservationalProgress now_ms) s
                     in (Inr t, emit_task TaskUpdated t
                          (s1\<lparr>ts_tasks := (ts_tasks s1)(i \<mapsto> en\<lparr>te_persisted_path := Some path\<rparr>),
                              ts_disk := (ts_disk s1)(path \<mapsto> persisted_of en)\<rparr>)))
                | Inl err \<Rightarrow>
                    (let s1 = lane_update i (\<lambda>l. lane_deferred (l\<lparr>la_pending_error := Some err\<rparr>)) s
                     in (Inr t, flush_of i TASK_PROGRESS_PERSISTENCE_WINDOW lane
                          (emit_task TaskUpdated t s1))))))
       else
         (let s1 = lane_update i lane_deferred s;
              elapsed = (case la_last_observational_write_ms lane of
                 None \<Rightarrow> 0 | Some prev \<Rightarrow> now_ms - prev)
          in (Inr t, flush_of i (TASK_PROGRESS_PERSISTENCE_WINDOW - elapsed) lane
                (emit_task TaskUpdated t s1))))"

definition update_progress ::
  "'x service_env \<Rightarrow> string \<Rightarrow> nat \<Rightarrow> nat option \<Rightarrow> string option \<Rightarrow> 'x task_service \<Rightarrow>
   'x backend_task sresult \<times> 'x task_service" where
  "update_progress e i current tot label s0 =
    (let p = \<lparr>tp_current = current, tp_total = tot, tp_label = label\<rparr> in
     if (case get_task i s0 of None \<Rightarrow> False | Some t \<Rightarrow> bt_task_type t = Workflow)
     then then_get_task i
       (mutate_workflow_with_durability e ObservationalProgress i (progress_mutation p) s0)
     else
      (let s = workflow_persistence_lane i s0 in
       case ts_tasks s i of
         None \<Rightarrow> (Inl (not_found i), s)
       | Some en \<Rightarrow>
         if terminal_status (bt_status (te_task en)) then (Inr (te_task en), s)
         else
          (let t = (te_task en)\<lparr>bt_progress := Some p, bt_updated_at := se_clock e 0\<rparr>
           in persist_progress e i t (lane_update i lane_bump (set_task i t s)))))"

text \<open>Progress stays a live observation: readers see it and it is published whatever the disk does.\<close>

lemma lane_of_emit_task [simp]: "lane_of (emit_task ev t s) = lane_of s"
  by (simp add: lane_of_def emit_task_def fun_eq_iff)

lemma flush_of_frame [simp]:
  "ts_tasks (flush_of i d l s) = ts_tasks s" "ts_events (flush_of i d l s) = ts_events s"
  "ts_disk (flush_of i d l s) = ts_disk s"
  by (simp_all add: flush_of_def schedule_workflow_progress_flush_def)

lemma persist_progress_live:
  assumes "persist_progress e i t s = (r, s')" and "get_task i s = Some t"
    and "ts_roots s i \<noteq> None"
  shows "r = Inr t \<and> get_task i s' = Some t \<and> ts_events s' = ts_events s @
     [\<lparr>ce_event_type = TaskUpdated, ce_project_id = bt_project_id t, ce_task_id = Some (bt_id t)\<rparr>]"
proof -
  obtain en where "ts_tasks s i = Some en" "te_task en = t"
    using assms(2) by (auto simp: get_task_def)
  with assms show ?thesis
    by (auto simp: persist_progress_def Let_def get_task_def
        split: option.splits sum.splits if_splits)
qed

lemma update_progress_live:
  assumes "update_progress e i current tot label s = (r, s')" and "ts_tasks s i = Some en"
    and "bt_task_type (te_task en) \<noteq> Workflow" and "\<not> terminal_status (bt_status (te_task en))"
    and "ts_roots s i \<noteq> None"
  shows "\<exists>t. r = Inr t \<and> get_task i s' = Some t \<and>
     bt_progress t = Some \<lparr>tp_current = current, tp_total = tot, tp_label = label\<rparr> \<and>
     bt_status t = bt_status (te_task en) \<and> length (ts_events s') = Suc (length (ts_events s))"
proof -
  let ?t = "(te_task en)\<lparr>bt_progress := Some \<lparr>tp_current = current, tp_total = tot,
    tp_label = label\<rparr>, bt_updated_at := se_clock e 0\<rparr>"
  let ?s = "lane_update i lane_bump (set_task i ?t (workflow_persistence_lane i s))"
  have "persist_progress e i ?t ?s = (r, s')"
    using assms(1-4) by (simp add: update_progress_def get_task_def Let_def)
  from persist_progress_live [OF this] assms(2,5) show ?thesis by (simp add: get_task_def)
qed

section \<open>Operations that dispatch on the task type\<close>

definition transition_status ::
  "'x service_env \<Rightarrow> string \<Rightarrow> task_status \<Rightarrow> 'x task_service \<Rightarrow>
   'x backend_task sresult \<times> 'x task_service" where
  "transition_status e i new s =
    (if (case get_task i s of None \<Rightarrow> False | Some t \<Rightarrow> bt_task_type t = Workflow)
     then then_get_task i (transition_workflow_status e i new s)
     else transition_plain_status e i new s)"

definition finalize_cancellation ::
  "'x service_env \<Rightarrow> string \<Rightarrow> 'x task_service \<Rightarrow> 'x backend_task sresult \<times> 'x task_service" where
  "finalize_cancellation e i s =
    (case get_task i s of
       None \<Rightarrow> (Inl (not_found i), s)
     | Some t \<Rightarrow>
       if terminal_status (bt_status t) then (Inr t, s)
       else if bt_status t \<noteq> Cancelling \<or> \<not> registry_is_cancelled i (ts_cancellation s)
       then (Inl (''Task cancellation has not reached a finalizable state: '' @ i), s)
       else transition_status e i Cancelled s)"

definition finalize_app_task_pause ::
  "'x service_env \<Rightarrow> string \<Rightarrow> 'x task_service \<Rightarrow> 'x backend_task sresult \<times> 'x task_service" where
  "finalize_app_task_pause e i s =
    (case registry_get i (ts_cancellation s) of
       None \<Rightarrow> (Inl (''Task has no cancellation signal: '' @ i), s)
     | Some tok \<Rightarrow>
       if \<not> token_is_pause_requested (ts_cancellation s) tok
       then (Inl (''Task pause was not requested: '' @ i), s)
       else (case get_task i s of
           None \<Rightarrow> (Inl (not_found i), s)
         | Some t \<Rightarrow> if bt_status t = Interrupted then (Inr t, s)
                    else transition_status e i Interrupted s))"

definition cancel_task ::
  "'x service_env \<Rightarrow> 'x service_env \<Rightarrow> string \<Rightarrow> 'x task_service \<Rightarrow>
   'x backend_task sresult \<times> 'x task_service" where
  "cancel_task e1 e2 i s =
    (case get_task i s of
       None \<Rightarrow> (Inl (not_found i), s)
     | Some t \<Rightarrow>
       if bt_task_type t = Export then
         (case request_cancel e1 i s of
            (Inl err, s1) \<Rightarrow> (Inl err, s1)
          | (Inr t1, s1) \<Rightarrow>
              if bt_status t1 = Cancelling then finalize_cancellation e2 i s1 else (Inr t1, s1))
       else if \<not> bt_cancellable t then (Inl (''Task is not cancellable: '' @ i), s)
       else if terminal_status (bt_status t) then (Inr t, s)
       else
        (let s1 = set_cancellation (\<lambda>r. snd (registry_cancel i r)) s in
         if bt_status t = Queued \<or> bt_status t = Cancelling
         then transition_status e1 i Cancelled s1
         else (case transition_status e1 i Cancelling s1 of
             (Inl err, s2) \<Rightarrow> (Inl err, s2)
           | (Inr _, s2) \<Rightarrow> transition_status e2 i Cancelled s2)))"

end
