(* ===== verification/Stage_Machine.thy ===== *)
theory Stage_Machine
  imports Workflow_Service
begin

text \<open>
  The stages of a workflow (\<open>services/workflow_service/preparation.rs\<close>) and the invariant
  of the stage machine of \<open>tasks/task_service.rs\<close>: every operation of
  \<open>Workflow_Service\<close> keeps it, so every run has at most one active stage and never starts a
  stage before the earlier ones are done.
\<close>

section \<open>The stage lists\<close>

fun stage_definitions :: "workflow_kind \<Rightarrow> (string \<times> string) list" where
  "stage_definitions UpdateWiki =
    [(''analyze_sources'', ''workflows.stage.updateWiki.analyzeSources''),
     (''create_checkpoint'', ''workflows.stage.updateWiki.createCheckpoint''),
     (''plan_updates'', ''workflows.stage.updateWiki.planUpdates''),
     (''generate_candidates'', ''workflows.stage.updateWiki.generateCandidates''),
     (''validate_structure'', ''workflows.stage.updateWiki.validateStructure''),
     (''review_risk'', ''workflows.stage.updateWiki.reviewRisk''),
     (''apply_changes'', ''workflows.stage.updateWiki.applyChanges''),
     (''refresh_indexes'', ''workflows.stage.updateWiki.refreshIndexes''),
     (''record_result'', ''workflows.stage.updateWiki.recordResult'')]"
| "stage_definitions HealthCheck =
    [(''read_markdown'', ''workflows.stage.healthCheck.readMarkdown''),
     (''check_markdown'', ''workflows.stage.healthCheck.checkMarkdown''),
     (''check_links'', ''workflows.stage.healthCheck.checkLinks''),
     (''deep_check'', ''workflows.stage.healthCheck.deepCheck''),
     (''merge_findings'', ''workflows.stage.healthCheck.mergeFindings''),
     (''classify_findings'', ''workflows.stage.healthCheck.classifyFindings''),
     (''write_report'', ''workflows.stage.healthCheck.writeReport''),
     (''complete'', ''workflows.stage.healthCheck.complete'')]"
| "stage_definitions GenerateContent =
    [(''confirm_scope'', ''workflows.stage.generateContent.confirmScope''),
     (''read_wiki'', ''workflows.stage.generateContent.readWiki''),
     (''load_template'', ''workflows.stage.generateContent.loadTemplate''),
     (''generate_content'', ''workflows.stage.generateContent.generateContent''),
     (''assemble_artifact'', ''workflows.stage.generateContent.assembleArtifact''),
     (''validate_artifact'', ''workflows.stage.generateContent.validateArtifact''),
     (''write_export'', ''workflows.stage.generateContent.writeExport''),
     (''generate_preview'', ''workflows.stage.generateContent.generatePreview''),
     (''complete'', ''workflows.stage.generateContent.complete'')]"

definition pending_stage :: "nat \<Rightarrow> string \<times> string \<Rightarrow> workflow_stage" where
  "pending_stage index d = \<lparr>st_id = fst d, st_ordinal = index + 1, st_status = StagePending,
     st_label_key = snd d, st_started_at = None, st_completed_at = None, st_current_item = None,
     st_progress = None, st_decision = None\<rparr>"

definition enumerate_stages :: "(string \<times> string) list \<Rightarrow> workflow_stage list" where
  "enumerate_stages ds = map (\<lambda>(index, d). pending_stage index d) (enumerate 0 ds)"

definition workflow_stages :: "workflow_kind \<Rightarrow> workflow_stage list" where
  "workflow_stages kind = enumerate_stages (stage_definitions kind)"

definition repair_round_definitions :: "nat \<Rightarrow> (string \<times> string) list" where
  "repair_round_definitions round = map (\<lambda>(name, label). (name @ ''_'' @ show_nat round, label))
    [(''prepare_round'', ''workflows.stage.agentLintRepair.prepareRound''),
     (''run_agent'', ''workflows.stage.agentLintRepair.runAgent''),
     (''validate_candidate'', ''workflows.stage.agentLintRepair.validateCandidate''),
     (''review_risk'', ''workflows.stage.agentLintRepair.reviewRisk''),
     (''apply_changes'', ''workflows.stage.agentLintRepair.applyChanges''),
     (''recheck_lint'', ''workflows.stage.agentLintRepair.recheckLint'')]"

definition agent_lint_repair_stages :: "workflow_stage list" where
  "agent_lint_repair_stages = enumerate_stages
    ([(''create_checkpoint'', ''workflows.stage.agentLintRepair.createCheckpoint'')] @
     concat (map repair_round_definitions [1, 2, 3]) @
     [(''finalize_repair'', ''workflows.stage.agentLintRepair.finalizeRepair'')])"

section \<open>The invariant\<close>

definition stages_ok :: "workflow_stage list \<Rightarrow> string option \<Rightarrow> bool \<Rightarrow> bool" where
  "stages_ok ss cur failed \<longleftrightarrow>
     distinct (map st_id ss) \<and> sorted_wrt (<) (map st_ordinal ss) \<and>
     (\<forall>st \<in> set ss. stage_active st \<longrightarrow> cur = Some (st_id st)) \<and>
     (\<forall>st \<in> set ss. st_status st = StageFailed \<longrightarrow> cur = Some (st_id st) \<or> failed) \<and>
     (\<forall>sid. cur = Some sid \<longrightarrow> (\<exists>st \<in> set ss. st_id st = sid \<and>
        st_status st \<in> {StageRunning, StageWaiting, StageFailed})) \<and>
     (\<forall>st \<in> set ss. st_status st \<noteq> StagePending \<longrightarrow> \<not> earlier_incomplete (st_ordinal st) ss)"

definition workflow_inv :: "'x backend_task \<Rightarrow> 'x workflow_execution_state \<Rightarrow> bool" where
  "workflow_inv t w \<longleftrightarrow>
     stages_ok (wf_stages w) (wf_current_stage_id w) (bt_status t = Failed)"

lemma earlier_incomplete_iff:
  "earlier_incomplete n ss \<longleftrightarrow> (\<exists>st \<in> set ss. st_ordinal st < n \<and> \<not> stage_done st)"
  by (auto simp: earlier_incomplete_def list_ex_iff)

text \<open>Fresh stages: numbered from one, all pending.\<close>

lemma enumerate_stages_ok:
  assumes "distinct (map fst ds)"
  shows "stages_ok (enumerate_stages ds) None failed"
proof -
  have "map st_id (enumerate_stages ds) = map fst ds"
    by (rule nth_equalityI)
      (simp_all add: enumerate_stages_def pending_stage_def nth_enumerate_eq)
  moreover have "map st_ordinal (enumerate_stages ds) = map Suc [0..<length ds]"
    by (rule nth_equalityI)
      (simp_all add: enumerate_stages_def pending_stage_def nth_enumerate_eq del: map_Suc_upt)
  moreover have "\<forall>st \<in> set (enumerate_stages ds). st_status st = StagePending"
    by (auto simp: enumerate_stages_def pending_stage_def)
  moreover have "sorted_wrt (<) (map Suc [0..<length ds])"
    by (simp add: sorted_wrt_map)
  ultimately show ?thesis using assms
    by (simp only: stages_ok_def stage_active_def) simp
qed

lemma workflow_stages_ok: "stages_ok (workflow_stages kind) None False"
  unfolding workflow_stages_def by (rule enumerate_stages_ok) (cases kind; simp)

lemma agent_lint_repair_stages_ok: "stages_ok agent_lint_repair_stages None False"
  unfolding agent_lint_repair_stages_def
  by (rule enumerate_stages_ok) (simp add: repair_round_definitions_def show_nat.simps)

section \<open>Updates of one stage\<close>

lemma update_stage_eq_map:
  assumes "distinct (map st_id ss)"
  shows "update_stage sid f ss = map (\<lambda>st. if st_id st = sid then f st else st) ss"
  using assms by (induction ss) (auto simp: image_iff intro!: map_idI [symmetric])

lemma find_stage_Some:
  assumes "distinct (map st_id ss)" and "find_stage sid ss = Some target" and "st \<in> set ss"
  shows "st_id st = sid \<longleftrightarrow> st = target"
proof -
  have "target \<in> set ss" and "st_id target = sid"
    using assms(2) by (auto simp: find_stage_def find_Some_iff)
  with assms(1,3) show ?thesis by (auto simp: distinct_map dest: inj_onD)
qed

lemma stages_ok_map:
  assumes "stages_ok ss cur failed"
    and keep: "\<And>st. st_id (g st) = st_id st" "\<And>st. st_ordinal (g st) = st_ordinal st"
    and "\<And>st. st \<in> set ss \<Longrightarrow> stage_active (g st) \<Longrightarrow> cur' = Some (st_id st)"
    and "\<And>st. st \<in> set ss \<Longrightarrow> st_status (g st) = StageFailed \<Longrightarrow> cur' = Some (st_id st) \<or> failed'"
    and "\<And>sid. cur' = Some sid \<Longrightarrow> \<exists>st \<in> set ss. st_id st = sid \<and>
        st_status (g st) \<in> {StageRunning, StageWaiting, StageFailed}"
    and d: "\<And>st. st \<in> set ss \<Longrightarrow> stage_done st \<Longrightarrow> stage_done (g st)"
    and e: "\<And>st. st \<in> set ss \<Longrightarrow> st_status (g st) \<noteq> StagePending \<Longrightarrow>
        st_status st \<noteq> StagePending \<or> \<not> earlier_incomplete (st_ordinal st) ss"
  shows "stages_ok (map g ss) cur' failed'"
proof -
  have "st_id \<circ> g = st_id" and "st_ordinal \<circ> g = st_ordinal"
    by (auto simp: keep)
  moreover have "\<not> earlier_incomplete (st_ordinal st) (map g ss)"
    if "st \<in> set ss" and "st_status (g st) \<noteq> StagePending" for st
    using e [OF that] assms(1) that d by (auto simp: stages_ok_def earlier_incomplete_iff keep)
  ultimately show ?thesis
    using assms(1,4-6) by (auto simp: stages_ok_def keep)
qed

section \<open>Every mutation keeps the invariant\<close>

definition keeps_inv :: "'x mutation \<Rightarrow> bool" where
  "keeps_inv m \<longleftrightarrow> (\<forall>t w t' w'. workflow_inv t w \<longrightarrow> m t w = Inr (t', w') \<longrightarrow> workflow_inv t' w')"

lemma keeps_invI:
  "(\<And>t w t' w'. workflow_inv t w \<Longrightarrow> m t w = Inr (t', w') \<Longrightarrow> workflow_inv t' w') \<Longrightarrow> keeps_inv m"
  by (simp add: keeps_inv_def)

text \<open>The invariant reads only the stages, the current stage and whether the task failed.\<close>

lemma workflow_inv_cong:
  "workflow_inv t w \<Longrightarrow> wf_stages w' = wf_stages w \<Longrightarrow>
   wf_current_stage_id w' = wf_current_stage_id w \<Longrightarrow>
   (bt_status t = Failed \<Longrightarrow> bt_status t' = Failed) \<Longrightarrow> workflow_inv t' w'"
  by (auto simp: workflow_inv_def stages_ok_def)

text \<open>One stage changes its status and becomes, or stops being, the current one.\<close>

lemma stage_update_ok:
  assumes "stages_ok ss cur failed" and "find_stage sid ss = Some target"
    and f: "\<And>st. st_id (f st) = st_id st" "\<And>st. st_ordinal (f st) = st_ordinal st"
    and "cur = None \<or> cur = Some sid"
    and "st_status (f target) \<noteq> StagePending"
    and "stage_done target \<Longrightarrow> stage_done (f target)"
    and "st_status target = StagePending \<Longrightarrow> \<not> earlier_incomplete (st_ordinal target) ss"
    and "cur' = (if stage_done (f target) then None else Some sid)"
    and "\<And>st. st \<in> set ss \<Longrightarrow> st_status st = StageFailed \<Longrightarrow> st \<noteq> target \<Longrightarrow> failed'"
  shows "stages_ok (update_stage sid f ss) cur' failed'"
proof -
  let ?g = "\<lambda>st. if st_id st = sid then f st else st"
  have d: "distinct (map st_id ss)" and act: "\<And>st. st \<in> set ss \<Longrightarrow> stage_active st \<Longrightarrow> cur = Some (st_id st)"
    using assms(1) by (auto simp: stages_ok_def)
  have t: "\<And>st. st \<in> set ss \<Longrightarrow> st_id st = sid \<longleftrightarrow> st = target"
    using find_stage_Some [OF d assms(2)] .
  have tin: "target \<in> set ss" "st_id target = sid"
    using assms(2) by (auto simp: find_stage_def find_Some_iff)
  have "stages_ok (map ?g ss) cur' failed'"
  proof (rule stages_ok_map [OF assms(1)])
    fix st assume st: "st \<in> set ss" "stage_active (?g st)"
    then show "cur' = Some (st_id st)"
      using t [OF st(1)] act [OF st(1)] assms(5,9) f
      by (auto simp: stage_active_def stage_done_def split: if_splits)
  next
    fix st assume st: "st \<in> set ss" "st_status (?g st) = StageFailed"
    then show "cur' = Some (st_id st) \<or> failed'"
      using t [OF st(1)] assms(9,10) f by (auto simp: stage_done_def split: if_splits)
  next
    fix x assume "cur' = Some x"
    then show "\<exists>st \<in> set ss. st_id st = x \<and> st_status (?g st) \<in> {StageRunning, StageWaiting, StageFailed}"
      using assms(6,9) tin by (intro bexI [of _ target])
        (cases "st_status (f target)"; auto simp: stage_done_def split: if_splits)+
  next
    fix st assume "st \<in> set ss" "stage_done st"
    then show "stage_done (?g st)" using assms(7) t by auto
  next
    fix st assume "st \<in> set ss" "st_status (?g st) \<noteq> StagePending"
    then show "st_status st \<noteq> StagePending \<or> \<not> earlier_incomplete (st_ordinal st) ss"
      using t assms(8) by (auto split: if_splits)
  qed (simp_all add: f)
  then show ?thesis by (simp add: update_stage_eq_map [OF d])
qed

text \<open>With a running task and no current stage, no stage has failed.\<close>

lemma no_failed_stage:
  "stages_ok ss cur False \<Longrightarrow> st \<in> set ss \<Longrightarrow> st_status st = StageFailed \<Longrightarrow> cur = Some (st_id st)"
  by (auto simp: stages_ok_def)

lemma require_running_ok: "is_ok (require_running_workflow t sig i) \<longleftrightarrow> \<not> sig \<and> bt_status t = Running"
  by (simp add: require_running_workflow_def)

lemma current_running_ok:
  "is_ok (current_running_stage sig i sid t w) \<longleftrightarrow> \<not> sig \<and> bt_status t = Running \<and>
     wf_current_stage_id w = Some sid \<and>
     (\<exists>target. find_stage sid (wf_stages w) = Some target \<and> st_status target = StageRunning)"
  by (auto simp: current_running_stage_def require_running_ok require_current_stage_def
      split: option.splits)

lemma start_stage_keeps [inv_intros]: "keeps_inv (start_stage_mutation e sig i sid)"
proof (rule keeps_invI)
  fix t w t' w'
  assume inv: "workflow_inv t w" and m: "start_stage_mutation e sig i sid t w = Inr (t', w')"
  then obtain target where "find_stage sid (wf_stages w) = Some target"
    and "wf_current_stage_id w = None" and "bt_status t = Running" and "t' = t"
    and "\<not> earlier_incomplete (st_ordinal target) (wf_stages w)" "st_status target = StagePending"
    and w': "wf_stages w' = update_stage sid (\<lambda>st. st\<lparr>st_status := StageRunning,
                st_started_at := (case st_started_at st of
                   None \<Rightarrow> Some (se_clock e 0) | Some x \<Rightarrow> Some x),
                st_completed_at := None\<rparr>) (wf_stages w)" "wf_current_stage_id w' = Some sid"
    by (auto simp: start_stage_mutation_def require_running_ok split: if_splits option.splits)
  with inv show "workflow_inv t' w'"
    unfolding workflow_inv_def w'
    by (intro stage_update_ok) (auto simp: stage_done_def dest: no_failed_stage)
qed

lemma skip_stage_keeps [inv_intros]: "keeps_inv (skip_stage_mutation e sig i sid)"
proof (rule keeps_invI)
  fix t w t' w'
  assume inv: "workflow_inv t w" and m: "skip_stage_mutation e sig i sid t w = Inr (t', w')"
  then obtain target where "find_stage sid (wf_stages w) = Some target"
    and "wf_current_stage_id w = None" and "bt_status t = Running" and "t' = t"
    and "\<not> earlier_incomplete (st_ordinal target) (wf_stages w)" "st_status target = StagePending"
    and w': "wf_stages w' = update_stage sid (\<lambda>st. st\<lparr>st_status := StageSkipped,
                st_started_at := Some (se_clock e 0), st_completed_at := Some (se_clock e 0),
                st_current_item := None, st_progress := None, st_decision := None\<rparr>)
                (wf_stages w)" "wf_current_stage_id w' = None"
    by (auto simp: skip_stage_mutation_def require_running_ok split: if_splits option.splits)
  with inv show "workflow_inv t' w'"
    unfolding workflow_inv_def w'
    by (intro stage_update_ok) (auto simp: stage_done_def dest: no_failed_stage)
qed

text \<open>The operations on the current, running stage.\<close>

lemma current_update_ok:
  assumes inv: "workflow_inv t w" and c: "is_ok (current_running_stage sig i sid t w)"
    and f: "\<And>st. st_id (f st) = st_id st" "\<And>st. st_ordinal (f st) = st_ordinal st"
    and "\<And>st. st_status st = StageRunning \<Longrightarrow> st_status (f st) \<noteq> StagePending"
    and "\<And>st. st_status st = StageRunning \<Longrightarrow> cur' = (if stage_done (f st) then None else Some sid)"
  shows "stages_ok (update_stage sid f (wf_stages w)) cur' failed'"
proof -
  from c obtain target where t: "find_stage sid (wf_stages w) = Some target"
    and s: "st_status target = StageRunning" and "bt_status t = Running"
    and cur: "wf_current_stage_id w = Some sid" by (auto simp: current_running_ok)
  with inv have ok: "stages_ok (wf_stages w) (Some sid) False" by (simp add: workflow_inv_def)
  then have d: "distinct (map st_id (wf_stages w))" by (simp add: stages_ok_def)
  have "failed'" if "st \<in> set (wf_stages w)" "st_status st = StageFailed" "st \<noteq> target" for st
    using no_failed_stage [OF ok that(1,2)] find_stage_Some [OF d t that(1)] that(3) by simp
  with assms(5,6) s show ?thesis
    by (intro stage_update_ok [OF ok t f]) (auto simp: stage_done_def)
qed

lemma stage_progress_keeps [inv_intros]:
  "keeps_inv (stage_progress_mutation sig i sid item current tot)"
  by (rule keeps_invI) (auto simp: stage_progress_mutation_def workflow_inv_def
      [of _ "wf_stages_update f w" for f w] current_running_ok stage_done_def
      intro!: current_update_ok)

lemma complete_stage_keeps [inv_intros]: "keeps_inv (complete_stage_mutation e sig i sid)"
  by (rule keeps_invI) (auto simp: complete_stage_mutation_def workflow_inv_def
      [of _ "wf_current_stage_id_update f w" for f w] stage_done_def intro!: current_update_ok)

lemma fail_stage_keeps [inv_intros]: "keeps_inv (fail_stage_mutation e sig i sid err result)"
  by (rule keeps_invI) (auto simp: fail_stage_mutation_def workflow_inv_def
      [of "bt_status_update f t" for f t] stage_done_def intro!: current_update_ok)

lemma wait_stage_keeps [inv_intros]: "keeps_inv (wait_stage_mutation sig i sid pending result)"
  by (rule keeps_invI) (auto simp: wait_stage_mutation_def workflow_inv_def
      [of "bt_status_update f t" for f t] stage_done_def intro!: current_update_ok)

text \<open>Resuming: the current stage is waiting (or failed) and runs again.\<close>

lemma resume_ok:
  assumes inv: "stages_ok (wf_stages w) (wf_current_stage_id w) False"
  shows "stages_ok (wf_stages (resume_current_stage w))
     (wf_current_stage_id (resume_current_stage w)) failed'"
proof (cases "wf_current_stage_id w")
  case None
  with inv show ?thesis by (auto simp: resume_current_stage_def stages_ok_def)
next
  case (Some sid)
  from inv Some obtain st where st: "st \<in> set (wf_stages w)" "st_id st = sid"
    "st_status st \<in> {StageRunning, StageWaiting, StageFailed}" by (auto simp: stages_ok_def)
  from inv have d: "distinct (map st_id (wf_stages w))" by (simp add: stages_ok_def)
  from st(1,2) obtain target where t: "find_stage sid (wf_stages w) = Some target"
    by (cases "find_stage sid (wf_stages w)") (auto simp: find_stage_def find_None_iff)
  with find_stage_Some [OF d t st(1)] st have "st = target" by simp
  moreover have "failed'" if "x \<in> set (wf_stages w)" "st_status x = StageFailed" "x \<noteq> target" for x
    using no_failed_stage [OF inv that(1,2)] find_stage_Some [OF d t that(1)] that(3) Some by simp
  ultimately have "stages_ok (update_stage sid (\<lambda>st. st\<lparr>st_decision := None,
      st_status := StageRunning\<rparr>) (wf_stages w)) (Some sid) failed'"
    using st(3) Some by (intro stage_update_ok [OF inv t]) (auto simp: stage_done_def)
  with Some show ?thesis by (simp add: resume_current_stage_def)
qed

lemma clear_pending_keeps [inv_intros]: "keeps_inv (clear_pending_mutation sig i)"
  by (rule keeps_invI) (auto simp: clear_pending_mutation_def workflow_inv_def split: if_splits
      intro!: resume_ok)

lemma confirmed_apply_keeps [inv_intros]: "keeps_inv (confirmed_apply_mutation sig i)"
  by (rule keeps_invI) (auto simp: confirmed_apply_mutation_def workflow_inv_def split: if_splits
      intro!: resume_ok)

lemma between_stages_keeps [inv_intros]: "keeps_inv (between_stages_mutation e err result)"
  by (rule keeps_invI)
    (auto simp: between_stages_mutation_def workflow_inv_def stage_done_def stage_active_def
      split: if_splits workflow_operation.splits intro!: stages_ok_map)

lemma finalize_cancel_keeps [inv_intros]: "keeps_inv (finalize_cancel_mutation c i result)"
proof (rule keeps_invI)
  fix t w t' w'
  assume inv: "workflow_inv t w" and m: "finalize_cancel_mutation c i result t w = Inr (t', w')"
  show "workflow_inv t' w'"
  proof (cases "terminal_status (bt_status t)")
    case True
    with inv m show ?thesis by (simp add: finalize_cancel_mutation_def)
  next
    case False
    with m have "bt_status t' = Cancelled" and "bt_status t = Cancelling"
      and w': "wf_stages w' = map (\<lambda>st. st\<lparr>st_decision := None\<rparr>) (wf_stages w)"
        "wf_current_stage_id w' = wf_current_stage_id w"
      by (auto simp: finalize_cancel_mutation_def split: if_splits)
    with inv show ?thesis unfolding workflow_inv_def w'
      by (intro stages_ok_map [of _ "wf_current_stage_id w" False])
        (auto simp: stages_ok_def stage_done_def stage_active_def)
  qed
qed

lemma transition_keeps [inv_intros]: "keeps_inv (transition_mutation st)"
proof (rule keeps_invI)
  fix t w t' w'
  assume inv: "workflow_inv t w" and m: "transition_mutation st t w = Inr (t', w')"
  then have "transition_allowed (bt_status t) st"
    by (auto simp: transition_mutation_def transition_allowed_def split: sum.splits)
  then have "bt_status t \<noteq> Failed" using status_final_stuck by (auto simp: status_final_def)
  with inv m show "workflow_inv t' w'"
    by (auto simp: transition_mutation_def split: sum.splits if_splits intro: workflow_inv_cong)
qed

lemma complete_workflow_keeps [inv_intros]: "keeps_inv (complete_workflow_mutation sig i result)"
  by (rule keeps_invI) (auto simp: complete_workflow_mutation_def require_running_ok
      split: if_splits intro: workflow_inv_cong)

lemma queue_state_keeps [inv_intros]:
  "keeps_inv (\<lambda>t w. Inr (t, w\<lparr>wf_queue_position := pos, wf_continuation_required := cont\<rparr>))"
  by (rule keeps_invI) (auto intro: workflow_inv_cong)

lemma cancellable_keeps [inv_intros]: "keeps_inv (cancellable_mutation sig i c)"
  by (rule keeps_invI) (auto simp: cancellable_mutation_def intro: workflow_inv_cong)

text \<open>Rejection: the current stage fails, or with no current stage the first pending one.\<close>

lemma position_Some:
  "position p xs = Some n \<Longrightarrow> n < length xs \<and> p (xs ! n) \<and> (\<forall>m < n. \<not> p (xs ! m))"
  by (induction xs arbitrary: n)
    (auto simp: nth_Cons less_Suc_eq_0_disj split: if_splits nat.splits)

lemma list_update_as_map:
  "distinct (map st_id ss) \<Longrightarrow> n < length ss \<Longrightarrow>
   ss[n := f (ss ! n)] = map (\<lambda>st. if st_id st = st_id (ss ! n) then f st else st) ss"
  by (rule nth_equalityI) (auto simp: nth_list_update distinct_conv_nth)

lemma first_pending_ready:
  assumes "stages_ok ss None False" and "position (\<lambda>st. st_status st = StagePending) ss = Some n"
  shows "\<not> earlier_incomplete (st_ordinal (ss ! n)) ss"
proof -
  note p = position_Some [OF assms(2)]
  have "stage_done (ss ! m)" if "m < length ss" "st_ordinal (ss ! m) < st_ordinal (ss ! n)" for m
  proof -
    have "sorted_wrt (<) (map st_ordinal ss)" using assms(1) by (simp add: stages_ok_def)
    then have "m < n" using that p
      by (metis (mono_tags, lifting) length_map less_asym' linorder_neqE_nat nth_map sorted_wrt_nth_less)
    then have "st_status (ss ! m) \<noteq> StagePending" using p by auto
    then show ?thesis using assms(1) nth_mem [OF that(1)]
      by (cases "st_status (ss ! m)") (auto simp: stages_ok_def stage_done_def stage_active_def)
  qed
  then show ?thesis by (auto simp: earlier_incomplete_iff in_set_conv_nth)
qed

lemma stage_at_ok:
  assumes inv: "stages_ok ss cur False" and n: "n < length ss"
    and f: "\<And>st. st_id (f st) = st_id st" "\<And>st. st_ordinal (f st) = st_ordinal st"
    and fail: "\<And>st. st_status (f st) = StageFailed"
    and "cur = None \<or> cur = Some (st_id (ss ! n))"
    and ready: "\<not> earlier_incomplete (st_ordinal (ss ! n)) ss"
    and "\<not> stage_done (ss ! n)"
  shows "stages_ok (ss[n := f (ss ! n)]) (Some (st_id (ss ! n))) failed'"
proof -
  from inv have d: "distinct (map st_id ss)" by (simp add: stages_ok_def)
  let ?sid = "st_id (ss ! n)"
  have t: "find_stage ?sid ss = Some (ss ! n)"
  proof (cases "find_stage ?sid ss")
    case None
    with nth_mem [OF n] show ?thesis by (auto simp: find_stage_def find_None_iff)
  next
    case (Some x)
    with find_stage_Some [OF d Some, of "ss ! n"] n show ?thesis by simp
  qed
  have "failed'" if "st \<in> set ss" "st_status st = StageFailed" "st \<noteq> ss ! n" for st
    using no_failed_stage [OF inv that(1,2)] find_stage_Some [OF d t that(1)] that(3) assms(6) by auto
  then have "stages_ok (update_stage ?sid f ss) (Some ?sid) failed'"
    using assms(6,8) ready fail by (intro stage_update_ok [OF inv t f]) (auto simp: stage_done_def)
  then show ?thesis by (simp add: update_stage_eq_map [OF d] list_update_as_map [OF d n])
qed

lemma position_None: "position p xs = None \<longleftrightarrow> (\<forall>x \<in> set xs. \<not> p x)"
  by (induction xs) auto

lemma rejected_stage_ok:
  assumes inv: "stages_ok (wf_stages w) (wf_current_stage_id w) False"
    and r: "rejected_stage_index w = Some n"
  shows "n < length (wf_stages w) \<and>
     (wf_current_stage_id w = None \<or> wf_current_stage_id w = Some (st_id (wf_stages w ! n))) \<and>
     \<not> earlier_incomplete (st_ordinal (wf_stages w ! n)) (wf_stages w) \<and>
     \<not> stage_done (wf_stages w ! n)"
proof (cases "wf_current_stage_id w")
  case None
  with r have p: "position (\<lambda>st. st_status st = StagePending) (wf_stages w) = Some n"
    by (simp add: rejected_stage_index_def)
  with None inv first_pending_ready [OF _ p] position_Some [OF p] show ?thesis
    by (simp add: stage_done_def)
next
  case (Some cur)
  with inv obtain st where st: "st \<in> set (wf_stages w)" "st_id st = cur"
    "st_status st \<in> {StageRunning, StageWaiting, StageFailed}" by (auto simp: stages_ok_def)
  have "position (\<lambda>st. st_id st = cur) (wf_stages w) \<noteq> None"
    using st(1,2) by (auto simp: position_None)
  with Some r have p: "position (\<lambda>st. st_id st = cur) (wf_stages w) = Some n"
    by (auto simp: rejected_stage_index_def split: option.splits)
  note q = position_Some [OF p]
  have "inj_on st_id (set (wf_stages w))" using inv by (simp add: stages_ok_def distinct_map)
  with st(1,2) q have eq: "st = wf_stages w ! n" by (metis inj_onD nth_mem)
  have "st_status st \<noteq> StagePending" using st(3) by auto
  with inv st(1) have "\<not> earlier_incomplete (st_ordinal st) (wf_stages w)"
    by (simp add: stages_ok_def)
  moreover have "\<not> stage_done st" using st(3) by (auto simp: stage_done_def)
  ultimately show ?thesis using q Some unfolding eq by simp
qed

lemma reject_keeps [inv_intros]:
  assumes "status \<noteq> Failed \<longrightarrow> status = Interrupted"
  shows "keeps_inv (reject_mutation e sig i status err allow result)"
proof (rule keeps_invI)
  fix t w t' w'
  assume inv: "workflow_inv t w"
    and m: "reject_mutation e sig i status err allow result t w = Inr (t', w')"
  then have ok: "stages_ok (wf_stages w) (wf_current_stage_id w) False"
    by (auto simp: reject_mutation_def workflow_inv_def split: if_splits)
  show "workflow_inv t' w'"
  proof (cases "rejected_stage_index w")
    case None
    with m ok show ?thesis
      by (auto simp: reject_mutation_def Let_def workflow_inv_def stages_ok_def split: if_splits)
  next
    case (Some n)
    let ?f = "\<lambda>st. st\<lparr>st_status := StageFailed, st_started_at := (case st_started_at st of
        None \<Rightarrow> Some (se_clock e 0) | Some x \<Rightarrow> Some x), st_completed_at := Some (se_clock e 0),
        st_decision := None\<rparr>"
    from m Some have "wf_stages w' = (wf_stages w)[n := ?f (wf_stages w ! n)]"
      and "wf_current_stage_id w' = Some (st_id (wf_stages w ! n))"
      by (auto simp: reject_mutation_def Let_def split: if_splits)
    moreover have "stages_ok ((wf_stages w)[n := ?f (wf_stages w ! n)])
        (Some (st_id (wf_stages w ! n))) (bt_status t' = Failed)"
      using rejected_stage_ok [OF ok Some] by (intro stage_at_ok [OF ok]) auto
    ultimately show ?thesis by (simp add: workflow_inv_def)
  qed
qed

section \<open>The operations as commands\<close>

datatype 'x workflow_command =
    QueueState "nat option" bool
  | StatusTo task_status
  | StartStage string
  | StageProgress string "string option" nat "nat option"
  | CompleteStage string
  | SkipStage string
  | SetCancellable bool
  | FailStage string workflow_error_summary "'x workflow_result option"
  | FailBetweenStages workflow_error_summary "'x workflow_result"
  | WaitStage string workflow_pending_action "'x workflow_result option"
  | ClearPending
  | BeginConfirmedApply
  | CompleteWorkflow "'x workflow_result"
  | FinalizeCancellation "'x workflow_result option"
  | RejectExecution task_status workflow_error_summary bool "'x workflow_result option"

fun run_workflow ::
  "'x service_env \<Rightarrow> string \<Rightarrow> 'x workflow_command \<Rightarrow> 'x task_service \<Rightarrow>
   unit sresult \<times> 'x task_service" where
  "run_workflow e i (QueueState p c) s = forget (set_workflow_queue_state e i p c s)"
| "run_workflow e i (StatusTo st) s = forget (transition_workflow_status e i st s)"
| "run_workflow e i (StartStage sid) s = forget (start_workflow_stage e i sid s)"
| "run_workflow e i (StageProgress sid it c n) s =
     forget (update_workflow_stage_progress e i sid it c n s)"
| "run_workflow e i (CompleteStage sid) s = forget (complete_workflow_stage e i sid s)"
| "run_workflow e i (SkipStage sid) s = forget (skip_workflow_stage e i sid s)"
| "run_workflow e i (SetCancellable c) s = forget (set_task_cancellable e i c s)"
| "run_workflow e i (FailStage sid err r) s =
     forget (fail_workflow_stage_with_result e i sid err r s)"
| "run_workflow e i (FailBetweenStages err r) s =
     forget (fail_agent_lint_repair_between_stages e i err r s)"
| "run_workflow e i (WaitStage sid p r) s = forget (wait_workflow_stage_with_result e i sid p r s)"
| "run_workflow e i ClearPending s = forget (clear_workflow_pending_action e i s)"
| "run_workflow e i BeginConfirmedApply s = forget (begin_confirmed_workflow_apply e i s)"
| "run_workflow e i (CompleteWorkflow r) s = forget (complete_workflow e i r s)"
| "run_workflow e i (FinalizeCancellation r) s =
     forget (finalize_workflow_cancellation_with_result e i r s)"
| "run_workflow e i (RejectExecution st err a r) s =
     forget (reject_workflow_execution e i st err a r s)"

section \<open>What a transactional mutation leaves behind\<close>

definition entry_state ::
  "'x task_service \<Rightarrow> string \<Rightarrow> ('x backend_task \<times> 'x workflow_execution_state option) option" where
  "entry_state s i = map_option (\<lambda>en. (te_task en, te_workflow en)) (ts_tasks s i)"

definition stored_entry :: "string \<Rightarrow> 'x task_service \<Rightarrow> bool" where
  "stored_entry i s \<longleftrightarrow> (\<exists>path pe. ts_disk s path = Some pe \<and>
     entry_state s i = Some (pe_task pe, pe_workflow pe))"

lemma workflow_frame [simp]:
  "ts_tasks (publish_workflow i c t s) = ts_tasks s" "ts_disk (publish_workflow i c t s) = ts_disk s"
  "ts_tasks (flush_of i n l s) = ts_tasks s" "ts_disk (flush_of i n l s) = ts_disk s"
  by (simp_all add: publish_workflow_def emit_workflow_def bump_workflow_history_revision_def
      flush_of_def schedule_workflow_progress_flush_def)

lemma set_entry_frame [simp]:
  "ts_events (set_entry i t w s) = ts_events s" "ts_disk (set_entry i t w s) = ts_disk s"
  "ts_roots (set_entry i t w s) = ts_roots s" "ts_dirs (set_entry i t w s) = ts_dirs s"
  "j \<noteq> i \<Longrightarrow> ts_tasks (set_entry i t w s) j = ts_tasks s j"
  "ts_tasks (set_entry i t w s) i = map_option (\<lambda>en. en\<lparr>te_task := t, te_workflow := w\<rparr>) (ts_tasks s i)"
  by (simp_all add: set_entry_def)

lemma stored_entryI:
  "ts_disk s path = Some pe \<Longrightarrow> entry_state s i = Some (pe_task pe, pe_workflow pe) \<Longrightarrow> stored_entry i s"
  by (auto simp: stored_entry_def)

text \<open>The write succeeded or was deferred, or the previous entry is back.\<close>

lemma persist_mutation_outcome:
  assumes "persist_mutation e d i t0 w0 t w run s = (r, s')" and "entry_state s i = Some (t, Some w)"
    and "ts_dirs s i \<noteq> None \<longrightarrow> ts_roots s i \<noteq> None"
  shows "(\<forall>j. j \<noteq> i \<longrightarrow> ts_tasks s' j = ts_tasks s j) \<and>
     (case r of
        Inr run' \<Rightarrow> run' = run \<and> entry_state s' i = Some (t, Some w) \<and>
          (d = Barrier \<and> ts_dirs s i \<noteq> None \<longrightarrow> stored_entry i s')
      | Inl err \<Rightarrow> d = Barrier \<and> entry_state s' i = Some (t0, Some w0) \<and>
          ts_events s' = ts_events s \<and> ts_disk s' = ts_disk s)"
  using assms
  by (cases d) (auto simp: persist_mutation_def Let_def entry_state_def
      split: option.splits sum.splits if_splits intro!: stored_entryI)

lemma stamp_mutation_frame [simp]:
  "bt_status (stamp_mutation e t) = bt_status t" "bt_project_id (stamp_mutation e t) = bt_project_id t"
  "bt_id (stamp_mutation e t) = bt_id t"
  by (simp_all add: stamp_mutation_def Let_def)

lemma stamp_mutation_completes:
  "terminal_status (bt_status t) \<Longrightarrow> bt_completed_at (stamp_mutation e t) \<noteq> None"
  by (auto simp: stamp_mutation_def Let_def)

text \<open>What the mutations leave alone, so that the transaction can count revisions.\<close>

definition keeps_frame :: "'x mutation \<Rightarrow> bool" where
  "keeps_frame m \<longleftrightarrow> (\<forall>t w t' w'. m t w = Inr (t', w') \<longrightarrow>
     wf_revision w' = wf_revision w \<and> bt_project_id t' = bt_project_id t \<and> bt_id t' = bt_id t)"

definition bound :: "'x task_service \<Rightarrow> string \<Rightarrow> bool" where
  "bound s i \<longleftrightarrow> (ts_dirs s i \<noteq> None \<longrightarrow> ts_roots s i \<noteq> None) \<and>
     (\<forall>t w. entry_state s i = Some (t, Some w) \<longrightarrow> bt_project_id t \<noteq> None \<and> wf_revision w < u64_max)"

lemma mutate_outcome:
  assumes "mutate_workflow_with_durability e d i m s = (r, s')" and "keeps_frame m" and "bound s i"
  shows "(\<forall>j. j \<noteq> i \<longrightarrow> ts_tasks s' j = ts_tasks s j) \<and>
     (case r of
        Inl err \<Rightarrow> entry_state s' i = entry_state s i \<and> ts_events s' = ts_events s \<and> ts_disk s' = ts_disk s
      | Inr run \<Rightarrow> (\<exists>t0 w0 t w. entry_state s i = Some (t0, Some w0) \<and> m t0 w0 = Inr (t, w) \<and>
          entry_state s' i = Some (stamp_mutation e t, Some (w\<lparr>wf_revision := wf_revision w0 + 1\<rparr>)) \<and>
          to_run (w\<lparr>wf_revision := wf_revision w0 + 1\<rparr>) (stamp_mutation e t) = Some run \<and>
          (d = Barrier \<and> ts_dirs s i \<noteq> None \<longrightarrow> stored_entry i s')))"
proof -
  let ?l = "workflow_persistence_lane i s"
  have nochange: ?thesis if "r = Inl err" and "s' = ?l" for err
    using that by (simp add: entry_state_def)
  show ?thesis
  proof (cases "ts_tasks s i")
    case None
    with assms(1) nochange show ?thesis by (auto simp: mutate_workflow_with_durability_def Let_def)
  next
    case en: (Some en)
    show ?thesis
    proof (cases "te_workflow en")
      case None
      with assms(1) en nochange show ?thesis by (auto simp: mutate_workflow_with_durability_def Let_def)
    next
      case w0: (Some w0)
      have st: "entry_state s i = Some (te_task en, Some w0)" using en w0 by (simp add: entry_state_def)
      show ?thesis
      proof (cases "m (te_task en) w0")
        case (Inl err)
        with assms(1) en w0 nochange show ?thesis by (auto simp: mutate_workflow_with_durability_def Let_def)
      next
        case (Inr tw)
        obtain t w where tw: "tw = (t, w)" by (cases tw)
        from assms(2) Inr tw have fr: "wf_revision w = wf_revision w0"
          "bt_project_id t = bt_project_id (te_task en)" by (auto simp: keeps_frame_def)
        from assms(3) st fr have lt: "wf_revision w < u64_max" and pid: "bt_project_id t \<noteq> None"
          by (auto simp: bound_def)
        define w2 where "w2 = w\<lparr>wf_revision := wf_revision w0 + 1\<rparr>"
        from lt have adv: "advance_revision w = Inr w2"
          by (simp add: advance_revision_def checked_add_def w2_def fr)
        from pid obtain run where run: "to_run w2 (stamp_mutation e t) = Some run"
          by (auto simp: to_run_def split: option.splits)
        define s1 where "s1 = lane_update i lane_bump (set_entry i (stamp_mutation e t) (Some w2) ?l)"
        have p: "persist_mutation e d i (te_task en) w0 (stamp_mutation e t) w2 run s1 = (r, s')"
          using assms(1) en w0 Inr tw adv run
          by (simp add: mutate_workflow_with_durability_def Let_def s1_def)
        have "entry_state s1 i = Some (stamp_mutation e t, Some w2)"
          and "ts_dirs s1 i \<noteq> None \<longrightarrow> ts_roots s1 i \<noteq> None" and "ts_dirs s1 = ts_dirs s"
          and "\<forall>j. j \<noteq> i \<longrightarrow> ts_tasks s1 j = ts_tasks s j"
          and "ts_events s1 = ts_events s" and "ts_disk s1 = ts_disk s"
          using en assms(3) by (simp_all add: s1_def entry_state_def bound_def)
        with persist_mutation_outcome [OF p] st Inr tw run show ?thesis
          by (cases r) (auto simp: w2_def)
      qed
    qed
  qed
qed

lemma mutate_ok:
  assumes "mutate_workflow_with_durability e d i m s = (Inr run, s')" and "keeps_frame m" and "bound s i"
  obtains t0 w0 t w where "entry_state s i = Some (t0, Some w0)" and "m t0 w0 = Inr (t, w)"
    and "entry_state s' i = Some (stamp_mutation e t, Some (w\<lparr>wf_revision := wf_revision w0 + 1\<rparr>))"
    and "to_run (w\<lparr>wf_revision := wf_revision w0 + 1\<rparr>) (stamp_mutation e t) = Some run"
    and "\<forall>j. j \<noteq> i \<longrightarrow> ts_tasks s' j = ts_tasks s j"
    and "d = Barrier \<and> ts_dirs s i \<noteq> None \<longrightarrow> stored_entry i s'"
  using mutate_outcome [OF assms, unfolded sum.case] by (elim conjE exE) (rule that)

section \<open>Every command is a mutation\<close>

lemma keeps_frame_ops:
  "keeps_frame (\<lambda>t w. Inr (t, w\<lparr>wf_queue_position := pos, wf_continuation_required := cont\<rparr>))"
  "keeps_frame (transition_mutation st)" "keeps_frame (start_stage_mutation e sig i sid)"
  "keeps_frame (stage_progress_mutation sig i sid item current tot)"
  "keeps_frame (complete_stage_mutation e sig i sid)" "keeps_frame (skip_stage_mutation e sig i sid)"
  "keeps_frame (cancellable_mutation sig i c)" "keeps_frame (fail_stage_mutation e sig i sid err result)"
  by (auto simp: keeps_frame_def transition_mutation_def start_stage_mutation_def
      stage_progress_mutation_def complete_stage_mutation_def skip_stage_mutation_def
      cancellable_mutation_def fail_stage_mutation_def split: sum.splits if_splits option.splits)

lemma keeps_frame_more:
  "keeps_frame (between_stages_mutation e err r)" "keeps_frame (wait_stage_mutation sig i sid p result)"
  "keeps_frame (clear_pending_mutation sig i)" "keeps_frame (confirmed_apply_mutation sig i)"
  "keeps_frame (complete_workflow_mutation sig i r)" "keeps_frame (finalize_cancel_mutation c i result)"
  "keeps_frame (reject_mutation e sig i status werr allow result)"
  by (auto simp: keeps_frame_def between_stages_mutation_def wait_stage_mutation_def
      clear_pending_mutation_def confirmed_apply_mutation_def complete_workflow_mutation_def
      finalize_cancel_mutation_def reject_mutation_def resume_current_stage_def Let_def
      split: if_splits option.splits workflow_operation.splits)

fun command_durability :: "'x workflow_command \<Rightarrow> workflow_mutation_durability" where
  "command_durability (StageProgress _ _ _ _) = ObservationalProgress"
| "command_durability _ = Barrier"

lemma forget_result: "forget p = (r, s') \<Longrightarrow> s' = snd p \<and> (is_ok r \<longleftrightarrow> is_ok (fst p))"
  by (cases p; cases "fst p") (auto simp: forget_def)

lemma then_get_task_result:
  assumes "mutate_workflow e i m s = p" and "keeps_frame m"
  shows "snd (then_get_task i p) = snd p \<and> (is_ok (fst (then_get_task i p)) \<longrightarrow> is_ok (fst p)) \<and>
     (bound s i \<longrightarrow> is_ok (fst (then_get_task i p)) = is_ok (fst p))"
proof (cases p)
  case (Pair r s')
  show ?thesis
  proof (cases r)
    case (Inr run)
    with mutate_outcome [OF assms(1) [unfolded mutate_workflow_def Pair] assms(2)]
    have "bound s i \<longrightarrow> get_task i s' \<noteq> None" by (auto simp: entry_state_def get_task_def)
    with Pair Inr show ?thesis by (auto simp: then_get_task_def split: option.splits)
  qed (simp add: Pair then_get_task_def)
qed

lemma run_workflow_mutation:
  assumes "run_workflow e i cmd s = (r, s')"
  shows "(\<not> is_ok r \<and> s' = s) \<or>
     (\<exists>m r0. mutate_workflow_with_durability e (command_durability cmd) i m s = (r0, s') \<and>
        (is_ok r \<longrightarrow> is_ok r0) \<and> (bound s i \<longrightarrow> is_ok r = is_ok r0) \<and> keeps_inv m \<and> keeps_frame m)"
    (is "_ \<or> ?M")
proof -
  have mut: ?M if "run_workflow e i cmd s = forget (mutate_workflow_with_durability e
     (command_durability cmd) i m s)" and "keeps_inv m" and "keeps_frame m" for m
    using that assms(1) forget_result [of "mutate_workflow_with_durability e (command_durability cmd) i m s"]
    by (intro exI [of _ m] exI [of _ "fst (mutate_workflow_with_durability e (command_durability cmd) i m s)"])
      (auto simp: prod_eq_iff)
  note mdefs = set_workflow_queue_state_def transition_workflow_status_def start_workflow_stage_def
    update_workflow_stage_progress_def complete_workflow_stage_def skip_workflow_stage_def
    fail_workflow_stage_with_result_def wait_workflow_stage_with_result_def
    clear_workflow_pending_action_def begin_confirmed_workflow_apply_def complete_workflow_def
    finalize_workflow_cancellation_with_result_def mutate_workflow_def
  show ?thesis
  proof (cases cmd)
    case (SetCancellable c)
    let ?m = "cancellable_mutation (cancel_signalled i s) i c"
    let ?p = "mutate_workflow e i ?m s"
    from assms(1) SetCancellable have "forget (then_get_task i ?p) = (r, s')"
      by (simp add: set_task_cancellable_def)
    with forget_result [OF this] then_get_task_result [OF refl keeps_frame_ops(7)]
    have "s' = snd ?p \<and> (is_ok r \<longrightarrow> is_ok (fst ?p)) \<and> (bound s i \<longrightarrow> is_ok r = is_ok (fst ?p))" by simp
    then show ?thesis using SetCancellable
      by (intro disjI2 exI [of _ ?m] exI [of _ "fst ?p"])
        (simp add: mutate_workflow_def cancellable_keeps keeps_frame_ops)
  next
    case (FailBetweenStages err result)
    then show ?thesis using assms(1) mut [of "between_stages_mutation e err result"]
      by (auto simp: fail_agent_lint_repair_between_stages_def mutate_workflow_def keeps_frame_more
          between_stages_keeps split: if_splits)
  next
    case (RejectExecution st err allow result)
    then show ?thesis
      using assms(1) mut [of "reject_mutation e (cancel_signalled i s) i st err allow result"]
      by (auto simp: reject_workflow_execution_def mutate_workflow_def keeps_frame_more
          reject_keeps split: if_splits)
  qed (use mut in \<open>simp_all add: mdefs keeps_frame_ops keeps_frame_more inv_intros\<close>)
qed

section \<open>The machine\<close>

definition stages_inv :: "'x task_service \<Rightarrow> bool" where
  "stages_inv s \<longleftrightarrow> (\<forall>i t w. entry_state s i = Some (t, Some w) \<longrightarrow> workflow_inv t w)"

lemma persist_mutation_entry:
  assumes "persist_mutation e d i t0 w0 t w run s = (r, s')" and "entry_state s i = Some (t, Some w)"
  shows "(\<forall>j. j \<noteq> i \<longrightarrow> ts_tasks s' j = ts_tasks s j) \<and>
     entry_state s' i \<in> {Some (t, Some w), Some (t0, Some w0)}"
  using assms
  by (cases d) (auto simp: persist_mutation_def Let_def entry_state_def
      split: option.splits sum.splits if_splits)

text \<open>The entry after an admitted mutation, up to the revision and the time stamps.\<close>

fun mutated_entry :: "'x mutation \<Rightarrow> ('x backend_task \<times> 'x workflow_execution_state option) option \<Rightarrow>
  ('x backend_task \<times> 'x workflow_execution_state option) option \<Rightarrow> bool" where
  "mutated_entry m (Some (t0, Some w0)) (Some (t', Some w')) =
     (case m t0 w0 of Inl _ \<Rightarrow> False
      | Inr (t, w) \<Rightarrow> bt_status t' = bt_status t \<and> wf_stages w' = wf_stages w \<and>
          wf_current_stage_id w' = wf_current_stage_id w)"
| "mutated_entry m _ _ = False"

lemma advance_frame:
  "advance_revision w = Inr w2 \<Longrightarrow>
   wf_stages w2 = wf_stages w \<and> wf_current_stage_id w2 = wf_current_stage_id w"
  by (auto simp: advance_revision_def split: option.splits)

lemma mutate_entry:
  assumes "mutate_workflow_with_durability e d i m s = (r, s')"
  shows "(\<forall>j. j \<noteq> i \<longrightarrow> ts_tasks s' j = ts_tasks s j) \<and>
     (entry_state s' i = entry_state s i \<or> mutated_entry m (entry_state s i) (entry_state s' i))"
proof (cases "\<exists>en w0 t w. ts_tasks s i = Some en \<and> te_workflow en = Some w0 \<and>
    m (te_task en) w0 = Inr (t, w)")
  case False
  then show ?thesis using assms
    by (auto simp: mutate_workflow_with_durability_def Let_def entry_state_def
        split: option.splits sum.splits)
next
  let ?l = "workflow_persistence_lane i s"
  case True
  then obtain en w0 t w where en: "ts_tasks s i = Some en" "te_workflow en = Some w0"
    and m: "m (te_task en) w0 = Inr (t, w)" by auto
  then have st: "entry_state s i = Some (te_task en, Some w0)" by (simp add: entry_state_def)
  show ?thesis
  proof (cases "advance_revision w")
    case (Inl err)
    with assms en m have s': "s' = set_entry i t (Some w) ?l"
      by (simp add: mutate_workflow_with_durability_def Let_def)
    show ?thesis unfolding st by (simp add: s' entry_state_def en m)
  next
    case (Inr w2)
    define s1 where "s1 = lane_update i lane_bump (set_entry i (stamp_mutation e t) (Some w2) ?l)"
    have s1: "entry_state s1 i = Some (stamp_mutation e t, Some w2)"
      "\<forall>j. j \<noteq> i \<longrightarrow> ts_tasks s1 j = ts_tasks s j"
      using en by (simp_all add: s1_def entry_state_def)
    show ?thesis
    proof (cases "to_run w2 (stamp_mutation e t)")
      case None
      with assms en m Inr have "s' = s1"
        by (simp add: mutate_workflow_with_durability_def Let_def s1_def)
      with s1 st m advance_frame [OF Inr] show ?thesis by simp
    next
      case (Some run)
      have p: "persist_mutation e d i (te_task en) w0 (stamp_mutation e t) w2 run s1 = (r, s')"
        using assms en m Inr Some by (simp add: mutate_workflow_with_durability_def Let_def s1_def)
      with persist_mutation_entry [OF p s1(1)] s1(2) st m advance_frame [OF Inr] show ?thesis by auto
    qed
  qed
qed

lemma mutate_stages_inv:
  assumes "mutate_workflow_with_durability e d i m s = (r, s')" and "stages_inv s"
    and "\<And>t w t' w'. entry_state s i = Some (t, Some w) \<Longrightarrow> m t w = Inr (t', w') \<Longrightarrow> workflow_inv t' w'"
  shows "stages_inv s'"
proof -
  have "workflow_inv t w" if s': "entry_state s' j = Some (t, Some w)" for j t w
  proof (cases "j = i \<and> mutated_entry m (entry_state s i) (entry_state s' i)")
    case True
    with s' obtain t0 w0 t1 w1 where h: "entry_state s i = Some (t0, Some w0)" "m t0 w0 = Inr (t1, w1)"
      and "bt_status t = bt_status t1" "wf_stages w = wf_stages w1"
        "wf_current_stage_id w = wf_current_stage_id w1"
      by (auto elim!: mutated_entry.elims split: sum.splits)
    with assms(3) [OF h] show ?thesis by (auto intro: workflow_inv_cong)
  next
    case False
    with mutate_entry [OF assms(1)] have "entry_state s' j = entry_state s j"
      by (cases "j = i") (auto simp: entry_state_def)
    with s' have "entry_state s j = Some (t, Some w)" by simp
    with assms(2) show ?thesis by (simp add: stages_inv_def)
  qed
  then show ?thesis by (simp add: stages_inv_def)
qed

lemma run_workflow_stages_inv:
  assumes "run_workflow e i cmd s = (r, s')" and "stages_inv s"
  shows "stages_inv s'"
  using run_workflow_mutation [OF assms(1)]
proof (elim disjE exE conjE)
  fix m r0
  assume p: "mutate_workflow_with_durability e (command_durability cmd) i m s = (r0, s')"
    and k: "keeps_inv m"
  show ?thesis
  proof (rule mutate_stages_inv [OF p assms(2)])
    fix t w t' w'
    assume "entry_state s i = Some (t, Some w)" and "m t w = Inr (t', w')"
    with assms(2) k show "workflow_inv t' w'" unfolding stages_inv_def keeps_inv_def by blast
  qed
qed (use assms(2) in simp)

lemma request_workflow_cancel_stages_inv:
  assumes "request_workflow_cancel e i s = (r, s')" and "stages_inv s"
  shows "stages_inv s'"
proof -
  have c: "stages_inv s1" if p: "mutate_workflow e i (cancel_mutation i c) s = (r1, s1)"
    and live: "\<And>t w. entry_state s i = Some (t, Some w) \<Longrightarrow> bt_status t \<noteq> Failed" for c r1 s1
  proof (rule mutate_stages_inv [OF p [unfolded mutate_workflow_def] assms(2)])
    fix t w t' w'
    assume h: "entry_state s i = Some (t, Some w)" "cancel_mutation i c t w = Inr (t', w')"
    with assms(2) have "workflow_inv t w" by (simp add: stages_inv_def)
    with h live [OF h(1)] show "workflow_inv t' w'"
      by (auto simp: cancel_mutation_def split: if_splits intro: workflow_inv_cong)
  qed
  show ?thesis
  proof (cases "get_workflow_run i s")
    case None
    with assms show ?thesis by (simp add: request_workflow_cancel_def)
  next
    case (Some run)
    then have st: "\<And>t w. entry_state s i = Some (t, Some w) \<Longrightarrow>
        wr_display_status run = display_status_from (bt_status t)"
      by (auto simp: get_workflow_run_def entry_state_def to_run_def split: option.splits)
    have keep: "stages_inv (set_cancellation f s1) = stages_inv s1" for f s1
      by (simp add: stages_inv_def entry_state_def)
    show ?thesis
    proof (cases "wr_display_status run \<in> {DisplayRunning, DisplayWaitingForConfirmation}")
      case True
      then have live: "\<And>t w. entry_state s i = Some (t, Some w) \<Longrightarrow> bt_status t \<noteq> Failed"
        using st by fastforce
      from True Some assms(1) obtain c r1 s1 where p: "mutate_workflow e i (cancel_mutation i c) s = (r1, s1)"
        and s': "s' = s1 \<or> (\<exists>f. s' = set_cancellation f s1)"
        by (auto simp: request_workflow_cancel_def split: prod.splits sum.splits if_splits)
      from c [OF p] live have "stages_inv s1" by blast
      with s' keep show ?thesis by auto
    next
      case False
      with Some assms keep show ?thesis by (auto simp: request_workflow_cancel_def)
    qed
  qed
qed

text \<open>Creation and the delayed flush.\<close>

lemma persist_current_task_entry:
  "(r, s') = persist_current_task e i s \<Longrightarrow> entry_state s' j = entry_state s j"
proof -
  assume p: "(r, s') = persist_current_task e i s"
  show "entry_state s' j = entry_state s j"
  proof (cases r)
    case (Inl err)
    with p persist_fail [of e i True "workflow_persistence_lane i s" err s'] show ?thesis
      by (simp add: persist_current_task_def entry_state_def)
  next
    case (Inr u)
    with p have "persist_current_task_with_lane e i True (workflow_persistence_lane i s) = (Inr u, s')"
      by (simp add: persist_current_task_def)
    from persist_ok_frame [OF this] show ?thesis
      by (cases "j = i"; cases "ts_tasks s i"; cases "ts_tasks s' i") (auto simp: entry_state_def)
  qed
qed

lemma create_entry:
  assumes "create_task_internal e i q s = (r, s')"
  shows "(j \<noteq> i \<longrightarrow> entry_state s' j = entry_state s j) \<and>
     (entry_state s' i = None \<or> entry_state s' i = Some (new_task e i q,
        map_option (\<lambda>w. w\<lparr>wf_revision := 1, wf_session_id := ts_session_id s\<rparr>) (rq_workflow q)))"
proof -
  obtain tok reg where reg: "registry_register i (ts_cancellation s) = (tok, reg)" by fastforce
  define s1 where "s1 = s\<lparr>ts_cancellation := reg, ts_tasks := (ts_tasks s)(i \<mapsto>
       \<lparr>te_task = new_task e i q, te_cancellation = tok, te_log_lines = [], te_activities = [],
         te_persisted_path = None, te_workflow = map_option (\<lambda>w. w\<lparr>wf_revision := 1,
           wf_session_id := ts_session_id s\<rparr>) (rq_workflow q)\<rparr>),
       ts_roots := insert_optional i (rq_project_root q) (ts_roots s),
       ts_dirs := insert_optional i (rq_persistence_dir q) (ts_dirs s)\<rparr>"
  obtain r2 s2 where p: "(r2, s2) = persist_current_task e i s1" by (metis surj_pair)
  have s2: "entry_state s2 j = entry_state s1 j" for j by (rule persist_current_task_entry [OF p])
  have "entry_state s' = (entry_state s2)(i := None) \<or> entry_state s' = entry_state s2"
    using assms reg p [symmetric] s1_def
    by (auto simp: create_task_internal_def Let_def entry_state_def fun_eq_iff
        bump_workflow_history_revision_def split: sum.splits if_splits)
  moreover have "entry_state s1 i = Some (new_task e i q,
      map_option (\<lambda>w. w\<lparr>wf_revision := 1, wf_session_id := ts_session_id s\<rparr>) (rq_workflow q))"
    and "j \<noteq> i \<longrightarrow> entry_state s1 j = entry_state s j"
    by (simp_all add: s1_def entry_state_def)
  ultimately show ?thesis using s2 by auto
qed

lemma flush_entry: "entry_state (flush_pending_workflow_progress e i g s) = entry_state s"
  by (auto simp: flush_pending_workflow_progress_def Let_def entry_state_def fun_eq_iff
      split: option.splits sum.splits)

text \<open>
  The service as a machine: tasks are created with the stage list of their kind (or that of a
  repair), then the workflow operations, the cancellation requests and the delayed writes run
  in any order, each with its own outside world.
\<close>

definition fresh_workflow :: "'x workflow_execution_state \<Rightarrow> bool" where
  "fresh_workflow w \<longleftrightarrow> wf_current_stage_id w = None \<and>
     (wf_stages w = agent_lint_repair_stages \<or> (\<exists>kind. wf_stages w = workflow_stages kind))"

inductive workflow_step :: "'x task_service \<Rightarrow> 'x task_service \<Rightarrow> bool" where
  step_create: "create_task_internal e i q s = (r, s') \<Longrightarrow>
    (\<And>w. rq_workflow q = Some w \<Longrightarrow> fresh_workflow w) \<Longrightarrow> workflow_step s s'"
| step_command: "run_workflow e i cmd s = (r, s') \<Longrightarrow> workflow_step s s'"
| step_cancel: "request_workflow_cancel e i s = (r, s') \<Longrightarrow> workflow_step s s'"
| step_flush: "workflow_step s (flush_pending_workflow_progress e i g s)"

lemma fresh_workflow_inv:
  assumes "fresh_workflow w" shows "workflow_inv t (w\<lparr>wf_revision := n, wf_session_id := x\<rparr>)"
  using assms workflow_stages_ok agent_lint_repair_stages_ok
  by (auto simp: fresh_workflow_def workflow_inv_def stages_ok_def)

lemma workflow_step_inv: "workflow_step s s' \<Longrightarrow> stages_inv s \<Longrightarrow> stages_inv s'"
proof (induction rule: workflow_step.induct)
  case (step_create e i q s r s')
  show ?case unfolding stages_inv_def
  proof (intro allI impI)
    fix j t w
    assume "entry_state s' j = Some (t, Some w)"
    with create_entry [OF step_create(1), of j] step_create(2,3) show "workflow_inv t w"
      by (cases "j = i"; cases "rq_workflow q") (auto simp: stages_inv_def intro: fresh_workflow_inv)
  qed
next
  case (step_flush s e i g)
  then show ?case by (simp add: stages_inv_def flush_entry)
qed (rule run_workflow_stages_inv request_workflow_cancel_stages_inv; assumption)+

interpretation workflow_machine:
  invariant_machine "\<lambda>s. ts_tasks s = Map.empty" workflow_step stages_inv
  by unfold_locales (simp add: stages_inv_def entry_state_def, blast intro: workflow_step_inv)

section \<open>Properties of workflows\<close>

text \<open>
  C6: In every state the service reaches, every workflow has at most one active stage, that
  stage is the recorded current one, and a stage that was ever touched has all stages of lower
  ordinal completed or skipped.
\<close>

theorem stage_order_always:
  assumes "ts_tasks s0 = Map.empty" and "workflow_step\<^sup>*\<^sup>* s0 s"
    and "ts_tasks s i = Some en" and "te_workflow en = Some w"
  shows "(\<forall>a \<in> set (wf_stages w). \<forall>b \<in> set (wf_stages w). stage_active a \<and> stage_active b \<longrightarrow> a = b) \<and>
     (\<forall>a \<in> set (wf_stages w). stage_active a \<longrightarrow> wf_current_stage_id w = Some (st_id a)) \<and>
     (\<forall>a \<in> set (wf_stages w). \<forall>b \<in> set (wf_stages w).
        st_status b \<noteq> StagePending \<and> st_ordinal a < st_ordinal b \<longrightarrow> stage_done a)"
proof -
  have "stages_inv s" using assms(1,2) by (rule workflow_machine.inv_reachable)
  with assms(3,4) have ok: "stages_ok (wf_stages w) (wf_current_stage_id w) (bt_status (te_task en) = Failed)"
    by (auto simp: stages_inv_def entry_state_def workflow_inv_def)
  then have inj: "inj_on st_id (set (wf_stages w))" by (simp add: stages_ok_def distinct_map)
  have act: "\<And>a. a \<in> set (wf_stages w) \<Longrightarrow> stage_active a \<Longrightarrow> wf_current_stage_id w = Some (st_id a)"
    using ok by (simp add: stages_ok_def)
  have "a = b" if "a \<in> set (wf_stages w)" "b \<in> set (wf_stages w)" "stage_active a" "stage_active b" for a b
    using act [OF that(1,3)] act [OF that(2,4)] inj that(1,2) by (simp add: inj_on_eq_iff)
  moreover have "stage_done a" if "a \<in> set (wf_stages w)" "b \<in> set (wf_stages w)"
    "st_status b \<noteq> StagePending" "st_ordinal a < st_ordinal b" for a b
    using ok that by (auto simp: stages_ok_def earlier_incomplete_iff)
  ultimately show ?thesis using act by blast
qed

definition sample_workflow :: "workflow_stage list \<Rightarrow> unit workflow_execution_state" where
  "sample_workflow ss = \<lparr>wf_schema_version = 1, wf_revision = 1, wf_session_id = ''s'',
     wf_canonical_identity_key = ''k'', wf_identity_revision = ''r'', wf_kind = HealthCheck,
     wf_scope = ScopeHealthCheck Complete,
     wf_execution_options = \<lparr>eo_update_request = None, eo_update_config_revision = None,
       eo_preparation_revision = ''r'', eo_operation = BuiltIn, eo_preparation_fingerprint = None,
       eo_existing_target_hash = None, eo_restricted_content_acknowledgement_revision = None,
       eo_remote_provider_acknowledgement_revision = None\<rparr>,
     wf_route = Some (LocalRoute ''r''), wf_fingerprint = ''f'', wf_baseline_fingerprint = ''b'',
     wf_persistence = Persistent, wf_persistence_transition = None, wf_stages = ss,
     wf_current_stage_id = None, wf_queue_position = None, wf_continuation_required = False,
     wf_retry = None, wf_pending_action = None, wf_result = None, wf_error = None,
     wf_cancelled_from_queue = False, wf_undo_cancel_until = None\<rparr>"

definition workflow_service :: "task_status \<Rightarrow> workflow_stage list \<Rightarrow> unit task_service" where
  "workflow_service st ss =
    (let s = sample_service ((sample_task st)\<lparr>bt_task_type := Workflow\<rparr>) TASK_SIGNAL_RUNNING in
     s\<lparr>ts_tasks := [''a'' \<mapsto> (the (ts_tasks s ''a''))\<lparr>te_workflow := Some (sample_workflow ss)\<rparr>]\<rparr>)"

lemmas workflow_eval = sample_defs workflow_service_def sample_workflow_def entry_state_def
  mutate_workflow_def mutate_workflow_with_durability_def persist_mutation_def
  transition_workflow_status_def transition_mutation_def advance_revision_def checked_add_def
  stamp_mutation_def to_run_def lane_of_def set_entry_def lane_bump_def u64_max_def
  complete_workflow_def complete_workflow_mutation_def require_running_workflow_def
  cancel_signalled_def registry_get_def and_then_def

definition health_request :: "unit task_request" where
  "health_request = \<lparr>rq_task_type = Workflow, rq_project_id = Some ''p'', rq_project_root = Some ''/p'',
     rq_title = ''Health'', rq_cancellable = True, rq_batch_id = None, rq_operation = None,
     rq_require_persistence = True, rq_workflow = Some (sample_workflow (workflow_stages HealthCheck)),
     rq_persistence_dir = Some ''/p/tasks''\<rparr>"

theorem stage_order_always_witness:
  "list_all (\<lambda>a. list_all (\<lambda>b. stage_active a \<and> stage_active b \<longrightarrow> a = b)
     (workflow_stages HealthCheck)) (workflow_stages HealthCheck)"
proof -
  define s0 :: "unit task_service" where "s0 = (workflow_service Queued [])\<lparr>ts_tasks := Map.empty\<rparr>"
  let ?r = "create_task_internal sample_env ''a'' health_request s0"
  have "workflow_step s0 (snd ?r)"
    by (rule step_create [of sample_env "''a''" health_request s0 "fst ?r"])
      (auto simp: health_request_def fresh_workflow_def sample_workflow_def)
  then have run: "workflow_step\<^sup>*\<^sup>* s0 (snd ?r)" by simp
  have "map_option (map_option wf_stages \<circ> te_workflow) (ts_tasks (snd ?r) ''a'') =
      Some (Some (workflow_stages HealthCheck))"
    by (simp add: sample_defs s0_def workflow_service_def create_task_internal_def new_task_def
        health_request_def sample_workflow_def registry_register_def persist_current_task_def
        insert_optional_def bump_workflow_history_revision_def)
  then obtain en w where "ts_tasks (snd ?r) ''a'' = Some en" "te_workflow en = Some w"
    and ss: "wf_stages w = workflow_stages HealthCheck" by auto
  from stage_order_always [OF _ run this(1,2)] ss show ?thesis by (simp add: s0_def list_all_iff)
qed

text \<open>
  C13: A workflow operation that returns an error leaves no trace: the task, its execution
  state (stages, result, revision), the event log and the stored snapshots are those before the
  call. This is for a task of a project whose revision counter is not exhausted and whose
  task directory comes with a project root.
\<close>

theorem workflow_failure_atomic:
  assumes "run_workflow e i cmd s = (Inl err, s')" and "bound s i"
  shows "(\<forall>j. entry_state s' j = entry_state s j) \<and> ts_events s' = ts_events s \<and> ts_disk s' = ts_disk s"
  using run_workflow_mutation [OF assms(1)]
proof (elim disjE exE conjE)
  fix m r0
  assume p: "mutate_workflow_with_durability e (command_durability cmd) i m s = (r0, s')"
    and k: "keeps_frame m" and "bound s i \<longrightarrow> is_ok (Inl err :: unit sresult) = is_ok r0"
  then obtain m0 where "r0 = Inl m0" using assms(2) by (cases r0) auto
  with mutate_outcome [OF p k assms(2)] have "\<forall>j. j \<noteq> i \<longrightarrow> ts_tasks s' j = ts_tasks s j"
    and "entry_state s' i = entry_state s i \<and> ts_events s' = ts_events s \<and> ts_disk s' = ts_disk s"
    by simp_all
  then show ?thesis by (metis entry_state_def)
qed simp

theorem workflow_failure_atomic_witness:
  "fst (run_workflow full_disk_env ''a'' (StatusTo Running) (workflow_service Queued [])) =
     Inl ''disk full'' \<and>
   entry_state (snd (run_workflow full_disk_env ''a'' (StatusTo Running) (workflow_service Queued []))) ''a'' =
     entry_state (workflow_service Queued []) ''a''"
proof -
  let ?r = "run_workflow full_disk_env ''a'' (StatusTo Running) (workflow_service Queued [])"
  have f: "fst ?r = Inl ''disk full''" by (simp add: workflow_eval)
  then have r: "?r = (Inl ''disk full'', snd ?r)" by (simp add: prod_eq_iff)
  have "bound (workflow_service Queued []) ''a''" by (simp add: workflow_eval bound_def u64_max_def)
  from workflow_failure_atomic [OF r this] f show ?thesis by simp
qed

text \<open>
  A workflow operation that succeeds advances the revision of that workflow by exactly
  one, gives every terminal status a completion time, and (progress reports apart, which may be
  deferred) has stored the very state readers see.
\<close>

theorem workflow_success_counts:
  assumes "run_workflow e i cmd s = (Inr (), s')" and "bound s i"
  shows "\<exists>t0 w0 t w. entry_state s i = Some (t0, Some w0) \<and> entry_state s' i = Some (t, Some w) \<and>
     wf_revision w = wf_revision w0 + 1 \<and> bt_id t = bt_id t0 \<and> bt_project_id t = bt_project_id t0 \<and>
     (terminal_status (bt_status t) \<longrightarrow> bt_completed_at t \<noteq> None) \<and>
     (\<forall>j. j \<noteq> i \<longrightarrow> entry_state s' j = entry_state s j) \<and>
     (command_durability cmd = Barrier \<and> ts_dirs s i \<noteq> None \<longrightarrow> stored_entry i s')"
proof -
  from run_workflow_mutation [OF assms(1)] obtain m r0 where
    p: "mutate_workflow_with_durability e (command_durability cmd) i m s = (r0, s')"
    and k: "keeps_frame m" and "is_ok r0" by auto
  then obtain run where r0: "r0 = Inr run" by (auto simp: is_ok_iff)
  obtain t0 w0 t w where
    a: "entry_state s i = Some (t0, Some w0)" "m t0 w0 = Inr (t, w)"
      "entry_state s' i = Some (stamp_mutation e t, Some (w\<lparr>wf_revision := wf_revision w0 + 1\<rparr>))"
    and b: "\<forall>j. j \<noteq> i \<longrightarrow> ts_tasks s' j = ts_tasks s j"
    and d: "command_durability cmd = Barrier \<and> ts_dirs s i \<noteq> None \<longrightarrow> stored_entry i s'"
    by (rule mutate_ok [OF p [unfolded r0] k assms(2)])
  from k a(2) have fr: "bt_project_id t = bt_project_id t0 \<and> bt_id t = bt_id t0"
    unfolding keeps_frame_def by blast
  show ?thesis
    by (rule exI [of _ t0], rule exI [of _ w0], rule exI [of _ "stamp_mutation e t"],
        rule exI [of _ "w\<lparr>wf_revision := wf_revision w0 + 1\<rparr>"])
      (use a(1,3) b d fr stamp_mutation_completes [of t e] in \<open>auto simp: entry_state_def\<close>)
qed

theorem workflow_success_counts_witness:
  "\<exists>t w. entry_state (snd (run_workflow sample_env ''a'' (StatusTo Running) (workflow_service Queued []))) ''a'' =
     Some (t, Some w) \<and> wf_revision w = 2"
proof -
  let ?r = "run_workflow sample_env ''a'' (StatusTo Running) (workflow_service Queued [])"
  have "fst ?r = Inr ()" by (simp add: workflow_eval)
  then have r: "?r = (Inr (), snd ?r)" by (simp add: prod_eq_iff)
  have b: "bound (workflow_service Queued []) ''a''" by (simp add: workflow_eval bound_def u64_max_def)
  have w: "\<And>t w. entry_state (workflow_service Queued []) ''a'' = Some (t, Some w) \<Longrightarrow> wf_revision w = 1"
    by (auto simp: workflow_eval)
  from workflow_success_counts [OF r b] w show ?thesis by fastforce
qed

text \<open>
  C15: A workflow is reported complete only when it is: \<open>complete_workflow\<close> succeeds only on
  a running workflow with no cancellation signal, no current stage, no pending action and every
  stage completed or skipped, and then the task is Succeeded with the given result.
\<close>

theorem complete_workflow_requires_stages:
  assumes "complete_workflow e i result s = (Inr run, s')" and "bound s i"
  shows "\<exists>t0 w0 t w. entry_state s i = Some (t0, Some w0) \<and> entry_state s' i = Some (t, Some w) \<and>
     bt_status t0 = Running \<and> \<not> cancel_signalled i s \<and> wf_current_stage_id w0 = None \<and>
     wf_pending_action w0 = None \<and> list_all stage_done (wf_stages w0) \<and>
     bt_status t = Succeeded \<and> bt_completed_at t \<noteq> None \<and> wf_result w = Some result \<and>
     wf_stages w = wf_stages w0 \<and> wr_display_status run = DisplayCompleted"
proof -
  let ?m = "complete_workflow_mutation (cancel_signalled i s) i result"
  from assms(1) have "mutate_workflow_with_durability e Barrier i ?m s = (Inr run, s')"
    by (simp add: complete_workflow_def mutate_workflow_def)
  then obtain t0 w0 t w where
    a: "entry_state s i = Some (t0, Some w0)" and m: "?m t0 w0 = Inr (t, w)" and
    b: "entry_state s' i = Some (stamp_mutation e t, Some (w\<lparr>wf_revision := wf_revision w0 + 1\<rparr>))"
    and run: "to_run (w\<lparr>wf_revision := wf_revision w0 + 1\<rparr>) (stamp_mutation e t) = Some run"
    by (rule mutate_ok [OF _ keeps_frame_more(5) assms(2)])
  from m have g: "bt_status t0 = Running" "\<not> cancel_signalled i s" "wf_current_stage_id w0 = None"
      "wf_pending_action w0 = None" "\<not> list_ex (\<lambda>st. \<not> stage_done st) (wf_stages w0)"
    and t: "bt_status t = Succeeded" and w: "wf_result w = Some result" "wf_stages w = wf_stages w0"
    by (auto simp: complete_workflow_mutation_def require_running_ok split: if_splits)
  from run t have "wr_display_status run = DisplayCompleted"
    by (auto simp: to_run_def split: option.splits)
  moreover have "list_all stage_done (wf_stages w0)" using g(5) by (auto simp: list_ex_iff list_all_iff)
  moreover have "bt_completed_at (stamp_mutation e t) \<noteq> None"
    using stamp_mutation_completes [of t e] t by (simp add: terminal_status_def)
  ultimately show ?thesis using a b g(1-4) t w
    by (intro exI [of _ t0] exI [of _ w0] exI [of _ "stamp_mutation e t"]
        exI [of _ "w\<lparr>wf_revision := wf_revision w0 + 1\<rparr>"]) simp
qed

definition health_result :: "unit workflow_result" where
  "health_result = ResultHealthCheck None True None 0 0 0 None []"

theorem complete_workflow_requires_stages_witness:
  "\<exists>t w. entry_state (snd (complete_workflow sample_env ''a'' health_result (workflow_service Running []))) ''a'' =
     Some (t, Some w) \<and> bt_status t = Succeeded \<and> wf_result w = Some health_result"
proof -
  let ?r = "complete_workflow sample_env ''a'' health_result (workflow_service Running [])"
  obtain run where "fst ?r = Inr run" by (simp add: workflow_eval)
  then have r: "?r = (Inr run, snd ?r)" by (simp add: prod_eq_iff)
  have "bound (workflow_service Running []) ''a''" by (simp add: workflow_eval bound_def u64_max_def)
  from complete_workflow_requires_stages [OF r this] show ?thesis by auto
qed

fun advances :: "'x workflow_command \<Rightarrow> bool" where
  "advances (QueueState _ _) = False"
| "advances (StatusTo _) = False"
| "advances (SetCancellable _) = False"
| "advances (FailBetweenStages _ _) = False"
| "advances (FinalizeCancellation _) = False"
| "advances _ = True"

lemma refused_mutation:
  assumes "\<And>t w. \<not> is_ok (m t w)"
  shows "\<not> is_ok (fst (mutate_workflow_with_durability e d i m s)) \<and>
     snd (mutate_workflow_with_durability e d i m s) = workflow_persistence_lane i s"
proof -
  have "\<exists>err. m t w = Inl err" for t w using assms [of t w] by (cases "m t w") auto
  then show ?thesis
    by (auto simp: mutate_workflow_with_durability_def Let_def split: option.splits sum.splits)
      (metis Inl_Inr_False)+
qed

text \<open>
  Once the cancellation of a workflow is signalled its run is frozen: no stage starts,
  reports progress, completes, is skipped, fails or waits, no confirmation resumes it, and it
  neither completes nor is rejected; each of these calls errs and changes nothing.
\<close>

theorem cancelled_workflow_frozen:
  assumes "cancel_signalled i s" and "advances cmd"
  shows "\<not> is_ok (fst (run_workflow e i cmd s)) \<and>
     (\<forall>j. entry_state (snd (run_workflow e i cmd s)) j = entry_state s j) \<and>
     ts_events (snd (run_workflow e i cmd s)) = ts_events s \<and>
     ts_disk (snd (run_workflow e i cmd s)) = ts_disk s"
proof -
  have fg: "fst (forget p) = (case fst p of Inl err \<Rightarrow> Inl err | Inr _ \<Rightarrow> Inr ())"
    "snd (forget p) = snd p" for p :: "'b sresult \<times> 'a task_service"
    by (simp_all add: forget_def)
  have ok: "is_ok (case x of Inl err \<Rightarrow> Inl err | Inr _ \<Rightarrow> Inr ()) = is_ok x" for x :: "'b sresult"
    by (cases x) simp_all
  have guards: "\<not> is_ok (require_running_workflow t True i)" "\<not> is_ok (current_running_stage True i sid t w)"
    for t :: "'a backend_task" and w sid
    by (simp_all add: require_running_workflow_def current_running_ok)
  have ref: "\<not> is_ok (fst (mutate_workflow e i m s)) \<and>
      (\<forall>j. entry_state (snd (mutate_workflow e i m s)) j = entry_state s j) \<and>
      ts_events (snd (mutate_workflow e i m s)) = ts_events s \<and>
      ts_disk (snd (mutate_workflow e i m s)) = ts_disk s"
    if "\<And>t w. \<not> is_ok (m t w)" for m
    using refused_mutation [of m e Barrier i s] that
    by (simp add: mutate_workflow_def entry_state_def)
  show ?thesis
  proof (cases cmd)
    case (StageProgress sid it c n)
    have "\<not> is_ok (stage_progress_mutation True i sid it c n t w)" for t :: "'a backend_task" and w
      by (simp add: stage_progress_mutation_def guards)
    then show ?thesis using assms(1) StageProgress
        refused_mutation [of "stage_progress_mutation True i sid it c n" e ObservationalProgress i s]
      by (simp add: fg ok update_workflow_stage_progress_def entry_state_def)
  next
    case (RejectExecution st err a r)
    show ?thesis using assms(1) RejectExecution
        ref [of "reject_mutation e True i st err a r"]
      by (simp add: fg ok reject_workflow_execution_def reject_mutation_def)
  qed (use assms in \<open>simp_all add: fg ok start_workflow_stage_def complete_workflow_stage_def
      skip_workflow_stage_def fail_workflow_stage_with_result_def wait_workflow_stage_with_result_def
      clear_workflow_pending_action_def begin_confirmed_workflow_apply_def complete_workflow_def ref
      start_stage_mutation_def complete_stage_mutation_def skip_stage_mutation_def fail_stage_mutation_def
      wait_stage_mutation_def clear_pending_mutation_def confirmed_apply_mutation_def
      complete_workflow_mutation_def guards\<close>)
qed

theorem cancelled_workflow_frozen_witness:
  "\<not> is_ok (fst (run_workflow sample_env ''a'' (CompleteWorkflow health_result)
     (set_cancellation (token_cancel 0) (workflow_service Running []))))"
proof -
  have "cancel_signalled ''a'' (set_cancellation (token_cancel 0) (workflow_service Running []))"
    by (simp add: workflow_eval)
  from cancelled_workflow_frozen [OF this, of "CompleteWorkflow health_result"] show ?thesis by simp
qed

text \<open>Progress that is only in memory is pending on the lane.\<close>

definition pending_flush :: "string \<Rightarrow> 'x task_service \<Rightarrow> bool" where
  "pending_flush i s \<longleftrightarrow> la_pending_observational_revision (lane_of s i) \<noteq> None"

lemma lanes_frame [simp]:
  "ts_lanes (publish_workflow i c t s) = ts_lanes s" "ts_lanes (flush_of i n l s) = ts_lanes s"
  "ts_lanes (set_entry i t w s) = ts_lanes s"
  by (simp_all add: publish_workflow_def emit_workflow_def bump_workflow_history_revision_def
      flush_of_def schedule_workflow_progress_flush_def set_entry_def)

lemma persist_progress_without_disk:
  assumes "entry_state s i = Some (t, Some w)" and "ts_dirs s i = Some dir" and "ts_roots s i = Some root"
    and "\<And>pe. \<not> is_ok (se_write e root dir i pe)" and "ts_lanes s i \<noteq> None"
    and "persist_mutation e ObservationalProgress i t0 w0 t w run s = (r, s')"
  shows "r = Inr run \<and> entry_state s' i = Some (t, Some w) \<and> pending_flush i s'"
proof -
  have "\<exists>err. se_write e root dir i pe = Inl err" for pe
    using assms(4) [of pe] by (cases "se_write e root dir i pe") auto
  with assms(1-3,5,6) show ?thesis
    by (auto simp: persist_mutation_def Let_def entry_state_def pending_flush_def lane_of_def
        lane_update_def lane_deferred_def split: if_splits sum.splits) (metis Inl_Inr_False)+
qed

text \<open>
  A progress report survives a disk that refuses every write: the call succeeds, readers
  see the progress on the stage, and the lane holds the revision that is still to be stored.
\<close>

theorem progress_survives_write_failure:
  assumes "entry_state s i = Some (t, Some w)"
    and "is_ok (current_running_stage (cancel_signalled i s) i sid t w)" and "bound s i"
    and "ts_dirs s i = Some dir" and "\<And>root pe. \<not> is_ok (se_write e root dir i pe)"
  shows "\<exists>run s' t' w'. update_workflow_stage_progress e i sid item current tot s = (Inr run, s') \<and>
     pending_flush i s' \<and> entry_state s' i = Some (t', Some w') \<and> wf_revision w' = wf_revision w + 1 \<and>
     wf_stages w' = update_stage sid (\<lambda>st. st\<lparr>st_current_item := item,
       st_progress := Some \<lparr>wp_current = current, wp_total = tot\<rparr>\<rparr>) (wf_stages w)"
proof -
  let ?m = "stage_progress_mutation (cancel_signalled i s) i sid item current tot"
  define w1 where "w1 = w\<lparr>wf_stages := update_stage sid (\<lambda>st. st\<lparr>st_current_item := item,
       st_progress := Some \<lparr>wp_current = current, wp_total = tot\<rparr>\<rparr>) (wf_stages w)\<rparr>"
  from assms(1) obtain en where en: "ts_tasks s i = Some en" "te_task en = t" "te_workflow en = Some w"
    by (auto simp: entry_state_def)
  have m: "?m t w = Inr (t, w1)" using assms(2) by (simp add: stage_progress_mutation_def w1_def)
  define w2 where "w2 = w1\<lparr>wf_revision := wf_revision w + 1\<rparr>"
  have adv: "advance_revision w1 = Inr w2" and pid: "bt_project_id t \<noteq> None"
    using assms(1,3) by (auto simp: advance_revision_def checked_add_def bound_def w1_def w2_def)
  then obtain run where run: "to_run w2 (stamp_mutation e t) = Some run"
    by (auto simp: to_run_def split: option.splits)
  define s1 where "s1 = lane_update i lane_bump (set_entry i (stamp_mutation e t) (Some w2)
    (workflow_persistence_lane i s))"
  let ?p = "persist_mutation e ObservationalProgress i t w (stamp_mutation e t) w2 run s1"
  have eq: "update_workflow_stage_progress e i sid item current tot s = ?p"
    using en m adv run by (simp add: update_workflow_stage_progress_def
        mutate_workflow_with_durability_def Let_def s1_def)
  obtain root where root: "ts_roots s i = Some root" using assms(3,4) by (auto simp: bound_def)
  have "entry_state s1 i = Some (stamp_mutation e t, Some w2)" "ts_dirs s1 i = Some dir"
    "ts_roots s1 i = Some root" "ts_lanes s1 i \<noteq> None"
    using en root assms(4) by (auto simp: s1_def entry_state_def lane_update_def
        workflow_persistence_lane_def split: option.splits)
  from persist_progress_without_disk [OF this(1-3) assms(5) this(4), of t w run "fst ?p" "snd ?p"]
  show ?thesis unfolding eq by (intro exI [of _ run] exI [of _ "snd ?p"])
      (auto simp: prod_eq_iff w2_def w1_def)
qed

definition one_stage :: "workflow_stage_status \<Rightarrow> workflow_stage" where
  "one_stage st = (pending_stage 0 (''read'', ''label''))\<lparr>st_status := st\<rparr>"

definition stage_running_service :: "unit task_service" where
  "stage_running_service =
    (let s = workflow_service Running [one_stage StageRunning] in
     s\<lparr>ts_tasks := [''a'' \<mapsto> (the (ts_tasks s ''a''))\<lparr>te_workflow :=
       Some ((sample_workflow [one_stage StageRunning])\<lparr>wf_current_stage_id := Some ''read''\<rparr>)\<rparr>]\<rparr>)"

theorem progress_survives_write_failure_witness:
  "\<exists>run s'. update_workflow_stage_progress full_disk_env ''a'' ''read'' None 1 (Some 2)
     stage_running_service = (Inr run, s') \<and> pending_flush ''a'' s'"
proof -
  let ?s = stage_running_service
  obtain t w where e: "entry_state ?s ''a'' = Some (t, Some w)"
    and g: "is_ok (current_running_stage (cancel_signalled ''a'' ?s) ''a'' ''read'' t w)"
    by (simp add: stage_running_service_def workflow_eval current_running_stage_def
        require_current_stage_def find_stage_def one_stage_def pending_stage_def)
  have b: "bound ?s ''a''" and d: "ts_dirs ?s ''a'' = Some ''/p/tasks''"
    by (simp_all add: stage_running_service_def workflow_eval bound_def)
  have "\<not> is_ok (se_write full_disk_env root ''/p/tasks'' ''a'' pe)" for root pe
    by (simp add: full_disk_env_def sample_env_def)
  from progress_survives_write_failure [OF e g b d this, of None 1 "Some 2"] show ?thesis by auto
qed

text \<open>
  C24: What was deferred gets stored: when the flush scheduled for the pending revision runs
  (no write has come in between, so the generation is the lane's) and can write, the stored
  snapshot is the current entry, nothing is pending and no error is kept.
\<close>

theorem deferred_progress_is_flushed:
  assumes "ts_tasks s i = Some en" and "pending_flush i s"
    and "ts_roots s i = Some root" and "ts_dirs s i = Some dir"
    and "se_write e root dir i (persisted_of en) = Inr path"
  shows "let s' = flush_pending_workflow_progress e i (la_trailing_flush_generation (lane_of s i)) s in
     ts_disk s' path = Some (persisted_of en) \<and> stored_entry i s' \<and> \<not> pending_flush i s' \<and>
     entry_state s' = entry_state s \<and> la_pending_error (lane_of s' i) = None"
proof -
  from assms(2) obtain l where l: "ts_lanes s i = Some l" and n: "la_pending_observational_revision l \<noteq> None"
    by (cases "ts_lanes s i") (auto simp: pending_flush_def lane_of_def lane_default_def)
  then have lane: "workflow_persistence_lane i s = s" "lane_of s i = l"
    by (simp_all add: workflow_persistence_lane_def lane_of_def)
  let ?s' = "flush_pending_workflow_progress e i (la_trailing_flush_generation (lane_of s i)) s"
  from n have d: "ts_disk ?s' path = Some (persisted_of en)" "\<not> pending_flush i ?s'"
    "la_pending_error (lane_of ?s' i) = None"
    using assms(1,3-5) l lane
    by (auto simp: flush_pending_workflow_progress_def Let_def pending_flush_def lane_of_def lane_update_def)
  moreover have "entry_state ?s' = entry_state s" by (rule flush_entry)
  moreover from this have "stored_entry i ?s'"
    using d(1) assms(1) by (intro stored_entryI [OF d(1)]) (simp add: entry_state_def persisted_of_def)
  ultimately show ?thesis by (simp add: Let_def)
qed

definition deferred_service :: "unit task_service" where
  "deferred_service = (workflow_service Running [])\<lparr>ts_lanes := [''a'' \<mapsto>
     lane_deferred (lane_default\<lparr>la_next_revision := 3\<rparr>)]\<rparr>"

theorem deferred_progress_is_flushed_witness:
  "stored_entry ''a'' (flush_pending_workflow_progress sample_env ''a'' 1 deferred_service)"
proof -
  obtain en where en: "ts_tasks deferred_service ''a'' = Some en"
    by (simp add: deferred_service_def workflow_eval)
  have "pending_flush ''a'' deferred_service" "ts_roots deferred_service ''a'' = Some ''/p''"
    "ts_dirs deferred_service ''a'' = Some ''/p/tasks''"
    "se_write sample_env ''/p'' ''/p/tasks'' ''a'' (persisted_of en) = Inr ''/p/tasks/a.json''"
    "la_trailing_flush_generation (lane_of deferred_service ''a'') = 1"
    by (simp_all add: deferred_service_def workflow_eval pending_flush_def lane_deferred_def
        lane_default_def saturating_add_def)
  with deferred_progress_is_flushed [OF en this(1-4)] show ?thesis by (simp add: Let_def)
qed
end
