(* ===== verification/Coordinator.thy ===== *)
theory Coordinator
  imports Stage_Machine
begin

text \<open>
  The workflow coordinator (\<open>services/workflow_service/coordinator.rs\<close>): one queue per project
  identity, on top of the task service. Every operation holds the queue's lock, so it is one step
  of the model; poisoned locks are not modelled.

  The calls an operation makes to the task service take the environments \<open>cn_calls 0\<close>,
  \<open>cn_calls 1\<close>, \<dots> in turn. The iteration order of the hash maps is a parameter
  (\<open>cn_order\<close>, \<open>cn_task_order\<close>), and so are the wall clock's comparison with the undo deadline,
  the fingerprint digest, the resolution of the state directory, the canonical path and file
  identity of a project root, and whether the files of a project can be read.
\<close>

section \<open>Identity\<close>

record project_workflow_identity =
  pw_canonical_root :: string
  pw_canonical_identity_key :: string
  pw_identity_revision :: string

record identity_env =
  id_canonicalize :: "string \<Rightarrow> string sresult"
  id_metadata :: "string \<Rightarrow> (nat \<times> nat) sresult"
  id_sha256 :: "string \<Rightarrow> string"

definition project_identity :: "identity_env \<Rightarrow> string \<Rightarrow> project_workflow_identity sresult" where
  "project_identity v root =
    (case id_canonicalize v root of
       Inl err \<Rightarrow> Inl (''Project root could not be canonicalized: '' @ err)
     | Inr canonical \<Rightarrow>
       (let normalized = map (\<lambda>c. if c = CHR 92 then CHR ''/'' else c) canonical;
            key = id_sha256 v (''workflow-root-v1'' @ [CHR 10] @ normalized)
        in case id_metadata v canonical of
             Inl err \<Rightarrow> Inl (''Project root metadata is unavailable: '' @ err)
           | Inr (dev, ino) \<Rightarrow> Inr
              \<lparr>pw_canonical_root = canonical, pw_canonical_identity_key = key,
               pw_identity_revision = id_sha256 v (''workflow-identity-v1'' @ [CHR 10] @ key @ [CHR 10] @
                 ''unix:'' @ show_nat dev @ '':'' @ show_nat ino)\<rparr>))"

section \<open>Requests and outcomes\<close>

record 'x enqueue_workflow =
  eq_project_id :: string
  eq_project_root :: string
  eq_task_state_root :: "string option"
  eq_title :: string
  eq_kind :: workflow_kind
  eq_scope :: workflow_scope
  eq_route :: "workflow_route option"
  eq_baseline_fingerprint :: string
  eq_execution_options :: "'x workflow_execution_options"
  eq_stages :: "workflow_stage list"
  eq_retry :: "workflow_retry_link option"

datatype 'x workflow_start_outcome = Created "'x workflow_run" | Existing "'x workflow_run"

datatype workflow_dispatch_failure =
    IdentityFailure workflow_error_summary
  | StaleFailure workflow_error_summary
  | InvariantFailure workflow_error_summary

record 'x coordinator_env =
  cn_calls :: "nat \<Rightarrow> 'x service_env"
  cn_order :: "'x workflow_owner_index \<Rightarrow> (workflow_kind \<times> workflow_display_status) list"
  cn_task_order :: "'x task_service \<Rightarrow> string list"
  cn_identity :: identity_env
  cn_state_root :: "string \<Rightarrow> string \<Rightarrow> string \<Rightarrow> string sresult"
  cn_fingerprint :: "string \<Rightarrow> string \<Rightarrow> workflow_kind \<Rightarrow> workflow_scope \<Rightarrow>
    'x workflow_execution_options \<Rightarrow> workflow_route option \<Rightarrow> string \<Rightarrow> string sresult"
  cn_uuid_ok :: "string \<Rightarrow> bool"
  cn_new_id :: string
  cn_undo_deadline :: string
  cn_unexpired :: "string \<Rightarrow> bool"
  cn_project_readable :: "string \<Rightarrow> bool"

text \<open>
  The environment after \<open>n\<close> calls, its calls shared out between two successive operations, and
  the source's \<open>?\<close> on results with a state.
\<close>

definition after_calls :: "nat \<Rightarrow> 'x coordinator_env \<Rightarrow> 'x coordinator_env" where
  "after_calls n c = c\<lparr>cn_calls := \<lambda>k. cn_calls c (n + k)\<rparr>"

definition even_calls :: "'x coordinator_env \<Rightarrow> 'x coordinator_env" where
  "even_calls c = c\<lparr>cn_calls := \<lambda>k. cn_calls c (2 * k)\<rparr>"

definition odd_calls :: "'x coordinator_env \<Rightarrow> 'x coordinator_env" where
  "odd_calls c = c\<lparr>cn_calls := \<lambda>k. cn_calls c (2 * k + 1)\<rparr>"

definition then_op ::
  "'a sresult \<times> 's \<Rightarrow> ('a \<Rightarrow> 's \<Rightarrow> 'b sresult \<times> 's) \<Rightarrow> 'b sresult \<times> 's" where
  "then_op p k = (case p of (Inl err, s) \<Rightarrow> (Inl err, s) | (Inr v, s) \<Rightarrow> k v s)"

section \<open>The task service's side\<close>

definition create_workflow_task ::
  "'x service_env \<Rightarrow> string \<Rightarrow> string \<Rightarrow> string \<Rightarrow> string \<Rightarrow> 'x workflow_execution_state \<Rightarrow>
   string option \<Rightarrow> 'x task_service \<Rightarrow> 'x workflow_run sresult \<times> 'x task_service" where
  "create_workflow_task e i pid root title w state_root s =
     then_op (create_task_internal e i
       \<lparr>rq_task_type = Workflow, rq_project_id = Some pid, rq_project_root = Some root,
        rq_title = title, rq_cancellable = True, rq_batch_id = None, rq_operation = None,
        rq_require_persistence = (state_root \<noteq> None), rq_workflow = Some w,
        rq_persistence_dir = state_root\<rparr> s)
      (\<lambda>t s1. case get_workflow_run (bt_id t) s1 of
          None \<Rightarrow> (Inl (''Workflow task state missing: '' @ bt_id t), s1)
        | Some run \<Rightarrow> (Inr run, emit WorkflowUpdated (bt_project_id t) (Some (bt_id t)) s1))"

definition workflow_owner_key :: "string \<Rightarrow> 'x task_service \<Rightarrow> string option" where
  "workflow_owner_key i s = map_option fst (si_task_owners (ts_index s) i)"

definition workflow_execution_options_of ::
  "string \<Rightarrow> 'x task_service \<Rightarrow> 'x workflow_execution_options option" where
  "workflow_execution_options_of i s =
     Option.bind (ts_tasks s i) (\<lambda>en. map_option wf_execution_options (te_workflow en))"

definition find_workflow_run_by_execution_options ::
  "'x coordinator_env \<Rightarrow> string \<Rightarrow> string \<Rightarrow> ('x workflow_execution_options \<Rightarrow> bool) \<Rightarrow>
   'x task_service \<Rightarrow> 'x workflow_run option" where
  "find_workflow_run_by_execution_options c key revision matches s =
     (case List.map_filter (\<lambda>i. Option.bind (ts_tasks s i) (\<lambda>en. Option.bind (te_workflow en) (\<lambda>w.
         if wf_canonical_identity_key w \<noteq> key \<or> wf_identity_revision w \<noteq> revision \<or>
            \<not> matches (wf_execution_options w) then None
         else to_run w (te_task en)))) (cn_task_order c s) of
        [] \<Rightarrow> None | run # _ \<Rightarrow> Some run)"

definition active_display :: "workflow_display_status \<Rightarrow> bool" where
  "active_display d \<longleftrightarrow> d \<in> {DisplayRunning, DisplayWaitingForConfirmation}"

definition workflow_runs_for_owner ::
  "'x coordinator_env \<Rightarrow> string \<Rightarrow> string \<Rightarrow> bool \<Rightarrow> 'x task_service \<Rightarrow> 'x workflow_run list" where
  "workflow_runs_for_owner c key revision active_only s =
    (case si_owners (ts_index s) (key, revision) of
       None \<Rightarrow> []
     | Some ox \<Rightarrow>
       (let ids = (if active_only
            then concat (map (\<lambda>k. map snd (sorted_list_of_set (or_default (ox_by_status ox k))))
              (filter (\<lambda>(_, d). active_display d \<or> d = DisplayQueued) (cn_order c ox)))
            else map snd (rev (sorted_list_of_set (ox_recent ox))))
        in List.map_filter (\<lambda>i. get_workflow_run i s) ids))"

section \<open>The queue\<close>

definition run_order :: "'x workflow_run \<Rightarrow> nat \<times> string" where
  "run_order run = (case wr_queue_position run of None \<Rightarrow> u32_max | Some p \<Rightarrow> p, wr_started_at run)"

definition is_queued :: "'x workflow_run \<Rightarrow> bool" where
  "is_queued run \<longleftrightarrow> wr_display_status run = DisplayQueued"

definition owner_runs ::
  "'x coordinator_env \<Rightarrow> string \<Rightarrow> string \<Rightarrow> 'x task_service \<Rightarrow> 'x workflow_run list" where
  "owner_runs c key revision s = workflow_runs_for_owner c key revision False s"

fun renumber_runs ::
  "'x coordinator_env \<Rightarrow> nat \<Rightarrow> 'x workflow_run list \<Rightarrow> 'x task_service \<Rightarrow> unit sresult \<times> 'x task_service"
where
  "renumber_runs c index [] s = (Inr (), s)"
| "renumber_runs c index (run # runs) s =
    (if wr_queue_position run \<noteq> Some (index + 1) then
       then_op (set_workflow_queue_state (cn_calls c 0) (wr_task_id run) (Some (index + 1))
           (wr_continuation_required run) s)
         (\<lambda>_ s1. renumber_runs (after_calls 1 c) (index + 1) runs s1)
     else renumber_runs c (index + 1) runs s)"

definition renumber ::
  "'x coordinator_env \<Rightarrow> string \<Rightarrow> string \<Rightarrow> 'x task_service \<Rightarrow> unit sresult \<times> 'x task_service" where
  "renumber c key revision s =
     renumber_runs c 0 (sort_key run_order
       (filter is_queued (workflow_runs_for_owner c key revision True s))) s"

definition claim_next_locked ::
  "'x coordinator_env \<Rightarrow> string \<Rightarrow> string \<Rightarrow> 'x task_service \<Rightarrow>
   'x workflow_run option sresult \<times> 'x task_service" where
  "claim_next_locked c key revision s =
    (let runs = workflow_runs_for_owner c key revision True s in
     if list_ex (\<lambda>run. active_display (wr_display_status run)) runs then (Inr None, s)
     else case min_by_key run_order
         (filter (\<lambda>run. is_queued run \<and> \<not> wr_continuation_required run) runs) of
       None \<Rightarrow> (Inr None, s)
     | Some nxt \<Rightarrow>
         then_op (transition_workflow_status (cn_calls c 0) (wr_task_id nxt) Running s)
          (\<lambda>claimed s1. then_op (renumber (after_calls 1 c) key revision s1)
            (\<lambda>_ s2. (Inr (Some claimed), s2))))"

definition task_queue :: "string \<Rightarrow> 'x task_service \<Rightarrow> string sresult" where
  "task_queue i s = (case workflow_owner_key i s of
     None \<Rightarrow> Inl (''Workflow not found: '' @ i) | Some key \<Rightarrow> Inr key)"

text \<open>The common opening of the operations on one workflow: its queue, then its current run.\<close>

definition with_run ::
  "string \<Rightarrow> ('x workflow_run \<Rightarrow> 'x task_service \<Rightarrow> 'b sresult \<times> 'x task_service) \<Rightarrow>
   'x task_service \<Rightarrow> 'b sresult \<times> 'x task_service" where
  "with_run i k s =
    (case task_queue i s of
       Inl err \<Rightarrow> (Inl err, s)
     | Inr _ \<Rightarrow> (case get_workflow_run i s of
         None \<Rightarrow> (Inl (''Workflow not found: '' @ i), s)
       | Some run \<Rightarrow> k run s))"

definition is_terminal :: "'x workflow_run \<Rightarrow> bool" where
  "is_terminal run \<longleftrightarrow> wr_display_status run \<in>
     {DisplayCompleted, DisplayFailed, DisplayCancelled, DisplayInterrupted}"

definition cancellation_wins :: "string \<Rightarrow> 'x task_service \<Rightarrow> bool" where
  "cancellation_wins i s \<longleftrightarrow> registry_is_cancelled i (ts_cancellation s) \<or>
     (case get_task i s of None \<Rightarrow> False | Some t \<Rightarrow> bt_status t = Cancelling)"

definition finalize_workflow_cancellation ::
  "'x service_env \<Rightarrow> string \<Rightarrow> 'x task_service \<Rightarrow> 'x workflow_run sresult \<times> 'x task_service" where
  "finalize_workflow_cancellation e i s = finalize_workflow_cancellation_with_result e i None s"

text \<open>An update of the workflow at hand, followed by a claim on its queue.\<close>

definition claim_after ::
  "'x coordinator_env \<Rightarrow> 'x workflow_run \<Rightarrow> 'x workflow_run sresult \<times> 'x task_service \<Rightarrow>
   ('x workflow_run \<times> 'x workflow_run option) sresult \<times> 'x task_service" where
  "claim_after c owner p =
     then_op p (\<lambda>updated s1.
       then_op (claim_next_locked c (wr_canonical_identity_key owner) (wr_identity_revision owner) s1)
         (\<lambda>nxt s2. (Inr (updated, nxt), s2)))"

definition cancel_and_claim_next_locked ::
  "'x coordinator_env \<Rightarrow> 'x workflow_run \<Rightarrow> 'x task_service \<Rightarrow>
   ('x workflow_run \<times> 'x workflow_run option) sresult \<times> 'x task_service" where
  "cancel_and_claim_next_locked c owner s =
     claim_after (after_calls 1 c) owner (finalize_workflow_cancellation (cn_calls c 0) (wr_task_id owner) s)"

section \<open>Starting workflows\<close>

definition new_workflow_state ::
  "project_workflow_identity \<Rightarrow> 'x enqueue_workflow \<Rightarrow> string \<Rightarrow> bool \<Rightarrow> nat \<Rightarrow> bool \<Rightarrow>
   'x workflow_execution_state" where
  "new_workflow_state identity q fingerprint persistent queued_count pending =
     \<lparr>wf_schema_version = 2, wf_revision = 0, wf_session_id = [],
      wf_canonical_identity_key = pw_canonical_identity_key identity,
      wf_identity_revision = pw_identity_revision identity, wf_kind = eq_kind q,
      wf_scope = eq_scope q, wf_execution_options = eq_execution_options q, wf_route = eq_route q,
      wf_fingerprint = fingerprint, wf_baseline_fingerprint = eq_baseline_fingerprint q,
      wf_persistence = (if persistent then Persistent else MemoryOnly),
      wf_persistence_transition = None, wf_stages = eq_stages q, wf_current_stage_id = None,
      wf_queue_position = Some (queued_count + 1), wf_continuation_required = pending,
      wf_retry = eq_retry q, wf_pending_action = None, wf_result = None, wf_error = None,
      wf_cancelled_from_queue = False, wf_undo_cancel_until = None\<rparr>"

text \<open>A request repeated under the same update intent: the run it already has, or a refusal.\<close>

definition existing_intent ::
  "'x coordinator_env \<Rightarrow> project_workflow_identity \<Rightarrow> 'x enqueue_workflow \<Rightarrow> 'x task_service \<Rightarrow>
   'x workflow_run sresult option" where
  "existing_intent c identity q s =
    (case eo_update_request (eq_execution_options q) of
       None \<Rightarrow> None
     | Some intent \<Rightarrow>
       (case find_workflow_run_by_execution_options c (pw_canonical_identity_key identity)
           (pw_identity_revision identity)
           (\<lambda>eo. case eo_update_request eo of None \<Rightarrow> False
              | Some old \<Rightarrow> ur_request_id old = ur_request_id intent) s of
          None \<Rightarrow> None
        | Some existing \<Rightarrow> Some
           (if Option.bind (workflow_execution_options_of (wr_task_id existing) s) eo_update_request \<noteq>
               Some intent
            then Inl ''Update request ID already belongs to different choices''
            else Inr existing)))"

definition resolve_state_root ::
  "'x coordinator_env \<Rightarrow> project_workflow_identity \<Rightarrow> 'x enqueue_workflow \<Rightarrow> string option sresult" where
  "resolve_state_root c identity q =
    (case eq_task_state_root q of
       None \<Rightarrow> Inr None
     | Some path \<Rightarrow> (case cn_state_root c (eq_project_root q) (pw_canonical_root identity) path of
         Inl err \<Rightarrow> Inl err | Inr root \<Rightarrow> Inr (Some root)))"

text \<open>The creation proper, after every check: the run is started at once when the queue is idle.\<close>

definition create_and_start ::
  "'x coordinator_env \<Rightarrow> project_workflow_identity \<Rightarrow> 'x enqueue_workflow \<Rightarrow> string option \<Rightarrow> string \<Rightarrow>
   'x workflow_run list \<Rightarrow> bool \<Rightarrow> 'x task_service \<Rightarrow>
   'x workflow_start_outcome sresult \<times> 'x task_service" where
  "create_and_start c identity q state_root fingerprint runs pending s =
    (let has_active = list_ex (\<lambda>run. active_display (wr_display_status run)) runs;
         queued_count = length (filter is_queued runs);
         w = new_workflow_state identity q fingerprint (state_root \<noteq> None) queued_count pending
     in then_op (create_workflow_task (cn_calls c 0) (cn_new_id c) (eq_project_id q)
           (pw_canonical_root identity) (eq_title q) w state_root s)
         (\<lambda>run s1.
           if \<not> pending \<and> \<not> has_active \<and> queued_count = 0 then
             then_op (transition_workflow_status (cn_calls c 1) (wr_task_id run) Running s1)
               (\<lambda>started s2. (Inr (Created started), s2))
           else (Inr (Created run), s1)))"

definition enqueue_locked ::
  "'x coordinator_env \<Rightarrow> 'x enqueue_workflow \<Rightarrow> bool \<Rightarrow> (string \<times> string) option \<Rightarrow> bool \<Rightarrow>
   'x task_service \<Rightarrow> 'x workflow_start_outcome sresult \<times> 'x task_service" where
  "enqueue_locked c q deduplicate expected_owner pending s =
    (case project_identity (cn_identity c) (eq_project_root q) of
       Inl err \<Rightarrow> (Inl err, s)
     | Inr identity \<Rightarrow>
       if (case expected_owner of None \<Rightarrow> False
           | Some (key, revision) \<Rightarrow> pw_canonical_identity_key identity \<noteq> key \<or>
               pw_identity_revision identity \<noteq> revision)
       then (Inl ''Workflow project identity changed before task creation'', s)
       else case existing_intent c identity q s of
         Some (Inl err) \<Rightarrow> (Inl err, s)
       | Some (Inr run) \<Rightarrow> (Inr (Existing run), s)
       | None \<Rightarrow>
         (case validate_workflow_execution_contract (cn_uuid_ok c) (eq_kind q) (eq_scope q) (eq_route q)
             (eq_execution_options q) of
            Inl err \<Rightarrow> (Inl err, s)
          | Inr _ \<Rightarrow>
            (case resolve_state_root c identity q of
               Inl err \<Rightarrow> (Inl err, s)
             | Inr state_root \<Rightarrow>
               (case cn_fingerprint c (pw_canonical_identity_key identity)
                   (pw_identity_revision identity) (eq_kind q) (eq_scope q) (eq_execution_options q)
                   (eq_route q) (eq_baseline_fingerprint q) of
                  Inl err \<Rightarrow> (Inl err, s)
                | Inr fingerprint \<Rightarrow>
                  (let runs = workflow_runs_for_owner c (pw_canonical_identity_key identity)
                        (pw_identity_revision identity) True s
                   in case (if deduplicate then List.find (\<lambda>run. wr_fingerprint run = fingerprint \<and>
                         (is_queued run \<or> active_display (wr_display_status run))) runs else None) of
                        Some existing \<Rightarrow> (Inr (Existing existing), s)
                      | None \<Rightarrow>
                          create_and_start c identity q state_root fingerprint runs pending s)))))"

definition enqueue ::
  "'x coordinator_env \<Rightarrow> 'x enqueue_workflow \<Rightarrow> 'x task_service \<Rightarrow>
   'x workflow_start_outcome sresult \<times> 'x task_service" where
  "enqueue c q s =
    (case project_identity (cn_identity c) (eq_project_root q) of
       Inl err \<Rightarrow> (Inl err, s) | Inr _ \<Rightarrow> enqueue_locked c q True None False s)"

definition enqueue_for_owner ::
  "'x coordinator_env \<Rightarrow> 'x enqueue_workflow \<Rightarrow> string \<Rightarrow> string \<Rightarrow> 'x task_service \<Rightarrow>
   'x workflow_start_outcome sresult \<times> 'x task_service" where
  "enqueue_for_owner c q key revision s = enqueue_locked c q True (Some (key, revision)) False s"

definition enqueue_for_owner_pending_approval ::
  "'x coordinator_env \<Rightarrow> 'x enqueue_workflow \<Rightarrow> string \<Rightarrow> string \<Rightarrow> 'x task_service \<Rightarrow>
   'x workflow_start_outcome sresult \<times> 'x task_service" where
  "enqueue_for_owner_pending_approval c q key revision s =
     enqueue_locked c q True (Some (key, revision)) True s"

definition claim_next ::
  "'x coordinator_env \<Rightarrow> string \<Rightarrow> string \<Rightarrow> 'x task_service \<Rightarrow>
   'x workflow_run option sresult \<times> 'x task_service" where
  "claim_next c key revision s = claim_next_locked c key revision s"

text \<open>The hold of every queued workflow is lifted, in the order of the runs, then one is claimed.\<close>

fun lift_holds ::
  "'x coordinator_env \<Rightarrow> 'x workflow_run list \<Rightarrow> 'x task_service \<Rightarrow> 'x coordinator_env sresult \<times> 'x task_service"
where
  "lift_holds c [] s = (Inr c, s)"
| "lift_holds c (run # runs) s =
    (if is_queued run \<and> wr_continuation_required run then
       then_op (set_workflow_queue_state (cn_calls c 0) (wr_task_id run) (wr_queue_position run) False s)
         (\<lambda>_ s1. lift_holds (after_calls 1 c) runs s1)
     else lift_holds c runs s)"

definition continue_queued ::
  "'x coordinator_env \<Rightarrow> string \<Rightarrow> string \<Rightarrow> 'x task_service \<Rightarrow>
   ('x workflow_run list \<times> 'x workflow_run option) sresult \<times> 'x task_service" where
  "continue_queued c key revision s =
     then_op (lift_holds c (owner_runs c key revision s) s) (\<lambda>c1 s1.
       then_op (claim_next_locked c1 key revision s1) (\<lambda>claimed s2.
         (Inr (owner_runs c1 key revision s2, claimed), s2)))"

section \<open>Ending workflows\<close>

definition complete_and_claim_next ::
  "'x coordinator_env \<Rightarrow> string \<Rightarrow> 'x workflow_result \<Rightarrow> 'x task_service \<Rightarrow>
   ('x workflow_run \<times> 'x workflow_run option) sresult \<times> 'x task_service" where
  "complete_and_claim_next c i result =
     with_run i (\<lambda>owner s.
       if is_terminal owner then (Inr (owner, None), s)
       else if cancellation_wins i s then cancel_and_claim_next_locked c owner s
       else claim_after (after_calls 1 c) owner (complete_workflow (cn_calls c 0) i result s))"

definition fail_stage_and_claim_next_with_result ::
  "'x coordinator_env \<Rightarrow> string \<Rightarrow> string \<Rightarrow> workflow_error_summary \<Rightarrow> 'x workflow_result option \<Rightarrow>
   'x task_service \<Rightarrow> ('x workflow_run \<times> 'x workflow_run option) sresult \<times> 'x task_service" where
  "fail_stage_and_claim_next_with_result c i sid err result =
     with_run i (\<lambda>owner s.
       if is_terminal owner then (Inr (owner, None), s)
       else if cancellation_wins i s then cancel_and_claim_next_locked c owner s
       else claim_after (after_calls 1 c) owner
         (fail_workflow_stage_with_result (cn_calls c 0) i sid err result s))"

definition fail_agent_lint_repair_between_stages_and_claim_next ::
  "'x coordinator_env \<Rightarrow> string \<Rightarrow> workflow_error_summary \<Rightarrow> 'x workflow_result \<Rightarrow> 'x task_service \<Rightarrow>
   ('x workflow_run \<times> 'x workflow_run option) sresult \<times> 'x task_service" where
  "fail_agent_lint_repair_between_stages_and_claim_next c i err result =
     with_run i (\<lambda>owner s.
       if is_terminal owner then (Inr (owner, None), s)
       else claim_after (after_calls 1 c) owner
         (fail_agent_lint_repair_between_stages (cn_calls c 0) i err result s))"

definition finish_cancelled_and_claim_next_with_result ::
  "'x coordinator_env \<Rightarrow> string \<Rightarrow> 'x workflow_result option \<Rightarrow> 'x task_service \<Rightarrow>
   ('x workflow_run \<times> 'x workflow_run option) sresult \<times> 'x task_service" where
  "finish_cancelled_and_claim_next_with_result c i result =
     with_run i (\<lambda>owner s.
       if is_terminal owner then (Inr (owner, None), s)
       else claim_after (after_calls 1 c) owner
         (finalize_workflow_cancellation_with_result (cn_calls c 0) i result s))"

definition cancel_created_mutation :: "string \<Rightarrow> 'x mutation" where
  "cancel_created_mutation i t w =
     (if bt_status t \<noteq> Queued
      then Inl (''Workflow is no longer queued for approval cancellation: '' @ i)
      else Inr (t\<lparr>bt_status := Cancelled, bt_cancellable := False\<rparr>,
        w\<lparr>wf_pending_action := None, wf_queue_position := None, wf_continuation_required := False,
          wf_cancelled_from_queue := False, wf_undo_cancel_until := None, wf_error := None,
          wf_stages := map (\<lambda>st. st\<lparr>st_decision := None\<rparr>) (wf_stages w)\<rparr>))"

definition cancel_created_without_undo_and_claim_next ::
  "'x coordinator_env \<Rightarrow> string \<Rightarrow> 'x task_service \<Rightarrow>
   ('x workflow_run \<times> 'x workflow_run option) sresult \<times> 'x task_service" where
  "cancel_created_without_undo_and_claim_next c i =
     with_run i (\<lambda>owner s.
       if is_terminal owner then (Inr (owner, None), s)
       else then_op
        (if is_queued owner then mutate_workflow (cn_calls c 0) i (cancel_created_mutation i) s
         else if active_display (wr_display_status owner) then
           then_op (request_workflow_cancel (cn_calls c 0) i s)
             (\<lambda>_ s1. finalize_workflow_cancellation (cn_calls c 1) i s1)
         else (Inl (''Workflow cannot be cancelled from its approval state: '' @ i), s))
        (\<lambda>cancelled s1.
          then_op (renumber (even_calls (after_calls 2 c)) (wr_canonical_identity_key owner)
              (wr_identity_revision owner) s1)
            (\<lambda>_ s2. claim_after (odd_calls (after_calls 2 c)) owner (Inr cancelled, s2))))"

definition release_initial_approval_hold_and_claim_next ::
  "'x coordinator_env \<Rightarrow> string \<Rightarrow> 'x task_service \<Rightarrow>
   ('x workflow_run \<times> 'x workflow_run option) sresult \<times> 'x task_service" where
  "release_initial_approval_hold_and_claim_next c i =
     with_run i (\<lambda>held s.
       if \<not> is_queued held \<or> \<not> wr_continuation_required held
       then (Inl (''Workflow is not waiting for initial approval release: '' @ i), s)
       else then_op (set_workflow_queue_state (cn_calls c 0) i (wr_queue_position held) False s)
        (\<lambda>released s1.
          then_op (claim_next_locked (after_calls 1 c) (wr_canonical_identity_key held)
              (wr_identity_revision held) s1)
            (\<lambda>claimed s2. (Inr (case claimed of
                Some run \<Rightarrow> if wr_task_id run = i then run else released | None \<Rightarrow> released,
              claimed), s2))))"

fun dispatch_rejection :: "workflow_dispatch_failure \<Rightarrow> task_status \<times> workflow_error_summary" where
  "dispatch_rejection (IdentityFailure err) = (Interrupted, err)"
| "dispatch_rejection (StaleFailure err) = (Failed, err)"
| "dispatch_rejection (InvariantFailure err) = (Interrupted, err)"

definition reject_workflow_dispatch ::
  "'x service_env \<Rightarrow> string \<Rightarrow> task_status \<Rightarrow> workflow_error_summary \<Rightarrow> 'x task_service \<Rightarrow>
   'x workflow_run sresult \<times> 'x task_service" where
  "reject_workflow_dispatch e i status err s = reject_workflow_execution e i status err False None s"

definition interrupt_workflow_confirmation_with_result ::
  "'x service_env \<Rightarrow> string \<Rightarrow> workflow_error_summary \<Rightarrow> 'x workflow_result option \<Rightarrow>
   'x task_service \<Rightarrow> 'x workflow_run sresult \<times> 'x task_service" where
  "interrupt_workflow_confirmation_with_result e i err result s =
     reject_workflow_execution e i Interrupted err True result s"

definition reject_claimed_dispatch ::
  "'x coordinator_env \<Rightarrow> string \<Rightarrow> workflow_dispatch_failure \<Rightarrow> 'x task_service \<Rightarrow>
   ('x workflow_run \<times> 'x workflow_run option) sresult \<times> 'x task_service" where
  "reject_claimed_dispatch c i failure =
     with_run i (\<lambda>current s.
       if is_terminal current then (Inr (current, None), s)
       else if cancellation_wins i s then cancel_and_claim_next_locked c current s
       else if is_queued current \<and> wr_continuation_required current then (Inr (current, None), s)
       else let (status, err) = dispatch_rejection failure in
         claim_after (after_calls 1 c) current (reject_workflow_dispatch (cn_calls c 0) i status err s))"

definition interrupt_invalid_confirmation_with_result ::
  "'x coordinator_env \<Rightarrow> string \<Rightarrow> workflow_error_summary \<Rightarrow> 'x workflow_result option \<Rightarrow>
   'x task_service \<Rightarrow> ('x workflow_run \<times> 'x workflow_run option) sresult \<times> 'x task_service" where
  "interrupt_invalid_confirmation_with_result c i err result =
     with_run i (\<lambda>current s.
       if is_terminal current then (Inr (current, None), s)
       else if cancellation_wins i s then cancel_and_claim_next_locked c current s
       else claim_after (after_calls 1 c) current
         (interrupt_workflow_confirmation_with_result (cn_calls c 0) i err result s))"

section \<open>Cancelling, undoing and reordering\<close>

definition cancel_queued_mutation :: "string \<Rightarrow> 'x mutation" where
  "cancel_queued_mutation deadline t w =
     Inr (t\<lparr>bt_status := Cancelled\<rparr>,
       w\<lparr>wf_cancelled_from_queue := True, wf_undo_cancel_until := Some deadline\<rparr>)"

definition coordinator_cancel ::
  "'x coordinator_env \<Rightarrow> string \<Rightarrow> 'x task_service \<Rightarrow> 'x workflow_run sresult \<times> 'x task_service" where
  "coordinator_cancel c i =
     with_run i (\<lambda>run s.
       if is_queued run then
         then_op (mutate_workflow (cn_calls c 0) i (cancel_queued_mutation (cn_undo_deadline c)) s)
           (\<lambda>cancelled s1. then_op (renumber (after_calls 1 c) (wr_canonical_identity_key run)
               (wr_identity_revision run) s1) (\<lambda>_ s2. (Inr cancelled, s2)))
       else if active_display (wr_display_status run) then request_workflow_cancel (cn_calls c 0) i s
       else (Inr run, s))"

definition undo_cancel_mutation :: "(string \<Rightarrow> bool) \<Rightarrow> bool \<Rightarrow> 'x mutation" where
  "undo_cancel_mutation unexpired pending t w =
     (if bt_status t \<noteq> Cancelled \<or> \<not> wf_cancelled_from_queue w \<or>
         \<not> (case wf_undo_cancel_until w of None \<Rightarrow> False | Some d \<Rightarrow> unexpired d)
      then Inl ''Queued workflow cancellation can no longer be undone''
      else Inr (t\<lparr>bt_status := Queued, bt_completed_at := None\<rparr>,
        w\<lparr>wf_cancelled_from_queue := False, wf_undo_cancel_until := None,
          wf_continuation_required := pending\<rparr>))"

definition undo_cancel_inner ::
  "'x coordinator_env \<Rightarrow> string \<Rightarrow> bool \<Rightarrow> 'x task_service \<Rightarrow>
   ('x workflow_run \<times> 'x workflow_run option) sresult \<times> 'x task_service" where
  "undo_cancel_inner c i pending =
     with_run i (\<lambda>run s.
       if wr_display_status run \<in> {DisplayQueued, DisplayRunning} then (Inr (run, None), s)
       else then_op (mutate_workflow (cn_calls c 0) i (undo_cancel_mutation (cn_unexpired c) pending) s)
        (\<lambda>restored s1.
          then_op (reset_workflow_cancellation i s1) (\<lambda>_ s2.
          then_op (renumber (even_calls (after_calls 1 c)) (wr_canonical_identity_key run)
              (wr_identity_revision run) s2)
            (\<lambda>_ s3.
              if pending then (Inr (restored, None), s3)
              else then_op (claim_next_locked (odd_calls (after_calls 1 c)) (wr_canonical_identity_key run)
                  (wr_identity_revision run) s3)
                (\<lambda>claimed s4. (Inr (case claimed of
                    Some nxt \<Rightarrow> if wr_task_id nxt = i then nxt else restored | None \<Rightarrow> restored,
                  claimed), s4))))))"

fun set_positions ::
  "'x coordinator_env \<Rightarrow> nat \<Rightarrow> 'x workflow_run list \<Rightarrow> 'x task_service \<Rightarrow> unit sresult \<times> 'x task_service"
where
  "set_positions c index [] s = (Inr (), s)"
| "set_positions c index (run # runs) s =
     then_op (set_workflow_queue_state (cn_calls c 0) (wr_task_id run) (Some (index + 1))
         (wr_continuation_required run) s)
       (\<lambda>_ s1. set_positions (after_calls 1 c) (index + 1) runs s1)"

definition insert_at :: "nat \<Rightarrow> 'a \<Rightarrow> 'a list \<Rightarrow> 'a list" where
  "insert_at n x xs = take n xs @ x # drop n xs"

definition reorder_queued ::
  "'x coordinator_env \<Rightarrow> string \<Rightarrow> string option \<Rightarrow> 'x task_service \<Rightarrow>
   'x workflow_run list sresult \<times> 'x task_service" where
  "reorder_queued c i before_task_id =
     with_run i (\<lambda>target s.
       if \<not> is_queued target then (Inl ''Only queued workflows can be reordered'', s)
       else
        (let others = filter (\<lambda>run. wr_task_id run \<noteq> i) (sort_key run_order (filter is_queued
               (owner_runs c (wr_canonical_identity_key target) (wr_identity_revision target) s)));
             insertion = (case before_task_id of
               Some before \<Rightarrow> position (\<lambda>run. wr_task_id run = before) others
             | None \<Rightarrow> Some (length others))
         in case insertion of
              None \<Rightarrow> (Inl ''Queue anchor is not in the same project queue'', s)
            | Some n \<Rightarrow>
              (let queued = insert_at n target others in
               then_op (set_positions c 0 queued s) (\<lambda>_ s1.
                 (Inr (owner_runs c (wr_canonical_identity_key (hd queued))
                    (wr_identity_revision (hd queued)) s1), s1)))))"

section \<open>Revoking trust in a project\<close>

definition canonical_or_same :: "'x coordinator_env \<Rightarrow> string \<Rightarrow> string" where
  "canonical_or_same c root =
     (case id_canonicalize (cn_identity c) root of Inl _ \<Rightarrow> root | Inr path \<Rightarrow> path)"

definition list_tasks_for_root ::
  "'x coordinator_env \<Rightarrow> string \<Rightarrow> task_status option \<Rightarrow> 'x task_service \<Rightarrow> 'x backend_task list" where
  "list_tasks_for_root c root status_filter s =
     rev (sort_key bt_updated_at (rev (List.map_filter (\<lambda>i. Option.bind (ts_tasks s i) (\<lambda>en.
       if (case ts_roots s i of None \<Rightarrow> False
           | Some r \<Rightarrow> canonical_or_same c r = canonical_or_same c root) \<and>
          (case status_filter of None \<Rightarrow> True | Some st \<Rightarrow> bt_status (te_task en) = st)
       then Some (te_task en) else None)) (cn_task_order c s))))"

record 'x workflow_trust_transition =
  tt_stopped_runs :: "'x workflow_run list"
  tt_continued_local_quick_runs :: "'x workflow_run list"
  tt_errors :: "string list"

definition push_error :: "string \<Rightarrow> 'x workflow_trust_transition \<Rightarrow> 'x workflow_trust_transition" where
  "push_error err tr = tr\<lparr>tt_errors := tt_errors tr @ [err]\<rparr>"

fun hold_queued ::
  "'x coordinator_env \<Rightarrow> 'x workflow_run list \<Rightarrow> 'x workflow_trust_transition \<Rightarrow> 'x task_service \<Rightarrow>
   'x workflow_trust_transition \<times> 'x task_service" where
  "hold_queued c [] tr s = (tr, s)"
| "hold_queued c (run # runs) tr s =
    (if is_queued run then
       (case set_workflow_queue_state (cn_calls c 0) (wr_task_id run) (wr_queue_position run) True s of
          (Inl err, s1) \<Rightarrow> hold_queued (after_calls 1 c) runs (push_error err tr) s1
        | (Inr _, s1) \<Rightarrow> hold_queued (after_calls 1 c) runs tr s1)
     else hold_queued c runs tr s)"

definition is_local_quick ::
  "bool \<Rightarrow> project_workflow_identity option \<Rightarrow> 'x workflow_run \<Rightarrow> bool" where
  "is_local_quick readable identity run \<longleftrightarrow> readable \<and>
     (case identity of None \<Rightarrow> False
      | Some v \<Rightarrow> pw_canonical_identity_key v = wr_canonical_identity_key run \<and>
          pw_identity_revision v = wr_identity_revision run) \<and>
     wr_scope run = ScopeHealthCheck LocalQuick \<and> wr_operation run = BuiltIn \<and>
     wr_display_status run = DisplayRunning"

text \<open>A running workflow whose cancellation is closed has entered its publication window.\<close>

definition publishing :: "'x workflow_run \<Rightarrow> bool" where
  "publishing run \<longleftrightarrow> wr_display_status run = DisplayRunning \<and> \<not> wr_cancellable run"

definition stop_run ::
  "'x coordinator_env \<Rightarrow> 'x workflow_run \<Rightarrow> 'x workflow_trust_transition \<Rightarrow> 'x task_service \<Rightarrow>
   'x workflow_trust_transition \<times> 'x task_service" where
  "stop_run c run tr s =
    (case request_workflow_cancel (cn_calls c 0) (wr_task_id run) s of
       (Inl err, s1) \<Rightarrow>
         (if (case get_workflow_run (wr_task_id run) s1 of None \<Rightarrow> False
              | Some current \<Rightarrow> is_terminal current \<or> publishing current)
          then (tr, s1) else (push_error err tr, s1))
     | (Inr _, s1) \<Rightarrow>
         (let tr1 = tr\<lparr>tt_stopped_runs := tt_stopped_runs tr @ [run]\<rparr> in
          if wr_display_status run = DisplayWaitingForConfirmation then
            (case finalize_workflow_cancellation (cn_calls c 1) (wr_task_id run) s1 of
               (Inl err, s2) \<Rightarrow> (push_error err tr1, s2) | (Inr _, s2) \<Rightarrow> (tr1, s2))
          else (tr1, s1)))"

fun stop_active ::
  "'x coordinator_env \<Rightarrow> bool \<Rightarrow> project_workflow_identity option \<Rightarrow> 'x workflow_run list \<Rightarrow>
   'x workflow_trust_transition \<Rightarrow> 'x task_service \<Rightarrow> 'x workflow_trust_transition \<times> 'x task_service" where
  "stop_active c readable identity [] tr s = (tr, s)"
| "stop_active c readable identity (run # runs) tr s =
    (if \<not> active_display (wr_display_status run) then stop_active c readable identity runs tr s
     else if is_local_quick readable identity run then
       stop_active c readable identity runs
         (tr\<lparr>tt_continued_local_quick_runs := tt_continued_local_quick_runs tr @ [run]\<rparr>) s
     else if publishing run then stop_active c readable identity runs tr s
     else let (tr1, s1) = stop_run c run tr s in
       stop_active (after_calls 2 c) readable identity runs tr1 s1)"

definition freeze_owner_for_trust_revocation ::
  "'x coordinator_env \<Rightarrow> string \<Rightarrow> 'x task_service \<Rightarrow>
   'x workflow_trust_transition \<times> 'x task_service" where
  "freeze_owner_for_trust_revocation c root s =
    (let identity = (case project_identity (cn_identity c) root of Inl _ \<Rightarrow> None | Inr v \<Rightarrow> Some v);
         runs = List.map_filter (\<lambda>t. get_workflow_run (bt_id t) s) (list_tasks_for_root c root None s);
         (tr1, s1) = hold_queued (even_calls c) runs
           \<lparr>tt_stopped_runs = [], tt_continued_local_quick_runs = [], tt_errors = []\<rparr> s
     in stop_active (odd_calls c) (cn_project_readable c root) identity runs tr1 s1)"

end
