(* ===== verification/Queue_Safety.thy ===== *)
theory Queue_Safety
  imports Coordinator
begin

text \<open>
  The coordinator keeps one workflow of a project identity active at a time. A \<open>run_fact\<close> is what
  the coordinator knows of a workflow; \<open>service_ok\<close> says that the summary index shows the facts of
  every workflow, and \<open>safe\<close> steps keep that and start no second workflow of an owner. Every
  operation is a composition of safe steps, so the steps of the application form an invariant
  machine; the properties of the queue are in \<open>Queue_Order\<close>.
\<close>

section \<open>The service behind the coordinator\<close>

text \<open>
  What the coordinator knows of a workflow: its owner, kind and displayed status. A task whose
  revision counter is exhausted takes no further update and is left out.
\<close>

type_synonym workflow_fact = "workflow_owner_key \<times> workflow_kind \<times> workflow_display_status"

definition run_fact :: "'x task_service \<Rightarrow> string \<Rightarrow> workflow_fact option" where
  "run_fact s i = (case entry_state s i of
     Some (t, Some w) \<Rightarrow> if wf_revision w < u64_max
       then Some ((wf_canonical_identity_key w, wf_identity_revision w), wf_kind w,
         display_status_from (bt_status t)) else None
   | _ \<Rightarrow> None)"

definition indexed :: "'x task_service \<Rightarrow> string \<Rightarrow> workflow_fact option" where
  "indexed s i = map_option (\<lambda>su. (owner_key_of su, su_kind su, su_display_status su))
     (index_view (ts_index s) i)"

definition service_ok :: "'x task_service \<Rightarrow> bool" where
  "service_ok s \<longleftrightarrow> index_ok (ts_index s) \<and>
     (\<forall>i t w. entry_state s i = Some (t, w) \<longrightarrow> bt_id t = i \<and> (w \<noteq> None \<longrightarrow> bt_project_id t \<noteq> None)) \<and>
     (\<forall>i. ts_dirs s i \<noteq> None \<longrightarrow> ts_roots s i \<noteq> None) \<and>
     (\<forall>i f. run_fact s i = Some f \<longrightarrow> indexed s i = Some f)"

definition keeps_owner :: "'x mutation \<Rightarrow> bool" where
  "keeps_owner m \<longleftrightarrow> keeps_frame m \<and> (\<forall>t w t' w'. m t w = Inr (t', w') \<longrightarrow>
     wf_canonical_identity_key w' = wf_canonical_identity_key w \<and>
     wf_identity_revision w' = wf_identity_revision w \<and> wf_kind w' = wf_kind w)"

lemma index_other_ops [simp]:
  "ts_index (lane_update i f s) = ts_index s" "ts_index (set_entry i t w s) = ts_index s"
  "ts_index (workflow_persistence_lane i s) = ts_index s" "ts_index (flush_of i n l s) = ts_index s"
  "ts_index (bump_workflow_history_revision s) = ts_index s"
  "ts_index (set_cancellation g s) = ts_index s"
  by (simp_all add: lane_update_def set_entry_def workflow_persistence_lane_def flush_of_def
      schedule_workflow_progress_flush_def bump_workflow_history_revision_def set_cancellation_def
      split: option.splits)

lemma index_workflow_summary_index:
  assumes "entry_state s i = Some (t, Some w)" and "to_summary w t = Some su"
  shows "ts_index (snd (index_workflow_summary i s)) = index_insert su (ts_index s)"
    and "fst (index_workflow_summary i s) = Some su"
  using assms
  by (auto simp: index_workflow_summary_def entry_state_def Let_def bump_workflow_history_revision_def
      split: option.splits)

lemma emit_index:
  "ev \<notin> {WorkflowUpdated, TaskLog, TaskActivityEvent} \<Longrightarrow> ts_index (emit ev pid tid s) = ts_index s"
  "ts_index (emit WorkflowUpdated pid (Some i) s) = ts_index (snd (index_workflow_summary i s))"
  by (auto simp: emit_def split: option.splits prod.splits)

lemma transition_event_plain: "transition_event st \<notin> {WorkflowUpdated, TaskLog, TaskActivityEvent}"
  by (cases st) simp_all

lemma publish_index:
  assumes "entry_state s i = Some (t, Some w)" and "to_summary w t = Some su"
  shows "ts_index (publish_workflow i c t' s) = index_insert su (ts_index s)"
proof -
  have e: "entry_state (bump_workflow_history_revision s) i = Some (t, Some w)"
    using assms(1) by (simp add: entry_state_def bump_workflow_history_revision_def)
  show ?thesis
    using index_workflow_summary_index(1) [OF assms] index_workflow_summary_index(1) [OF e assms(2)]
    by (simp add: publish_workflow_def emit_workflow_def emit_index(1) [OF transition_event_plain]
        emit_index(2))
qed

lemma roots_dirs_frame [simp]:
  "ts_roots (publish_workflow i c t s) = ts_roots s" "ts_dirs (publish_workflow i c t s) = ts_dirs s"
  "ts_roots (flush_of i n l s) = ts_roots s" "ts_dirs (flush_of i n l s) = ts_dirs s"
  by (simp_all add: publish_workflow_def emit_workflow_def bump_workflow_history_revision_def
      flush_of_def schedule_workflow_progress_flush_def)

lemma persist_mutation_index:
  assumes "persist_mutation e d i t0 w0 t w run s = (r, s')" and "entry_state s i = Some (t, Some w)"
    and "to_summary w t = Some su"
  shows "ts_roots s' = ts_roots s \<and> ts_dirs s' = ts_dirs s \<and>
    ts_index s' = (case r of Inl _ \<Rightarrow> ts_index s | Inr _ \<Rightarrow> index_insert su (ts_index s))"
proof -
  have p: "ts_index (publish_workflow i c t' s1) = index_insert su (ts_index s1)"
    if "entry_state s1 i = Some (t, Some w)" for c t' s1
    using publish_index [OF that assms(3)] .
  show ?thesis
    using assms(1,2)
    by (auto simp: persist_mutation_def Let_def p entry_state_def split: option.splits sum.splits if_splits)
qed

lemma mutate_index:
  assumes "mutate_workflow_with_durability e d i m s = (r, s')" and "keeps_frame m" and "bound s i"
  shows "ts_roots s' = ts_roots s \<and> ts_dirs s' = ts_dirs s \<and>
    (case r of Inl _ \<Rightarrow> ts_index s' = ts_index s
     | Inr _ \<Rightarrow> (\<exists>t w su. entry_state s' i = Some (t, Some w) \<and> to_summary w t = Some su \<and>
         ts_index s' = index_insert su (ts_index s)))"
proof (cases "ts_tasks s i")
  case None
  with assms(1) show ?thesis by (auto simp: mutate_workflow_with_durability_def Let_def)
next
  case en: (Some en)
  show ?thesis
  proof (cases "te_workflow en")
    case None
    with assms(1) en show ?thesis by (auto simp: mutate_workflow_with_durability_def Let_def)
  next
    case w0: (Some w0)
    show ?thesis
    proof (cases "m (te_task en) w0")
      case (Inl err)
      with assms(1) en w0 show ?thesis by (auto simp: mutate_workflow_with_durability_def Let_def)
    next
      case (Inr tw)
      obtain t w where tw: "tw = (t, w)" by (cases tw)
      from assms(2) Inr tw have fr: "wf_revision w = wf_revision w0"
        "bt_project_id t = bt_project_id (te_task en)" by (auto simp: keeps_frame_def)
      from assms(3) en w0 fr have lt: "wf_revision w < u64_max" and pid: "bt_project_id t \<noteq> None"
        by (auto simp: bound_def entry_state_def)
      define w2 where "w2 = w\<lparr>wf_revision := wf_revision w0 + 1\<rparr>"
      from lt have adv: "advance_revision w = Inr w2"
        by (simp add: advance_revision_def checked_add_def w2_def fr)
      from pid obtain run su where run: "to_run w2 (stamp_mutation e t) = Some run"
        and su: "to_summary w2 (stamp_mutation e t) = Some su"
        by (auto simp: to_run_def to_summary_def split: option.splits)
      define s1 where "s1 = lane_update i lane_bump (set_entry i (stamp_mutation e t) (Some w2)
        (workflow_persistence_lane i s))"
      have p: "persist_mutation e d i (te_task en) w0 (stamp_mutation e t) w2 run s1 = (r, s')"
        using assms(1) en w0 Inr tw adv run
        by (simp add: mutate_workflow_with_durability_def Let_def s1_def)
      have st: "entry_state s1 i = Some (stamp_mutation e t, Some w2)"
        and fr1: "ts_index s1 = ts_index s" "ts_roots s1 = ts_roots s" "ts_dirs s1 = ts_dirs s"
        using en by (simp_all add: s1_def entry_state_def)
      have "ts_dirs s1 i \<noteq> None \<longrightarrow> ts_roots s1 i \<noteq> None" using assms(3) fr1 by (simp add: bound_def)
      from persist_mutation_outcome [OF p st this] persist_mutation_index [OF p st su] fr1 su
      show ?thesis by (cases r) auto
    qed
  qed
qed

lemma bound_of_ok:
  assumes "service_ok s" and "run_fact s i \<noteq> None"
  shows "bound s i"
  using assms unfolding service_ok_def bound_def
  by (fastforce simp: run_fact_def split: option.splits if_splits)

lemma fact_entry:
  "run_fact s i = Some (ow, k, d) \<longleftrightarrow> (\<exists>t w. entry_state s i = Some (t, Some w) \<and> wf_revision w < u64_max \<and>
     ow = (wf_canonical_identity_key w, wf_identity_revision w) \<and> k = wf_kind w \<and>
     d = display_status_from (bt_status t))"
  by (auto simp: run_fact_def split: option.splits if_splits)

lemma fact_cong: "entry_state s' i = entry_state s i \<Longrightarrow> run_fact s' i = run_fact s i"
  by (simp add: run_fact_def)

lemma entry_cong: "ts_tasks s' i = ts_tasks s i \<Longrightarrow> entry_state s' i = entry_state s i"
  by (simp add: entry_state_def)

lemma summary_facts:
  assumes "to_summary w t = Some su"
  shows "su_task_id su = bt_id t \<and> su_kind su = wf_kind w \<and>
    su_display_status su = display_status_from (bt_status t) \<and>
    owner_key_of su = (wf_canonical_identity_key w, wf_identity_revision w)"
  using assms by (auto simp: to_summary_def owner_key_of_def split: option.splits)

text \<open>An entry changed with its index, or an exhausted entry changed alone.\<close>

lemma service_ok_step:
  assumes ok: "service_ok s" and "index_ok (ts_index s')"
    and "ts_roots s' = ts_roots s" and "ts_dirs s' = ts_dirs s"
    and others: "\<And>j. j \<noteq> i \<Longrightarrow> entry_state s' j = entry_state s j \<and> indexed s' j = indexed s j"
    and ids: "\<And>t w. entry_state s' i = Some (t, w) \<Longrightarrow> bt_id t = i \<and> (w \<noteq> None \<longrightarrow> bt_project_id t \<noteq> None)"
    and "\<And>f. run_fact s' i = Some f \<Longrightarrow> indexed s' i = Some f"
  shows "service_ok s'"
proof -
  have "bt_id t = j \<and> (w \<noteq> None \<longrightarrow> bt_project_id t \<noteq> None)" if "entry_state s' j = Some (t, w)" for j t w
    using that ids [of t w] others [of j] ok unfolding service_ok_def by (cases "j = i") auto
  moreover have "indexed s' j = Some f" if "run_fact s' j = Some f" for j f
    using that assms(7) [of f] others [of j] fact_cong [of s' j s] ok unfolding service_ok_def
    by (cases "j = i") auto
  ultimately show ?thesis using assms(1-4) unfolding service_ok_def by simp
qed

lemma service_ok_cong:
  assumes "ts_index s' = ts_index s" and "ts_roots s' = ts_roots s" and "ts_dirs s' = ts_dirs s"
    and "entry_state s' = entry_state s"
  shows "service_ok s' \<longleftrightarrow> service_ok s"
proof -
  have "run_fact s' = run_fact s" and "indexed s' = indexed s"
    using assms by (simp_all add: run_fact_def indexed_def fun_eq_iff)
  with assms show ?thesis by (simp only: service_ok_def)
qed

text \<open>What a mutation can do to the facts: move the display status of one workflow.\<close>

definition moved :: "string \<Rightarrow> 'x mutation \<Rightarrow> 'x task_service \<Rightarrow> 'x task_service \<Rightarrow> bool" where
  "moved i m s s' \<longleftrightarrow> service_ok s' \<and> (\<forall>j. j \<noteq> i \<longrightarrow> run_fact s' j = run_fact s j) \<and>
     (\<forall>ow k d'. run_fact s' i = Some (ow, k, d') \<longrightarrow>
       (\<exists>d. run_fact s i = Some (ow, k, d) \<and> (d' = d \<or> (\<exists>t w t' w'. entry_state s i = Some (t, Some w) \<and>
          m t w = Inr (t', w') \<and> d = display_status_from (bt_status t) \<and>
          d' = display_status_from (bt_status t')))))"

lemma movedI_same:
  "service_ok s' \<Longrightarrow> (\<And>j. j \<noteq> i \<Longrightarrow> run_fact s' j = run_fact s j) \<Longrightarrow> run_fact s' i = None \<or> run_fact s' i = run_fact s i \<Longrightarrow>
   moved i m s s'"
  unfolding moved_def by auto

lemma lane_only:
  "service_ok s \<Longrightarrow> service_ok (workflow_persistence_lane i s)"
  "run_fact (workflow_persistence_lane i s) j = run_fact s j"
proof -
  have e: "entry_state (workflow_persistence_lane i s) = entry_state s"
    by (simp add: entry_state_def fun_eq_iff)
  show "service_ok s \<Longrightarrow> service_ok (workflow_persistence_lane i s)"
    using service_ok_cong [OF _ _ _ e] by simp
  show "run_fact (workflow_persistence_lane i s) j = run_fact s j" using e by (simp add: run_fact_def)
qed

lemma mutate_moved_live:
  assumes m: "mutate_workflow_with_durability e d i m s = (r, s')" and k: "keeps_owner m"
    and ok: "service_ok s" and live: "run_fact s i \<noteq> None"
  shows "moved i m s s'"
proof -
  from k have fr: "keeps_frame m" by (simp add: keeps_owner_def)
  note b = bound_of_ok [OF ok live]
  note out = mutate_outcome [OF m fr b] and ix = mutate_index [OF m fr b]
  from out have same: "entry_state s' j = entry_state s j" if "j \<noteq> i" for j
    using that entry_cong [of s' j s] by auto
  have iok: "index_ok (ts_index s)" using ok by (simp add: service_ok_def)
  show ?thesis
  proof (cases r)
    case (Inl err)
    with out ix have e: "entry_state s' i = entry_state s i" "ts_index s' = ts_index s" by simp_all
    have es: "entry_state s' = entry_state s" using same e(1) by (metis ext)
    then have "service_ok s'" using ok ix e(2) service_ok_cong [OF e(2) _ _ es] by simp
    with es show ?thesis by (intro movedI_same) (simp_all add: run_fact_def)
  next
    case (Inr run)
    obtain t0 w0 t w where st: "entry_state s i = Some (t0, Some w0)" "m t0 w0 = Inr (t, w)"
      and st': "entry_state s' i = Some (stamp_mutation e t, Some (w\<lparr>wf_revision := wf_revision w0 + 1\<rparr>))"
      by (rule mutate_ok [OF m [unfolded Inr] fr b])
    from Inr ix st' obtain su where su: "to_summary (w\<lparr>wf_revision := wf_revision w0 + 1\<rparr>) (stamp_mutation e t) = Some su"
      and iv: "ts_index s' = index_insert su (ts_index s)" by auto
    from k st(2) have kp: "bt_id t = bt_id t0" "bt_project_id t = bt_project_id t0"
      "wf_canonical_identity_key w = wf_canonical_identity_key w0"
      "wf_identity_revision w = wf_identity_revision w0" "wf_kind w = wf_kind w0"
      unfolding keeps_owner_def keeps_frame_def by blast+
    from ok st(1) have ids: "bt_id t0 = i" "bt_project_id t0 \<noteq> None" unfolding service_ok_def by blast+
    note sf = summary_facts [OF su]
    have vw: "index_view (ts_index s') = (index_view (ts_index s))(i \<mapsto> su)"
      using index_insert_ok(2) [OF iok, of su] sf ids kp by (simp add: iv)
    have "service_ok s'"
    proof (rule service_ok_step [OF ok, of _ i])
      show "index_ok (ts_index s')" using index_insert_ok(1) [OF iok] by (simp add: iv)
      show "ts_roots s' = ts_roots s" "ts_dirs s' = ts_dirs s" using ix by simp_all
      show "entry_state s' j = entry_state s j \<and> indexed s' j = indexed s j" if "j \<noteq> i" for j
        using that same vw by (simp add: indexed_def)
      show "bt_id t' = i \<and> (w' \<noteq> None \<longrightarrow> bt_project_id t' \<noteq> None)" if "entry_state s' i = Some (t', w')" for t' w'
        using that st' ids kp by auto
      show "indexed s' i = Some f" if "run_fact s' i = Some f" for f
        using that st' vw sf kp by (auto simp: run_fact_def indexed_def split: if_splits)
    qed
    moreover have "\<exists>d. run_fact s i = Some (ow, kd, d) \<and> (d' = d \<or> (\<exists>t w t' w'. entry_state s i = Some (t, Some w) \<and>
          m t w = Inr (t', w') \<and> d = display_status_from (bt_status t) \<and> d' = display_status_from (bt_status t')))"
      if "run_fact s' i = Some (ow, kd, d')" for ow kd d'
      using that st st' live kp by (auto simp: run_fact_def split: if_splits)
    moreover have "run_fact s' j = run_fact s j" if "j \<noteq> i" for j
      using same [OF that] by (rule fact_cong)
    ultimately show ?thesis unfolding moved_def by blast
  qed
qed

text \<open>A workflow whose revisions are exhausted, or a task that is no workflow, stays without a run_fact.\<close>

lemma mutate_dead_state:
  assumes m: "mutate_workflow_with_durability e d i m s = (r, s')" and k: "keeps_owner m"
    and dead: "run_fact s i = None"
  shows "s' = workflow_persistence_lane i s \<or> (\<exists>t w0 t1 w1. entry_state s i = Some (t, Some w0) \<and>
      m t w0 = Inr (t1, w1) \<and> \<not> wf_revision w0 < u64_max \<and>
      s' = set_entry i t1 (Some w1) (workflow_persistence_lane i s))"
proof (cases "entry_state s i")
  case (Some tw)
  show ?thesis
  proof (cases "snd tw")
    case w0: (Some w0)
    with Some dead have ex: "\<not> wf_revision w0 < u64_max" by (cases tw) (auto simp: run_fact_def split: if_splits)
    show ?thesis
    proof (cases "m (fst tw) w0")
      case (Inr tw1)
      obtain t1 w1 where tw1: "tw1 = (t1, w1)" by (cases tw1)
      have "wf_revision w1 = wf_revision w0"
        using k Inr tw1 unfolding keeps_owner_def keeps_frame_def by blast
      with ex have "advance_revision w1 = Inl ''Workflow revision exhausted''"
        by (simp add: advance_revision_def checked_add_def)
      with m Some w0 Inr tw1 ex show ?thesis
        by (cases tw) (auto simp: mutate_workflow_with_durability_def Let_def entry_state_def)
    qed (use m Some w0 in \<open>cases tw; auto simp: mutate_workflow_with_durability_def Let_def entry_state_def\<close>)
  qed (use m Some in \<open>cases tw; auto simp: mutate_workflow_with_durability_def Let_def entry_state_def\<close>)
qed (use m in \<open>auto simp: mutate_workflow_with_durability_def Let_def entry_state_def\<close>)

lemma mutate_moved_dead:
  assumes m: "mutate_workflow_with_durability e d i m s = (r, s')" and k: "keeps_owner m"
    and ok: "service_ok s" and dead: "run_fact s i = None"
  shows "moved i m s s'"
proof -
  let ?l = "workflow_persistence_lane i s"
  from mutate_dead_state [OF m k dead]
  show ?thesis
  proof (elim disjE exE conjE)
    assume "s' = ?l"
    with ok show ?thesis by (intro movedI_same) (simp_all add: lane_only)
  next
    fix t w0 t1 w1
    assume st: "entry_state s i = Some (t, Some w0)" "m t w0 = Inr (t1, w1)" "\<not> wf_revision w0 < u64_max"
      and s': "s' = set_entry i t1 (Some w1) ?l"
    have kp: "bt_id t1 = bt_id t" "bt_project_id t1 = bt_project_id t" "wf_revision w1 = wf_revision w0"
      using k st(2) unfolding keeps_owner_def keeps_frame_def by blast+
    have e': "entry_state s' i = Some (t1, Some w1)"
      using st(1) by (auto simp: s' entry_state_def)
    have oth: "entry_state s' j = entry_state s j" if "j \<noteq> i" for j using that by (simp add: s' entry_state_def)
    have none: "run_fact s' i = None" using e' st(3) kp by (simp add: run_fact_def)
    from ok st(1) have ids: "bt_id t = i" "bt_project_id t \<noteq> None" unfolding service_ok_def by blast+
    have "service_ok s'"
    proof (rule service_ok_step [OF ok, of _ i])
      show "index_ok (ts_index s')" using ok unfolding service_ok_def by (simp add: s')
      show "entry_state s' j = entry_state s j \<and> indexed s' j = indexed s j" if "j \<noteq> i" for j
        using oth [OF that] by (simp add: s' indexed_def)
    qed (use ids kp e' none in \<open>auto simp: s'\<close>)
    with none oth show ?thesis by (intro movedI_same) (auto intro: fact_cong)
  qed
qed

lemma mutate_moved:
  assumes "mutate_workflow_with_durability e d i m s = (r, s')" and "keeps_owner m" and "service_ok s"
  shows "moved i m s s'"
  using mutate_moved_live [OF assms] mutate_moved_dead [OF assms] by (cases "run_fact s i") auto

section \<open>One active workflow per owner\<close>

definition active_of :: "'x task_service \<Rightarrow> workflow_owner_key \<Rightarrow> string \<Rightarrow> bool" where
  "active_of s ow i \<longleftrightarrow> (\<exists>k d. run_fact s i = Some (ow, k, d) \<and> active_display d)"

definition one_active :: "'x task_service \<Rightarrow> bool" where
  "one_active s \<longleftrightarrow> (\<forall>ow i j. active_of s ow i \<longrightarrow> active_of s ow j \<longrightarrow> i = j)"

definition calm :: "'x mutation \<Rightarrow> bool" where
  "calm m \<longleftrightarrow> keeps_owner m \<and> (\<forall>t w t' w'. m t w = Inr (t', w') \<longrightarrow>
     active_display (display_status_from (bt_status t')) \<longrightarrow>
     active_display (display_status_from (bt_status t)))"

text \<open>A safe step keeps the service consistent and starts no second workflow of an owner.\<close>

definition safe :: "'x task_service \<Rightarrow> 'x task_service \<Rightarrow> bool" where
  "safe s s' \<longleftrightarrow> (service_ok s \<and> one_active s \<longrightarrow> service_ok s' \<and> one_active s')"

lemma safe_refl [simp]: "safe s s"
  by (simp add: safe_def)

lemma safe_trans: "safe s s1 \<Longrightarrow> safe s1 s2 \<Longrightarrow> safe s s2"
  by (simp add: safe_def)

lemma safe_then_op:
  assumes "safe s (snd p)" and "\<And>v s1. p = (Inr v, s1) \<Longrightarrow> safe s1 (snd (k v s1))"
  shows "safe s (snd (then_op p k))"
proof (cases p)
  case (Pair r s1)
  show ?thesis
  proof (cases r)
    case (Inr v)
    with assms Pair show ?thesis by (auto simp: then_op_def intro: safe_trans)
  qed (use assms Pair in \<open>simp add: then_op_def\<close>)
qed

lemma moved_active:
  assumes "moved i m s s'" and "active_of s' ow j"
  shows "active_of s ow j \<or> (j = i \<and> (\<exists>t w t' w' k. entry_state s i = Some (t, Some w) \<and> m t w = Inr (t', w') \<and>
     active_display (display_status_from (bt_status t')) \<and>
     run_fact s i = Some (ow, k, display_status_from (bt_status t))))"
proof (cases "j = i")
  case False
  with assms show ?thesis unfolding moved_def active_of_def by simp
next
  case True
  from assms(2) True obtain k d' where f: "run_fact s' i = Some (ow, k, d')" "active_display d'"
    unfolding active_of_def by blast
  with assms(1) obtain d where d: "run_fact s i = Some (ow, k, d)"
    "d' = d \<or> (\<exists>t w t' w'. entry_state s i = Some (t, Some w) \<and> m t w = Inr (t', w') \<and>
       d = display_status_from (bt_status t) \<and> d' = display_status_from (bt_status t'))"
    unfolding moved_def by blast
  from d(2) show ?thesis
  proof (elim disjE exE conjE)
    assume "d' = d"
    with d f True show ?thesis unfolding active_of_def by blast
  next
    fix t w t' w'
    assume "entry_state s i = Some (t, Some w)" "m t w = Inr (t', w')"
      "d = display_status_from (bt_status t)" "d' = display_status_from (bt_status t')"
    with d(1) f(2) True show ?thesis
      by (intro disjI2 conjI exI [of _ t] exI [of _ w] exI [of _ t'] exI [of _ w'] exI [of _ k]) auto
  qed
qed

lemma calm_safe:
  assumes "mutate_workflow_with_durability e d i m s = (r, s')" and "calm m"
  shows "safe s s'"
  unfolding safe_def
proof (intro impI, elim conjE)
  assume ok: "service_ok s" and one: "one_active s"
  from assms(2) have k: "keeps_owner m" by (simp add: calm_def)
  note mv = mutate_moved [OF assms(1) k ok]
  have "active_of s ow j" if "active_of s' ow j" for ow j
    using moved_active [OF mv that] that assms(2) unfolding calm_def active_of_def by blast
  with one have "one_active s'" unfolding one_active_def by blast
  with mv show "service_ok s' \<and> one_active s'" by (simp add: moved_def)
qed

text \<open>The one step that starts a workflow is safe when its owner has no active workflow.\<close>

lemma transition_owner: "keeps_owner (transition_mutation st)"
  using keeps_frame_ops(2) unfolding keeps_owner_def
  by (auto simp: transition_mutation_def split: sum.splits)

lemma start_safe:
  assumes idle: "\<And>ow k d j. run_fact s i = Some (ow, k, d) \<Longrightarrow> \<not> active_of s ow j"
  shows "safe s (snd (transition_workflow_status e i st s))"
  unfolding safe_def
proof (intro impI, elim conjE)
  assume ok: "service_ok s" and one: "one_active s"
  obtain r s' where m: "mutate_workflow_with_durability e Barrier i (transition_mutation st) s = (r, s')"
    by (cases "mutate_workflow_with_durability e Barrier i (transition_mutation st) s")
  then have eq: "snd (transition_workflow_status e i st s) = s'"
    by (simp add: transition_workflow_status_def mutate_workflow_def)
  note mv = mutate_moved [OF m transition_owner ok]
  have "one_active s'" unfolding one_active_def
  proof (intro allI impI)
    fix ow a b
    assume ab: "active_of s' ow a" "active_of s' ow b"
    show "a = b"
      using moved_active [OF mv ab(1)] moved_active [OF mv ab(2)] idle one
      unfolding one_active_def by blast
  qed
  with mv show "service_ok (snd (transition_workflow_status e i st s)) \<and>
    one_active (snd (transition_workflow_status e i st s))" by (simp add: moved_def eq)
qed

section \<open>The runs the coordinator sees\<close>

text \<open>The iteration over a hash map meets each of its keys once.\<close>

definition iterates :: "'x coordinator_env \<Rightarrow> bool" where
  "iterates c \<longleftrightarrow> (\<forall>ox. set (cn_order c ox) = dom (ox_by_status ox) \<and> distinct (cn_order c ox))"

lemma iterates_calls [simp]:
  "iterates (after_calls n c) = iterates c" "iterates (even_calls c) = iterates c"
  "iterates (odd_calls c) = iterates c"
  by (simp_all add: iterates_def after_calls_def even_calls_def odd_calls_def)

lemma get_run_facts:
  "get_workflow_run i s = Some run \<longleftrightarrow>
     (\<exists>t w. entry_state s i = Some (t, Some w) \<and> to_run w t = Some run)"
  by (auto simp: get_workflow_run_def entry_state_def split: option.splits)

lemma map_filter_set: "x \<in> set (List.map_filter f xs) \<longleftrightarrow> (\<exists>y \<in> set xs. f y = Some x)"
  by (induction xs) (auto simp: List.map_filter_simps split: option.splits)

lemma owner_status_member:
  assumes "owner_ok ox"
  shows "i \<in> snd ` or_default (ox_by_status ox (k, d)) \<longleftrightarrow>
    (\<exists>su. ox_summaries ox i = Some su \<and> su_kind su = k \<and> su_display_status su = d)"
proof -
  have ids: "\<And>j r. ox_summaries ox j = Some r \<Longrightarrow> su_task_id r = j"
    and st: "or_default (ox_by_status ox (k, d)) = facet_union (status_facet (k, d)) (ox_summaries ox)"
    using assms by (simp_all only: owner_ok_def keyed_def)
  show ?thesis unfolding st
    by (force simp: facet_union_def status_facet_def recent_facet_def ran_def image_iff ids dest: ids
        split: if_splits)
qed

lemma finite_status:
  assumes "owner_ok ox" shows "finite (or_default (ox_by_status ox k))"
proof -
  have "finite (dom (ox_summaries ox))"
    and "or_default (ox_by_status ox k) = facet_union (status_facet k) (ox_summaries ox)"
    using assms by (simp_all only: owner_ok_def)
  then show ?thesis by (simp add: finite_facet_union)
qed

lemma runs_for_owner_iff:
  assumes ix: "index_ok (ts_index s)" and it: "iterates c"
  shows "run \<in> set (workflow_runs_for_owner c key revision True s) \<longleftrightarrow>
    (\<exists>i su. index_view (ts_index s) i = Some su \<and> owner_key_of su = (key, revision) \<and>
      (active_display (su_display_status su) \<or> su_display_status su = DisplayQueued) \<and>
      get_workflow_run i s = Some run)"
proof (cases "si_owners (ts_index s) (key, revision)")
  case None
  have "si_owners (ts_index s) (owner_key_of su) \<noteq> None" if "index_view (ts_index s) i = Some su" for i su
    using that index_owner_ok(3) [OF ix] by (fastforce simp: index_view_def bind_eq_Some_conv)
  with None show ?thesis by (force simp: workflow_runs_for_owner_def)
next
  case (Some ox)
  note ok = index_owner_ok(1) [OF ix Some]
  have dom: "k \<in> set (cn_order c ox)" if "i \<in> snd ` or_default (ox_by_status ox k)" for i k
    using it that by (auto simp: iterates_def or_default_def split: option.splits)
  have mem: "(k, d) \<in> set (cn_order c ox) \<and> i \<in> snd ` or_default (ox_by_status ox (k, d)) \<longleftrightarrow>
      (\<exists>su. ox_summaries ox i = Some su \<and> su_kind su = k \<and> su_display_status su = d)" for i k d
    using dom [of i "(k, d)"] owner_status_member [OF ok, of i k d] by blast
  have ids: "set (concat (map (\<lambda>k. map snd (sorted_list_of_set (or_default (ox_by_status ox k))))
      (filter (\<lambda>(_, d). active_display d \<or> d = DisplayQueued) (cn_order c ox)))) =
    {i. \<exists>k d. (active_display d \<or> d = DisplayQueued) \<and>
      (k, d) \<in> set (cn_order c ox) \<and> i \<in> snd ` or_default (ox_by_status ox (k, d))}"
    using finite_status [OF ok] by (simp add: case_prod_beta) force
  have "run \<in> set (workflow_runs_for_owner c key revision True s) \<longleftrightarrow>
    (\<exists>i k d. (active_display d \<or> d = DisplayQueued) \<and> ((k, d) \<in> set (cn_order c ox) \<and>
       i \<in> snd ` or_default (ox_by_status ox (k, d))) \<and> get_workflow_run i s = Some run)"
    by (simp only: workflow_runs_for_owner_def Some option.case Let_def if_True map_filter_set ids) blast
  also have "\<dots> \<longleftrightarrow> (\<exists>i su. ox_summaries ox i = Some su \<and>
      (active_display (su_display_status su) \<or> su_display_status su = DisplayQueued) \<and>
      get_workflow_run i s = Some run)"
    unfolding mem by blast
  finally show ?thesis unfolding owner_summaries_view [OF ix Some] by blast
qed

lemma live_run_seen:
  assumes ok: "service_ok s" and it: "iterates c" and e: "entry_state s i = Some (t, Some w)"
    and "wf_revision w < u64_max" and "wf_canonical_identity_key w = key" and "wf_identity_revision w = revision"
    and d: "active_display (display_status_from (bt_status t)) \<or> bt_status t = Queued"
  obtains run where "to_run w t = Some run" and "get_workflow_run i s = Some run"
    and "run \<in> set (workflow_runs_for_owner c key revision True s)"
proof -
  have "run_fact s i = Some ((key, revision), wf_kind w, display_status_from (bt_status t))"
    using assms by (simp add: run_fact_def)
  with ok have "indexed s i = Some ((key, revision), wf_kind w, display_status_from (bt_status t))"
    unfolding service_ok_def by blast
  then obtain su where su: "index_view (ts_index s) i = Some su" "owner_key_of su = (key, revision)"
    "su_display_status su = display_status_from (bt_status t)" by (auto simp: indexed_def)
  from ok e have "bt_project_id t \<noteq> None" unfolding service_ok_def by blast
  then obtain run where r: "to_run w t = Some run" by (auto simp: to_run_def)
  then have g: "get_workflow_run i s = Some run" using e by (auto simp: get_run_facts)
  have ix: "index_ok (ts_index s)" using ok by (simp only: service_ok_def)
  have "active_display (su_display_status su) \<or> su_display_status su = DisplayQueued" using d su(3) by auto
  with su g have "run \<in> set (workflow_runs_for_owner c key revision True s)"
    unfolding runs_for_owner_iff [OF ix it] by blast
  with r g show ?thesis by (rule that)
qed

lemma active_run_seen:
  assumes ok: "service_ok s" and it: "iterates c" and a: "active_of s (key, revision) i"
  shows "\<exists>run \<in> set (workflow_runs_for_owner c key revision True s). active_display (wr_display_status run)"
proof -
  from a obtain t w where e: "entry_state s i = Some (t, Some w)" "wf_revision w < u64_max"
      "wf_canonical_identity_key w = key" "wf_identity_revision w = revision"
      "active_display (display_status_from (bt_status t))"
    by (auto simp: active_of_def fact_entry)
  obtain run where r: "to_run w t = Some run"
      "run \<in> set (workflow_runs_for_owner c key revision True s)"
    by (rule live_run_seen [OF ok it e(1-4)]) (use e(5) in auto)
  from r(1) e(5) have "active_display (wr_display_status run)" by (auto simp: to_run_def split: option.splits)
  with r(2) show ?thesis by blast
qed

text \<open>A run on the list belongs to the owner, under its own identifier.\<close>

lemma seen_run_fact:
  assumes ok: "service_ok s" and it: "iterates c"
    and r: "run \<in> set (workflow_runs_for_owner c key revision True s)"
    and f: "run_fact s (wr_task_id run) = Some (ow, k, d)"
  shows "ow = (key, revision)"
proof -
  have ix: "index_ok (ts_index s)" using ok by (simp only: service_ok_def)
  from r obtain i su where i: "index_view (ts_index s) i = Some su" "owner_key_of su = (key, revision)"
    "get_workflow_run i s = Some run" by (auto simp: runs_for_owner_iff [OF ix it])
  then obtain t w where e: "entry_state s i = Some (t, Some w)" "to_run w t = Some run"
    by (auto simp: get_run_facts)
  with ok have "bt_id t = i" unfolding service_ok_def by blast
  with e have "wr_task_id run = i" by (auto simp: to_run_def split: option.splits)
  with f ok have "indexed s i = Some (ow, k, d)" unfolding service_ok_def by blast
  with i show ?thesis by (simp add: indexed_def)
qed

section \<open>Safe operations\<close>

named_theorems calm_intros

named_theorems safe_intros

lemma calmI:
  assumes "keeps_frame m" and "\<And>t w t' w'. m t w = Inr (t', w') \<Longrightarrow>
     wf_canonical_identity_key w' = wf_canonical_identity_key w \<and>
     wf_identity_revision w' = wf_identity_revision w \<and> wf_kind w' = wf_kind w \<and>
     (active_display (display_status_from (bt_status t')) \<longrightarrow>
      active_display (display_status_from (bt_status t)))"
  shows "calm m"
  using assms unfolding calm_def keeps_owner_def by blast

lemmas calm_splits = if_splits option.splits workflow_operation.splits

lemma queue_state_calm [calm_intros]:
  "calm (\<lambda>t w. Inr (t, w\<lparr>wf_queue_position := pos, wf_continuation_required := cont\<rparr>))"
  by (rule calmI [OF keeps_frame_ops(1)]) simp

lemma start_stage_calm [calm_intros]: "calm (start_stage_mutation e sig i sid)"
  by (rule calmI [OF keeps_frame_ops(3)]) (auto simp: start_stage_mutation_def active_display_def split: calm_splits)

lemma stage_progress_calm [calm_intros]: "calm (stage_progress_mutation sig i sid item current tot)"
  by (rule calmI [OF keeps_frame_ops(4)]) (auto simp: stage_progress_mutation_def active_display_def split: calm_splits)

lemma complete_stage_calm [calm_intros]: "calm (complete_stage_mutation e sig i sid)"
  by (rule calmI [OF keeps_frame_ops(5)]) (auto simp: complete_stage_mutation_def active_display_def split: calm_splits)

lemma skip_stage_calm [calm_intros]: "calm (skip_stage_mutation e sig i sid)"
  by (rule calmI [OF keeps_frame_ops(6)]) (auto simp: skip_stage_mutation_def active_display_def split: calm_splits)

lemma cancellable_calm [calm_intros]: "calm (cancellable_mutation sig i b)"
  by (rule calmI [OF keeps_frame_ops(7)]) (auto simp: cancellable_mutation_def active_display_def split: calm_splits)

lemma fail_stage_calm [calm_intros]: "calm (fail_stage_mutation e sig i sid err result)"
  by (rule calmI [OF keeps_frame_ops(8)]) (auto simp: fail_stage_mutation_def active_display_def split: calm_splits)

lemma between_stages_calm [calm_intros]: "calm (between_stages_mutation e err r)"
  by (rule calmI [OF keeps_frame_more(1)]) (auto simp: between_stages_mutation_def active_display_def split: calm_splits)

lemma wait_stage_calm [calm_intros]: "calm (wait_stage_mutation sig i sid p result)"
  by (rule calmI [OF keeps_frame_more(2)]) (auto simp: wait_stage_mutation_def current_running_ok active_display_def split: calm_splits)

lemma clear_pending_calm [calm_intros]: "calm (clear_pending_mutation sig i)"
  by (rule calmI [OF keeps_frame_more(3)]) (auto simp: clear_pending_mutation_def resume_current_stage_def Let_def active_display_def split: calm_splits)

lemma confirmed_apply_calm [calm_intros]: "calm (confirmed_apply_mutation sig i)"
  by (rule calmI [OF keeps_frame_more(4)]) (auto simp: confirmed_apply_mutation_def resume_current_stage_def Let_def active_display_def split: calm_splits)

lemma complete_workflow_calm [calm_intros]: "calm (complete_workflow_mutation sig i r)"
  by (rule calmI [OF keeps_frame_more(5)]) (auto simp: complete_workflow_mutation_def active_display_def split: calm_splits)

lemma finalize_cancel_calm [calm_intros]: "calm (finalize_cancel_mutation b i result)"
  by (rule calmI [OF keeps_frame_more(6)]) (auto simp: finalize_cancel_mutation_def active_display_def split: calm_splits)

lemma reject_calm:
  assumes "status \<noteq> Failed \<longrightarrow> status = Interrupted"
  shows "calm (reject_mutation e sig i status err allow result)"
  using assms by (intro calmI [OF keeps_frame_more(7)])
    (auto simp: reject_mutation_def Let_def active_display_def split: if_splits option.splits)

lemma calm_cancel_ops [calm_intros]:
  "calm (cancel_created_mutation i)" "calm (cancel_queued_mutation deadline)"
  "calm (undo_cancel_mutation unexpired pending)"
  by (rule calmI; auto simp: cancel_created_mutation_def cancel_queued_mutation_def undo_cancel_mutation_def
      keeps_frame_def active_display_def split: if_splits)+

lemma mutate_safe: "calm m \<Longrightarrow> safe s (snd (mutate_workflow_with_durability e d i m s))"
  using calm_safe [OF surjective_pairing] .

lemma workflow_ops_safe [safe_intros]:
  "safe s (snd (set_workflow_queue_state e i p b s))"
  "safe s (snd (start_workflow_stage e i sid s))"
  "safe s (snd (update_workflow_stage_progress e i sid item current tot s))"
  "safe s (snd (complete_workflow_stage e i sid s))"
  "safe s (snd (skip_workflow_stage e i sid s))"
  "safe s (snd (fail_workflow_stage_with_result e i sid err r s))"
  "safe s (snd (wait_workflow_stage_with_result e i sid act r s))"
  "safe s (snd (clear_workflow_pending_action e i s))"
  "safe s (snd (begin_confirmed_workflow_apply e i s))"
  "safe s (snd (complete_workflow e i res s))"
  "safe s (snd (finalize_workflow_cancellation_with_result e i r s))"
  "safe s (snd (finalize_workflow_cancellation e i s))"
  by (simp_all add: set_workflow_queue_state_def start_workflow_stage_def update_workflow_stage_progress_def
    complete_workflow_stage_def skip_workflow_stage_def fail_workflow_stage_with_result_def
    wait_workflow_stage_with_result_def clear_workflow_pending_action_def begin_confirmed_workflow_apply_def
    complete_workflow_def finalize_workflow_cancellation_with_result_def finalize_workflow_cancellation_def
    mutate_workflow_def mutate_safe calm_intros)

lemma set_task_cancellable_safe [safe_intros]: "safe s (snd (set_task_cancellable e i b s))"
  unfolding set_task_cancellable_def then_get_task_result [OF refl keeps_frame_ops(7), THEN conjunct1]
  by (simp add: mutate_workflow_def mutate_safe calm_intros)

lemma more_ops_safe [safe_intros]:
  "safe s (snd (fail_agent_lint_repair_between_stages e i err res s))"
  "safe s (snd (reject_workflow_execution e i st err b r s))"
  "safe s (snd (mutate_workflow e i (cancel_created_mutation i) s))"
  "safe s (snd (mutate_workflow e i (cancel_queued_mutation deadline) s))"
  "safe s (snd (mutate_workflow e i (undo_cancel_mutation unexpired pending) s))"
  by (auto simp: fail_agent_lint_repair_between_stages_def reject_workflow_execution_def mutate_workflow_def
    intro!: mutate_safe calm_intros reject_calm)

lemma service_same_safe:
  assumes "ts_index s' = ts_index s" and "ts_roots s' = ts_roots s" and "ts_dirs s' = ts_dirs s"
    and "entry_state s' = entry_state s"
  shows "safe s s'"
  using service_ok_cong [OF assms] assms(4)
  by (simp add: safe_def one_active_def active_of_def run_fact_def)

text \<open>A cancellation request leaves an active workflow active.\<close>

lemma cancel_mutation_owner: "keeps_owner (cancel_mutation i b)"
  by (auto simp: keeps_owner_def keeps_frame_def cancel_mutation_def split: if_splits)

lemma request_cancel_safe [safe_intros]: "safe s (snd (request_workflow_cancel e i s))"
proof (cases "get_workflow_run i s")
  case None
  then show ?thesis by (simp add: request_workflow_cancel_def)
next
  case (Some run)
  have cancel: "safe s (snd (mutate_workflow e i (cancel_mutation i b) s))"
    if act: "active_display (wr_display_status run)" for b
    unfolding safe_def
  proof (intro impI, elim conjE)
    let ?s' = "snd (mutate_workflow e i (cancel_mutation i b) s)"
    assume ok: "service_ok s" and one: "one_active s"
    have mv: "moved i (cancel_mutation i b) s ?s'"
      using mutate_moved [OF surjective_pairing cancel_mutation_owner ok] by (simp add: mutate_workflow_def)
    have "active_of s ow j" if "active_of ?s' ow j" for ow j
      using moved_active [OF mv that] Some act
      by (auto simp: get_run_facts active_of_def to_run_def split: option.splits)
    with one have "one_active ?s'" unfolding one_active_def by blast
    with mv show "service_ok ?s' \<and> one_active ?s'" by (simp add: moved_def)
  qed
  have reg: "safe s (set_cancellation f s1)" if "safe s s1" for f s1
    by (rule safe_trans [OF that service_same_safe])
      (simp_all add: set_cancellation_def entry_state_def fun_eq_iff)
  show ?thesis using Some cancel
    by (auto simp: request_workflow_cancel_def active_display_def split: sum.splits prod.splits
        intro!: reg) (metis snd_conv)+
qed

lemma reset_cancellation_safe [safe_intros]: "safe s (snd (reset_workflow_cancellation i s))"
  by (rule service_same_safe)
    (auto simp: reset_workflow_cancellation_def entry_state_def fun_eq_iff Let_def
      split: option.splits prod.splits)

section \<open>Creating workflows\<close>

lemma persist_keeps:
  assumes "persist_current_task_with_lane e i b s = (r, s')"
  shows "ts_index s' = ts_index s \<and> ts_roots s' = ts_roots s \<and> ts_dirs s' = ts_dirs s \<and>
    entry_state s' = entry_state s"
  using assms
  by (auto simp: persist_current_task_with_lane_def Let_def entry_state_def fun_eq_iff
      split: option.splits sum.splits if_splits)

lemma create_task_state:
  assumes c: "create_task_internal e i q s = (r, s')" and n: "ts_tasks s i = None"
  shows "ts_index s' = ts_index s \<and>
    (case r of
       Inl _ \<Rightarrow> entry_state s' = entry_state s \<and> ts_roots s' = (ts_roots s)(i := None) \<and>
         ts_dirs s' = (ts_dirs s)(i := None)
     | Inr t \<Rightarrow> t = new_task e i q \<and> ts_roots s' = insert_optional i (rq_project_root q) (ts_roots s) \<and>
         ts_dirs s' = insert_optional i (rq_persistence_dir q) (ts_dirs s) \<and>
         entry_state s' = (entry_state s)(i \<mapsto> (new_task e i q,
           map_option (\<lambda>w. w\<lparr>wf_revision := 1, wf_session_id := ts_session_id s\<rparr>) (rq_workflow q))))"
proof -
  obtain tok reg where tr: "registry_register i (ts_cancellation s) = (tok, reg)"
    by (cases "registry_register i (ts_cancellation s)")
  define en where "en = \<lparr>te_task = new_task e i q, te_cancellation = tok, te_log_lines = [],
    te_activities = [], te_persisted_path = None, te_workflow = map_option (\<lambda>w. w\<lparr>wf_revision := 1,
    wf_session_id := ts_session_id s\<rparr>) (rq_workflow q)\<rparr>"
  define s1 where "s1 = s\<lparr>ts_cancellation := reg, ts_tasks := (ts_tasks s)(i \<mapsto> en),
    ts_roots := insert_optional i (rq_project_root q) (ts_roots s),
    ts_dirs := insert_optional i (rq_persistence_dir q) (ts_dirs s)\<rparr>"
  obtain r2 s2 where p: "persist_current_task e i s1 = (r2, s2)" by (cases "persist_current_task e i s1")
  from p have k: "ts_index s2 = ts_index s1" "ts_roots s2 = ts_roots s1" "ts_dirs s2 = ts_dirs s1"
      "entry_state s2 = entry_state (workflow_persistence_lane i s1)"
    using persist_keeps [of e i True "workflow_persistence_lane i s1"]
    by (simp_all add: persist_current_task_def)
  have lane: "entry_state (workflow_persistence_lane i s1) = entry_state s1"
    by (simp add: entry_state_def fun_eq_iff)
  have es1: "entry_state s1 = (entry_state s)(i \<mapsto> (new_task e i q, te_workflow en))"
    by (simp add: s1_def entry_state_def fun_eq_iff en_def)
  have out: "create_task_internal e i q s = (if \<not> is_ok r2 \<and> rq_require_persistence q
     then (case r2 of Inl err \<Rightarrow>
        (Inl err, s2\<lparr>ts_tasks := (ts_tasks s2)(i := None), ts_roots := (ts_roots s2)(i := None),
           ts_dirs := (ts_dirs s2)(i := None), ts_cancellation := registry_remove i (ts_cancellation s2)\<rparr>))
     else (Inr (new_task e i q), emit TaskUpdated (rq_project_id q) (Some i)
        (if bt_task_type (new_task e i q) = Workflow then bump_workflow_history_revision s2 else s2)))"
    using p by (simp add: create_task_internal_def tr Let_def en_def s1_def)
  show ?thesis
  proof (cases "\<not> is_ok r2 \<and> rq_require_persistence q")
    case True
    then obtain err where "r2 = Inl err" by (cases r2) auto
    with True c out k lane es1 n show ?thesis
      by (auto simp: fun_eq_iff s1_def insert_optional_def entry_state_def split: option.splits if_splits)
  next
    case False
    have "entry_state (emit TaskUpdated pid (Some i) (bump_workflow_history_revision s2)) = entry_state s2"
      "entry_state (emit TaskUpdated pid (Some i) s2) = entry_state s2" for pid
      by (simp_all add: emit_def push_event_def entry_state_def bump_workflow_history_revision_def fun_eq_iff)
    with False c out k lane es1 show ?thesis
      by (auto simp: s1_def en_def emit_def push_event_def bump_workflow_history_revision_def split: if_splits)
  qed
qed

lemma create_workflow_outcome:
  assumes ok: "service_ok s" and n: "ts_tasks s i = None"
    and c: "create_workflow_task e i pid root title w dir s = (r, s')"
  shows "service_ok s' \<and> (\<forall>j. j \<noteq> i \<longrightarrow> run_fact s' j = run_fact s j) \<and>
    (case r of Inl _ \<Rightarrow> run_fact s' i = None
     | Inr run \<Rightarrow> wr_task_id run = i \<and> run_fact s' i = Some ((wf_canonical_identity_key w,
         wf_identity_revision w), wf_kind w, DisplayQueued))"
proof -
  define q where "q = \<lparr>rq_task_type = Workflow, rq_project_id = Some pid, rq_project_root = Some root,
        rq_title = title, rq_cancellable = True, rq_batch_id = None, rq_operation = None,
        rq_require_persistence = (dir \<noteq> None), rq_workflow = Some w, rq_persistence_dir = dir\<rparr>"
  obtain r1 s1 where c1: "create_task_internal e i q s = (r1, s1)" by (cases "create_task_internal e i q s")
  note st = create_task_state [OF c1 n]
  have iok: "index_ok (ts_index s)" using ok by (simp only: service_ok_def)
  have none: "entry_state s i = None" using n by (simp add: entry_state_def)
  show ?thesis
  proof (cases r1)
    case (Inl err)
    with c c1 have rs: "r = Inl err" "s' = s1" by (simp_all add: create_workflow_task_def then_op_def q_def)
    from st Inl have e: "entry_state s1 = entry_state s" "ts_index s1 = ts_index s"
      "ts_roots s1 = (ts_roots s)(i := None)" "ts_dirs s1 = (ts_dirs s)(i := None)" by simp_all
    have f: "run_fact s1 = run_fact s" "indexed s1 = indexed s"
      using e by (simp_all add: run_fact_def indexed_def fun_eq_iff)
    have "service_ok s1" using ok unfolding service_ok_def f e by simp
    moreover have "run_fact s i = None" using none by (simp add: run_fact_def)
    ultimately show ?thesis using f rs by simp
  next
    case (Inr t)
    let ?t = "new_task e i q" and ?w = "w\<lparr>wf_revision := 1, wf_session_id := ts_session_id s\<rparr>"
    from st Inr have e: "t = ?t" "entry_state s1 = (entry_state s)(i \<mapsto> (?t, Some ?w))"
      "ts_index s1 = ts_index s" "ts_roots s1 = (ts_roots s)(i \<mapsto> root)"
      "ts_dirs s1 = insert_optional i dir (ts_dirs s)"
      by (simp_all add: q_def insert_optional_def)
    have t: "bt_id ?t = i" "bt_project_id ?t = Some pid" "bt_status ?t = Queued"
      by (simp_all add: new_task_def q_def)
    obtain run where run: "to_run ?w ?t = Some run" "wr_task_id run = i"
      using t by (auto simp: to_run_def)
    obtain su where su: "to_summary ?w ?t = Some su" using t by (auto simp: to_summary_def)
    have es1: "entry_state s1 i = Some (?t, Some ?w)" using e by simp
    then have g: "get_workflow_run i s1 = Some run" using run by (auto simp: get_run_facts)
    have rs: "r = Inr run" "s' = emit WorkflowUpdated (Some pid) (Some i) s1"
      using c c1 Inr g e(1) t by (simp_all add: create_workflow_task_def then_op_def q_def)
    have e': "entry_state s' = entry_state s1" "ts_roots s' = ts_roots s1" "ts_dirs s' = ts_dirs s1"
      using rs by (simp_all add: entry_state_def fun_eq_iff)
    have ix: "ts_index s' = index_insert su (ts_index s)"
      using index_workflow_summary_index(1) [OF es1 su] e by (simp add: rs emit_index(2))
    note sf = summary_facts [OF su]
    have vw: "index_view (ts_index s') = (index_view (ts_index s))(i \<mapsto> su)"
      using index_insert_ok(2) [OF iok, of su] sf t by (simp add: ix)
    have f: "run_fact s' i = Some ((wf_canonical_identity_key w, wf_identity_revision w), wf_kind w, DisplayQueued)"
      using e e' t by (simp add: run_fact_def u64_max_def)
    have oth: "entry_state s' j = entry_state s j" if "j \<noteq> i" for j using that e e' by simp
    have "service_ok s'" unfolding service_ok_def
    proof (intro conjI allI impI)
      show "index_ok (ts_index s')" using index_insert_ok(1) [OF iok] by (simp add: ix)
      show "bt_id t' = j" if "entry_state s' j = Some (t', w')" for j t' w'
        using that ok e e' t(1) unfolding service_ok_def by (cases "j = i") auto
      show "bt_project_id t' \<noteq> None" if "entry_state s' j = Some (t', w')" "w' \<noteq> None" for j t' w'
        using that ok e e' t(2) unfolding service_ok_def by (cases "j = i") auto
      show "ts_roots s' j \<noteq> None" if "ts_dirs s' j \<noteq> None" for j
        using that ok e e' unfolding service_ok_def
        by (cases "j = i") (auto simp: insert_optional_def split: option.splits)
      show "indexed s' j = Some x" if "run_fact s' j = Some x" for j x
      proof (cases "j = i")
        case True
        with that f vw sf t show ?thesis by (auto simp: indexed_def)
      next
        case False
        with that have "run_fact s j = Some x" using fact_cong [OF oth] by simp
        with ok have "indexed s j = Some x" unfolding service_ok_def by blast
        with False vw show ?thesis by (simp add: indexed_def)
      qed
    qed
    with f oth rs run show ?thesis using fact_cong [OF oth] by simp
  qed
qed

lemma create_workflow_safe:
  assumes "ts_tasks s i = None"
  shows "safe s (snd (create_workflow_task e i pid root title w dir s))"
  unfolding safe_def
proof (intro impI, elim conjE)
  assume ok: "service_ok s" and one: "one_active s"
  obtain r s' where c: "create_workflow_task e i pid root title w dir s = (r, s')"
    by (cases "create_workflow_task e i pid root title w dir s")
  note out = create_workflow_outcome [OF ok assms c]
  have "active_of s ow j" if "active_of s' ow j" for ow j
    using that out by (cases "j = i"; cases r) (auto simp: active_of_def active_display_def)
  with one have "one_active s'" unfolding one_active_def by blast
  with out c show "service_ok (snd (create_workflow_task e i pid root title w dir s)) \<and>
      one_active (snd (create_workflow_task e i pid root title w dir s))" by simp
qed

section \<open>The coordinator is safe\<close>

lemma renumber_runs_safe [safe_intros]: "safe s (snd (renumber_runs c n runs s))"
  by (induction c n runs s rule: renumber_runs.induct) (auto intro!: safe_then_op safe_intros)

lemma renumber_safe [safe_intros]: "safe s (snd (renumber c key revision s))"
  by (simp add: renumber_def safe_intros)

lemma lift_holds_safe [safe_intros]: "safe s (snd (lift_holds c runs s))"
  by (induction c runs s rule: lift_holds.induct) (auto intro!: safe_then_op safe_intros)

lemma set_positions_safe [safe_intros]: "safe s (snd (set_positions c n runs s))"
  by (induction c n runs s rule: set_positions.induct) (auto intro!: safe_then_op safe_intros)

lemma safe_assuming:
  "(service_ok s \<Longrightarrow> safe s s') \<Longrightarrow> safe s s'"
  by (auto simp: safe_def)

lemma idle_owner:
  assumes "service_ok s" and "iterates c"
    and "\<not> list_ex (\<lambda>run. active_display (wr_display_status run)) (workflow_runs_for_owner c key revision True s)"
  shows "\<not> active_of s (key, revision) j"
  using active_run_seen [OF assms(1,2)] assms(3) by (auto simp: list_ex_iff)

lemma min_by_key_in: "min_by_key k xs = Some x \<Longrightarrow> x \<in> set xs"
  by (induction xs arbitrary: x) (auto split: option.splits if_splits)

lemma claim_safe [safe_intros]:
  assumes it: "iterates c"
  shows "safe s (snd (claim_next_locked c key revision s))"
proof (rule safe_assuming)
  assume ok: "service_ok s"
  let ?runs = "workflow_runs_for_owner c key revision True s"
  show ?thesis
  proof (cases "list_ex (\<lambda>run. active_display (wr_display_status run)) ?runs")
    case True
    then show ?thesis by (simp add: claim_next_locked_def Let_def)
  next
    case False
    show ?thesis
    proof (cases "min_by_key run_order (filter (\<lambda>run. is_queued run \<and> \<not> wr_continuation_required run) ?runs)")
      case None
      with False show ?thesis by (simp add: claim_next_locked_def Let_def)
    next
      case (Some nxt)
      then have "nxt \<in> set ?runs" using min_by_key_in [OF Some] by simp
      then have "\<not> active_of s ow j" if "run_fact s (wr_task_id nxt) = Some (ow, k, d)" for ow k d j
        using seen_run_fact [OF ok it _ that] idle_owner [OF ok it False] by simp
      then have "safe s (snd (transition_workflow_status (cn_calls c 0) (wr_task_id nxt) Running s))"
        by (rule start_safe)
      with False Some show ?thesis
        by (auto simp: claim_next_locked_def Let_def intro!: safe_then_op safe_intros)
    qed
  qed
qed

lemma create_and_start_safe:
  assumes it: "iterates c" and n: "ts_tasks s (cn_new_id c) = None"
    and runs: "runs = workflow_runs_for_owner c (pw_canonical_identity_key identity)
      (pw_identity_revision identity) True s"
  shows "safe s (snd (create_and_start c identity q state_root fingerprint runs pending s))"
proof (rule safe_assuming)
  assume ok: "service_ok s"
  let ?w = "new_workflow_state identity q fingerprint (state_root \<noteq> None) (length (filter is_queued runs)) pending"
  let ?ow = "(pw_canonical_identity_key identity, pw_identity_revision identity)"
  have own: "(wf_canonical_identity_key ?w, wf_identity_revision ?w) = ?ow" by (simp add: new_workflow_state_def)
  have start: "safe s1 (snd (transition_workflow_status e (wr_task_id run) Running s1))"
    if cr: "create_workflow_task (cn_calls c 0) (cn_new_id c) (eq_project_id q) (pw_canonical_root identity)
        (eq_title q) ?w state_root s = (Inr run, s1)"
      and idle: "\<not> list_ex (\<lambda>run. active_display (wr_display_status run)) runs" for run s1 e
  proof (rule start_safe)
    fix ow k d j
    note out = create_workflow_outcome [OF ok n cr]
    assume "run_fact s1 (wr_task_id run) = Some (ow, k, d)"
    with out own have "ow = ?ow" by simp
    moreover have "\<not> active_of s ?ow j" using idle_owner [OF ok it] idle runs by blast
    ultimately show "\<not> active_of s1 ow j"
      using out by (cases "j = cn_new_id c") (auto simp: active_of_def active_display_def)
  qed
  show ?thesis using start
    by (auto simp: create_and_start_def Let_def intro!: safe_then_op create_workflow_safe [OF n])
qed

text \<open>
  The identifiers of new tasks are fresh: \<open>Uuid::new_v4\<close> never returns one in use.
\<close>

definition fresh_id :: "'x coordinator_env \<Rightarrow> 'x task_service \<Rightarrow> bool" where
  "fresh_id c s \<longleftrightarrow> ts_tasks s (cn_new_id c) = None"

lemma enqueue_locked_safe:
  assumes "iterates c" and "fresh_id c s"
  shows "safe s (snd (enqueue_locked c q dedup owner pending s))"
proof -
  have "safe s (snd (create_and_start c identity q root fp (workflow_runs_for_owner c
      (pw_canonical_identity_key identity) (pw_identity_revision identity) True s) pending s))"
    for identity root fp
    using assms by (intro create_and_start_safe) (simp_all add: fresh_id_def)
  then show ?thesis
    by (auto simp: enqueue_locked_def Let_def split: sum.split option.split)
qed

lemma with_run_safe:
  "(\<And>run. get_workflow_run i s = Some run \<Longrightarrow> safe s (snd (k run s))) \<Longrightarrow> safe s (snd (with_run i k s))"
  by (auto simp: with_run_def split: sum.split option.split)

lemma claim_after_safe:
  "iterates c \<Longrightarrow> safe s (snd p) \<Longrightarrow> safe s (snd (claim_after c owner p))"
  unfolding claim_after_def by (intro safe_then_op safe_intros) auto

lemma hold_queued_safe: "safe s (snd (hold_queued c runs tr s))"
proof (induction c runs tr s rule: hold_queued.induct)
  case (2 c run runs tr s)
  note step = workflow_ops_safe(1) [of s "cn_calls c 0" "wr_task_id run" "wr_queue_position run" True]
  show ?case
  proof (cases "set_workflow_queue_state (cn_calls c 0) (wr_task_id run) (wr_queue_position run) True s")
    case (Pair r s1)
    with 2 step show ?thesis by (cases r) (auto intro: safe_trans)
  qed
qed simp

lemma stop_run_safe: "safe s (snd (stop_run c run tr s))"
proof -
  obtain r s1 where r: "request_workflow_cancel (cn_calls c 0) (wr_task_id run) s = (r, s1)"
    by (cases "request_workflow_cancel (cn_calls c 0) (wr_task_id run) s")
  obtain r2 s2 where r2: "finalize_workflow_cancellation (cn_calls c 1) (wr_task_id run) s1 = (r2, s2)"
    by (cases "finalize_workflow_cancellation (cn_calls c 1) (wr_task_id run) s1")
  have "safe s s1" using request_cancel_safe [of s "cn_calls c 0" "wr_task_id run"] r by simp
  moreover have "safe s1 s2"
    using workflow_ops_safe(12) [of s1 "cn_calls c 1" "wr_task_id run"] r2 by simp
  ultimately show ?thesis
    by (auto simp: stop_run_def r r2 Let_def simp del: One_nat_def split: sum.split intro: safe_trans)
qed

lemma stop_active_safe: "safe s (snd (stop_active c readable identity runs tr s))"
proof (induction c readable identity runs tr s rule: stop_active.induct)
  case (2 c readable identity run runs tr s)
  obtain tr1 s1 where s: "stop_run c run tr s = (tr1, s1)" by (cases "stop_run c run tr s")
  with stop_run_safe [of s c run tr] have "safe s s1" by simp
  with 2 s show ?case by (auto intro: safe_trans)
qed simp

lemma freeze_safe: "safe s (snd (freeze_owner_for_trust_revocation c root s))"
proof -
  define identity where "identity = (case project_identity (cn_identity c) root of Inl _ \<Rightarrow> None | Inr v \<Rightarrow> Some v)"
  define runs where "runs = List.map_filter (\<lambda>t. get_workflow_run (bt_id t) s) (list_tasks_for_root c root None s)"
  obtain tr1 s1 where h: "hold_queued (even_calls c) runs
      \<lparr>tt_stopped_runs = [], tt_continued_local_quick_runs = [], tt_errors = []\<rparr> s = (tr1, s1)"
    by (cases "hold_queued (even_calls c) runs
      \<lparr>tt_stopped_runs = [], tt_continued_local_quick_runs = [], tt_errors = []\<rparr> s")
  have "freeze_owner_for_trust_revocation c root s =
      stop_active (odd_calls c) (cn_project_readable c root) identity runs tr1 s1"
    using h unfolding freeze_owner_for_trust_revocation_def identity_def runs_def Let_def by simp
  with hold_queued_safe [of s "even_calls c" runs] h stop_active_safe show ?thesis
    by (metis safe_trans snd_conv)
qed

section \<open>Commands\<close>

datatype 'x coordinator_command =
    Enqueue "'x enqueue_workflow"
  | EnqueueForOwner "'x enqueue_workflow" string string
  | EnqueuePendingApproval "'x enqueue_workflow" string string
  | ClaimNext string string
  | ContinueQueued string string
  | CompleteAndClaim string "'x workflow_result"
  | FailAndClaim string string workflow_error_summary "'x workflow_result option"
  | FailBetweenAndClaim string workflow_error_summary "'x workflow_result"
  | FinishCancelled string "'x workflow_result option"
  | CancelCreated string
  | ReleaseHold string
  | RejectDispatch string workflow_dispatch_failure
  | InterruptConfirmation string workflow_error_summary "'x workflow_result option"
  | CancelRun string
  | UndoCancel string bool
  | Reorder string "string option"
  | FreezeOwner string

fun run_coordinator ::
  "'x coordinator_env \<Rightarrow> 'x coordinator_command \<Rightarrow> 'x task_service \<Rightarrow> 'x task_service" where
  "run_coordinator c (Enqueue q) s = snd (enqueue c q s)"
| "run_coordinator c (EnqueueForOwner q key revision) s = snd (enqueue_for_owner c q key revision s)"
| "run_coordinator c (EnqueuePendingApproval q key revision) s =
     snd (enqueue_for_owner_pending_approval c q key revision s)"
| "run_coordinator c (ClaimNext key revision) s = snd (claim_next c key revision s)"
| "run_coordinator c (ContinueQueued key revision) s = snd (continue_queued c key revision s)"
| "run_coordinator c (CompleteAndClaim i r) s = snd (complete_and_claim_next c i r s)"
| "run_coordinator c (FailAndClaim i sid err r) s =
     snd (fail_stage_and_claim_next_with_result c i sid err r s)"
| "run_coordinator c (FailBetweenAndClaim i err r) s =
     snd (fail_agent_lint_repair_between_stages_and_claim_next c i err r s)"
| "run_coordinator c (FinishCancelled i r) s = snd (finish_cancelled_and_claim_next_with_result c i r s)"
| "run_coordinator c (CancelCreated i) s = snd (cancel_created_without_undo_and_claim_next c i s)"
| "run_coordinator c (ReleaseHold i) s = snd (release_initial_approval_hold_and_claim_next c i s)"
| "run_coordinator c (RejectDispatch i f) s = snd (reject_claimed_dispatch c i f s)"
| "run_coordinator c (InterruptConfirmation i err r) s =
     snd (interrupt_invalid_confirmation_with_result c i err r s)"
| "run_coordinator c (CancelRun i) s = snd (coordinator_cancel c i s)"
| "run_coordinator c (UndoCancel i pending) s = snd (undo_cancel_inner c i pending s)"
| "run_coordinator c (Reorder i before) s = snd (reorder_queued c i before s)"
| "run_coordinator c (FreezeOwner root) s = snd (freeze_owner_for_trust_revocation c root s)"

lemma claim_ops_safe:
  assumes "iterates c"
  shows "safe s (run_coordinator c (CompleteAndClaim i r) s)"
    and "safe s (run_coordinator c (FailAndClaim i sid err ro) s)"
    and "safe s (run_coordinator c (FailBetweenAndClaim i err r) s)"
    and "safe s (run_coordinator c (FinishCancelled i ro) s)"
    and "safe s (run_coordinator c (RejectDispatch i f) s)"
    and "safe s (run_coordinator c (InterruptConfirmation i err ro) s)"
  using assms
  by (auto simp: complete_and_claim_next_def fail_stage_and_claim_next_with_result_def
      fail_agent_lint_repair_between_stages_and_claim_next_def finish_cancelled_and_claim_next_with_result_def
      reject_claimed_dispatch_def interrupt_invalid_confirmation_with_result_def
      reject_workflow_dispatch_def interrupt_workflow_confirmation_with_result_def
      cancel_and_claim_next_locked_def Let_def case_prod_beta
      intro!: with_run_safe claim_after_safe safe_intros)

lemma queue_ops_safe:
  assumes "iterates c"
  shows "safe s (run_coordinator c (CancelCreated i) s)"
    and "safe s (run_coordinator c (ReleaseHold i) s)"
    and "safe s (run_coordinator c (CancelRun i) s)"
    and "safe s (run_coordinator c (UndoCancel i pending) s)"
    and "safe s (run_coordinator c (Reorder i before) s)"
  using assms
  by (auto simp: cancel_created_without_undo_and_claim_next_def release_initial_approval_hold_and_claim_next_def
      coordinator_cancel_def undo_cancel_inner_def reorder_queued_def Let_def split: option.splits
      intro!: with_run_safe safe_then_op claim_after_safe safe_intros)

lemma run_coordinator_safe:
  assumes "iterates c" and "fresh_id c s"
  shows "safe s (run_coordinator c cmd s)"
proof (cases cmd)
  case (Enqueue q)
  with assms show ?thesis
    by (auto simp: enqueue_def intro!: enqueue_locked_safe split: sum.split)
next
  case (ContinueQueued key revision)
  have "iterates c'" if "lift_holds c0 runs s0 = (Inr c', s1)" and "iterates c0" for c0 c' runs s0 s1
    using that by (induction c0 runs s0 rule: lift_holds.induct)
      (auto simp: then_op_def split: if_splits prod.splits sum.splits)
  with ContinueQueued assms(1) show ?thesis
    by (auto simp: continue_queued_def intro!: safe_then_op safe_intros)
qed (use assms in \<open>auto simp: enqueue_for_owner_def enqueue_for_owner_pending_approval_def claim_next_def
      intro!: enqueue_locked_safe safe_intros freeze_safe claim_ops_safe [simplified] queue_ops_safe [simplified]\<close>)

lemma forget_snd [simp]: "snd (forget p) = snd p"
  by (cases p; cases "fst p") (auto simp: forget_def)

lemma run_workflow_safe:
  assumes "\<forall>st. cmd \<noteq> StatusTo st"
  shows "safe s (snd (run_workflow e i cmd s))"
  using assms by (cases cmd) (simp_all add: safe_intros)

lemma flush_safe: "safe s (flush_pending_workflow_progress e i g s)"
  by (rule service_same_safe)
    (auto simp: flush_pending_workflow_progress_def Let_def entry_state_def fun_eq_iff
      split: option.splits sum.splits)

text \<open>
  The steps of the running application: a coordinator operation, an operation of the runner of a
  workflow, a cancellation request, and the deferred flush. Only the coordinator starts workflows.
\<close>

inductive coordinator_step :: "'x task_service \<Rightarrow> 'x task_service \<Rightarrow> bool" where
  coordinate: "iterates c \<Longrightarrow> fresh_id c s \<Longrightarrow> coordinator_step s (run_coordinator c cmd s)"
| runner: "\<forall>st. cmd \<noteq> StatusTo st \<Longrightarrow> coordinator_step s (snd (run_workflow e i cmd s))"
| request: "coordinator_step s (snd (request_workflow_cancel e i s))"
| flush: "coordinator_step s (flush_pending_workflow_progress e i g s)"

inductive_cases coordinator_stepE: "coordinator_step s s'"

lemma coordinator_step_safe: "coordinator_step s s' \<Longrightarrow> safe s s'"
  by (induction rule: coordinator_step.induct)
    (simp_all add: run_coordinator_safe run_workflow_safe flush_safe request_cancel_safe)

definition started_empty :: "'x task_service \<Rightarrow> bool" where
  "started_empty s \<longleftrightarrow> ts_tasks s = Map.empty \<and> ts_dirs s = Map.empty \<and> ts_index s = index_default"

lemma started_empty_ok: "started_empty s \<Longrightarrow> service_ok s \<and> one_active s"
  using index_default_ok
  by (simp add: started_empty_def service_ok_def one_active_def active_of_def run_fact_def entry_state_def)

interpretation coordinator_machine:
  invariant_machine started_empty coordinator_step "\<lambda>s. service_ok s \<and> one_active s"
proof unfold_locales
  fix s t :: "'a task_service"
  show "started_empty s \<Longrightarrow> service_ok s \<and> one_active s" by (rule started_empty_ok)
  assume "service_ok s \<and> one_active s" and "coordinator_step s t"
  then show "service_ok t \<and> one_active t" using coordinator_step_safe unfolding safe_def by blast
qed

end
