(* ===== verification/Queue_Order.thy ===== *)
theory Queue_Order
  imports Queue_Safety
begin

text \<open>
  The order of a project's queue: what a change of position does, that the runs of an owner are
  listed once each, and the properties of the queue: one active workflow at a time, renumbering, claiming, reordering, repeated requests and
  the revocation of trust. The statements read the stored state through \<open>queue_position_of\<close>,
  \<open>status_of\<close> and \<open>held_of\<close>.
\<close>

section \<open>Setting queue positions\<close>

lemma mutate_Inr_bound:
  assumes "mutate_workflow_with_durability e d i m s = (Inr run, s')" and "keeps_frame m"
    and "service_ok s"
  shows "bound s i"
proof -
  have dirs: "ts_dirs s i \<noteq> None \<longrightarrow> ts_roots s i \<noteq> None" using assms(3) unfolding service_ok_def by blast
  have "wf_revision w0 < u64_max" if e: "entry_state s i = Some (t0, Some w0)" for t0 w0
  proof (cases "m t0 w0")
    case (Inr tw)
    obtain t w where tw: "tw = (t, w)" by (cases tw)
    have "wf_revision w = wf_revision w0" using assms(2) Inr tw unfolding keeps_frame_def by blast
    moreover have "is_ok (advance_revision w)"
      using assms(1) e Inr tw
      by (auto simp: mutate_workflow_with_durability_def Let_def entry_state_def split: sum.splits)
    ultimately show ?thesis
      by (auto simp: advance_revision_def checked_add_def split: option.splits if_splits)
  qed (use assms(1) e in \<open>auto simp: mutate_workflow_with_durability_def Let_def entry_state_def\<close>)
  moreover have "bt_project_id t0 \<noteq> None" if "entry_state s i = Some (t0, Some w0)" for t0 w0
    using assms(3) that unfolding service_ok_def by blast
  ultimately show ?thesis using dirs unfolding bound_def by blast
qed

lemma queue_state_effect:
  assumes "set_workflow_queue_state e i p b s = (Inr run, s')" and ok: "service_ok s"
  obtains t w where "entry_state s i = Some (t, Some w)"
    and "entry_state s' i = Some (stamp_mutation e t, Some (w\<lparr>wf_queue_position := p,
      wf_continuation_required := b, wf_revision := wf_revision w + 1\<rparr>))"
    and "\<forall>j. j \<noteq> i \<longrightarrow> entry_state s' j = entry_state s j" and "service_ok s'"
proof -
  let ?m = "\<lambda>t w. Inr (t, w\<lparr>wf_queue_position := p, wf_continuation_required := b\<rparr>)"
  have m: "mutate_workflow_with_durability e Barrier i ?m s = (Inr run, s')"
    using assms(1) by (simp add: set_workflow_queue_state_def mutate_workflow_def)
  obtain t w where st: "entry_state s i = Some (t, Some w)"
    "entry_state s' i = Some (stamp_mutation e t, Some (w\<lparr>wf_queue_position := p,
      wf_continuation_required := b, wf_revision := wf_revision w + 1\<rparr>))"
    "\<forall>j. j \<noteq> i \<longrightarrow> ts_tasks s' j = ts_tasks s j"
    by (rule mutate_ok [OF m keeps_frame_ops(1) mutate_Inr_bound [OF m keeps_frame_ops(1) ok]], rule that) auto
  have "service_ok s'"
    using mutate_moved [OF m _ ok] queue_state_calm unfolding calm_def moved_def by blast
  with st show ?thesis by (intro that [of t w]) (auto simp: entry_state_def)
qed

definition queue_position_of :: "'x task_service \<Rightarrow> string \<Rightarrow> nat option" where
  "queue_position_of s i = (case entry_state s i of Some (_, Some w) \<Rightarrow> wf_queue_position w | _ \<Rightarrow> None)"

definition status_of :: "'x task_service \<Rightarrow> string \<Rightarrow> task_status option" where
  "status_of s i = map_option (\<lambda>(t, _). bt_status t) (entry_state s i)"

definition held_of :: "'x task_service \<Rightarrow> string \<Rightarrow> bool option" where
  "held_of s i = (case entry_state s i of Some (_, Some w) \<Rightarrow> Some (wf_continuation_required w) | _ \<Rightarrow> None)"

lemma view_cong:
  assumes "entry_state s' j = entry_state s j"
  shows "queue_position_of s' j = queue_position_of s j" and "status_of s' j = status_of s j"
    and "held_of s' j = held_of s j" and "get_workflow_run j s' = get_workflow_run j s"
  using assms
  by (auto simp: queue_position_of_def status_of_def held_of_def get_workflow_run_def entry_state_def
      split: option.splits)

lemma queue_state_views:
  assumes "set_workflow_queue_state e i p b s = (Inr run, s')" and "service_ok s"
  shows "service_ok s' \<and> queue_position_of s' i = p \<and> held_of s' i = Some b \<and>
    (\<forall>j. status_of s' j = status_of s j) \<and> (\<forall>j. j \<noteq> i \<longrightarrow> entry_state s' j = entry_state s j)"
proof -
  obtain t w where e: "entry_state s i = Some (t, Some w)"
    "entry_state s' i = Some (stamp_mutation e t, Some (w\<lparr>wf_queue_position := p,
      wf_continuation_required := b, wf_revision := wf_revision w + 1\<rparr>))"
    and oth: "\<forall>j. j \<noteq> i \<longrightarrow> entry_state s' j = entry_state s j" and ok: "service_ok s'"
    by (rule queue_state_effect [OF assms])
  have "status_of s' j = status_of s j" for j
    using e view_cong(2) [of s' j s] oth by (cases "j = i") (auto simp: status_of_def)
  with e oth ok show ?thesis by (simp add: queue_position_of_def held_of_def)
qed

lemma display_queued: "display_status_from st = DisplayQueued \<longleftrightarrow> st = Queued"
  by (cases st) simp_all

lemma run_views:
  assumes "get_workflow_run i s = Some run"
  shows "queue_position_of s i = wr_queue_position run" and "held_of s i = Some (wr_continuation_required run)"
    and "status_of s i = Some Queued \<longleftrightarrow> is_queued run"
  using assms
  by (auto simp: get_run_facts to_run_def queue_position_of_def held_of_def status_of_def is_queued_def
      display_queued split: option.splits)

text \<open>Both loops give the runs of a list the positions they have in it.\<close>

lemma set_positions_effect:
  assumes "set_positions c n runs s = (Inr (), s')" and "service_ok s" and "distinct (map wr_task_id runs)"
  shows "service_ok s' \<and> (\<forall>k < length runs. queue_position_of s' (wr_task_id (runs ! k)) = Some (n + k + 1)) \<and>
    (\<forall>j. status_of s' j = status_of s j) \<and> (\<forall>j. j \<notin> wr_task_id ` set runs \<longrightarrow> entry_state s' j = entry_state s j)"
  using assms
proof (induction c n runs s arbitrary: s' rule: set_positions.induct)
  case (2 c n run runs s)
  obtain r s1 where st: "set_workflow_queue_state (cn_calls c 0) (wr_task_id run) (Some (n + 1))
      (wr_continuation_required run) s = (r, s1)"
    by (cases "set_workflow_queue_state (cn_calls c 0) (wr_task_id run) (Some (n + 1))
      (wr_continuation_required run) s")
  with "2.prems"(1) obtain v where r: "r = Inr v" by (cases r) (auto simp: then_op_def)
  note v = queue_state_views [OF st [unfolded r] "2.prems"(2)]
  have rest: "set_positions (after_calls 1 c) (n + 1) runs s1 = (Inr (), s')"
    using "2.prems"(1) st r by (simp add: then_op_def)
  have ih: "service_ok s' \<and> (\<forall>k < length runs. queue_position_of s' (wr_task_id (runs ! k)) = Some (n + 1 + k + 1)) \<and>
    (\<forall>j. status_of s' j = status_of s1 j) \<and> (\<forall>j. j \<notin> wr_task_id ` set runs \<longrightarrow> entry_state s' j = entry_state s1 j)"
    using "2.IH" [OF rest] v "2.prems"(3) by simp
  have "queue_position_of s' (wr_task_id run) = Some (n + 1)"
    using ih v "2.prems"(3) view_cong(1) [of s' "wr_task_id run" s1] by auto
  then have "queue_position_of s' (wr_task_id ((run # runs) ! k)) = Some (n + k + 1)"
    if "k < length (run # runs)" for k
    using that ih by (cases k) auto
  with ih v show ?case by auto
qed simp

lemma renumber_runs_effect:
  assumes "renumber_runs c n runs s = (Inr (), s')" and "service_ok s" and "distinct (map wr_task_id runs)"
    and "\<forall>r \<in> set runs. get_workflow_run (wr_task_id r) s = Some r"
  shows "service_ok s' \<and> (\<forall>k < length runs. queue_position_of s' (wr_task_id (runs ! k)) = Some (n + k + 1)) \<and>
    (\<forall>j. status_of s' j = status_of s j) \<and> (\<forall>j. j \<notin> wr_task_id ` set runs \<longrightarrow> entry_state s' j = entry_state s j)"
  using assms
proof (induction c n runs s arbitrary: s' rule: renumber_runs.induct)
  case (2 c n run runs s)
  define c1 where "c1 = (if wr_queue_position run \<noteq> Some (n + 1) then after_calls 1 c else c)"
  obtain s1 where rest: "renumber_runs c1 (n + 1) runs s1 = (Inr (), s')" and ok: "service_ok s1"
    and pos: "queue_position_of s1 (wr_task_id run) = Some (n + 1)"
    and st: "\<forall>j. status_of s1 j = status_of s j"
    and oth: "\<forall>j. j \<noteq> wr_task_id run \<longrightarrow> entry_state s1 j = entry_state s j"
    and same: "wr_queue_position run = Some (n + 1) \<longrightarrow> s1 = s"
  proof (cases "wr_queue_position run \<noteq> Some (n + 1)")
    case True
    obtain r s1 where st: "set_workflow_queue_state (cn_calls c 0) (wr_task_id run) (Some (n + 1))
        (wr_continuation_required run) s = (r, s1)"
      by (cases "set_workflow_queue_state (cn_calls c 0) (wr_task_id run) (Some (n + 1))
        (wr_continuation_required run) s")
    with "2.prems"(1) True obtain v where r: "r = Inr v" by (cases r) (auto simp: then_op_def)
    show ?thesis
      using queue_state_views [OF st [unfolded r] "2.prems"(2)] "2.prems"(1) st r True
      by (intro that [of s1]) (simp_all add: then_op_def c1_def)
  next
    case False
    with "2.prems" run_views(1) [of "wr_task_id run" s run] show ?thesis
      by (intro that [of s]) (simp_all add: c1_def)
  qed
  have live: "\<forall>r \<in> set runs. get_workflow_run (wr_task_id r) s1 = Some r"
  proof
    fix r assume r: "r \<in> set runs"
    with "2.prems"(3) have "wr_task_id r \<noteq> wr_task_id run" by (metis distinct.simps(2) image_eqI list.map(2) list.set_map)
    with oth view_cong(4) [of s1 "wr_task_id r" s] "2.prems"(4) r
    show "get_workflow_run (wr_task_id r) s1 = Some r" by simp
  qed
  have ih: "service_ok s' \<and> (\<forall>k < length runs. queue_position_of s' (wr_task_id (runs ! k)) = Some (n + 1 + k + 1)) \<and>
    (\<forall>j. status_of s' j = status_of s1 j) \<and> (\<forall>j. j \<notin> wr_task_id ` set runs \<longrightarrow> entry_state s' j = entry_state s1 j)"
    using rest ok live "2.prems"(3) "2.IH" same unfolding c1_def
    by (cases "wr_queue_position run \<noteq> Some (n + 1)") simp_all
  have "queue_position_of s' (wr_task_id run) = Some (n + 1)"
    using ih pos "2.prems"(3) view_cong(1) [of s' "wr_task_id run" s1] by auto
  then have "queue_position_of s' (wr_task_id ((run # runs) ! k)) = Some (n + k + 1)"
    if "k < length (run # runs)" for k
    using that ih by (cases k) auto
  with ih st oth show ?case by auto
qed simp

section \<open>The runs of an owner are distinct\<close>

lemma distinct_concat_map:
  "distinct ks \<Longrightarrow> (\<And>k. k \<in> set ks \<Longrightarrow> distinct (f k)) \<Longrightarrow>
   (\<And>k k' x. x \<in> set (f k) \<Longrightarrow> x \<in> set (f k') \<Longrightarrow> k = k') \<Longrightarrow> distinct (concat (map f ks))"
proof (induction ks)
  case (Cons a ks)
  have "x \<notin> set (f k)" if "x \<in> set (f a)" "k \<in> set ks" for x k
    using Cons.prems(1) Cons.prems(3) [OF that(1), of k] that(2) by auto
  moreover have "distinct (concat (map f ks))" using Cons.prems by (intro Cons.IH) auto
  ultimately show ?case using Cons.prems(2) by auto
qed simp

lemma map_filter_ids:
  assumes "\<And>i r. f i = Some r \<Longrightarrow> g r = i"
  shows "map g (List.map_filter f xs) = filter (\<lambda>i. f i \<noteq> None) xs"
  using assms by (induction xs) (auto simp: List.map_filter_simps split: option.splits)

lemma run_id:
  assumes "service_ok s" and "get_workflow_run i s = Some run"
  shows "wr_task_id run = i"
proof -
  from assms(2) obtain t w where e: "entry_state s i = Some (t, Some w)" "to_run w t = Some run"
    by (auto simp: get_run_facts)
  with assms(1) have "bt_id t = i" unfolding service_ok_def by blast
  with e show ?thesis by (auto simp: to_run_def split: option.splits)
qed

lemma runs_distinct:
  assumes ok: "service_ok s" and it: "iterates c"
  shows "distinct (map wr_task_id (workflow_runs_for_owner c key revision True s))"
proof (cases "si_owners (ts_index s) (key, revision)")
  case None
  then show ?thesis by (simp add: workflow_runs_for_owner_def)
next
  case (Some ox)
  have ix: "index_ok (ts_index s)" using ok by (simp only: service_ok_def)
  note own = index_owner_ok(1) [OF ix Some]
  let ?f = "\<lambda>k. map snd (sorted_list_of_set (or_default (ox_by_status ox k)))"
  have mem: "x \<in> set (?f k) \<longleftrightarrow> (\<exists>su. ox_summaries ox x = Some su \<and> (su_kind su, su_display_status su) = k)" for x k
    using owner_status_member [OF own, of x "fst k" "snd k"] finite_status [OF own, of k]
    by (cases k) (simp add: image_iff)
  have inj: "inj_on snd (or_default (ox_by_status ox k))" for k
  proof -
    have "or_default (ox_by_status ox k) = facet_union (status_facet k) (ox_summaries ox)"
      and kd: "\<And>j r. ox_summaries ox j = Some r \<Longrightarrow> su_task_id r = j"
      using own by (simp_all only: owner_ok_def keyed_def)
    then show ?thesis
      by (auto simp: inj_on_def facet_union_def ran_def status_facet_def recent_facet_def split: if_splits)
  qed
  have "distinct (concat (map ?f (filter (\<lambda>(_, d). active_display d \<or> d = DisplayQueued) (cn_order c ox))))"
  proof (rule distinct_concat_map)
    show "distinct (filter (\<lambda>(_, d). active_display d \<or> d = DisplayQueued) (cn_order c ox))"
      using it by (simp add: iterates_def)
    show "distinct (?f k)" for k using inj [of k] finite_status [OF own, of k] by (simp add: distinct_map)
    show "k = k'" if "x \<in> set (?f k)" "x \<in> set (?f k')" for k k' x using that unfolding mem by auto
  qed
  then show ?thesis unfolding workflow_runs_for_owner_def Some option.case if_True Let_def
    by (subst map_filter_ids) (use run_id [OF ok] in auto)
qed

lemma runs_are_current:
  assumes "service_ok s" and "iterates c" and "run \<in> set (workflow_runs_for_owner c key revision True s)"
  shows "get_workflow_run (wr_task_id run) s = Some run"
  using assms runs_for_owner_iff [of s c run key revision] run_id [OF assms(1)]
  unfolding service_ok_def by auto

definition owner_queue ::
  "'x coordinator_env \<Rightarrow> string \<Rightarrow> string \<Rightarrow> 'x task_service \<Rightarrow> 'x workflow_run list" where
  "owner_queue c key revision s =
     sort_key run_order (filter is_queued (workflow_runs_for_owner c key revision True s))"

lemma owner_queue_facts:
  assumes "service_ok s" and "iterates c"
  shows "distinct (map wr_task_id (owner_queue c key revision s)) \<and>
    (\<forall>run \<in> set (owner_queue c key revision s). is_queued run \<and> get_workflow_run (wr_task_id run) s = Some run) \<and>
    sorted (map run_order (owner_queue c key revision s))"
proof -
  have "distinct (map wr_task_id (filter is_queued (workflow_runs_for_owner c key revision True s)))"
    using runs_distinct [OF assms] by (rule distinct_map_filter)
  then have "distinct (map wr_task_id (owner_queue c key revision s))"
    unfolding owner_queue_def by (simp add: distinct_map)
  with runs_are_current [OF assms] show ?thesis by (auto simp: owner_queue_def)
qed

lemma queued_fact_seen:
  assumes ok: "service_ok s" and it: "iterates c" and e: "entry_state s i = Some (t, Some w)"
    and "bt_status t = Queued" and "wf_revision w < u64_max"
    and "wf_canonical_identity_key w = key" and "wf_identity_revision w = revision"
  shows "\<exists>run \<in> set (owner_queue c key revision s). wr_task_id run = i"
proof -
  obtain run where r: "to_run w t = Some run" "get_workflow_run i s = Some run"
      "run \<in> set (workflow_runs_for_owner c key revision True s)"
    by (rule live_run_seen [OF ok it e assms(5-7)]) (use assms(4) in auto)
  from r(1) assms(4) have "is_queued run" by (auto simp: to_run_def is_queued_def split: option.splits)
  with r(3) run_id [OF ok r(2)] show ?thesis by (auto simp: owner_queue_def)
qed

section \<open>Properties of the queue\<close>

text \<open>
  C5: The coordinator runs one workflow of a project at a time: in every state the application
  reaches, two workflows of one project identity that are both shown as running or as waiting for
  confirmation are the same workflow (workflows whose 64-bit revision is exhausted excepted).
\<close>

theorem one_active_per_owner:
  assumes "started_empty s0" and "coordinator_step\<^sup>*\<^sup>* s0 s"
    and "entry_state s i = Some (t, Some w)" and "entry_state s j = Some (t', Some w')"
    and "active_display (display_status_from (bt_status t))"
    and "active_display (display_status_from (bt_status t'))"
    and "wf_canonical_identity_key w = wf_canonical_identity_key w'"
    and "wf_identity_revision w = wf_identity_revision w'"
    and "wf_revision w < u64_max" and "wf_revision w' < u64_max"
  shows "i = j"
proof -
  have "one_active s" using coordinator_machine.inv_reachable [OF assms(1,2)] by simp
  moreover have "active_of s (wf_canonical_identity_key w, wf_identity_revision w) i"
    using assms(3,5,9) by (simp add: active_of_def run_fact_def)
  moreover have "active_of s (wf_canonical_identity_key w, wf_identity_revision w) j"
    using assms(4,6-8,10) by (simp add: active_of_def run_fact_def)
  ultimately show ?thesis unfolding one_active_def by blast
qed

text \<open>
  C19: Renumbering a queue gives its workflows the positions 1, 2, \<dots> in the order of their old
  positions and start times; every queued workflow of the project is numbered, and nothing else
  changes its status.
\<close>

theorem renumber_assigns_positions:
  assumes "started_empty s0" and "coordinator_step\<^sup>*\<^sup>* s0 s" and "iterates c"
    and "renumber c key revision s = (Inr (), s')"
  shows "sorted (map run_order (owner_queue c key revision s)) \<and>
    distinct (map wr_task_id (owner_queue c key revision s)) \<and>
    (\<forall>k < length (owner_queue c key revision s).
       queue_position_of s' (wr_task_id (owner_queue c key revision s ! k)) = Some (k + 1)) \<and>
    (\<forall>i t w. entry_state s i = Some (t, Some w) \<and> bt_status t = Queued \<and> wf_revision w < u64_max \<and>
       (wf_canonical_identity_key w, wf_identity_revision w) = (key, revision) \<longrightarrow>
       (\<exists>run \<in> set (owner_queue c key revision s). wr_task_id run = i)) \<and>
    (\<forall>j. status_of s' j = status_of s j)"
proof -
  have ok: "service_ok s" using coordinator_machine.inv_reachable [OF assms(1,2)] by simp
  note q = owner_queue_facts [OF ok assms(3), of key revision]
  have "renumber_runs c 0 (owner_queue c key revision s) s = (Inr (), s')"
    using assms(4) by (simp add: renumber_def owner_queue_def)
  from renumber_runs_effect [OF this ok] q have
    "(\<forall>k < length (owner_queue c key revision s).
       queue_position_of s' (wr_task_id (owner_queue c key revision s ! k)) = Some (k + 1)) \<and>
     (\<forall>j. status_of s' j = status_of s j)" by simp
  moreover have "\<exists>run \<in> set (owner_queue c key revision s). wr_task_id run = i"
    if "entry_state s i = Some (t, Some w) \<and> bt_status t = Queued \<and> wf_revision w < u64_max \<and>
       (wf_canonical_identity_key w, wf_identity_revision w) = (key, revision)" for i t w
    using that queued_fact_seen [OF ok assms(3), of i t w key revision] by simp
  ultimately show ?thesis using q by blast
qed

section \<open>What a mutation leaves of the other tasks\<close>

lemma persist_mutation_others:
  assumes "persist_mutation e d i t0 w0 t w run s = (r, s')" and "j \<noteq> i"
  shows "entry_state s' j = entry_state s j"
  using assms by (auto simp: persist_mutation_def Let_def entry_state_def split: option.splits sum.splits if_splits)

lemma entry_other [simp]:
  "entry_state (workflow_persistence_lane i s) j = entry_state s j"
  "entry_state (lane_update i f s) j = entry_state s j"
  "j \<noteq> i \<Longrightarrow> entry_state (set_entry i t w s) j = entry_state s j"
  by (simp_all add: entry_state_def)

lemma mutate_others:
  assumes "mutate_workflow_with_durability e d i m s = (r, s')" and "j \<noteq> i"
  shows "entry_state s' j = entry_state s j"
  using assms
  by (auto simp: mutate_workflow_with_durability_def Let_def dest: persist_mutation_others
      split: option.splits sum.splits prod.splits)

lemma queue_state_keeps_status:
  assumes ok: "service_ok s" and m: "set_workflow_queue_state e i p b s = (r, s')"
  shows "service_ok s' \<and> (\<forall>j. status_of s' j = status_of s j)"
proof -
  let ?m = "\<lambda>t w. Inr (t, w\<lparr>wf_queue_position := p, wf_continuation_required := b\<rparr>)"
  have mu: "mutate_workflow_with_durability e Barrier i ?m s = (r, s')"
    using m by (simp add: set_workflow_queue_state_def mutate_workflow_def)
  have k: "keeps_owner ?m" using queue_state_calm by (simp add: calm_def)
  have "service_ok s'" using mutate_moved [OF mu k ok] by (simp add: moved_def)
  moreover have "status_of s' i = status_of s i"
  proof (cases "run_fact s i")
    case None
    from mutate_dead_state [OF mu k None] show ?thesis by (auto simp: status_of_def entry_state_def)
  next
    case (Some f)
    then have "run_fact s i \<noteq> None" by blast
    then have bd: "bound s i" by (rule bound_of_ok [OF ok])
    show ?thesis
    proof (cases r)
      case (Inl err)
      with mutate_outcome [OF mu keeps_frame_ops(1) bd] view_cong(2) [of s' i s] show ?thesis by simp
    next
      case (Inr run)
      then show ?thesis using queue_state_views [OF m [unfolded Inr] ok] by simp
    qed
  qed
  moreover have "status_of s' j = status_of s j" if "j \<noteq> i" for j
    using mutate_others [OF mu that] by (rule view_cong(2))
  ultimately show ?thesis by metis
qed

lemma renumber_keeps_status:
  "service_ok s \<Longrightarrow> renumber_runs c n runs s = (r, s') \<Longrightarrow>
   service_ok s' \<and> (\<forall>j. status_of s' j = status_of s j)"
proof (induction c n runs s arbitrary: r s' rule: renumber_runs.induct)
  case (2 c n run runs s)
  show ?case
  proof (cases "wr_queue_position run \<noteq> Some (n + 1)")
    case True
    obtain r1 s1 where st: "set_workflow_queue_state (cn_calls c 0) (wr_task_id run) (Some (n + 1))
        (wr_continuation_required run) s = (r1, s1)"
      by (cases "set_workflow_queue_state (cn_calls c 0) (wr_task_id run) (Some (n + 1))
        (wr_continuation_required run) s")
    note k = queue_state_keeps_status [OF "2.prems"(1) st]
    show ?thesis
    proof (cases r1)
      case (Inl err)
      with True st k "2.prems"(2) show ?thesis by (simp add: then_op_def)
    next
      case (Inr v)
      with True st "2.prems"(2) have "renumber_runs (after_calls 1 c) (n + 1) runs s1 = (r, s')"
        by (simp add: then_op_def)
      from "2.IH"(1) [OF True _ this] k show ?thesis by simp
    qed
  qed (use 2 in auto)
qed auto

section \<open>Claiming\<close>

lemma transition_effect:
  assumes "transition_workflow_status e i Running s = (Inr run, s')" and ok: "service_ok s"
  shows "wr_task_id run = i \<and> status_of s' i = Some Running \<and> service_ok s'"
proof -
  have m: "mutate_workflow_with_durability e Barrier i (transition_mutation Running) s = (Inr run, s')"
    using assms(1) by (simp add: transition_workflow_status_def mutate_workflow_def)
  note bd = mutate_Inr_bound [OF m keeps_frame_ops(2) ok]
  have ok': "service_ok s'" using mutate_moved [OF m transition_owner ok] by (simp add: moved_def)
  obtain t0 w0 t w where st: "transition_mutation Running t0 w0 = Inr (t, w)"
    "entry_state s' i = Some (stamp_mutation e t, Some (w\<lparr>wf_revision := wf_revision w0 + 1\<rparr>))"
    "to_run (w\<lparr>wf_revision := wf_revision w0 + 1\<rparr>) (stamp_mutation e t) = Some run"
    by (rule mutate_ok [OF m keeps_frame_ops(2) bd], rule that)
  from st(1) have "bt_status t = Running" by (auto simp: transition_mutation_def split: sum.splits)
  moreover have "get_workflow_run i s' = Some run" using st by (auto simp: get_run_facts)
  ultimately show ?thesis using st ok' run_id [OF ok'] by (simp add: status_of_def)
qed

lemma min_by_key_le: "min_by_key k xs = Some x \<Longrightarrow> y \<in> set xs \<Longrightarrow> k x \<le> k y"
proof -
  assume a: "min_by_key k xs = Some x" "y \<in> set xs"
  from min_by_key_first [OF a(1)] a(2) show ?thesis by (auto simp: less_imp_le)
qed

text \<open>
  C11: A claim takes the first workflow of the queue that is not held: it is returned and running, no
  other workflow of the project was active, and no queued workflow that could have been claimed
  precedes it.
\<close>

theorem claim_takes_head:
  assumes "started_empty s0" and "coordinator_step\<^sup>*\<^sup>* s0 s" and "iterates c"
    and "claim_next_locked c key revision s = (Inr (Some run), s')"
  shows "(\<exists>nxt \<in> set (owner_queue c key revision s). wr_task_id nxt = wr_task_id run \<and>
      \<not> wr_continuation_required nxt \<and>
      (\<forall>r \<in> set (owner_queue c key revision s). \<not> wr_continuation_required r \<longrightarrow> run_order nxt \<le> run_order r)) \<and>
    status_of s' (wr_task_id run) = Some Running \<and>
    (\<forall>j t w. entry_state s j = Some (t, Some w) \<and> wf_revision w < u64_max \<and>
       (wf_canonical_identity_key w, wf_identity_revision w) = (key, revision) \<longrightarrow>
       \<not> active_display (display_status_from (bt_status t)))"
proof -
  have ok: "service_ok s" using coordinator_machine.inv_reachable [OF assms(1,2)] by simp
  let ?runs = "workflow_runs_for_owner c key revision True s"
  let ?ready = "filter (\<lambda>run. is_queued run \<and> \<not> wr_continuation_required run) ?runs"
  from assms(4) have idle: "\<not> list_ex (\<lambda>run. active_display (wr_display_status run)) ?runs"
    by (auto simp: claim_next_locked_def Let_def split: if_splits)
  with assms(4) obtain nxt where n: "min_by_key run_order ?ready = Some nxt"
    by (auto simp: claim_next_locked_def Let_def split: option.splits)
  obtain r1 s1 where tr: "transition_workflow_status (cn_calls c 0) (wr_task_id nxt) Running s = (r1, s1)"
    by (cases "transition_workflow_status (cn_calls c 0) (wr_task_id nxt) Running s")
  with assms(4) idle n obtain v where v: "r1 = Inr v"
    by (cases r1) (auto simp: claim_next_locked_def Let_def then_op_def)
  obtain r2 s2 where rn: "renumber (after_calls 1 c) key revision s1 = (r2, s2)"
    by (cases "renumber (after_calls 1 c) key revision s1")
  with assms(4) idle n tr v have r: "r2 = Inr ()" "v = run" "s2 = s'"
    by (cases r2; auto simp: claim_next_locked_def Let_def then_op_def)+
  note t = transition_effect [OF tr [unfolded v] ok]
  have st: "status_of s' (wr_task_id run) = Some Running"
    using t r renumber_keeps_status [of s1, OF _ rn [unfolded renumber_def]] by simp
  have mem: "nxt \<in> set (owner_queue c key revision s)" "\<not> wr_continuation_required nxt"
    using min_by_key_in [OF n] by (auto simp: owner_queue_def)
  have le: "run_order nxt \<le> run_order q"
    if "q \<in> set (owner_queue c key revision s)" "\<not> wr_continuation_required q" for q
    using min_by_key_le [OF n, of q] that by (auto simp: owner_queue_def)
  have none: "\<not> active_display (display_status_from (bt_status tk))"
    if "entry_state s j = Some (tk, Some w)" "wf_revision w < u64_max"
      "(wf_canonical_identity_key w, wf_identity_revision w) = (key, revision)" for j tk w
    using idle_owner [OF ok assms(3) idle, of j] that by (auto simp: active_of_def run_fact_def)
  show ?thesis using mem le t r st none by (intro conjI bexI [of _ nxt]) auto
qed

text \<open>A mutation succeeds when its guard passes and the snapshot can be written.\<close>

lemma mutate_succeeds:
  assumes "bound s i" and "entry_state s i = Some (t0, Some w0)" and "m t0 w0 = Inr (t, w)" and "keeps_frame m"
    and wr: "\<And>root dir pe. is_ok (se_write e root dir i pe)"
  shows "\<exists>run s'. mutate_workflow_with_durability e Barrier i m s = (Inr run, s')"
proof -
  from assms(2) obtain en where en: "ts_tasks s i = Some en" "te_task en = t0" "te_workflow en = Some w0"
    by (auto simp: entry_state_def)
  from assms(3,4) have fr: "wf_revision w = wf_revision w0" "bt_project_id t = bt_project_id t0"
    unfolding keeps_frame_def by blast+
  from assms(1,2) fr have lt: "wf_revision w < u64_max" and pid: "bt_project_id t \<noteq> None"
    and dirs: "ts_dirs s i \<noteq> None \<longrightarrow> ts_roots s i \<noteq> None" by (auto simp: bound_def)
  from lt have adv: "advance_revision w = Inr (w\<lparr>wf_revision := wf_revision w + 1\<rparr>)"
    by (simp add: advance_revision_def checked_add_def)
  from pid obtain run where run: "to_run (w\<lparr>wf_revision := wf_revision w + 1\<rparr>) (stamp_mutation e t) = Some run"
    by (auto simp: to_run_def)
  have "\<exists>path. se_write e root dir i pe = Inr path" for root dir pe
    using wr [of root dir pe] by (cases "se_write e root dir i pe") auto
  then show ?thesis using en assms(3) adv run dirs
    by (auto simp: mutate_workflow_with_durability_def persist_mutation_def Let_def split: option.splits sum.splits)
      (metis sum.distinct(1))+
qed

text \<open>
  C12: A queue is never left idle: when no workflow of the project is active, no revision is exhausted,
  and a queued workflow that is not held exists, a claim whose snapshot write succeeds starts a
  queued workflow of the project, even when the renumbering that follows fails.
\<close>

theorem claim_never_idles:
  assumes "started_empty s0" and "coordinator_step\<^sup>*\<^sup>* s0 s" and "iterates c"
    and live: "\<forall>j t w. entry_state s j = Some (t, Some w) \<longrightarrow> wf_revision w < u64_max"
    and idle: "\<forall>run \<in> set (workflow_runs_for_owner c key revision True s).
      \<not> active_display (wr_display_status run)"
    and ready: "run \<in> set (owner_queue c key revision s)" "\<not> wr_continuation_required run"
    and wr: "\<forall>root dir i pe. is_ok (se_write (cn_calls c 0) root dir i pe)"
  shows "\<exists>nxt \<in> set (owner_queue c key revision s).
    status_of (snd (claim_next_locked c key revision s)) (wr_task_id nxt) = Some Running"
proof -
  have ok: "service_ok s" using coordinator_machine.inv_reachable [OF assms(1,2)] by simp
  let ?runs = "workflow_runs_for_owner c key revision True s"
  have ne: "filter (\<lambda>run. is_queued run \<and> \<not> wr_continuation_required run) ?runs \<noteq> []"
    using ready by (auto simp: owner_queue_def filter_empty_conv)
  have idle': "\<not> list_ex (\<lambda>run. active_display (wr_display_status run)) ?runs" using idle by (simp add: list_ex_iff)
  from ne obtain nxt where n: "min_by_key run_order
      (filter (\<lambda>run. is_queued run \<and> \<not> wr_continuation_required run) ?runs) = Some nxt"
    by (cases "min_by_key run_order (filter (\<lambda>run. is_queued run \<and> \<not> wr_continuation_required run) ?runs)") auto
  have q: "nxt \<in> set (owner_queue c key revision s)" using min_by_key_in [OF n] by (auto simp: owner_queue_def)
  then have g: "get_workflow_run (wr_task_id nxt) s = Some nxt" "is_queued nxt"
    using owner_queue_facts [OF ok assms(3)] by auto
  then obtain t w where e: "entry_state s (wr_task_id nxt) = Some (t, Some w)" "bt_status t = Queued"
    by (auto simp: get_run_facts to_run_def is_queued_def display_queued split: option.splits)
  have "run_fact s (wr_task_id nxt) \<noteq> None" using e live by (simp add: run_fact_def)
  then have bd: "bound s (wr_task_id nxt)" by (rule bound_of_ok [OF ok])
  have gd: "transition_mutation Running t w = Inr (t\<lparr>bt_status := Running\<rparr>, w\<lparr>wf_queue_position := None,
      wf_continuation_required := False, wf_cancelled_from_queue := False, wf_undo_cancel_until := None\<rparr>)"
    using e(2) by (simp add: transition_mutation_def)
  obtain v s1 where tr: "transition_workflow_status (cn_calls c 0) (wr_task_id nxt) Running s = (Inr v, s1)"
    using mutate_succeeds [OF bd e(1) gd keeps_frame_ops(2), of "cn_calls c 0"] wr
    unfolding transition_workflow_status_def mutate_workflow_def by blast
  note t = transition_effect [OF tr ok]
  obtain r2 s2 where rn: "renumber (after_calls 1 c) key revision s1 = (r2, s2)"
    by (cases "renumber (after_calls 1 c) key revision s1")
  have "status_of s2 (wr_task_id nxt) = Some Running"
    using t renumber_keeps_status [of s1, OF _ rn [unfolded renumber_def]] by simp
  moreover have "snd (claim_next_locked c key revision s) = s2"
    using idle' n tr rn by (cases r2) (simp_all add: claim_next_locked_def Let_def then_op_def)
  ultimately show ?thesis using q by auto
qed

section \<open>Requests\<close>

text \<open>
  C21: A request that repeats the fingerprint of a queued or active workflow of the project never
  creates a second one: when the request is accepted, the answer is an existing run and the
  state is unchanged.
\<close>

theorem enqueue_deduplicates:
  assumes "started_empty s0" and "coordinator_step\<^sup>*\<^sup>* s0 s" and "iterates c"
    and "project_identity (cn_identity c) (eq_project_root q) = Inr identity"
    and "cn_fingerprint c (pw_canonical_identity_key identity) (pw_identity_revision identity) (eq_kind q)
      (eq_scope q) (eq_execution_options q) (eq_route q) (eq_baseline_fingerprint q) = Inr fingerprint"
    and "entry_state s i = Some (t, Some w)" and "wf_revision w < u64_max" and "wf_fingerprint w = fingerprint"
    and "wf_canonical_identity_key w = pw_canonical_identity_key identity"
    and "wf_identity_revision w = pw_identity_revision identity"
    and "bt_status t \<in> {Queued, Running, Cancelling, WaitingForConfirmation}"
    and "enqueue c q s = (Inr out, s')"
  shows "s' = s \<and> (\<exists>run. out = Existing run)"
proof -
  have ok: "service_ok s" using coordinator_machine.inv_reachable [OF assms(1,2)] by simp
  let ?key = "pw_canonical_identity_key identity" and ?rev = "pw_identity_revision identity"
  let ?d = "display_status_from (bt_status t)"
  let ?same = "\<lambda>run. wr_fingerprint run = fingerprint \<and> (is_queued run \<or> active_display (wr_display_status run))"
  have d: "active_display ?d \<or> ?d = DisplayQueued" using assms(11) by (auto simp: active_display_def)
  obtain run where r: "to_run w t = Some run" "run \<in> set (workflow_runs_for_owner c ?key ?rev True s)"
    by (rule live_run_seen [OF ok assms(3,6,7,9,10)]) (use assms(11) in \<open>auto simp: active_display_def\<close>)
  then have f: "wr_fingerprint run = fingerprint" "wr_display_status run = ?d"
    using assms(8) by (auto simp: to_run_def split: option.splits)
  note r(2)
  moreover have "?same run" using f d by (auto simp: is_queued_def)
  ultimately have "List.find ?same (workflow_runs_for_owner c ?key ?rev True s) \<noteq> None"
    by (auto simp: find_None_iff)
  then obtain existing where "List.find ?same (workflow_runs_for_owner c ?key ?rev True s) = Some existing" by blast
  with assms(4,5,12) show ?thesis
    by (auto simp: enqueue_def enqueue_locked_def Let_def split: option.splits sum.splits)
qed

section \<open>Revoking trust\<close>

lemma mutate_workflow_others: "j \<noteq> i \<Longrightarrow> entry_state (snd (mutate_workflow e i m s)) j = entry_state s j"
  using mutate_others [OF surjective_pairing] by (simp add: mutate_workflow_def)

lemma request_cancel_others:
  assumes "j \<noteq> i"
  shows "entry_state (snd (request_workflow_cancel e i s)) j = entry_state s j"
proof -
  have c: "entry_state (set_cancellation f s1) j = entry_state s1 j" for f s1
    by (simp add: set_cancellation_def entry_state_def)
  note m = mutate_workflow_others [OF assms, of e "cancel_mutation i False" s]
    mutate_workflow_others [OF assms, of e "cancel_mutation i True" s]
  show ?thesis using m
    by (auto simp: request_workflow_cancel_def set_cancellation_def entry_state_def
        split: option.splits sum.splits prod.splits)
qed

lemma stop_run_others:
  assumes "j \<noteq> wr_task_id run"
  shows "entry_state (snd (stop_run c run tr s)) j = entry_state s j"
proof -
  obtain r s1 where r: "request_workflow_cancel (cn_calls c 0) (wr_task_id run) s = (r, s1)"
    by (cases "request_workflow_cancel (cn_calls c 0) (wr_task_id run) s")
  obtain r2 s2 where r2: "finalize_workflow_cancellation (cn_calls c 1) (wr_task_id run) s1 = (r2, s2)"
    by (cases "finalize_workflow_cancellation (cn_calls c 1) (wr_task_id run) s1")
  have "entry_state s1 j = entry_state s j"
    using request_cancel_others [OF assms, of "cn_calls c 0" s] r by simp
  moreover have "entry_state s2 j = entry_state s1 j"
    using mutate_workflow_others [OF assms, of "cn_calls c 1" _ s1] r2
    unfolding finalize_workflow_cancellation_def finalize_workflow_cancellation_with_result_def
    by (metis snd_conv)
  ultimately show ?thesis
    by (auto simp: stop_run_def r r2 Let_def simp del: One_nat_def split: sum.split)
qed

lemma stop_active_others:
  "\<forall>run \<in> set runs. active_display (wr_display_status run) \<longrightarrow> wr_task_id run \<noteq> j \<Longrightarrow>
   entry_state (snd (stop_active c readable identity runs tr s)) j = entry_state s j"
proof (induction c readable identity runs tr s rule: stop_active.induct)
  case (2 c readable identity run runs tr s)
  obtain tr1 s1 where st: "stop_run c run tr s = (tr1, s1)" by (cases "stop_run c run tr s")
  with 2 stop_run_others [of j run c tr s] show ?case by auto
qed simp

lemma push_error_errors [simp]: "tt_errors (push_error err tr) = tt_errors tr @ [err]"
  by (simp add: push_error_def)

lemma stop_run_errors: "tt_errors (fst (stop_run c run tr s)) = [] \<Longrightarrow> tt_errors tr = []"
  by (auto simp: stop_run_def Let_def split: sum.splits prod.splits if_splits)

lemma stop_active_errors:
  "tt_errors (fst (stop_active c readable identity runs tr s)) = [] \<Longrightarrow> tt_errors tr = []"
proof (induction c readable identity runs tr s rule: stop_active.induct)
  case (2 c readable identity run runs tr s)
  obtain tr1 s1 where st: "stop_run c run tr s = (tr1, s1)" by (cases "stop_run c run tr s")
  with stop_run_errors [of c run tr s] have e: "tt_errors tr1 = [] \<Longrightarrow> tt_errors tr = []" by simp
  consider "\<not> active_display (wr_display_status run)"
    | "active_display (wr_display_status run)" "is_local_quick readable identity run"
    | "active_display (wr_display_status run)" "\<not> is_local_quick readable identity run" "publishing run"
    | "active_display (wr_display_status run)" "\<not> is_local_quick readable identity run" "\<not> publishing run"
    by blast
  then show ?case
  proof cases
    case 4
    then have "\<not> \<not> active_display (wr_display_status run)" by simp
    with 2(4) [OF _ 4(2,3) refl st [symmetric]] 4 "2.prems" e st show ?thesis by simp
  qed (use 2 in simp_all)
qed simp

lemma hold_queued_effect:
  assumes "hold_queued c runs tr s = (tr', s')" and "tt_errors tr' = []" and "service_ok s"
  shows "service_ok s' \<and> tt_errors tr = [] \<and> (\<forall>j. status_of s' j = status_of s j) \<and>
    (\<forall>j. held_of s j = Some True \<longrightarrow> held_of s' j = Some True) \<and>
    (\<forall>run \<in> set runs. is_queued run \<longrightarrow> held_of s' (wr_task_id run) = Some True)"
  using assms
proof (induction c runs tr s arbitrary: tr' s' rule: hold_queued.induct)
  case (2 c run runs tr s)
  show ?case
  proof (cases "is_queued run")
    case True
    obtain r s1 where st: "set_workflow_queue_state (cn_calls c 0) (wr_task_id run) (wr_queue_position run) True s = (r, s1)"
      by (cases "set_workflow_queue_state (cn_calls c 0) (wr_task_id run) (wr_queue_position run) True s")
    note ok1 = queue_state_keeps_status [OF "2.prems"(3) st]
    show ?thesis
    proof (cases r)
      case (Inl err)
      with "2.prems"(1) True st have "hold_queued (after_calls 1 c) runs (push_error err tr) s1 = (tr', s')" by simp
      from "2.IH"(1) [OF True st [symmetric] Inl this "2.prems"(2)] ok1 show ?thesis by simp
    next
      case (Inr v)
      note vw = queue_state_views [OF st [unfolded Inr] "2.prems"(3)]
      from "2.prems"(1) True st Inr have "hold_queued (after_calls 1 c) runs tr s1 = (tr', s')" by simp
      note ih = "2.IH"(2) [OF True st [symmetric] Inr this "2.prems"(2)]
      have "held_of s' j = Some True" if "held_of s j = Some True" for j
        using ih vw that view_cong(3) [of s1 j s] by (cases "j = wr_task_id run") auto
      then show ?thesis using ih vw True by auto
    qed
  qed (use 2 in auto)
qed simp

text \<open>
  C18: Revoking the trust in a project holds its whole queue: when the revocation reports no error, every
  workflow of the project that was queued is still queued and now needs an explicit continuation,
  so no claim can start it.
\<close>

theorem trust_revocation_holds_queue:
  assumes "started_empty s0" and "coordinator_step\<^sup>*\<^sup>* s0 s"
    and "freeze_owner_for_trust_revocation c root s = (tr, s')" and "tt_errors tr = []"
    and "entry_state s i = Some (t, Some w)" and "bt_status t = Queued"
    and "i \<in> set (cn_task_order c s)" and "ts_roots s i = Some r"
    and "canonical_or_same c r = canonical_or_same c root"
  shows "held_of s' i = Some True \<and> status_of s' i = Some Queued"
proof -
  have ok: "service_ok s" using coordinator_machine.inv_reachable [OF assms(1,2)] by simp
  define identity where "identity = (case project_identity (cn_identity c) root of Inl _ \<Rightarrow> None | Inr v \<Rightarrow> Some v)"
  define runs where "runs = List.map_filter (\<lambda>t. get_workflow_run (bt_id t) s) (list_tasks_for_root c root None s)"
  obtain tr1 s1 where h: "hold_queued (even_calls c) runs
      \<lparr>tt_stopped_runs = [], tt_continued_local_quick_runs = [], tt_errors = []\<rparr> s = (tr1, s1)"
    by (cases "hold_queued (even_calls c) runs
      \<lparr>tt_stopped_runs = [], tt_continued_local_quick_runs = [], tt_errors = []\<rparr> s")
  have f: "stop_active (odd_calls c) (cn_project_readable c root) identity runs tr1 s1 = (tr, s')"
    using h assms(3) unfolding freeze_owner_for_trust_revocation_def identity_def runs_def Let_def by simp
  from f assms(4) have "tt_errors tr1 = []"
    using stop_active_errors [of "odd_calls c" _ identity runs tr1 s1] by (metis fst_conv)
  note held = hold_queued_effect [OF h this ok]
  from ok assms(5) have id: "bt_id t = i" and pid: "bt_project_id t \<noteq> None" unfolding service_ok_def by blast+
  obtain run where run: "to_run w t = Some run" using pid by (auto simp: to_run_def)
  then have g: "get_workflow_run i s = Some run" using assms(5) by (auto simp: get_run_facts)
  from assms(5) obtain en where en: "ts_tasks s i = Some en" "te_task en = t" by (auto simp: entry_state_def)
  have "t \<in> set (list_tasks_for_root c root None s)"
    using assms(7-9) en by (force simp: list_tasks_for_root_def map_filter_set)
  then have mem: "run \<in> set runs" using g id by (auto simp: runs_def map_filter_set)
  have q: "is_queued run" "wr_task_id run = i"
    using run assms(6) id by (auto simp: to_run_def is_queued_def split: option.splits)
  have "wr_task_id r' \<noteq> i" if "r' \<in> set runs" "active_display (wr_display_status r')" for r'
  proof
    assume "wr_task_id r' = i"
    moreover from that(1) obtain x where "get_workflow_run x s = Some r'" by (auto simp: runs_def map_filter_set)
    ultimately have "r' = run" using run_id [OF ok] g by fastforce
    with that(2) q(1) show False by (auto simp: is_queued_def active_display_def)
  qed
  then have "entry_state s' i = entry_state s1 i" using stop_active_others f by (metis snd_conv)
  moreover have "status_of s i = Some Queued" using assms(5,6) by (simp add: status_of_def)
  ultimately show ?thesis using held mem q view_cong [of s' i s1] by auto
qed

section \<open>Reordering\<close>

lemma owner_runs_distinct:
  assumes ok: "service_ok s"
  shows "distinct (map wr_task_id (owner_runs c key revision s)) \<and>
    (\<forall>run \<in> set (owner_runs c key revision s). get_workflow_run (wr_task_id run) s = Some run)"
proof (cases "si_owners (ts_index s) (key, revision)")
  case None
  then show ?thesis by (simp add: owner_runs_def workflow_runs_for_owner_def)
next
  case (Some ox)
  have ix: "index_ok (ts_index s)" using ok by (simp only: service_ok_def)
  have own: "ox_recent ox = facet_union recent_facet (ox_summaries ox)" "finite (dom (ox_summaries ox))"
    and kd: "\<And>j r. ox_summaries ox j = Some r \<Longrightarrow> su_task_id r = j"
    using index_owner_ok(1) [OF ix Some] by (simp_all only: owner_ok_def keyed_def)
  have fin: "finite (ox_recent ox)" using own by (simp add: finite_facet_union)
  have "inj_on snd (ox_recent ox)"
    using own(1) kd by (auto simp: inj_on_def facet_union_def ran_def recent_facet_def)
  then have "distinct (map snd (rev (sorted_list_of_set (ox_recent ox))))"
    using fin by (simp add: rev_map [symmetric] distinct_map)
  then have "distinct (map wr_task_id (owner_runs c key revision s))"
    unfolding owner_runs_def workflow_runs_for_owner_def Some option.case if_False Let_def
    by (subst map_filter_ids) (use run_id [OF ok] in auto)
  moreover have "get_workflow_run (wr_task_id run) s = Some run" if "run \<in> set (owner_runs c key revision s)" for run
    using that run_id [OF ok]
    by (auto simp: owner_runs_def workflow_runs_for_owner_def Some map_filter_set)
  ultimately show ?thesis by blast
qed

lemma insert_at_set [simp]: "set (insert_at n x xs) = insert x (set xs)"
  by (auto simp: insert_at_def dest: in_set_takeD in_set_dropD) (metis append_take_drop_id in_set_conv_decomp Un_iff set_append)

lemma insert_at_nth: "n \<le> length xs \<Longrightarrow> insert_at n x xs ! n = x"
  by (simp add: insert_at_def nth_append)

lemma insert_at_Suc: "n < length xs \<Longrightarrow> insert_at n x xs ! Suc n = xs ! n"
  by (simp add: insert_at_def nth_append)

lemma insert_at_length [simp]: "n \<le> length xs \<Longrightarrow> length (insert_at n x xs) = Suc (length xs)"
  by (simp add: insert_at_def)

lemma distinct_insert_at:
  "distinct (map f xs) \<Longrightarrow> f x \<notin> f ` set xs \<Longrightarrow> distinct (map f (insert_at n x xs))"
proof -
  assume d: "distinct (map f xs)" and x: "f x \<notin> f ` set xs"
  have "distinct (map f (take n xs) @ map f (drop n xs))" using d by (simp add: map_append [symmetric] del: map_append)
  with x show ?thesis by (auto simp: insert_at_def image_iff dest: in_set_takeD in_set_dropD)
qed

text \<open>
  C20: Reordering puts the workflow directly before its anchor, or at the end of the queue when there is
  none, numbers the queue 1, 2, \<dots> in the new order, keeps the order of the others, and changes
  the status of no workflow.
\<close>

theorem reorder_places_before_anchor:
  assumes "started_empty s0" and "coordinator_step\<^sup>*\<^sup>* s0 s"
    and "reorder_queued c i before s = (Inr runs, s')"
  shows "\<exists>order target.
    get_workflow_run i s = Some target \<and> is_queued target \<and> target \<in> set order \<and>
    filter (\<lambda>run. wr_task_id run \<noteq> i) order =
      filter (\<lambda>run. wr_task_id run \<noteq> i) (sort_key run_order (filter is_queued
        (owner_runs c (wr_canonical_identity_key target) (wr_identity_revision target) s))) \<and>
    (\<forall>k < length order. queue_position_of s' (wr_task_id (order ! k)) = Some (k + 1)) \<and>
    (case before of
       None \<Rightarrow> last order = target
     | Some b \<Rightarrow> \<exists>k. Suc k < length order \<and> order ! k = target \<and> wr_task_id (order ! Suc k) = b) \<and>
    (\<forall>j. status_of s' j = status_of s j)"
proof -
  have ok: "service_ok s" using coordinator_machine.inv_reachable [OF assms(1,2)] by simp
  from assms(3) obtain target where tg: "get_workflow_run i s = Some target" and q: "is_queued target"
    by (auto simp: reorder_queued_def with_run_def split: sum.splits option.splits if_splits)
  let ?all = "owner_runs c (wr_canonical_identity_key target) (wr_identity_revision target) s"
  define others where "others = filter (\<lambda>run. wr_task_id run \<noteq> i) (sort_key run_order (filter is_queued ?all))"
  have id: "wr_task_id target = i" using run_id [OF ok tg] .
  from assms(3) tg q obtain n where n: "(case before of Some b \<Rightarrow> position (\<lambda>run. wr_task_id run = b) others
      | None \<Rightarrow> Some (length others)) = Some n"
    and sp: "set_positions c 0 (insert_at n target others) s = (Inr (), s')"
    by (auto simp: reorder_queued_def with_run_def others_def Let_def then_op_def
        split: sum.splits option.splits prod.splits)
  have le: "n \<le> length others" using n position_Some by (fastforce split: option.splits)
  have d: "distinct (map wr_task_id others)" unfolding others_def
    using owner_runs_distinct [OF ok, of c "wr_canonical_identity_key target" "wr_identity_revision target"]
    by (auto simp: distinct_map inj_on_def)
  let ?order = "insert_at n target others"
  have "distinct (map wr_task_id ?order)"
    using d id by (intro distinct_insert_at) (auto simp: others_def)
  note eff = set_positions_effect [OF sp ok this]
  have flt: "filter (\<lambda>run. wr_task_id run \<noteq> i) ?order = others"
  proof -
    have "\<forall>x \<in> set others. wr_task_id x \<noteq> i" by (auto simp: others_def)
    then have "filter (\<lambda>run. wr_task_id run \<noteq> i) (take n others) = take n others"
      and "filter (\<lambda>run. wr_task_id run \<noteq> i) (drop n others) = drop n others"
      by (auto simp: filter_id_conv dest: in_set_takeD in_set_dropD)
    with id show ?thesis by (simp add: insert_at_def)
  qed
  have place: "case before of None \<Rightarrow> last ?order = target
     | Some b \<Rightarrow> \<exists>k. Suc k < length ?order \<and> ?order ! k = target \<and> wr_task_id (?order ! Suc k) = b"
  proof (cases before)
    case None
    with n show ?thesis by (simp add: insert_at_def)
  next
    case (Some b)
    with n position_Some [of "\<lambda>run. wr_task_id run = b" others n]
    have "n < length others" "wr_task_id (others ! n) = b" by simp_all
    with Some show ?thesis by (auto intro!: exI [of _ n] simp: insert_at_nth insert_at_Suc)
  qed
  show ?thesis
    using tg q eff flt place
    by (intro exI [of _ ?order] exI [of _ target] conjI) (simp_all add: others_def)
qed

section \<open>A project with one queued workflow\<close>

definition sample_identity :: identity_env where
  "sample_identity = \<lparr>id_canonicalize = Inr, id_metadata = (\<lambda>_. Inr (1, 2)),
     id_sha256 = (\<lambda>x. take 1 x)\<rparr>"

definition sample_coordinator :: "string \<Rightarrow> unit coordinator_env" where
  "sample_coordinator i = \<lparr>cn_calls = (\<lambda>_. sample_env),
     cn_order = (\<lambda>ox. filter (\<lambda>k. ox_by_status ox k \<noteq> None)
       (List.product [UpdateWiki, HealthCheck, GenerateContent] [DisplayQueued, DisplayRunning,
         DisplayWaitingForConfirmation, DisplayCompleted, DisplayFailed, DisplayCancelled,
         DisplayInterrupted])),
     cn_task_order = (\<lambda>s. filter (\<lambda>j. ts_tasks s j \<noteq> None) [''a'', ''b'']),
     cn_identity = sample_identity, cn_state_root = (\<lambda>_ _ path. Inr path),
     cn_fingerprint = (\<lambda>_ _ _ _ _ _ baseline. Inr baseline), cn_uuid_ok = (\<lambda>_. True),
     cn_new_id = i, cn_undo_deadline = ''d'', cn_unexpired = (\<lambda>_. True),
     cn_project_readable = (\<lambda>_. True)\<rparr>"

definition sample_enqueue :: "unit enqueue_workflow" where
  "sample_enqueue = \<lparr>eq_project_id = ''p'', eq_project_root = ''/p'', eq_task_state_root = None,
     eq_title = ''Health'', eq_kind = HealthCheck, eq_scope = ScopeHealthCheck LocalQuick, eq_route = None,
     eq_baseline_fingerprint = ''f'',
     eq_execution_options = \<lparr>eo_update_request = None, eo_update_config_revision = None,
       eo_preparation_revision = ''1'', eo_operation = BuiltIn, eo_preparation_fingerprint = None,
       eo_existing_target_hash = None, eo_restricted_content_acknowledgement_revision = None,
       eo_remote_provider_acknowledgement_revision = None\<rparr>,
     eq_stages = [], eq_retry = None\<rparr>"

definition empty_service :: "unit task_service" where
  "empty_service = (sample_service (sample_task Queued) TASK_SIGNAL_RUNNING)\<lparr>ts_tasks := Map.empty,
     ts_roots := Map.empty, ts_dirs := Map.empty\<rparr>"

definition held_service :: "unit task_service" where
  "held_service = run_coordinator (sample_coordinator ''a'')
     (EnqueuePendingApproval sample_enqueue ''w'' ''w'') empty_service"

lemma sample_iterates: "iterates (sample_coordinator i)"
proof -
  have k: "set [UpdateWiki, HealthCheck, GenerateContent] = UNIV"
    by (rule UNIV_eq_I [symmetric], case_tac x) simp_all
  have d: "set [DisplayQueued, DisplayRunning, DisplayWaitingForConfirmation, DisplayCompleted,
    DisplayFailed, DisplayCancelled, DisplayInterrupted] = UNIV"
    by (rule UNIV_eq_I [symmetric], case_tac x) simp_all
  have "set (cn_order (sample_coordinator i) ox) = dom (ox_by_status ox)" for ox
    unfolding sample_coordinator_def
    by (simp only: coordinator_env.simps set_filter set_product k d UNIV_Times_UNIV dom_def UNIV_I simp_thms)
  moreover have "distinct (cn_order (sample_coordinator i) ox)" for ox
    unfolding sample_coordinator_def coordinator_env.simps
    by (intro distinct_filter distinct_product) simp_all
  ultimately show ?thesis by (simp add: iterates_def)
qed

lemma empty_started: "started_empty empty_service"
  by (simp add: started_empty_def empty_service_def sample_service_def)

lemma sample_project: "project_identity (cn_identity (sample_coordinator i)) ''/p'' =
    Inr \<lparr>pw_canonical_root = ''/p'', pw_canonical_identity_key = ''w'', pw_identity_revision = ''w''\<rparr>"
  by (simp add: project_identity_def sample_coordinator_def sample_identity_def)

definition queued_workflow :: "bool \<Rightarrow> unit workflow_execution_state" where
  "queued_workflow held = \<lparr>wf_schema_version = 2, wf_revision = 1, wf_session_id = ''s'',
      wf_canonical_identity_key = ''w'', wf_identity_revision = ''w'', wf_kind = HealthCheck,
      wf_scope = ScopeHealthCheck LocalQuick, wf_execution_options = eq_execution_options sample_enqueue,
      wf_route = None, wf_fingerprint = ''f'', wf_baseline_fingerprint = ''f'', wf_persistence = MemoryOnly,
      wf_persistence_transition = None, wf_stages = [], wf_current_stage_id = None,
      wf_queue_position = Some 1, wf_continuation_required = held,
      wf_retry = None, wf_pending_action = None, wf_result = None, wf_error = None,
      wf_cancelled_from_queue = False, wf_undo_cancel_until = None\<rparr>"

lemma sample_fields [simp]:
  "eq_project_id sample_enqueue = ''p''" "eq_project_root sample_enqueue = ''/p''"
  "eq_task_state_root sample_enqueue = None" "eq_title sample_enqueue = ''Health''"
  "eq_kind sample_enqueue = HealthCheck" "eq_scope sample_enqueue = ScopeHealthCheck LocalQuick"
  "eq_route sample_enqueue = None" "eq_baseline_fingerprint sample_enqueue = ''f''"
  "eq_stages sample_enqueue = []" "eq_retry sample_enqueue = None"
  "eo_update_request (eq_execution_options sample_enqueue) = None"
  "cn_calls (sample_coordinator i) k = sample_env" "cn_new_id (sample_coordinator i) = i"
  "cn_fingerprint (sample_coordinator i) key revision kind scope eo route b = Inr b"
  by (simp_all add: sample_enqueue_def sample_coordinator_def)

lemma sample_valid:
  "validate_workflow_execution_contract (cn_uuid_ok (sample_coordinator i)) HealthCheck
     (ScopeHealthCheck LocalQuick) None (eq_execution_options sample_enqueue) = Inr ()"
  by (simp add: validate_workflow_execution_contract_def validate_execution_options_def sample_enqueue_def
      validate_operation_def validate_revision_def validate_update_request_def validate_optional_def
      is_ascii_alphanumeric_def is_ascii_digit_def and_then_def)

lemma sample_enqueue_locked:
  "owner = None \<or> owner = Some (''w'', ''w'') \<Longrightarrow>
   enqueue_locked (sample_coordinator i) sample_enqueue True owner pending s =
    (let runs = workflow_runs_for_owner (sample_coordinator i) ''w'' ''w'' True s in
     case List.find (\<lambda>run. wr_fingerprint run = ''f'' \<and>
         (is_queued run \<or> active_display (wr_display_status run))) runs of
       Some existing \<Rightarrow> (Inr (Existing existing), s)
     | None \<Rightarrow> create_and_start (sample_coordinator i) \<lparr>pw_canonical_root = ''/p'',
         pw_canonical_identity_key = ''w'', pw_identity_revision = ''w''\<rparr> sample_enqueue None ''f'' runs pending s)"
  by (auto simp: enqueue_locked_def sample_project existing_intent_def sample_valid resolve_state_root_def)

lemma held_run:
  "held_service = snd (create_workflow_task sample_env ''a'' ''p'' ''/p'' ''Health''
     ((queued_workflow True)\<lparr>wf_revision := 0, wf_session_id := []\<rparr>) None empty_service)"
proof -
  have "workflow_runs_for_owner (sample_coordinator ''a'') ''w'' ''w'' True empty_service = []"
    by (simp add: workflow_runs_for_owner_def empty_service_def sample_service_def index_default_def)
  then show ?thesis
    by (simp add: held_service_def enqueue_for_owner_pending_approval_def sample_enqueue_locked Let_def
      create_and_start_def new_workflow_state_def queued_workflow_def then_op_def split: prod.split sum.split)
qed

definition sample_queued :: "unit backend_task" where
  "sample_queued = new_task sample_env ''a'' \<lparr>rq_task_type = Workflow, rq_project_id = Some ''p'',
     rq_project_root = Some ''/p'', rq_title = ''Health'', rq_cancellable = True, rq_batch_id = None,
     rq_operation = None, rq_require_persistence = False, rq_workflow = Some (queued_workflow True),
     rq_persistence_dir = None\<rparr>"

lemma held_state:
  "entry_state held_service = [''a'' \<mapsto> (sample_queued, Some (queued_workflow True))] \<and>
   ts_index held_service = index_insert (the (to_summary (queued_workflow True) sample_queued)) index_default \<and>
   ts_dirs held_service = Map.empty \<and> ts_roots held_service = [''a'' \<mapsto> ''/p'']"
  unfolding held_run
  by (simp add: create_workflow_task_def create_task_internal_def empty_service_def sample_service_def
    Let_def registry_register_def persist_current_task_def persist_current_task_with_lane_def
    workflow_persistence_lane_def insert_optional_def then_op_def get_workflow_run_def new_task_def
    sample_queued_def to_run_def to_summary_def emit_def index_workflow_summary_def push_event_def
    bump_workflow_history_revision_def entry_state_def queued_workflow_def lane_update_def fun_eq_iff token_new_def)

lemma held_reachable: "coordinator_step\<^sup>*\<^sup>* empty_service held_service"
  unfolding held_service_def
  by (rule r_into_rtranclp, rule coordinate)
    (simp_all add: sample_iterates fresh_id_def empty_service_def)

lemma held_ok: "service_ok held_service"
  using coordinator_machine.inv_reachable [OF empty_started held_reachable] by simp

definition ready_service :: "unit task_service" where
  "ready_service = snd (run_workflow sample_env ''a'' (QueueState (Some 1) False) held_service)"

lemma ready_reachable: "coordinator_step\<^sup>*\<^sup>* empty_service ready_service"
  unfolding ready_service_def by (rule rtranclp.rtrancl_into_rtrancl [OF held_reachable], rule runner) simp

lemma ready_ok: "service_ok ready_service"
  using coordinator_machine.inv_reachable [OF empty_started ready_reachable] by simp

lemma sample_write: "is_ok (se_write sample_env root dir i pe)"
  by (simp add: sample_env_def)

lemma distinct_sole: "(\<And>y. y \<in> set xs \<Longrightarrow> y = x) \<Longrightarrow> distinct xs \<Longrightarrow> x \<in> set xs \<Longrightarrow> xs = [x]"
proof (cases xs)
  case (Cons a ys)
  assume only: "\<And>y. y \<in> set xs \<Longrightarrow> y = x" and d: "distinct xs"
  have a: "a = x" using only [of a] Cons by simp
  have "ys = []"
  proof (rule ccontr)
    assume "ys \<noteq> []"
    then have h: "hd ys \<in> set ys" by simp
    with only [of "hd ys"] Cons have "hd ys = x" by simp
    with h d Cons a show False by simp
  qed
  with Cons a show ?thesis by simp
qed simp

text \<open>An owner with one workflow, queued or active, has that run alone on its list.\<close>

lemma sole_run:
  assumes ok: "service_ok s" and it: "iterates c" and e: "entry_state s = [i \<mapsto> (t, Some w)]"
    and lt: "wf_revision w < u64_max" and ow: "wf_canonical_identity_key w = key" "wf_identity_revision w = revision"
    and d: "active_display (display_status_from (bt_status t)) \<or> bt_status t = Queued"
  obtains run where "to_run w t = Some run" and "get_workflow_run i s = Some run" and "wr_task_id run = i"
    and "workflow_runs_for_owner c key revision True s = [run]"
proof -
  have e1: "entry_state s i = Some (t, Some w)" using e by simp
  obtain run where r: "to_run w t = Some run" "get_workflow_run i s = Some run"
      "run \<in> set (workflow_runs_for_owner c key revision True s)"
    by (rule live_run_seen [OF ok it e1 lt ow d])
  have "x = run" if "x \<in> set (workflow_runs_for_owner c key revision True s)" for x
    using runs_are_current [OF ok it that] e r(2) by (auto simp: get_run_facts split: if_splits)
  moreover have "distinct (workflow_runs_for_owner c key revision True s)"
    using runs_distinct [OF ok it, of key revision] by (simp add: distinct_map)
  ultimately have "workflow_runs_for_owner c key revision True s = [run]"
    using r(3) by (intro distinct_sole)
  with r run_id [OF ok r(2)] show ?thesis by (intro that)
qed

lemma task_queue_known:
  assumes "service_ok s" and "run_fact s i = Some f"
  shows "\<exists>key. task_queue i s = Inr key"
proof -
  from assms have "indexed s i = Some f" unfolding service_ok_def by blast
  then obtain ow where "si_task_owners (ts_index s) i = Some ow"
    by (auto simp: indexed_def index_view_def bind_eq_Some_conv)
  then show ?thesis by (simp add: task_queue_def workflow_owner_key_def)
qed

lemma sample_workflow_fields [simp]:
  "wf_revision (queued_workflow h) = 1" "wf_canonical_identity_key (queued_workflow h) = ''w''"
  "wf_identity_revision (queued_workflow h) = ''w''" "wf_fingerprint (queued_workflow h) = ''f''"
  "wf_queue_position (queued_workflow h) = Some 1" "wf_continuation_required (queued_workflow h) = h"
  "bt_status sample_queued = Queued" "bt_project_id sample_queued = Some ''p''" "bt_id sample_queued = ''a''"
  by (simp_all add: queued_workflow_def sample_queued_def new_task_def)

lemma held_entry: "entry_state held_service ''a'' = Some (sample_queued, Some (queued_workflow True))"
  using held_state by simp

lemma held_sole:
  obtains run where "get_workflow_run ''a'' held_service = Some run" and "wr_task_id run = ''a''"
    and "workflow_runs_for_owner (sample_coordinator i) ''w'' ''w'' True held_service = [run]"
    and "is_queued run" and "wr_queue_position run = Some 1" and "wr_continuation_required run"
    and "wr_fingerprint run = ''f''" and "wr_canonical_identity_key run = ''w''" and "wr_identity_revision run = ''w''"
proof -
  obtain run where r: "to_run (queued_workflow True) sample_queued = Some run"
      "get_workflow_run ''a'' held_service = Some run" "wr_task_id run = ''a''"
      "workflow_runs_for_owner (sample_coordinator i) ''w'' ''w'' True held_service = [run]"
    by (rule sole_run [OF held_ok sample_iterates [of i] held_state [THEN conjunct1], of "''w''" "''w''"])
      (simp_all add: u64_max_def)
  from r(1) have "is_queued run \<and> wr_queue_position run = Some 1 \<and> wr_continuation_required run \<and>
      wr_fingerprint run = ''f'' \<and> wr_canonical_identity_key run = ''w'' \<and> wr_identity_revision run = ''w''"
    by (auto simp: to_run_def is_queued_def)
  with r show ?thesis by (intro that) blast+
qed

theorem renumber_assigns_positions_witness:
  "renumber (sample_coordinator ''b'') ''w'' ''w'' held_service = (Inr (), held_service) \<and>
   queue_position_of held_service ''a'' = Some 1"
proof -
  obtain run where r: "wr_task_id run = ''a''" "is_queued run" "wr_queue_position run = Some 1"
      "workflow_runs_for_owner (sample_coordinator ''b'') ''w'' ''w'' True held_service = [run]"
    by (rule held_sole)
  then have eq: "renumber (sample_coordinator ''b'') ''w'' ''w'' held_service = (Inr (), held_service)"
    by (simp add: renumber_def)
  from renumber_assigns_positions [OF empty_started held_reachable sample_iterates eq] r eq
  show ?thesis by (simp add: owner_queue_def)
qed

theorem enqueue_deduplicates_witness:
  "\<exists>run. enqueue (sample_coordinator ''b'') sample_enqueue held_service = (Inr (Existing run), held_service)"
proof -
  obtain run where r: "is_queued run" "wr_fingerprint run = ''f''"
      "workflow_runs_for_owner (sample_coordinator ''b'') ''w'' ''w'' True held_service = [run]"
    by (rule held_sole)
  have out: "enqueue (sample_coordinator ''b'') sample_enqueue held_service = (Inr (Existing run), held_service)"
    using r by (simp add: enqueue_def sample_project sample_enqueue_locked)
  have "cn_fingerprint (sample_coordinator ''b'') ''w'' ''w'' HealthCheck (ScopeHealthCheck LocalQuick)
      (eq_execution_options sample_enqueue) None ''f'' = Inr ''f''" by simp
  with enqueue_deduplicates [OF empty_started held_reachable sample_iterates _ _ held_entry,
    of "''b''" sample_enqueue "\<lparr>pw_canonical_root = ''/p'', pw_canonical_identity_key = ''w'', pw_identity_revision = ''w''\<rparr>"
    "''f''" "Existing run" held_service] out
  show ?thesis by (simp add: sample_project u64_max_def)
qed

text \<open>The queue once the hold is lifted, and its claim.\<close>

lemma held_changes:
  obtains run s' where "set_workflow_queue_state sample_env ''a'' p b held_service = (Inr run, s')"
proof -
  have "bound held_service ''a''"
    using bound_of_ok [OF held_ok, of "''a''"] held_entry by (simp add: run_fact_def u64_max_def)
  from mutate_succeeds [OF this held_entry, of "\<lambda>t w. Inr (t, w\<lparr>wf_queue_position := p,
      wf_continuation_required := b\<rparr>)"] sample_write keeps_frame_ops(1) that
  show ?thesis unfolding set_workflow_queue_state_def mutate_workflow_def by blast
qed

lemma ready_entry:
  obtains t w where "entry_state ready_service = [''a'' \<mapsto> (t, Some w)]" and "bt_status t = Queued"
    and "wf_revision w = 2" and "wf_canonical_identity_key w = ''w''" and "wf_identity_revision w = ''w''"
    and "wf_queue_position w = Some 1" and "\<not> wf_continuation_required w" and "bt_id t = ''a''"
proof -
  obtain run s' where m: "set_workflow_queue_state sample_env ''a'' (Some 1) False held_service = (Inr run, s')"
    by (rule held_changes)
  then have s': "ready_service = s'" by (simp add: ready_service_def)
  obtain t w where e: "entry_state held_service ''a'' = Some (t, Some w)"
    "entry_state s' ''a'' = Some (stamp_mutation sample_env t, Some (w\<lparr>wf_queue_position := Some 1,
      wf_continuation_required := False, wf_revision := wf_revision w + 1\<rparr>))"
    and oth: "\<forall>j. j \<noteq> ''a'' \<longrightarrow> entry_state s' j = entry_state held_service j"
    by (rule queue_state_effect [OF m held_ok])
  have tw: "t = sample_queued" "w = queued_workflow True" using e(1) held_entry by simp_all
  have "entry_state ready_service = [''a'' \<mapsto> (stamp_mutation sample_env t, Some (w\<lparr>wf_queue_position := Some 1,
      wf_continuation_required := False, wf_revision := wf_revision w + 1\<rparr>))]"
    using e(2) oth held_state by (auto simp: fun_eq_iff s')
  then show ?thesis by (rule that) (simp_all add: tw)
qed

lemma ready_sole:
  obtains run where "get_workflow_run ''a'' ready_service = Some run" and "wr_task_id run = ''a''"
    and "workflow_runs_for_owner (sample_coordinator i) ''w'' ''w'' True ready_service = [run]"
    and "is_queued run" and "\<not> wr_continuation_required run"
proof -
  obtain t w where e: "entry_state ready_service = [''a'' \<mapsto> (t, Some w)]" "bt_status t = Queued"
      "wf_revision w = 2" "wf_canonical_identity_key w = ''w''" "wf_identity_revision w = ''w''"
      "\<not> wf_continuation_required w"
    by (rule ready_entry)
  obtain run where r: "to_run w t = Some run" "get_workflow_run ''a'' ready_service = Some run" "wr_task_id run = ''a''"
      "workflow_runs_for_owner (sample_coordinator i) ''w'' ''w'' True ready_service = [run]"
    by (rule sole_run [OF ready_ok sample_iterates [of i] e(1), of "''w''" "''w''"])
      (simp_all add: e u64_max_def)
  from r(1) e have "is_queued run \<and> \<not> wr_continuation_required run"
    by (auto simp: to_run_def is_queued_def split: option.splits)
  with r show ?thesis by (intro that) blast+
qed

theorem claim_never_idles_witness:
  "status_of (snd (claim_next_locked (sample_coordinator ''b'') ''w'' ''w'' ready_service)) ''a'' = Some Running"
proof -
  obtain t w where e: "entry_state ready_service = [''a'' \<mapsto> (t, Some w)]" "wf_revision w = 2"
    by (rule ready_entry)
  obtain run where r: "wr_task_id run = ''a''" "is_queued run" "\<not> wr_continuation_required run"
      "workflow_runs_for_owner (sample_coordinator ''b'') ''w'' ''w'' True ready_service = [run]"
    by (rule ready_sole)
  have q: "owner_queue (sample_coordinator ''b'') ''w'' ''w'' ready_service = [run]"
    using r by (simp add: owner_queue_def)
  have "\<forall>j t w. entry_state ready_service j = Some (t, Some w) \<longrightarrow> wf_revision w < u64_max"
    using e by (auto simp: u64_max_def split: if_splits)
  moreover have "\<forall>run \<in> set (workflow_runs_for_owner (sample_coordinator ''b'') ''w'' ''w'' True ready_service).
      \<not> active_display (wr_display_status run)"
    using r by (simp add: is_queued_def active_display_def)
  ultimately have "\<exists>nxt \<in> set (owner_queue (sample_coordinator ''b'') ''w'' ''w'' ready_service).
      status_of (snd (claim_next_locked (sample_coordinator ''b'') ''w'' ''w'' ready_service)) (wr_task_id nxt) = Some Running"
    using claim_never_idles [OF empty_started ready_reachable sample_iterates, of "''b''" "''w''" "''w''" run]
      q r(3) sample_write by simp
  with q r(1) show ?thesis by simp
qed

definition claimed_service :: "unit task_service" where
  "claimed_service = snd (transition_workflow_status sample_env ''a'' Running ready_service)"

lemma claimed_entry:
  obtains run t w where "transition_workflow_status sample_env ''a'' Running ready_service = (Inr run, claimed_service)"
    and "entry_state claimed_service = [''a'' \<mapsto> (t, Some w)]" and "bt_status t = Running"
    and "wf_revision w = 3" and "wf_canonical_identity_key w = ''w''" and "wf_identity_revision w = ''w''"
    and "wr_task_id run = ''a''" and "service_ok claimed_service"
proof -
  obtain t w where e: "entry_state ready_service = [''a'' \<mapsto> (t, Some w)]" "bt_status t = Queued"
      "wf_revision w = 2" "wf_canonical_identity_key w = ''w''" "wf_identity_revision w = ''w''"
    by (rule ready_entry)
  then have e1: "entry_state ready_service ''a'' = Some (t, Some w)" by simp
  have bd: "bound ready_service ''a''"
    using bound_of_ok [OF ready_ok, of "''a''"] e by (simp add: run_fact_def u64_max_def)
  have gd: "transition_mutation Running t w = Inr (t\<lparr>bt_status := Running\<rparr>, w\<lparr>wf_queue_position := None,
      wf_continuation_required := False, wf_cancelled_from_queue := False, wf_undo_cancel_until := None\<rparr>)"
    using e(2) by (simp add: transition_mutation_def)
  obtain run s' where m: "mutate_workflow_with_durability sample_env Barrier ''a''
      (transition_mutation Running) ready_service = (Inr run, s')"
    using mutate_succeeds [OF bd e1 gd keeps_frame_ops(2), of sample_env] sample_write by blast
  then have tr: "transition_workflow_status sample_env ''a'' Running ready_service = (Inr run, claimed_service)"
    and s': "s' = claimed_service"
    by (simp_all add: claimed_service_def transition_workflow_status_def mutate_workflow_def)
  obtain t0 w0 t1 w1 where st: "entry_state ready_service ''a'' = Some (t0, Some w0)"
    "transition_mutation Running t0 w0 = Inr (t1, w1)"
    "entry_state s' ''a'' = Some (stamp_mutation sample_env t1, Some (w1\<lparr>wf_revision := wf_revision w0 + 1\<rparr>))"
    by (rule mutate_ok [OF m keeps_frame_ops(2) bd], rule that)
  have es: "entry_state claimed_service = [''a'' \<mapsto> (stamp_mutation sample_env t1, Some (w1\<lparr>wf_revision := wf_revision w0 + 1\<rparr>))]"
    using st(3) mutate_others [OF m] e(1) s' by (auto simp: fun_eq_iff)
  have tw: "t0 = t" "w0 = w" using st(1) e1 by simp_all
  then have "bt_status t1 = Running" "wf_canonical_identity_key w1 = ''w''" "wf_identity_revision w1 = ''w''"
    using st(2) gd e by auto
  then show ?thesis using transition_effect [OF tr ready_ok] e tw by (intro that [OF tr es]) simp_all
qed

lemma claim_ready:
  "\<exists>run. claim_next_locked (sample_coordinator ''b'') ''w'' ''w'' ready_service = (Inr (Some run), claimed_service) \<and>
     wr_task_id run = ''a''"
proof -
  obtain nxt where n: "wr_task_id nxt = ''a''" "is_queued nxt" "\<not> wr_continuation_required nxt"
      "workflow_runs_for_owner (sample_coordinator ''b'') ''w'' ''w'' True ready_service = [nxt]"
    by (rule ready_sole)
  obtain run t w where c: "transition_workflow_status sample_env ''a'' Running ready_service = (Inr run, claimed_service)"
      "entry_state claimed_service = [''a'' \<mapsto> (t, Some w)]" "bt_status t = Running"
      "wf_revision w = 3" "wf_canonical_identity_key w = ''w''" "wf_identity_revision w = ''w''"
      "wr_task_id run = ''a''" "service_ok claimed_service"
    by (rule claimed_entry)
  obtain r2 where r2: "to_run w t = Some r2"
      "workflow_runs_for_owner (after_calls 1 (sample_coordinator ''b'')) ''w'' ''w'' True claimed_service = [r2]"
    by (rule sole_run [OF c(8) _ c(2), of "after_calls 1 (sample_coordinator ''b'')" "''w''" "''w''"])
      (simp_all add: c sample_iterates u64_max_def active_display_def del: One_nat_def)
  from r2(1) c(3) have "\<not> is_queued r2" by (auto simp: to_run_def is_queued_def split: option.splits)
  then have rn: "renumber (after_calls 1 (sample_coordinator ''b'')) ''w'' ''w'' claimed_service = (Inr (), claimed_service)"
    using r2(2) by (simp add: renumber_def del: One_nat_def)
  have eq: "claim_next_locked (sample_coordinator ''b'') ''w'' ''w'' ready_service = (Inr (Some run), claimed_service)"
    using n c(1) rn by (simp add: claim_next_locked_def Let_def then_op_def is_queued_def active_display_def
        del: One_nat_def)
  with c(7) show ?thesis by auto
qed

theorem claim_takes_head_witness:
  "\<exists>run. claim_next_locked (sample_coordinator ''b'') ''w'' ''w'' ready_service = (Inr (Some run), claimed_service) \<and>
     wr_task_id run = ''a'' \<and> status_of claimed_service ''a'' = Some Running"
proof -
  obtain run where r: "claim_next_locked (sample_coordinator ''b'') ''w'' ''w'' ready_service =
      (Inr (Some run), claimed_service)" "wr_task_id run = ''a''"
    using claim_ready by blast
  from claim_takes_head [OF empty_started ready_reachable sample_iterates r(1)] r show ?thesis by auto
qed

theorem one_active_per_owner_witness:
  "\<exists>t w. entry_state (run_coordinator (sample_coordinator ''b'') (ClaimNext ''w'' ''w'') ready_service) ''a'' =
     Some (t, Some w) \<and> bt_status t = Running \<and> ''a'' = ''a''"
proof -
  let ?s = "run_coordinator (sample_coordinator ''b'') (ClaimNext ''w'' ''w'') ready_service"
  obtain t w where e: "entry_state ready_service = [''a'' \<mapsto> (t, Some w)]" by (rule ready_entry)
  then have "entry_state ready_service ''b'' = None" by simp
  then have "fresh_id (sample_coordinator ''b'') ready_service" by (simp add: fresh_id_def entry_state_def)
  then have re: "coordinator_step\<^sup>*\<^sup>* empty_service ?s"
    by (intro rtranclp.rtrancl_into_rtrancl [OF ready_reachable] coordinate sample_iterates)
  have ok: "service_ok ?s" using coordinator_machine.inv_reachable [OF empty_started re] by simp
  obtain run t1 w1 where c: "entry_state claimed_service = [''a'' \<mapsto> (t1, Some w1)]" "bt_status t1 = Running"
      "wf_revision w1 = 3"
    by (rule claimed_entry)
  have s: "?s = claimed_service" using claim_ready by (auto simp: claim_next_def)
  have a: "entry_state ?s ''a'' = Some (t1, Some w1)" unfolding s using c by simp
  have "''a'' = ''a''"
    by (rule one_active_per_owner [OF empty_started re a a]) (simp_all add: c active_display_def u64_max_def)
  with a c show ?thesis by auto
qed

theorem trust_revocation_holds_queue_witness:
  "held_of (snd (freeze_owner_for_trust_revocation (sample_coordinator ''b'') ''/p'' held_service)) ''a'' = Some True"
proof -
  let ?c = "sample_coordinator ''b''"
  obtain run where r: "get_workflow_run ''a'' held_service = Some run" "wr_task_id run = ''a''" "is_queued run"
    by (rule held_sole)
  obtain en where en: "ts_tasks held_service ''a'' = Some en" "te_task en = sample_queued"
    using held_entry by (auto simp: entry_state_def)
  have "entry_state held_service ''b'' = None" using held_state by simp
  then have tasks: "ts_tasks held_service ''b'' = None" by (simp add: entry_state_def)
  have roots: "ts_roots held_service ''a'' = Some ''/p''" using held_state by simp
  have order: "cn_task_order ?c held_service = [''a'']"
    using en tasks by (simp add: sample_coordinator_def)
  have lst: "list_tasks_for_root ?c ''/p'' None held_service = [sample_queued]"
    unfolding list_tasks_for_root_def order
    by (simp add: List.map_filter_simps en roots)
  obtain v s1 where q: "set_workflow_queue_state sample_env ''a'' (wr_queue_position run) True held_service = (Inr v, s1)"
    by (rule held_changes)
  have runs: "List.map_filter (\<lambda>t. get_workflow_run (bt_id t) held_service) [sample_queued] = [run]"
    using r by (simp add: List.map_filter_simps)
  have fr: "freeze_owner_for_trust_revocation ?c ''/p'' held_service =
      (\<lparr>tt_stopped_runs = [], tt_continued_local_quick_runs = [], tt_errors = []\<rparr>, s1)"
    using r q by (simp add: freeze_owner_for_trust_revocation_def Let_def lst runs even_calls_def
        odd_calls_def is_queued_def active_display_def)
  have "''a'' \<in> set (cn_task_order ?c held_service)" using order by simp
  from trust_revocation_holds_queue [OF empty_started held_reachable fr _ held_entry _ this roots] fr
  show ?thesis by simp
qed

theorem reorder_places_before_anchor_witness:
  "\<exists>runs s'. reorder_queued (sample_coordinator ''b'') ''a'' None held_service = (Inr runs, s') \<and>
     queue_position_of s' ''a'' = Some 1"
proof -
  let ?c = "sample_coordinator ''b''"
  obtain run where r: "get_workflow_run ''a'' held_service = Some run" "wr_task_id run = ''a''" "is_queued run"
      "wr_canonical_identity_key run = ''w''" "wr_identity_revision run = ''w''"
    by (rule held_sole)
  obtain key where k: "task_queue ''a'' held_service = Inr key"
    using task_queue_known [OF held_ok, of "''a''"] held_entry by (auto simp: run_fact_def u64_max_def)
  have none: "filter (\<lambda>run. wr_task_id run \<noteq> ''a'') (sort_key run_order (filter is_queued
      (owner_runs ?c ''w'' ''w'' held_service))) = []"
    using owner_runs_distinct [OF held_ok, of ?c "''w''" "''w''"] held_state
    by (auto simp: filter_empty_conv get_run_facts split: if_splits)
  obtain v s1 where q: "set_workflow_queue_state sample_env ''a'' (Some 1) (wr_continuation_required run) held_service = (Inr v, s1)"
    by (rule held_changes)
  obtain runs where out: "reorder_queued ?c ''a'' None held_service = (Inr runs, s1)"
    using r k none q by (simp add: reorder_queued_def with_run_def Let_def insert_at_def then_op_def)
  from reorder_places_before_anchor [OF empty_started held_reachable out]
  obtain order target where o: "target \<in> set order" "get_workflow_run ''a'' held_service = Some target"
      "filter (\<lambda>run. wr_task_id run \<noteq> ''a'') order = filter (\<lambda>run. wr_task_id run \<noteq> ''a'') (sort_key run_order
        (filter is_queued (owner_runs ?c (wr_canonical_identity_key target) (wr_identity_revision target) held_service)))"
      "\<forall>k < length order. queue_position_of s1 (wr_task_id (order ! k)) = Some (k + 1)"
    by auto
  have "filter (\<lambda>run. wr_task_id run \<noteq> ''a'') order = []" using o(2,3) r none by simp
  moreover have "order \<noteq> []" using o(1) by auto
  ultimately have "wr_task_id (order ! 0) = ''a''" by (cases order) (auto split: if_splits)
  with o(4) \<open>order \<noteq> []\<close> have "queue_position_of s1 ''a'' = Some 1" by force
  with out show ?thesis by auto
qed

end
