(* ===== verification/Launch_Registry.thy ===== *)
theory Launch_Registry
  imports Prelude "HOL-Library.Word"
begin

text \<open>
  The registry of external launches (\<open>services/workflow_service/launch_registry.rs\<close>). A runner holds
  a permit while it prepares a call to an Agent or a language model and turns it into a publication
  around the call; revoking the trust in a project closes its owner and waits on the barrier until
  no publication is open. The epochs of an owner are counted modulo \<open>2 ^ 64\<close>.

  The mutex is not modelled beyond poisoning: every operation holds it from start to end. The
  blocking \<open>wait\<close> is modelled by the condition under which it returns.
\<close>

section \<open>State and operations\<close>

record owner_launch_state =
  ol_authority_revision :: string
  ol_generation :: "64 word"
  ol_closed :: bool
  ol_publishing :: nat

definition owner_launch_default :: owner_launch_state where
  "owner_launch_default = \<lparr>ol_authority_revision = [], ol_generation = 0, ol_closed = False,
     ol_publishing = 0\<rparr>"

record launch_registry =
  lr_owners :: "string \<rightharpoonup> owner_launch_state"
  lr_poisoned :: bool

record workflow_external_launch_permit =
  lp_owner :: string
  lp_task_id :: string
  lp_authority_revision :: string
  lp_generation :: "64 word"

record workflow_launch_publication =
  pub_owner :: string
  pub_finished :: bool

definition launch_locked :: backend_error where
  "launch_locked = backend_error_new ''WORKFLOW_LAUNCH_REGISTRY_LOCKED''
     ''Workflow launch authority is temporarily unavailable.'' True True"

definition launch_revoked :: backend_error where
  "launch_revoked = backend_error_new ''WORKFLOW_EXTERNAL_LAUNCH_REVOKED''
     ''Workflow authority was revoked before the external invocation was published.'' True True"

definition owner_or_default :: "launch_registry \<Rightarrow> string \<Rightarrow> owner_launch_state" where
  "owner_or_default r owner = (case lr_owners r owner of None \<Rightarrow> owner_launch_default | Some st \<Rightarrow> st)"

definition set_owner :: "string \<Rightarrow> owner_launch_state \<Rightarrow> launch_registry \<Rightarrow> launch_registry" where
  "set_owner owner st r = r\<lparr>lr_owners := (lr_owners r)(owner \<mapsto> st)\<rparr>"

definition renew_authority :: "string \<Rightarrow> owner_launch_state \<Rightarrow> owner_launch_state" where
  "renew_authority authority st =
     (if ol_authority_revision st \<noteq> authority
      then st\<lparr>ol_authority_revision := authority, ol_generation := ol_generation st + 1, ol_closed := False\<rparr>
      else st)"

definition issue ::
  "string \<Rightarrow> string \<Rightarrow> string \<Rightarrow> launch_registry \<Rightarrow>
   workflow_external_launch_permit result \<times> launch_registry" where
  "issue owner task_id authority r =
    (if lr_poisoned r then (Inl launch_locked, r)
     else
      (let st = renew_authority authority (owner_or_default r owner); r1 = set_owner owner st r in
       if ol_closed st then (Inl launch_revoked, r1)
       else (Inr \<lparr>lp_owner = owner, lp_task_id = task_id, lp_authority_revision = authority,
              lp_generation = ol_generation st\<rparr>, r1)))"

definition close_owner :: "string \<Rightarrow> launch_registry \<Rightarrow> launch_registry" where
  "close_owner owner r =
    (if lr_poisoned r then r
     else let st = owner_or_default r owner in
       set_owner owner (st\<lparr>ol_closed := True, ol_generation := ol_generation st + 1\<rparr>) r)"

definition begin_launch ::
  "workflow_external_launch_permit \<Rightarrow> launch_registry \<Rightarrow>
   workflow_launch_publication result \<times> launch_registry" where
  "begin_launch p r =
    (if lr_poisoned r then (Inl launch_locked, r)
     else case lr_owners r (lp_owner p) of
       None \<Rightarrow> (Inl launch_revoked, r)
     | Some st \<Rightarrow>
       if ol_closed st \<or> ol_generation st \<noteq> lp_generation p \<or>
          ol_authority_revision st \<noteq> lp_authority_revision p
       then (Inl launch_revoked, r)
       else (Inr \<lparr>pub_owner = lp_owner p, pub_finished = False\<rparr>,
         set_owner (lp_owner p) (st\<lparr>ol_publishing := ol_publishing st + 1\<rparr>) r))"

definition finish_launch ::
  "workflow_launch_publication \<Rightarrow> launch_registry \<Rightarrow> workflow_launch_publication \<times> launch_registry" where
  "finish_launch pub r =
    (if pub_finished pub then (pub, r)
     else (pub\<lparr>pub_finished := True\<rparr>,
       if lr_poisoned r then r
       else case lr_owners r (pub_owner pub) of
         None \<Rightarrow> r
       | Some st \<Rightarrow> set_owner (pub_owner pub) (st\<lparr>ol_publishing := ol_publishing st - 1\<rparr>) r))"

text \<open>What the barrier's \<open>wait\<close> does: an error, blocking (\<open>None\<close>), or a return.\<close>

definition barrier_wait :: "string \<Rightarrow> launch_registry \<Rightarrow> unit result option" where
  "barrier_wait owner r =
    (if lr_poisoned r then Some (Inl launch_locked)
     else if (case lr_owners r owner of None \<Rightarrow> False | Some st \<Rightarrow> 0 < ol_publishing st) then None
     else Some (Inr ()))"

section \<open>Runs of the registry\<close>

text \<open>
  The registry with the publications that are open. A permit is consumed when it begins; a
  publication is finished once, by \<open>started\<close> or when it is dropped.
\<close>

record launch_world =
  lw_registry :: launch_registry
  lw_open :: "string list"

datatype launch_command =
    IssuePermit string string string
  | CloseOwner string
  | BeginLaunch workflow_external_launch_permit
  | FinishLaunch string

fun run_launch :: "launch_command \<Rightarrow> launch_world \<Rightarrow> launch_world" where
  "run_launch (IssuePermit ow t a) w = w\<lparr>lw_registry := snd (issue ow t a (lw_registry w))\<rparr>"
| "run_launch (CloseOwner ow) w = w\<lparr>lw_registry := close_owner ow (lw_registry w)\<rparr>"
| "run_launch (BeginLaunch p) w =
    (case begin_launch p (lw_registry w) of
       (Inl _, r) \<Rightarrow> w\<lparr>lw_registry := r\<rparr>
     | (Inr pub, r) \<Rightarrow> \<lparr>lw_registry = r, lw_open = pub_owner pub # lw_open w\<rparr>)"
| "run_launch (FinishLaunch ow) w =
    (if ow \<in> set (lw_open w)
     then \<lparr>lw_registry = snd (finish_launch \<lparr>pub_owner = ow, pub_finished = False\<rparr> (lw_registry w)),
           lw_open = remove1 ow (lw_open w)\<rparr>
     else w)"

definition run_launches :: "launch_command list \<Rightarrow> launch_world \<Rightarrow> launch_world" where
  "run_launches cmds w = fold run_launch cmds w"

definition launch_empty :: launch_world where
  "launch_empty = \<lparr>lw_registry = \<lparr>lr_owners = Map.empty, lr_poisoned = False\<rparr>, lw_open = []\<rparr>"

section \<open>Lemmas\<close>

lemmas launch_defs = issue_def close_owner_def begin_launch_def finish_launch_def renew_authority_def
  owner_or_default_def set_owner_def owner_launch_default_def

lemma launch_commands_keep_lock [simp]:
  "lr_poisoned (lw_registry (run_launch cmd w)) = lr_poisoned (lw_registry w)"
  by (cases cmd) (auto simp: launch_defs Let_def split: option.splits prod.splits sum.splits)

text \<open>The counter of an owner is the number of its open publications.\<close>

definition launch_inv :: "launch_world \<Rightarrow> bool" where
  "launch_inv w \<longleftrightarrow> \<not> lr_poisoned (lw_registry w) \<and>
     (\<forall>ow. count_list (lw_open w) ow = ol_publishing (owner_or_default (lw_registry w) ow))"

lemma launch_inv_step: "launch_inv w \<Longrightarrow> launch_inv (run_launch cmd w)"
  by (cases cmd)
    (auto simp: launch_inv_def launch_defs Let_def count_list_remove1 split: option.splits if_splits)

lemma launch_inv_run: "launch_inv w \<Longrightarrow> launch_inv (run_launches cmds w)"
  unfolding run_launches_def by (induction cmds arbitrary: w) (simp_all add: launch_inv_step)

lemma launch_empty_inv: "launch_inv launch_empty"
  by (simp add: launch_inv_def launch_empty_def owner_or_default_def owner_launch_default_def)

interpretation launch_machine:
  invariant_machine "\<lambda>w. w = launch_empty" "\<lambda>w w'. \<exists>cmd. w' = run_launch cmd w" launch_inv
  by unfold_locales (auto simp: launch_empty_inv launch_inv_step)

lemma run_launches_reach: "(\<lambda>w w'. \<exists>cmd. w' = run_launch cmd w)\<^sup>*\<^sup>* w (run_launches cmds w)"
  unfolding run_launches_def
proof (induction cmds arbitrary: w)
  case (Cons cmd cmds)
  have "(\<lambda>w w'. \<exists>cmd. w' = run_launch cmd w)\<^sup>*\<^sup>* w (run_launch cmd w)" by (rule r_into_rtranclp) blast
  with Cons.IH [of "run_launch cmd w"] show ?case by (simp add: rtranclp_trans)
qed simp

text \<open>Each command advances the epoch of an owner by at most one, and closing it by exactly one.\<close>

definition epoch :: "launch_world \<Rightarrow> string \<Rightarrow> 64 word" where
  "epoch w ow = ol_generation (owner_or_default (lw_registry w) ow)"

lemma epoch_step:
  "epoch (run_launch cmd w) ow = epoch w ow \<or> epoch (run_launch cmd w) ow = epoch w ow + 1"
  by (cases cmd) (auto simp: epoch_def launch_defs Let_def split: option.splits if_splits)

lemma epoch_close:
  "\<not> lr_poisoned (lw_registry w) \<Longrightarrow> epoch (run_launch (CloseOwner ow) w) ow = epoch w ow + 1"
  by (simp add: epoch_def launch_defs Let_def)

lemma epoch_run:
  assumes "\<not> lr_poisoned (lw_registry w)"
  shows "\<exists>n. n \<le> length cmds \<and> (CloseOwner ow \<in> set cmds \<longrightarrow> 0 < n) \<and>
    epoch (run_launches cmds w) ow = epoch w ow + of_nat n"
  using assms
proof (induction cmds arbitrary: w)
  case Nil
  show ?case by (intro exI [of _ 0]) (simp add: run_launches_def)
next
  case (Cons cmd cmds)
  obtain n where n: "n \<le> length cmds" "CloseOwner ow \<in> set cmds \<longrightarrow> 0 < n"
    "epoch (run_launches cmds (run_launch cmd w)) ow = epoch (run_launch cmd w) ow + of_nat n"
    using Cons.IH [of "run_launch cmd w"] Cons.prems by auto
  have run: "run_launches (cmd # cmds) w = run_launches cmds (run_launch cmd w)" by (simp add: run_launches_def)
  show ?case
  proof (cases "epoch (run_launch cmd w) ow = epoch w ow + 1")
    case True
    with n run show ?thesis by (intro exI [of _ "Suc n"]) simp
  next
    case False
    with epoch_step [of cmd w ow] epoch_close [OF Cons.prems, of ow]
    have "epoch (run_launch cmd w) ow = epoch w ow" "cmd \<noteq> CloseOwner ow" by auto
    with n run show ?thesis by (intro exI [of _ n]) auto
  qed
qed

lemma of_nat_small_neq_0: "0 < n \<Longrightarrow> n < 2 ^ 64 \<Longrightarrow> (of_nat n :: 64 word) \<noteq> 0"
proof
  assume n: "0 < n" "n < 2 ^ 64" and z: "(of_nat n :: 64 word) = 0"
  have "unat (of_nat n :: 64 word) = n" using n(2) by (simp add: unat_of_nat take_bit_eq_mod)
  with z n(1) show False by simp
qed

lemma closed_stays:
  assumes "ol_closed (owner_or_default (lw_registry w) ow)" and "\<forall>t a. cmd \<noteq> IssuePermit ow t a"
  shows "ol_closed (owner_or_default (lw_registry (run_launch cmd w)) ow) \<and>
    (ow \<notin> set (lw_open w) \<longrightarrow> ow \<notin> set (lw_open (run_launch cmd w)))"
  using assms
  by (cases cmd) (auto simp: launch_defs Let_def split: option.splits if_splits dest: notin_set_remove1)

lemma closed_stays_run:
  assumes "ol_closed (owner_or_default (lw_registry w) ow)" and "\<forall>t a. IssuePermit ow t a \<notin> set cmds"
  shows "ol_closed (owner_or_default (lw_registry (run_launches cmds w)) ow) \<and>
    (ow \<notin> set (lw_open w) \<longrightarrow> ow \<notin> set (lw_open (run_launches cmds w)))"
  using assms
proof (induction cmds arbitrary: w)
  case (Cons cmd cmds)
  then have "\<forall>t a. cmd \<noteq> IssuePermit ow t a" by auto
  from closed_stays [OF Cons.prems(1) this] Cons show ?case by (auto simp: run_launches_def)
qed (simp add: run_launches_def)

text \<open>
  The barrier is exact: in every reachable state it returns without error exactly when no
  publication of the owner is open.
\<close>

lemma barrier_exact:
  "barrier_wait ow (lw_registry (run_launches cmds launch_empty)) =
     (if ow \<in> set (lw_open (run_launches cmds launch_empty)) then None else Some (Inr ()))"
proof -
  let ?w = "run_launches cmds launch_empty"
  have inv: "launch_inv ?w" using launch_machine.inv_reachable [OF refl run_launches_reach] .
  then have c: "count_list (lw_open ?w) ow = ol_publishing (owner_or_default (lw_registry ?w) ow)"
    and l: "\<not> lr_poisoned (lw_registry ?w)" by (simp_all add: launch_inv_def)
  have "ow \<in> set (lw_open ?w) \<longleftrightarrow> 0 < ol_publishing (owner_or_default (lw_registry ?w) ow)"
    unfolding c [symmetric] by (simp add: count_list_0_iff flip: neq0_conv)
  then show ?thesis using l
    by (auto simp: barrier_wait_def owner_or_default_def owner_launch_default_def split: option.splits if_splits)
qed

section \<open>Properties\<close>

text \<open>
  C22: A revoked permit never launches: once the owner has been closed, a permit issued before cannot
  begin a publication, whatever else happened meanwhile, as long as fewer than \<open>2 ^ 64\<close> commands ran
  since it was issued (the epochs wrap around after that).
\<close>

theorem revoked_permit_never_begins:
  assumes "issue ow t a (lw_registry w) = (Inr p, r)"
    and "CloseOwner ow \<in> set cmds" and "length cmds < 2 ^ 64"
    and "w' = run_launches cmds (w\<lparr>lw_registry := r\<rparr>)"
  shows "begin_launch p (lw_registry w') = (Inl launch_revoked, lw_registry w')"
proof -
  have live: "\<not> lr_poisoned r" and p: "lp_owner p = ow" "lp_generation p = epoch (w\<lparr>lw_registry := r\<rparr>) ow"
    using assms(1) by (auto simp: launch_defs epoch_def Let_def split: if_splits)
  from epoch_run [of "w\<lparr>lw_registry := r\<rparr>" cmds ow] live assms(2-4)
  obtain n where n: "0 < n" "n < 2 ^ 64" "epoch w' ow = lp_generation p + of_nat n"
    using p by fastforce
  then have "epoch w' ow \<noteq> lp_generation p" using of_nat_small_neq_0 [of n] by simp
  moreover have "\<not> lr_poisoned (lw_registry w')"
    using live assms(4) unfolding run_launches_def by (induction cmds arbitrary: w w' r rule: rev_induct) auto
  ultimately show ?thesis
    using p by (auto simp: begin_launch_def epoch_def owner_or_default_def split: option.splits)
qed

definition sample_permit :: workflow_external_launch_permit where
  "sample_permit = \<lparr>lp_owner = ''o'', lp_task_id = ''t'', lp_authority_revision = ''a'', lp_generation = 1\<rparr>"

lemmas launch_eval = launch_defs launch_empty_def sample_permit_def run_launches_def barrier_wait_def

theorem revoked_permit_never_begins_witness:
  "fst (begin_launch sample_permit (lw_registry (run_launches
     [IssuePermit ''o'' ''u'' ''b'', CloseOwner ''o'', IssuePermit ''o'' ''v'' ''a'']
     (launch_empty\<lparr>lw_registry := snd (issue ''o'' ''t'' ''a'' (lw_registry launch_empty))\<rparr>)))) = Inl launch_revoked"
  using revoked_permit_never_begins [of "''o''" "''t''" "''a''" launch_empty sample_permit
    "snd (issue ''o'' ''t'' ''a'' (lw_registry launch_empty))"
    "[IssuePermit ''o'' ''u'' ''b'', CloseOwner ''o'', IssuePermit ''o'' ''v'' ''a'']" _, OF _ _ _ refl]
  by (simp add: launch_eval Let_def)

text \<open>
  C23: Revocation drains an owner for good: after it is closed and the barrier has returned, no
  publication of the owner opens until a permit is requested for it again.
\<close>

theorem drained_owner_stays_quiet:
  assumes "w1 = run_launch (CloseOwner ow) (run_launches cmds0 launch_empty)"
    and "w2 = run_launches cmds1 w1" and "barrier_wait ow (lw_registry w2) = Some (Inr ())"
    and "w3 = run_launches cmds2 w2" and "\<forall>t a. IssuePermit ow t a \<notin> set (cmds1 @ cmds2)"
  shows "ow \<notin> set (lw_open w3) \<and> (\<exists>e. fst (issue ow t (ol_authority_revision
    (owner_or_default (lw_registry w3) ow)) (lw_registry w3)) = Inl e)"
proof -
  have inv: "launch_inv (run_launches cmds0 launch_empty)"
    using launch_machine.inv_reachable [OF refl run_launches_reach] .
  then have live: "\<not> lr_poisoned (lw_registry (run_launches cmds0 launch_empty))" by (simp add: launch_inv_def)
  have w2: "w2 = run_launches (cmds0 @ CloseOwner ow # cmds1) launch_empty"
    using assms(1,2) by (simp add: run_launches_def)
  have closed1: "ol_closed (owner_or_default (lw_registry w1) ow)"
    using live assms(1) by (simp add: close_owner_def owner_or_default_def set_owner_def Let_def)
  have closed2: "ol_closed (owner_or_default (lw_registry w2) ow)"
    using closed_stays_run [OF closed1, of cmds1] assms(2,5) by simp
  have "ow \<notin> set (lw_open w2)"
    using assms(3) barrier_exact [of ow "cmds0 @ CloseOwner ow # cmds1"] w2 by (simp split: if_splits)
  then have q: "ow \<notin> set (lw_open w3)" and closed3: "ol_closed (owner_or_default (lw_registry w3) ow)"
    using closed_stays_run [OF closed2, of cmds2] assms(4,5) by simp_all
  have "fst (issue ow t (ol_authority_revision (owner_or_default (lw_registry w3) ow)) (lw_registry w3)) =
      Inl (if lr_poisoned (lw_registry w3) then launch_locked else launch_revoked)"
    using closed3 by (simp add: issue_def renew_authority_def Let_def)
  with q show ?thesis by blast
qed

theorem drained_owner_stays_quiet_witness:
  "''o'' \<notin> set (lw_open (run_launches [BeginLaunch sample_permit] (run_launches [FinishLaunch ''o'']
     (run_launch (CloseOwner ''o'') (run_launches [IssuePermit ''o'' ''t'' ''a'', BeginLaunch sample_permit]
       launch_empty)))))"
  using drained_owner_stays_quiet [of _ "''o''" "[IssuePermit ''o'' ''t'' ''a'', BeginLaunch sample_permit]" _
    "[FinishLaunch ''o'']" _ "[BeginLaunch sample_permit]", OF refl refl _ refl]
  by (simp add: launch_eval Let_def)

end
