(* ===== verification/Confirmation.thy ===== *)
theory Confirmation
  imports Workflow_Model "HOL-Library.AList"
begin

text \<open>
  The confirmation registry and the update-install barrier (\<open>models/confirmation.rs\<close>).

  The mutexes of the registry are modelled by their poisoned state: a lock that a panicking
  thread left poisoned gives the error branch of \<open>map_err\<close>, and an operation that holds its
  locks from start to end is one step. The environment holds the RFC 3339 parser, the clock
  and \<open>fs::canonicalize\<close>. Payloads the registry stores and compares but never opens
  (repair plans, compile manifests, layout mappings) are the type variable \<open>'x\<close>.
\<close>

section \<open>The update-install barrier\<close>

record update_install_barrier =
  ub_install_or_restart_reserved :: bool
  ub_active_project_mutations :: nat
  ub_poisoned :: bool

definition update_barrier_locked :: backend_error where
  "update_barrier_locked = backend_error_new ''UPDATE_INSTALL_GUARD_UNAVAILABLE''
     ''The application update safety guard is unavailable.'' True True"

definition enter_project_mutation ::
  "update_install_barrier \<Rightarrow> update_install_barrier result" where
  "enter_project_mutation b =
    (if ub_poisoned b then Inl update_barrier_locked
     else if ub_install_or_restart_reserved b
     then Inl (backend_error_new ''UPDATE_INSTALL_IN_PROGRESS''
       ''A project change cannot start while an application update is installing or restarting.''
       True True)
     else Inr (b\<lparr>ub_active_project_mutations :=
       saturating_add (ub_active_project_mutations b) 1\<rparr>))"

definition reserve_install_or_restart ::
  "unit result \<Rightarrow> update_install_barrier \<Rightarrow> update_install_barrier result" where
  "reserve_install_or_restart validated b =
    (if ub_poisoned b then Inl update_barrier_locked
     else if ub_install_or_restart_reserved b
     then Inl (backend_error_new ''UPDATE_INSTALL_IN_PROGRESS''
       ''The application is already installing an update or restarting.'' True True)
     else if ub_active_project_mutations b > 0
     then Inl (backend_error_new ''UPDATE_INSTALL_GUARD_BLOCKED''
       ''Wait for the current project change to finish before installing the update.'' True True)
     else case validated of
       Inl e \<Rightarrow> Inl e
     | Inr _ \<Rightarrow> Inr (b\<lparr>ub_install_or_restart_reserved := True\<rparr>))"

definition drop_mutation_lease :: "update_install_barrier \<Rightarrow> update_install_barrier" where
  "drop_mutation_lease b = (if ub_poisoned b then b
     else b\<lparr>ub_active_project_mutations := ub_active_project_mutations b - 1\<rparr>)"

definition drop_install_lease :: "update_install_barrier \<Rightarrow> update_install_barrier" where
  "drop_install_lease b = (if ub_poisoned b then b
     else b\<lparr>ub_install_or_restart_reserved := False\<rparr>)"

section \<open>Stored actions\<close>

record agent_lint_repair_review_binding =
  rb_project_id :: string
  rb_root_path :: string
  rb_canonical_identity_key :: string
  rb_identity_revision :: string
  rb_task_id :: string
  rb_round :: nat
  rb_candidate_id :: string
  rb_candidate_revision :: string
  rb_manifest_revision :: string
  rb_baseline_fingerprint :: string
  rb_checkpoint_hash :: string
  rb_action_id :: string
  rb_action_revision :: string

text \<open>
  The arguments are the fields of the variants in their order; \<open>ExecGenerateContentOverwrite\<close>
  and \<open>ExecUpdateWikiReview\<close> carry project id, root path, identity key, identity revision, task
  id, action id and candidate.
\<close>

datatype 'x confirmation_execution =
    ExecVersionHistory string string string string 'x
  | ExecRepairProject string string string 'x
  | ExecEnableCompatibleProject string string string 'x bool
  | ExecConfigureCompatibleLayout string string string 'x "string option"
  | ExecTrustCompatibleProject string string string
  | ExecInitializeAssessedGit string string string "string option" "string list"
  | ExecCheckpointAssessedGit string string string "string option" "string list"
  | ExecCompileMerge string string string 'x 'x 'x "'x list" "'x list" "(string \<times> string) list"
      "string option"
  | ExecLintFix string string 'x
  | ExecAgentLintRepairStart string string string string string string string string "string list"
      workflow_route wiki_lint_skill_ref "(string \<times> string option) list" string string
  | ExecAgentLintRepairReview agent_lint_repair_review_binding
  | ExecChatOverwrite string string string string string string
  | ExecGenerateContentOverwrite string string string string string string
      workflow_candidate_reference
  | ExecUpdateWikiReview string string string string string string workflow_candidate_reference
  | ExecDeleteWikiPage string string string string

record 'x stored_pending_action =
  sp_action :: pending_action
  sp_execution :: "'x confirmation_execution option"

datatype confirmation_status = StatusConfirmed | StatusCancelled
datatype confirmation_registration = Registered | Existing
datatype confirmation_claim_disposition = ClaimCompleted | CancelRequested

datatype registry_lock = ActionsLock | ExecutingLock | CancelRequestedLock

record 'x confirmation_registry =
  cf_actions :: "(string \<times> 'x stored_pending_action) list"
  cf_executing :: "string set"
  cf_cancel_requested :: "string set"
  cf_barrier :: update_install_barrier
  cf_poisoned :: "registry_lock \<Rightarrow> bool"

record confirmation_env =
  cv_parse_from_rfc3339 :: "string \<Rightarrow> string + int"
  cv_now :: int
  cv_canonicalize :: "string \<Rightarrow> string option"

record project_context =
  pc_project_id :: string
  pc_root :: string

section \<open>Errors and checks\<close>

definition action_details :: "string \<Rightarrow> json" where
  "action_details i = JObject [(''actionId'', JString i)]"

definition registry_locked :: backend_error where
  "registry_locked = backend_error_new ''CONFIRMATION_REGISTRY_LOCKED''
     ''Confirmation registry is unavailable.'' True False"

definition confirmation_in_use :: "string \<Rightarrow> backend_error" where
  "confirmation_in_use i = with_details (backend_error_new ''CONFIRMATION_IN_USE''
     ''This confirmation is already being executed.'' True True) (action_details i)"

definition confirmation_exact_execution_required :: "string \<Rightarrow> backend_error" where
  "confirmation_exact_execution_required i =
     with_details (backend_error_new ''CONFIRMATION_EXACT_EXECUTION_REQUIRED''
       ''This confirmation requires its exact backend execution binding.'' True True)
     (action_details i)"

definition confirmation_execution_mismatch :: "string \<Rightarrow> backend_error" where
  "confirmation_execution_mismatch i =
     with_details (backend_error_new ''CONFIRMATION_EXECUTION_MISMATCH''
       ''The pending action no longer matches the asserted backend execution binding.'' True True)
     (action_details i)"

definition confirmation_id_conflict :: "string \<Rightarrow> backend_error" where
  "confirmation_id_conflict i = with_details (backend_error_new ''CONFIRMATION_ID_CONFLICT''
     ''A different confirmation with this action id is already pending.'' True True)
     (action_details i)"

definition confirmation_already_pending :: "string \<Rightarrow> backend_error" where
  "confirmation_already_pending i = with_details (backend_error_new ''CONFIRMATION_ID_CONFLICT''
     ''A confirmation with this action id is already pending.'' True True) (action_details i)"

definition confirmation_not_found_plain :: backend_error where
  "confirmation_not_found_plain = backend_error_new ''CONFIRMATION_NOT_FOUND''
     ''The pending action was not found or has already been handled.'' True True"

definition confirmation_not_found :: "string \<Rightarrow> backend_error" where
  "confirmation_not_found i = with_details confirmation_not_found_plain (action_details i)"

definition is_review :: "'x confirmation_execution option \<Rightarrow> bool" where
  "is_review x = (case x of Some (ExecAgentLintRepairReview _) \<Rightarrow> True | _ \<Rightarrow> False)"

definition validate_execution_action_binding ::
  "pending_action \<Rightarrow> 'x confirmation_execution option \<Rightarrow> unit result" where
  "validate_execution_action_binding a x =
    (case x of
       Some (ExecAgentLintRepairReview b) \<Rightarrow>
         if rb_action_id b \<noteq> pa_id a \<or> pa_checkpoint_hash a \<noteq> Some (rb_checkpoint_hash b)
         then Inl (confirmation_execution_mismatch (pa_id a)) else Inr ()
     | _ \<Rightarrow> Inr ())"

definition reject_if_expired :: "confirmation_env \<Rightarrow> pending_action \<Rightarrow> unit result" where
  "reject_if_expired v a =
    (case pa_expires_at a of
       None \<Rightarrow> Inr ()
     | Some text \<Rightarrow> (case cv_parse_from_rfc3339 v text of
         Inl err \<Rightarrow> Inl (with_details (backend_error_new ''CONFIRMATION_EXPIRY_INVALID'' err True True)
           (action_details (pa_id a)))
       | Inr at \<Rightarrow>
           if at < cv_now v
           then Inl (with_details (backend_error_new ''CONFIRMATION_EXPIRED''
             ''The pending action has expired. Start the operation again.'' True True)
             (action_details (pa_id a)))
           else Inr ()))"

definition canonical_roots_match :: "confirmation_env \<Rightarrow> string \<Rightarrow> string \<Rightarrow> bool" where
  "canonical_roots_match v left right =
    (case (cv_canonicalize v left, cv_canonicalize v right) of
       (Some l, Some r) \<Rightarrow> l = r | _ \<Rightarrow> False)"

definition restoration_binding_matches ::
  "confirmation_env \<Rightarrow> 'x confirmation_execution option \<Rightarrow> 'x confirmation_execution \<Rightarrow> bool" where
  "restoration_binding_matches v existing replacement =
    (case (existing, replacement) of
       (Some (ExecAgentLintRepairReview a), ExecAgentLintRepairReview b) \<Rightarrow>
         rb_canonical_identity_key a = rb_canonical_identity_key b \<and>
         rb_identity_revision a = rb_identity_revision b \<and> rb_task_id a = rb_task_id b \<and>
         rb_round a = rb_round b \<and> rb_candidate_id a = rb_candidate_id b \<and>
         rb_candidate_revision a = rb_candidate_revision b \<and>
         rb_manifest_revision a = rb_manifest_revision b \<and>
         rb_baseline_fingerprint a = rb_baseline_fingerprint b \<and>
         rb_checkpoint_hash a = rb_checkpoint_hash b \<and> rb_action_id a = rb_action_id b \<and>
         rb_action_revision a = rb_action_revision b \<and>
         canonical_roots_match v (rb_root_path a) (rb_root_path b)
     | (Some (ExecGenerateContentOverwrite p root key irev task act cand),
        ExecGenerateContentOverwrite p' root' key' irev' task' act' cand') \<Rightarrow>
         key = key' \<and> irev = irev' \<and> task = task' \<and> act = act' \<and> cand = cand' \<and>
         canonical_roots_match v root root'
     | (Some (ExecUpdateWikiReview p root key irev task act cand),
        ExecUpdateWikiReview p' root' key' irev' task' act' cand') \<Rightarrow>
         key = key' \<and> irev = irev' \<and> task = task' \<and> act = act' \<and> cand = cand' \<and>
         canonical_roots_match v root root'
     | _ \<Rightarrow> False)"

definition workflow_execution_matches ::
  "confirmation_env \<Rightarrow> workflow_kind \<Rightarrow> 'x confirmation_execution option \<Rightarrow> project_context \<Rightarrow>
   'x workflow_run \<Rightarrow> workflow_pending_action \<Rightarrow> bool" where
  "workflow_execution_matches v kind x ctx run pending =
    (let matches_binding = (\<lambda>p root key irev task act cand.
         p = pc_project_id ctx \<and> canonical_roots_match v root (pc_root ctx) \<and>
         key = wr_canonical_identity_key run \<and> irev = wr_identity_revision run \<and>
         task = wr_task_id run \<and> act = wpa_id pending \<and> wpa_candidate pending = Some cand)
     in case (kind, x) of
       (HealthCheck, Some (ExecAgentLintRepairReview b)) \<Rightarrow>
         (case wr_operation run of AgentLintRepairOperation _ \<Rightarrow> True | _ \<Rightarrow> False) \<and>
         rb_project_id b = pc_project_id ctx \<and>
         canonical_roots_match v (rb_root_path b) (pc_root ctx) \<and>
         rb_canonical_identity_key b = wr_canonical_identity_key run \<and>
         rb_identity_revision b = wr_identity_revision run \<and> rb_task_id b = wr_task_id run \<and>
         rb_action_id b = wpa_id pending \<and>
         wpa_checkpoint_hash pending = Some (rb_checkpoint_hash b) \<and>
         wpa_candidate pending = Some (TaskOwned (rb_candidate_id b))
     | (GenerateContent, Some (ExecGenerateContentOverwrite p root key irev task act cand)) \<Rightarrow>
         matches_binding p root key irev task act cand
     | (UpdateWiki, Some (ExecUpdateWikiReview p root key irev task act cand)) \<Rightarrow>
         matches_binding p root key irev task act cand
     | _ \<Rightarrow> False)"

section \<open>Operations\<close>

definition find_action :: "string \<Rightarrow> 'x confirmation_registry \<Rightarrow> 'x stored_pending_action option" where
  "find_action i r = map_of (cf_actions r) i"

definition insert_action ::
  "string \<Rightarrow> 'x stored_pending_action \<Rightarrow> 'x confirmation_registry \<Rightarrow> 'x confirmation_registry" where
  "insert_action i st r = r\<lparr>cf_actions := AList.update i st (cf_actions r)\<rparr>"

definition remove_action :: "string \<Rightarrow> 'x confirmation_registry \<Rightarrow> 'x confirmation_registry" where
  "remove_action i r = r\<lparr>cf_actions := AList.delete i (cf_actions r)\<rparr>"


text \<open>
  An operation that starts with \<open>let _admission_lease = ...enter_project_mutation()?\<close>: the
  lease is dropped when the operation returns, on every path.
\<close>

definition with_admission ::
  "('x confirmation_registry \<Rightarrow> 'a result \<times> 'x confirmation_registry) \<Rightarrow>
   'x confirmation_registry \<Rightarrow> 'a result \<times> 'x confirmation_registry" where
  "with_admission body r =
    (case enter_project_mutation (cf_barrier r) of
       Inl e \<Rightarrow> (Inl e, r)
     | Inr b \<Rightarrow> (let (x, r1) = body (r\<lparr>cf_barrier := b\<rparr>)
         in (x, r1\<lparr>cf_barrier := drop_mutation_lease (cf_barrier r1)\<rparr>)))"

definition register_with_execution ::
  "pending_action \<Rightarrow> 'x confirmation_execution option \<Rightarrow> 'x confirmation_registry \<Rightarrow>
   unit result \<times> 'x confirmation_registry" where
  "register_with_execution a x = with_admission (\<lambda>r.
    case validate_execution_action_binding a x of
      Inl e \<Rightarrow> (Inl e, r)
    | Inr _ \<Rightarrow>
      if cf_poisoned r ActionsLock then (Inl registry_locked, r)
      else if find_action (pa_id a) r \<noteq> None then (Inl (confirmation_already_pending (pa_id a)), r)
      else (Inr (), insert_action (pa_id a) \<lparr>sp_action = a, sp_execution = x\<rparr> r))"

definition register ::
  "pending_action \<Rightarrow> 'x confirmation_registry \<Rightarrow> unit result \<times> 'x confirmation_registry" where
  "register a r = register_with_execution a None r"

definition register_idempotent_with_execution ::
  "pending_action \<Rightarrow> 'x confirmation_execution \<Rightarrow> 'x confirmation_registry \<Rightarrow>
   confirmation_registration result \<times> 'x confirmation_registry" where
  "register_idempotent_with_execution a x = with_admission (\<lambda>r.
    case validate_execution_action_binding a (Some x) of
      Inl e \<Rightarrow> (Inl e, r)
    | Inr _ \<Rightarrow>
      if cf_poisoned r ActionsLock then (Inl registry_locked, r)
      else (let st = \<lparr>sp_action = a, sp_execution = Some x\<rparr> in
        case find_action (pa_id a) r of
          Some existing \<Rightarrow>
            (if existing = st then Inr Existing else Inl (confirmation_id_conflict (pa_id a)), r)
        | None \<Rightarrow> (Inr Registered, insert_action (pa_id a) st r)))"

definition register_idempotent_expiring_with_execution ::
  "confirmation_env \<Rightarrow> pending_action \<Rightarrow> 'x confirmation_execution \<Rightarrow> string \<Rightarrow>
   'x confirmation_registry \<Rightarrow>
   (confirmation_registration \<times> 'x stored_pending_action) result \<times> 'x confirmation_registry" where
  "register_idempotent_expiring_with_execution v a0 x expires = with_admission (\<lambda>r.
    (let a = a0\<lparr>pa_expires_at := Some expires\<rparr> in
     case reject_if_expired v a of
       Inl e \<Rightarrow> (Inl e, r)
     | Inr _ \<Rightarrow> (case validate_execution_action_binding a (Some x) of
         Inl e \<Rightarrow> (Inl e, r)
       | Inr _ \<Rightarrow>
         if cf_poisoned r ActionsLock then (Inl registry_locked, r)
         else (let st = \<lparr>sp_action = a, sp_execution = Some x\<rparr> in
           case find_action (pa_id a) r of
             None \<Rightarrow> (Inr (Registered, st), insert_action (pa_id a) st r)
           | Some existing \<Rightarrow> (case reject_if_expired v (sp_action existing) of
               Inr _ \<Rightarrow>
                 (if existing = st\<lparr>sp_action := a\<lparr>pa_expires_at := pa_expires_at (sp_action existing)\<rparr>\<rparr>
                  then Inr (Existing, existing) else Inl (confirmation_id_conflict (pa_id a)), r)
             | Inl e \<Rightarrow>
                 if code e = ''CONFIRMATION_EXPIRED'' then
                   if cf_poisoned r ExecutingLock then (Inl registry_locked, r)
                   else if pa_id a \<in> cf_executing r then (Inl (confirmation_in_use (pa_id a)), r)
                   else (Inr (Registered, st), insert_action (pa_id a) st (remove_action (pa_id a) r))
                 else (Inl e, r))))))"

definition restore_admitted ::
  "confirmation_env \<Rightarrow> pending_action \<Rightarrow> 'x confirmation_execution \<Rightarrow> 'x confirmation_registry \<Rightarrow>
   unit result \<times> 'x confirmation_registry" where
  "restore_admitted v a x r =
   (case validate_execution_action_binding a (Some x) of
      Inl e \<Rightarrow> (Inl e, r)
    | Inr _ \<Rightarrow>
      if cf_poisoned r ActionsLock \<or> cf_poisoned r ExecutingLock then (Inl registry_locked, r)
      else case find_action (pa_id a) r of
        Some existing \<Rightarrow>
          (let b = sp_action existing in
           if pa_action_type b \<noteq> pa_action_type a \<or> pa_risk_level b \<noteq> pa_risk_level a \<or>
              pa_affected_paths b \<noteq> pa_affected_paths a \<or> pa_checkpoint_hash b \<noteq> pa_checkpoint_hash a \<or>
              \<not> restoration_binding_matches v (sp_execution existing) x
           then (Inl (confirmation_id_conflict (pa_id a)), r)
           else if pa_id a \<in> cf_executing r then
             (if sp_execution existing = Some x then Inr () else Inl (confirmation_in_use (pa_id a)), r)
           else (Inr (), insert_action (pa_id a) (existing\<lparr>sp_execution := Some x\<rparr>) r))
      | None \<Rightarrow>
          if pa_id a \<in> cf_executing r then (Inl (confirmation_in_use (pa_id a)), r)
          else (Inr (), insert_action (pa_id a) \<lparr>sp_action = a, sp_execution = Some x\<rparr> r))"

definition restore_with_execution ::
  "confirmation_env \<Rightarrow> pending_action \<Rightarrow> 'x confirmation_execution \<Rightarrow> 'x confirmation_registry \<Rightarrow>
   unit result \<times> 'x confirmation_registry" where
  "restore_with_execution v a x = with_admission (restore_admitted v a x)"

definition confirm ::
  "confirmation_env \<Rightarrow> string \<Rightarrow> confirmation_status \<Rightarrow> 'x confirmation_registry \<Rightarrow>
   'x stored_pending_action result \<times> 'x confirmation_registry" where
  "confirm v i status r =
    (if cf_poisoned r ActionsLock then (Inl registry_locked, r)
     else if (case find_action i r of None \<Rightarrow> False | Some st \<Rightarrow> is_review (sp_execution st))
     then (Inl (confirmation_exact_execution_required i), r)
     else if cf_poisoned r ExecutingLock then (Inl registry_locked, r)
     else if i \<in> cf_executing r then
       (if status = StatusCancelled then
          if cf_poisoned r CancelRequestedLock then (Inl registry_locked, r)
          else (Inl (confirmation_in_use i), r\<lparr>cf_cancel_requested := insert i (cf_cancel_requested r)\<rparr>)
        else (Inl (confirmation_in_use i), r))
     else case find_action i r of
       None \<Rightarrow> (Inl (confirmation_not_found i), r)
     | Some st \<Rightarrow> (case reject_if_expired v (sp_action st) of
         Inl e \<Rightarrow> (Inl e, remove_action i r) | Inr _ \<Rightarrow> (Inr st, remove_action i r)))"

text \<open>The lookup shared by \<open>peek\<close>, \<open>claim_inner\<close> and \<open>cancel_exact_execution\<close>.\<close>

definition lookup_unexpired ::
  "confirmation_env \<Rightarrow> backend_error \<Rightarrow> string \<Rightarrow> 'x confirmation_registry \<Rightarrow>
   'x stored_pending_action result \<times> 'x confirmation_registry" where
  "lookup_unexpired v not_found_error i r =
    (case find_action i r of
       None \<Rightarrow> (Inl not_found_error, r)
     | Some st \<Rightarrow> (case reject_if_expired v (sp_action st) of
         Inl e \<Rightarrow> (Inl e, if starts_with (code e) ''CONFIRMATION_EXPIRY'' then remove_action i r else r)
       | Inr _ \<Rightarrow> (Inr st, r)))"

definition peek ::
  "confirmation_env \<Rightarrow> string \<Rightarrow> 'x confirmation_registry \<Rightarrow>
   'x stored_pending_action result \<times> 'x confirmation_registry" where
  "peek v i r =
    (if cf_poisoned r ActionsLock then (Inl registry_locked, r)
     else lookup_unexpired v confirmation_not_found_plain i r)"

definition claim_admitted ::
  "confirmation_env \<Rightarrow> string \<Rightarrow> 'x confirmation_execution option \<Rightarrow> 'x confirmation_registry \<Rightarrow>
   'x stored_pending_action result \<times> 'x confirmation_registry" where
  "claim_admitted v i expected r =
   (if cf_poisoned r ActionsLock then (Inl registry_locked, r)
    else case lookup_unexpired v (confirmation_not_found i) i r of
      (Inl e, r1) \<Rightarrow> (Inl e, r1)
    | (Inr st, r1) \<Rightarrow> (case validate_execution_action_binding (sp_action st) (sp_execution st) of
        Inl e \<Rightarrow> (Inl e, r1)
      | Inr _ \<Rightarrow>
        if is_review (sp_execution st) \<and> expected = None
        then (Inl (confirmation_exact_execution_required i), r1)
        else if expected \<noteq> None \<and> sp_execution st \<noteq> expected
        then (Inl (confirmation_execution_mismatch i), r1)
        else if cf_poisoned r1 ExecutingLock then (Inl registry_locked, r1)
        else if i \<in> cf_executing r1 then (Inl (confirmation_in_use i), r1)
        else (Inr st, r1\<lparr>cf_executing := insert i (cf_executing r1)\<rparr>)))"

definition claim_inner ::
  "confirmation_env \<Rightarrow> string \<Rightarrow> 'x confirmation_execution option \<Rightarrow> 'x confirmation_registry \<Rightarrow>
   'x stored_pending_action result \<times> 'x confirmation_registry" where
  "claim_inner v i expected = with_admission (claim_admitted v i expected)"

definition claim ::
  "confirmation_env \<Rightarrow> string \<Rightarrow> 'x confirmation_registry \<Rightarrow>
   'x stored_pending_action result \<times> 'x confirmation_registry" where
  "claim v i r = claim_inner v i None r"

definition claim_exact_execution ::
  "confirmation_env \<Rightarrow> string \<Rightarrow> 'x confirmation_execution \<Rightarrow> 'x confirmation_registry \<Rightarrow>
   'x stored_pending_action result \<times> 'x confirmation_registry" where
  "claim_exact_execution v i expected r = claim_inner v i (Some expected) r"

definition cancel_exact_execution ::
  "confirmation_env \<Rightarrow> string \<Rightarrow> 'x confirmation_execution \<Rightarrow> 'x confirmation_registry \<Rightarrow>
   'x stored_pending_action result \<times> 'x confirmation_registry" where
  "cancel_exact_execution v i expected r =
    (if cf_poisoned r ActionsLock then (Inl registry_locked, r)
     else case lookup_unexpired v (confirmation_not_found i) i r of
       (Inl e, r1) \<Rightarrow> (Inl e, r1)
     | (Inr st, r1) \<Rightarrow> (case validate_execution_action_binding (sp_action st) (sp_execution st) of
         Inl e \<Rightarrow> (Inl e, r1)
       | Inr _ \<Rightarrow>
         if sp_execution st \<noteq> Some expected then (Inl (confirmation_execution_mismatch i), r1)
         else if cf_poisoned r1 ExecutingLock then (Inl registry_locked, r1)
         else if i \<in> cf_executing r1 then
           if cf_poisoned r1 CancelRequestedLock then (Inl registry_locked, r1)
           else (Inl (confirmation_in_use i),
             r1\<lparr>cf_cancel_requested := insert i (cf_cancel_requested r1)\<rparr>)
         else (Inr st, remove_action i r1)))"

definition finish_claim_with_disposition ::
  "string \<Rightarrow> bool \<Rightarrow> 'x confirmation_registry \<Rightarrow>
   confirmation_claim_disposition result \<times> 'x confirmation_registry" where
  "finish_claim_with_disposition i consume_it r =
    (if cf_poisoned r ActionsLock \<or> cf_poisoned r ExecutingLock \<or> cf_poisoned r CancelRequestedLock
     then (Inl registry_locked, r)
     else
      (let was = i \<in> cf_cancel_requested r;
           r1 = r\<lparr>cf_executing := cf_executing r - {i},
                  cf_cancel_requested := cf_cancel_requested r - {i}\<rparr>;
           outcome = (if was then CancelRequested else ClaimCompleted) in
       if consume_it \<or> was then
         (case find_action i r1 of
            None \<Rightarrow> (Inl (confirmation_not_found i), r1)
          | Some _ \<Rightarrow> (Inr outcome, remove_action i r1))
       else (Inr outcome, r1)))"

definition finish_claim ::
  "string \<Rightarrow> bool \<Rightarrow> 'x confirmation_registry \<Rightarrow> unit result \<times> 'x confirmation_registry" where
  "finish_claim i consume_it r =
    (case finish_claim_with_disposition i consume_it r of
       (Inl e, r1) \<Rightarrow> (Inl e, r1) | (Inr _, r1) \<Rightarrow> (Inr (), r1))"

definition consume ::
  "string \<Rightarrow> 'x confirmation_registry \<Rightarrow> 'x stored_pending_action result \<times> 'x confirmation_registry"
where
  "consume i r =
    (if cf_poisoned r ActionsLock then (Inl registry_locked, r)
     else case find_action i r of
       None \<Rightarrow> (Inl (confirmation_not_found i), r)
     | Some st \<Rightarrow> (Inr st, remove_action i r))"

definition cancel_workflow_binding ::
  "confirmation_env \<Rightarrow> project_context \<Rightarrow> 'x workflow_run \<Rightarrow> workflow_pending_action \<Rightarrow>
   'x confirmation_registry \<Rightarrow> bool result \<times> 'x confirmation_registry" where
  "cancel_workflow_binding v ctx run pending r =
    (if cf_poisoned r ActionsLock \<or> cf_poisoned r ExecutingLock then (Inl registry_locked, r)
     else
      (let i = wpa_id pending;
           matches = (case find_action i r of
              None \<Rightarrow> False
            | Some st \<Rightarrow> pa_id (sp_action st) = i \<and>
                pa_action_type (sp_action st) = wpa_action_type pending \<and>
                pa_risk_level (sp_action st) = wpa_risk_level pending \<and>
                pa_affected_paths (sp_action st) = wpa_affected_paths pending \<and>
                pa_checkpoint_hash (sp_action st) = wpa_checkpoint_hash pending \<and>
                workflow_execution_matches v (wr_kind run) (sp_execution st) ctx run pending) in
       if \<not> matches then (Inr False, r)
       else if i \<in> cf_executing r then
         if cf_poisoned r CancelRequestedLock then (Inl registry_locked, r)
         else (Inl (confirmation_in_use i),
           r\<lparr>cf_cancel_requested := insert i (cf_cancel_requested r)\<rparr>)
       else (Inr True, remove_action i r)))"

definition remove_exact_execution ::
  "string \<Rightarrow> 'x confirmation_execution \<Rightarrow> 'x confirmation_registry \<Rightarrow>
   bool result \<times> 'x confirmation_registry" where
  "remove_exact_execution i x r =
    (if cf_poisoned r ActionsLock \<or> cf_poisoned r ExecutingLock then (Inl registry_locked, r)
     else if i \<in> cf_executing r then (Inl (confirmation_in_use i), r)
     else
      (let matches = (case find_action i r of None \<Rightarrow> False
             | Some st \<Rightarrow> sp_execution st = Some x) in
       (Inr matches, if matches then remove_action i r else r)))"

section \<open>The barrier: mutations and installs exclude each other\<close>

text \<open>
  The barrier with its outstanding leases. A step takes or drops a lease; that fewer than
  \<open>usize::MAX\<close> mutation leases are alive is a bound of memory, and keeps the saturating
  counter exact.
\<close>

record lease_state =
  ls_barrier :: update_install_barrier
  ls_mutations :: nat
  ls_installs :: nat

inductive lease_step :: "lease_state \<Rightarrow> lease_state \<Rightarrow> bool" where
  enter: "enter_project_mutation (ls_barrier s) = Inr b \<Longrightarrow> ls_mutations s < u64_max \<Longrightarrow>
    lease_step s (s\<lparr>ls_barrier := b, ls_mutations := ls_mutations s + 1\<rparr>)"
| reserve: "reserve_install_or_restart validated (ls_barrier s) = Inr b \<Longrightarrow>
    lease_step s (s\<lparr>ls_barrier := b, ls_installs := ls_installs s + 1\<rparr>)"
| drop_mutation: "0 < ls_mutations s \<Longrightarrow>
    lease_step s (s\<lparr>ls_barrier := drop_mutation_lease (ls_barrier s), ls_mutations := ls_mutations s - 1\<rparr>)"
| drop_install: "0 < ls_installs s \<Longrightarrow>
    lease_step s (s\<lparr>ls_barrier := drop_install_lease (ls_barrier s), ls_installs := ls_installs s - 1\<rparr>)"

definition lease_init :: "lease_state \<Rightarrow> bool" where
  "lease_init s \<longleftrightarrow> s = \<lparr>ls_barrier = \<lparr>ub_install_or_restart_reserved = False,
     ub_active_project_mutations = 0, ub_poisoned = False\<rparr>, ls_mutations = 0, ls_installs = 0\<rparr>"

definition lease_inv :: "lease_state \<Rightarrow> bool" where
  "lease_inv s \<longleftrightarrow> \<not> ub_poisoned (ls_barrier s) \<and>
     ub_active_project_mutations (ls_barrier s) = ls_mutations s \<and>
     ls_installs s = (if ub_install_or_restart_reserved (ls_barrier s) then 1 else 0) \<and>
     (ls_installs s = 0 \<or> ls_mutations s = 0)"

lemmas barrier_defs = enter_project_mutation_def reserve_install_or_restart_def
  drop_mutation_lease_def drop_install_lease_def

interpretation lease_machine: invariant_machine lease_init lease_step lease_inv
proof unfold_locales
  fix s t
  assume "lease_inv s" and "lease_step s t"
  from this(2,1) show "lease_inv t"
    by (induction rule: lease_step.induct)
      (auto simp: lease_inv_def barrier_defs saturating_add_exact split: if_splits sum.splits)
qed (simp add: lease_init_def lease_inv_def)

text \<open>A lease that is taken and dropped leaves the barrier as it was.\<close>

lemma enter_then_drop:
  "enter_project_mutation b = Inr c \<Longrightarrow> ub_active_project_mutations b < u64_max \<Longrightarrow>
   drop_mutation_lease c = b"
  by (cases b) (auto simp: barrier_defs saturating_add_exact split: if_splits)

section \<open>The registry invariant\<close>

definition registry_inv :: "'x confirmation_registry \<Rightarrow> bool" where
  "registry_inv r \<longleftrightarrow> cf_cancel_requested r \<subseteq> cf_executing r \<and>
     (\<forall>i st. find_action i r = Some st \<longrightarrow> pa_id (sp_action st) = i \<and>
        is_ok (validate_execution_action_binding (sp_action st) (sp_execution st)))"

lemma find_action_simps [simp]:
  "find_action i (insert_action j st r) = (if i = j then Some st else find_action i r)"
  "find_action i (remove_action j r) = (if i = j then None else find_action i r)"
  "find_action i (r\<lparr>cf_barrier := b\<rparr>) = find_action i r"
  "find_action i (r\<lparr>cf_executing := x\<rparr>) = find_action i r"
  "find_action i (r\<lparr>cf_cancel_requested := x\<rparr>) = find_action i r"
  by (simp_all add: find_action_def insert_action_def remove_action_def update_conv' delete_conv')

lemma action_frame [simp]:
  "cf_executing (insert_action j st r) = cf_executing r"
  "cf_executing (remove_action j r) = cf_executing r"
  "cf_cancel_requested (insert_action j st r) = cf_cancel_requested r"
  "cf_cancel_requested (remove_action j r) = cf_cancel_requested r"
  "cf_barrier (insert_action j st r) = cf_barrier r" "cf_barrier (remove_action j r) = cf_barrier r"
  "cf_poisoned (insert_action j st r) = cf_poisoned r" "cf_poisoned (remove_action j r) = cf_poisoned r"
  by (simp_all add: insert_action_def remove_action_def)

lemma with_admission_cases:
  assumes "with_admission body r = (x, r')"
  obtains (refused) e where "enter_project_mutation (cf_barrier r) = Inl e" "x = Inl e" "r' = r"
  | (admitted) b r1 where "enter_project_mutation (cf_barrier r) = Inr b"
      "body (r\<lparr>cf_barrier := b\<rparr>) = (x, r1)"
      "r' = r1\<lparr>cf_barrier := drop_mutation_lease (cf_barrier r1)\<rparr>"
  using assms that by (auto simp: with_admission_def split: sum.splits prod.splits)

lemma admission_keeps_inv:
  assumes "with_admission body r = (x, r')" and "registry_inv r"
    and "\<And>r x r'. registry_inv r \<Longrightarrow> body r = (x, r') \<Longrightarrow> registry_inv r'"
  shows "registry_inv r'"
  using assms(1)
proof (cases rule: with_admission_cases)
  case refused
  with assms(2) show ?thesis by simp
next
  case (admitted b r1)
  from assms(2) have "registry_inv (r\<lparr>cf_barrier := b\<rparr>)" by (simp add: registry_inv_def)
  from assms(3) [OF this admitted(2)] admitted(3) show ?thesis by (simp add: registry_inv_def)
qed

datatype 'x registry_command =
    Register pending_action "'x confirmation_execution option"
  | RegisterIdempotent pending_action "'x confirmation_execution"
  | RegisterExpiring pending_action "'x confirmation_execution" string
  | Restore pending_action "'x confirmation_execution"
  | Confirm string confirmation_status
  | Peek string
  | Claim string
  | ClaimExact string "'x confirmation_execution"
  | CancelExact string "'x confirmation_execution"
  | FinishClaim string bool
  | Consume string
  | CancelWorkflow project_context "'x workflow_run" workflow_pending_action
  | RemoveExact string "'x confirmation_execution"

fun run_registry ::
  "confirmation_env \<Rightarrow> 'x registry_command \<Rightarrow> 'x confirmation_registry \<Rightarrow> 'x confirmation_registry" where
  "run_registry v (Register a x) r = snd (register_with_execution a x r)"
| "run_registry v (RegisterIdempotent a x) r = snd (register_idempotent_with_execution a x r)"
| "run_registry v (RegisterExpiring a x t) r =
     snd (register_idempotent_expiring_with_execution v a x t r)"
| "run_registry v (Restore a x) r = snd (restore_with_execution v a x r)"
| "run_registry v (Confirm i st) r = snd (confirm v i st r)"
| "run_registry v (Peek i) r = snd (peek v i r)"
| "run_registry v (Claim i) r = snd (claim v i r)"
| "run_registry v (ClaimExact i x) r = snd (claim_exact_execution v i x r)"
| "run_registry v (CancelExact i x) r = snd (cancel_exact_execution v i x r)"
| "run_registry v (FinishClaim i c) r = snd (finish_claim i c r)"
| "run_registry v (Consume i) r = snd (consume i r)"
| "run_registry v (CancelWorkflow ctx run p) r = snd (cancel_workflow_binding v ctx run p r)"
| "run_registry v (RemoveExact i x) r = snd (remove_exact_execution i x r)"

lemma validate_ignores_expiry [simp]:
  "validate_execution_action_binding (a\<lparr>pa_expires_at := t\<rparr>) x =
   validate_execution_action_binding a x"
  by (simp add: validate_execution_action_binding_def split: option.splits confirmation_execution.splits)

text \<open>What a restoration stores is validated against the stored action, too.\<close>

lemma validate_same_checkpoint:
  "pa_id a = pa_id b \<Longrightarrow> pa_checkpoint_hash a = pa_checkpoint_hash b \<Longrightarrow>
   is_ok (validate_execution_action_binding a x) = is_ok (validate_execution_action_binding b x)"
  by (simp add: validate_execution_action_binding_def split: option.splits confirmation_execution.splits)

lemma lookup_unexpired_inv:
  "lookup_unexpired v e i r = (x, r') \<Longrightarrow> registry_inv r \<Longrightarrow> registry_inv r'"
  by (auto simp: lookup_unexpired_def registry_inv_def split: option.splits sum.splits if_splits)

lemma ok_sym: "Inr v = r \<Longrightarrow> is_ok r"
  by auto

lemma register_inv [inv_intros]:
  "register_with_execution a x r = (y, r') \<Longrightarrow> registry_inv r \<Longrightarrow> registry_inv r'"
  unfolding register_with_execution_def
  by (erule admission_keeps_inv) (auto simp: registry_inv_def dest: ok_sym split: sum.splits if_splits)

lemma register_idempotent_inv [inv_intros]:
  "register_idempotent_with_execution a x r = (y, r') \<Longrightarrow> registry_inv r \<Longrightarrow> registry_inv r'"
  unfolding register_idempotent_with_execution_def
  by (erule admission_keeps_inv)
    (auto simp: registry_inv_def Let_def dest: ok_sym split: sum.splits if_splits option.splits)

lemma register_expiring_inv [inv_intros]:
  "register_idempotent_expiring_with_execution v a x t r = (y, r') \<Longrightarrow> registry_inv r \<Longrightarrow> registry_inv r'"
  unfolding register_idempotent_expiring_with_execution_def
  by (erule admission_keeps_inv)
    (auto simp: registry_inv_def Let_def dest: ok_sym split: sum.splits if_splits option.splits)

lemma restore_admitted_inv:
  assumes "restore_admitted v a x r = (y, r')" and inv: "registry_inv r"
  shows "registry_inv r'"
proof (cases "r' = r")
  case False
  with assms(1) have ok: "validate_execution_action_binding a (Some x) = Inr ()"
    by (auto simp: restore_admitted_def split: sum.splits)
  show ?thesis
  proof (cases "find_action (pa_id a) r")
    case None
    with False assms(1) ok
    have "r' = insert_action (pa_id a) \<lparr>sp_action = a, sp_execution = Some x\<rparr> r"
      by (auto simp: restore_admitted_def split: if_splits)
    with inv ok show ?thesis by (auto simp: registry_inv_def)
  next
    case (Some st)
    with inv have i: "pa_id (sp_action st) = pa_id a" by (simp add: registry_inv_def)
    with False assms(1) Some have "r' = insert_action (pa_id a) (st\<lparr>sp_execution := Some x\<rparr>) r"
      and c: "pa_checkpoint_hash (sp_action st) = pa_checkpoint_hash a"
      using ok by (auto simp: restore_admitted_def Let_def split: if_splits)
    with inv i validate_same_checkpoint [OF i c, of "Some x"] ok show ?thesis
      by (auto simp: registry_inv_def)
  qed
qed (use inv in simp)

lemma restore_inv [inv_intros]:
  "restore_with_execution v a x r = (y, r') \<Longrightarrow> registry_inv r \<Longrightarrow> registry_inv r'"
  unfolding restore_with_execution_def by (erule admission_keeps_inv) (auto intro: restore_admitted_inv)

lemma claim_inv [inv_intros]: "claim_inner v i x r = (y, r') \<Longrightarrow> registry_inv r \<Longrightarrow> registry_inv r'"
  unfolding claim_inner_def
proof (erule admission_keeps_inv)
  fix r :: "'a confirmation_registry" and y r'
  assume inv: "registry_inv r" and c: "claim_admitted v i x r = (y, r')"
  obtain z r1 where l: "lookup_unexpired v (confirmation_not_found i) i r = (z, r1)" by fastforce
  note inv1 = lookup_unexpired_inv [OF l inv]
  then have "registry_inv (r1\<lparr>cf_executing := insert i (cf_executing r1)\<rparr>)"
    by (auto simp: registry_inv_def)
  with c inv inv1 l show "registry_inv r'"
    by (auto simp: claim_admitted_def split: if_splits sum.splits)
qed

lemma cancel_exact_inv [inv_intros]:
  "cancel_exact_execution v i x r = (y, r') \<Longrightarrow> registry_inv r \<Longrightarrow> registry_inv r'"
proof -
  assume c: "cancel_exact_execution v i x r = (y, r')" and inv: "registry_inv r"
  obtain z r1 where l: "lookup_unexpired v (confirmation_not_found i) i r = (z, r1)" by fastforce
  note inv1 = lookup_unexpired_inv [OF l inv]
  then have "registry_inv (remove_action i r1)"
    and "i \<in> cf_executing r1 \<Longrightarrow> registry_inv (r1\<lparr>cf_cancel_requested := insert i (cf_cancel_requested r1)\<rparr>)"
    by (auto simp: registry_inv_def)
  with c inv inv1 l show "registry_inv r'"
    by (auto simp: cancel_exact_execution_def split: if_splits sum.splits)
qed

lemma confirm_inv [inv_intros]: "confirm v i st r = (y, r') \<Longrightarrow> registry_inv r \<Longrightarrow> registry_inv r'"
  by (auto simp: confirm_def registry_inv_def split: if_splits option.splits sum.splits)

lemma finish_inv [inv_intros]:
  "finish_claim_with_disposition i c r = (y, r') \<Longrightarrow> registry_inv r \<Longrightarrow> registry_inv r'"
  by (auto simp: finish_claim_with_disposition_def registry_inv_def Let_def split: if_splits option.splits)

lemma remove_inv [inv_intros]:
  "consume i r = (y, r') \<Longrightarrow> registry_inv r \<Longrightarrow> registry_inv r'"
  "remove_exact_execution i x r = (z, r') \<Longrightarrow> registry_inv r \<Longrightarrow> registry_inv r'"
  "cancel_workflow_binding v ctx run p r = (z, r') \<Longrightarrow> registry_inv r \<Longrightarrow> registry_inv r'"
  by (auto simp: consume_def remove_exact_execution_def cancel_workflow_binding_def registry_inv_def
      Let_def split: if_splits option.splits)

lemma run_registry_inv: "registry_inv r \<Longrightarrow> registry_inv (run_registry v cmd r)"
  by (cases cmd) (auto simp: claim_def claim_exact_execution_def peek_def finish_claim_def
      intro: inv_intros lookup_unexpired_inv prod.collapse [symmetric] split: prod.splits sum.splits)

interpretation registry_machine: invariant_machine
  "\<lambda>r. cf_actions r = [] \<and> cf_executing r = {} \<and> cf_cancel_requested r = {}"
  "\<lambda>r r'. \<exists>v cmd. r' = run_registry v cmd r" registry_inv
  by unfold_locales (simp add: registry_inv_def find_action_def, blast intro: run_registry_inv)

text \<open>Only \<open>finish_claim\<close> takes an executing mark away, and only the one it names.\<close>

lemma admission_keeps_executing:
  "(\<And>r. cf_executing r \<subseteq> cf_executing (snd (body r))) \<Longrightarrow>
   cf_executing r \<subseteq> cf_executing (snd (with_admission body r))"
proof (cases "enter_project_mutation (cf_barrier r)")
  case (Inr b)
  assume "\<And>r. cf_executing r \<subseteq> cf_executing (snd (body r))"
  from this [of "r\<lparr>cf_barrier := b\<rparr>"] Inr show ?thesis
    by (simp add: with_admission_def split_def Let_def)
qed (simp add: with_admission_def)

lemma lookup_executing: "cf_executing (snd (lookup_unexpired v e i r)) = cf_executing r"
  by (simp add: lookup_unexpired_def split: option.split sum.split)

lemma claim_admitted_executing:
  "cf_executing r \<subseteq> cf_executing (snd (claim_admitted v i x r))"
  using lookup_executing [of v "confirmation_not_found i" i r]
  by (auto simp: claim_admitted_def split: prod.split sum.split)

lemma register_executing:
  "cf_executing r \<subseteq> cf_executing (snd (register_with_execution a x r))"
  "cf_executing r \<subseteq> cf_executing (snd (register_idempotent_with_execution a y r))"
  "cf_executing r \<subseteq> cf_executing (snd (register_idempotent_expiring_with_execution v a y t r))"
  "cf_executing r \<subseteq> cf_executing (snd (restore_with_execution v a y r))"
  unfolding register_with_execution_def register_idempotent_with_execution_def
    register_idempotent_expiring_with_execution_def restore_with_execution_def
  by (rule admission_keeps_executing; auto simp: Let_def restore_admitted_def
      split: option.splits sum.splits)+

lemma removal_executing:
  "cf_executing (snd (confirm v i st r)) = cf_executing r"
  "cf_executing (snd (peek v i r)) = cf_executing r"
  "cf_executing (snd (consume i r)) = cf_executing r"
  by (simp_all add: confirm_def peek_def lookup_executing consume_def split: option.split sum.split)

lemma exact_removal_executing:
  "cf_executing (snd (cancel_workflow_binding v ctx run p r)) = cf_executing r"
  "cf_executing (snd (remove_exact_execution i y r)) = cf_executing r"
  by (simp_all add: cancel_workflow_binding_def remove_exact_execution_def Let_def)

lemma cancel_exact_executing:
  "cf_executing (snd (cancel_exact_execution v i y r)) = cf_executing r"
proof -
  obtain x r1 where l: "lookup_unexpired v (confirmation_not_found i) i r = (x, r1)" by fastforce
  then have "cf_executing r1 = cf_executing r"
    using lookup_executing [of v "confirmation_not_found i" i r] by simp
  with l show ?thesis by (simp add: cancel_exact_execution_def split: sum.split)
qed

lemma finish_executing: "cf_executing r - {i} \<subseteq> cf_executing (snd (finish_claim i c r))"
  by (auto simp: finish_claim_def finish_claim_with_disposition_def Let_def
      split: option.splits sum.splits prod.splits)

lemma run_registry_executing:
  assumes "i \<in> cf_executing r" and "\<And>c. cmd \<noteq> FinishClaim i c"
  shows "i \<in> cf_executing (run_registry v cmd r)"
proof (cases cmd)
  case (FinishClaim j c)
  with assms finish_executing [of r j c] show ?thesis by auto
qed (use assms(1) in \<open>simp_all add: claim_def claim_exact_execution_def claim_inner_def
    removal_executing exact_removal_executing cancel_exact_executing
    register_executing [THEN subsetD]
    admission_keeps_executing [OF claim_admitted_executing, THEN subsetD]\<close>)

lemma run_registry_steps_executing:
  "i \<in> cf_executing r \<Longrightarrow> \<forall>c. FinishClaim i c \<notin> snd ` set steps \<Longrightarrow>
   i \<in> cf_executing (fold (\<lambda>(w, cmd). run_registry w cmd) steps r)"
proof (induction steps arbitrary: r)
  case (Cons step steps)
  obtain w cmd where step: "step = (w, cmd)" by fastforce
  with Cons.prems(2) have "\<And>c. cmd \<noteq> FinishClaim i c" by auto
  from run_registry_executing [OF Cons.prems(1) this] Cons step show ?case by auto
qed simp

lemma claim_refused_while_executing:
  assumes "i \<in> cf_executing r"
  shows "\<not> is_ok (fst (claim_inner v i expected r))"
proof (cases "claim_inner v i expected r")
  case (Pair x r2)
  then have "with_admission (claim_admitted v i expected) r = (x, r2)" by (simp add: claim_inner_def)
  then show ?thesis
  proof (cases rule: with_admission_cases)
    case (admitted b r3)
    with assms show ?thesis unfolding Pair
      by (auto simp: claim_admitted_def lookup_unexpired_def split: if_splits option.splits sum.splits)
  next
    case (refused e)
    then show ?thesis by (simp add: Pair)
  qed
qed

section \<open>Properties\<close>

text \<open>
  C16: Whatever interleaving of project changes and update installs takes and drops leases, an
  install and a project change never hold leases together, at most one install is under way,
  and the barrier's counter is the number of changes in progress.
\<close>

theorem install_excludes_mutations:
  assumes "lease_init s0" and "lease_step\<^sup>*\<^sup>* s0 s"
  shows "(ls_installs s = 0 \<or> ls_mutations s = 0) \<and> ls_installs s \<le> 1 \<and>
     (ub_install_or_restart_reserved (ls_barrier s) \<longleftrightarrow> ls_installs s = 1) \<and>
     ub_active_project_mutations (ls_barrier s) = ls_mutations s"
  using lease_machine.inv_reachable [OF assms] by (auto simp: lease_inv_def)

theorem install_excludes_mutations_witness:
  "\<exists>s0 s. lease_init s0 \<and> lease_step\<^sup>*\<^sup>* s0 s \<and> ls_mutations s = 1 \<and> ls_installs s = 0"
proof -
  define s0 :: lease_state where "s0 = \<lparr>ls_barrier = \<lparr>ub_install_or_restart_reserved = False,
     ub_active_project_mutations = 0, ub_poisoned = False\<rparr>, ls_mutations = 0, ls_installs = 0\<rparr>"
  let ?s = "s0\<lparr>ls_barrier := (ls_barrier s0)\<lparr>ub_active_project_mutations := 1\<rparr>, ls_mutations := 1\<rparr>"
  have "lease_step s0 (s0\<lparr>ls_barrier := (ls_barrier s0)\<lparr>ub_active_project_mutations := 1\<rparr>,
      ls_mutations := ls_mutations s0 + 1\<rparr>)"
    by (rule lease_step.enter) (simp_all add: s0_def enter_project_mutation_def saturating_add_def u64_max_def)
  then have "lease_step\<^sup>*\<^sup>* s0 ?s" by (simp add: s0_def)
  moreover have i: "lease_init s0" by (simp add: s0_def lease_init_def)
  ultimately show ?thesis using install_excludes_mutations [OF i, of ?s]
    by (intro exI [of _ s0] exI [of _ ?s]) auto
qed

text \<open>
  C9: In every state reached from an empty registry, each pending action is stored under its
  own id with an execution binding that fits it (a review's action id and checkpoint), and a
  cancellation is remembered only for an action that is executing.
\<close>

theorem registry_always_consistent:
  assumes "cf_actions r0 = [] \<and> cf_executing r0 = {} \<and> cf_cancel_requested r0 = {}"
    and "(\<lambda>r r'. \<exists>v cmd. r' = run_registry v cmd r)\<^sup>*\<^sup>* r0 r"
  shows "cf_cancel_requested r \<subseteq> cf_executing r \<and>
     (\<forall>i st. find_action i r = Some st \<longrightarrow> pa_id (sp_action st) = i \<and>
        validate_execution_action_binding (sp_action st) (sp_execution st) = Inr ())"
  using registry_machine.inv_reachable [OF assms] by (auto simp: registry_inv_def is_ok_iff)

definition empty_registry :: "unit confirmation_registry" where
  "empty_registry = \<lparr>cf_actions = [], cf_executing = {}, cf_cancel_requested = {},
     cf_barrier = \<lparr>ub_install_or_restart_reserved = False, ub_active_project_mutations = 0,
       ub_poisoned = False\<rparr>, cf_poisoned = (\<lambda>_. False)\<rparr>"

definition sample_action :: pending_action where
  "sample_action = \<lparr>pa_id = ''act'', pa_action_type = AgentAutoFix, pa_title = ''Review'',
     pa_message = ''Apply?'', pa_risk_level = High, pa_affected_paths = [''wiki/a.md''],
     pa_preview = None, pa_expires_at = Some ''t'', pa_checkpoint_hash = Some ''c''\<rparr>"

definition sample_binding :: agent_lint_repair_review_binding where
  "sample_binding = \<lparr>rb_project_id = ''p'', rb_root_path = ''/p'', rb_canonical_identity_key = ''k'',
     rb_identity_revision = ''r'', rb_task_id = ''t'', rb_round = 1, rb_candidate_id = ''x'',
     rb_candidate_revision = ''1'', rb_manifest_revision = ''1'', rb_baseline_fingerprint = ''b'',
     rb_checkpoint_hash = ''c'', rb_action_id = ''act'', rb_action_revision = ''1''\<rparr>"

definition sample_time :: "int \<Rightarrow> confirmation_env" where
  "sample_time now = \<lparr>cv_parse_from_rfc3339 = (\<lambda>_. Inr 10), cv_now = now, cv_canonicalize = Some\<rparr>"

definition review_registry :: "unit confirmation_registry" where
  "review_registry = empty_registry\<lparr>cf_actions := [(''act'', \<lparr>sp_action = sample_action,
     sp_execution = Some (ExecAgentLintRepairReview sample_binding)\<rparr>)]\<rparr>"

lemmas registry_eval = empty_registry_def sample_action_def sample_binding_def sample_time_def
  review_registry_def with_admission_def barrier_defs find_action_def insert_action_def
  remove_action_def validate_execution_action_binding_def reject_if_expired_def

theorem registry_always_consistent_witness:
  "\<exists>st. find_action ''act'' (run_registry (sample_time 5) (Register sample_action
     (Some (ExecAgentLintRepairReview sample_binding))) empty_registry) = Some st \<and>
     pa_id (sp_action st) = ''act''"
proof -
  let ?cmd = "Register sample_action (Some (ExecAgentLintRepairReview sample_binding))"
  let ?r = "run_registry (sample_time 5) ?cmd empty_registry"
  have s: "(\<lambda>r r'. \<exists>v cmd. r' = run_registry v cmd r)\<^sup>*\<^sup>* empty_registry ?r"
    by (rule r_into_rtranclp) blast
  have i: "cf_actions empty_registry = [] \<and> cf_executing empty_registry = {} \<and>
      cf_cancel_requested empty_registry = {}" by (simp add: empty_registry_def)
  obtain st where st: "find_action ''act'' ?r = Some st"
    by (simp add: registry_eval register_with_execution_def)
  with registry_always_consistent [OF i s] show ?thesis by blast
qed

text \<open>
  C10: A claim is exclusive: it succeeds only for a pending, unexpired action nobody is
  executing, marks it, and keeps it in the registry. From then on, through any sequence of
  registry operations (registrations, restorations, confirmations, further claims, consumption
  and cancellations of this and of other actions, finished claims of other actions) in which
  nobody finishes the claim, the mark stays and every further claim of the action fails,
  however it names the execution.
\<close>

theorem claim_is_exclusive:
  assumes "claim_inner v i expected r = (Inr st, r')"
    and "\<forall>c. FinishClaim i c \<notin> snd ` set steps"
  shows "find_action i r = Some st \<and> reject_if_expired v (sp_action st) = Inr () \<and>
     i \<notin> cf_executing r \<and> cf_executing r' = insert i (cf_executing r) \<and> cf_actions r' = cf_actions r \<and>
     i \<in> cf_executing (fold (\<lambda>(w, cmd). run_registry w cmd) steps r') \<and>
     \<not> is_ok (fst (claim_inner v' i expected' (fold (\<lambda>(w, cmd). run_registry w cmd) steps r')))"
proof -
  from assms(1) obtain b r1 where b: "enter_project_mutation (cf_barrier r) = Inr b"
    and c: "claim_admitted v i expected (r\<lparr>cf_barrier := b\<rparr>) = (Inr st, r1)"
    and r': "r' = r1\<lparr>cf_barrier := drop_mutation_lease (cf_barrier r1)\<rparr>"
    unfolding claim_inner_def by (cases rule: with_admission_cases) auto
  from c have first: "find_action i r = Some st \<and> reject_if_expired v (sp_action st) = Inr () \<and>
      i \<notin> cf_executing r \<and> r1 = r\<lparr>cf_barrier := b, cf_executing := insert i (cf_executing r)\<rparr>"
    by (auto simp: claim_admitted_def lookup_unexpired_def split: if_splits option.splits sum.splits)
  with r' have "i \<in> cf_executing r'" by simp
  from run_registry_steps_executing [OF this assms(2)] first r' show ?thesis
    by (simp add: claim_refused_while_executing)
qed

theorem claim_is_exclusive_witness:
  "\<not> is_ok (fst (claim_inner (sample_time 5) ''act'' None (fold (\<lambda>(w, cmd). run_registry w cmd)
     [(sample_time 5, Claim ''act''), (sample_time 6, Confirm ''act'' StatusCancelled),
      (sample_time 6, FinishClaim ''other'' True), (sample_time 7, Peek ''act'')]
     (snd (claim_inner (sample_time 5) ''act''
       (Some (ExecAgentLintRepairReview sample_binding)) review_registry)))))"
proof -
  let ?r = "claim_inner (sample_time 5) ''act'' (Some (ExecAgentLintRepairReview sample_binding)) review_registry"
  obtain st where "fst ?r = Inr st"
    by (simp add: registry_eval claim_inner_def claim_admitted_def lookup_unexpired_def is_review_def)
  then have r: "?r = (Inr st, snd ?r)" by (simp add: prod_eq_iff)
  show ?thesis by (rule claim_is_exclusive [OF r, THEN conjunct2, THEN conjunct2, THEN conjunct2,
      THEN conjunct2, THEN conjunct2, THEN conjunct2]) simp
qed

text \<open>
  A dangerous repair review is never decided by its id alone: a plain claim and a plain
  confirm or cancel are refused and change nothing, and an exact claim or cancel succeeds only
  with the very binding that is stored.
\<close>

theorem review_needs_exact_binding:
  assumes "find_action i r = Some st" and "sp_execution st = Some (ExecAgentLintRepairReview b)"
    and "registry_inv r" and "reject_if_expired v (sp_action st) = Inr ()"
  shows "\<not> is_ok (fst (claim v i r)) \<and> cf_executing (snd (claim v i r)) = cf_executing r \<and>
     cf_actions (snd (claim v i r)) = cf_actions r \<and>
     \<not> is_ok (fst (confirm v i decision r)) \<and> snd (confirm v i decision r) = r \<and>
     (is_ok (fst (claim_exact_execution v i x r)) \<longrightarrow> x = ExecAgentLintRepairReview b) \<and>
     (is_ok (fst (cancel_exact_execution v i x r)) \<longrightarrow> x = ExecAgentLintRepairReview b)"
proof -
  have ok: "validate_execution_action_binding (sp_action st) (sp_execution st) = Inr ()"
    using assms(1,3) by (auto simp: registry_inv_def is_ok_iff)
  have adm: "claim_admitted v i y (r\<lparr>cf_barrier := c\<rparr>) =
      (if cf_poisoned r ActionsLock then (Inl registry_locked, r\<lparr>cf_barrier := c\<rparr>)
       else if y = None then (Inl (confirmation_exact_execution_required i), r\<lparr>cf_barrier := c\<rparr>)
       else if Some (ExecAgentLintRepairReview b) \<noteq> y
       then (Inl (confirmation_execution_mismatch i), r\<lparr>cf_barrier := c\<rparr>)
       else if cf_poisoned r ExecutingLock then (Inl registry_locked, r\<lparr>cf_barrier := c\<rparr>)
       else if i \<in> cf_executing r then (Inl (confirmation_in_use i), r\<lparr>cf_barrier := c\<rparr>)
       else (Inr st, r\<lparr>cf_barrier := c, cf_executing := insert i (cf_executing r)\<rparr>))" for y c
    using assms(1,2,4) ok by (simp add: claim_admitted_def lookup_unexpired_def is_review_def)
  have "\<not> is_ok (fst (claim v i r)) \<and> cf_executing (snd (claim v i r)) = cf_executing r \<and>
     cf_actions (snd (claim v i r)) = cf_actions r"
    by (simp add: claim_def claim_inner_def with_admission_def adm split: sum.splits)
  moreover have "is_ok (fst (claim_exact_execution v i x r)) \<longrightarrow> x = ExecAgentLintRepairReview b"
    by (simp add: claim_exact_execution_def claim_inner_def with_admission_def adm split: sum.splits)
  moreover have "is_ok (fst (cancel_exact_execution v i x r)) \<longrightarrow> x = ExecAgentLintRepairReview b"
    using assms(1,2,4) ok by (simp add: cancel_exact_execution_def lookup_unexpired_def)
  moreover have "\<not> is_ok (fst (confirm v i decision r)) \<and> snd (confirm v i decision r) = r"
    using assms(1,2) by (simp add: confirm_def is_review_def)
  ultimately show ?thesis by blast
qed

theorem review_needs_exact_binding_witness:
  "\<not> is_ok (fst (claim (sample_time 5) ''act'' review_registry)) \<and>
   \<not> is_ok (fst (confirm (sample_time 5) ''act'' StatusConfirmed review_registry))"
proof -
  obtain st where st: "find_action ''act'' review_registry = Some st"
    "sp_execution st = Some (ExecAgentLintRepairReview sample_binding)"
    "reject_if_expired (sample_time 5) (sp_action st) = Inr ()" by (simp add: registry_eval)
  have "registry_inv review_registry" by (simp add: registry_inv_def registry_eval)
  from review_needs_exact_binding [OF st(1,2) this st(3), of StatusConfirmed] show ?thesis by simp
qed

text \<open>
  A cancellation that arrives while an action executes is not lost: the call itself is
  refused because the action is in use, but when the claim is finished, even one that asks to
  keep the action for a retry, the caller is told of the cancellation and the action is gone.
\<close>

theorem cancel_during_execution_is_remembered:
  assumes "find_action i r = Some st" and "i \<in> cf_executing r" and "\<And>l. \<not> cf_poisoned r l"
    and "\<not> is_review (sp_execution st)"
  shows "let r1 = snd (confirm v i StatusCancelled r);
           (d, r2) = finish_claim_with_disposition i keep r1
     in fst (confirm v i StatusCancelled r) = Inl (confirmation_in_use i) \<and> d = Inr CancelRequested \<and>
        find_action i r2 = None \<and> i \<notin> cf_executing r2 \<and> i \<notin> cf_cancel_requested r2 \<and>
        (\<forall>j. j \<noteq> i \<longrightarrow> find_action j r2 = find_action j r \<and> (j \<in> cf_executing r2 \<longleftrightarrow> j \<in> cf_executing r))"
  using assms by (simp add: confirm_def finish_claim_with_disposition_def Let_def)

definition overwrite_registry :: "unit confirmation_registry" where
  "overwrite_registry = review_registry\<lparr>cf_actions := [(''act'', \<lparr>sp_action = sample_action,
     sp_execution = Some (ExecDeleteWikiPage ''p'' ''/p'' ''wiki/a.md'' ''h'')\<rparr>)],
     cf_executing := {''act''}\<rparr>"

theorem cancel_during_execution_is_remembered_witness:
  "find_action ''act'' (snd (finish_claim_with_disposition ''act'' False
     (snd (confirm (sample_time 5) ''act'' StatusCancelled overwrite_registry)))) = None"
proof -
  obtain st where st: "find_action ''act'' overwrite_registry = Some st" "\<not> is_review (sp_execution st)"
    by (simp add: overwrite_registry_def find_action_def is_review_def)
  have "''act'' \<in> cf_executing overwrite_registry" "\<And>l. \<not> cf_poisoned overwrite_registry l"
    by (simp_all add: overwrite_registry_def review_registry_def empty_registry_def)
  from cancel_during_execution_is_remembered [OF st(1) this st(2), of "sample_time 5" False]
  show ?thesis by (simp add: Let_def split_def)
qed

text \<open>
  Registering a preparation again is safe: after a successful idempotent registration the
  same call answers Existing and leaves the pending actions as they are, and the same id with a
  different action or execution is refused.
\<close>

theorem idempotent_registration:
  assumes "register_idempotent_with_execution a x r = (Inr y, r')"
    and "ub_active_project_mutations (cf_barrier r) < u64_max"
  shows "find_action (pa_id a) r' = Some \<lparr>sp_action = a, sp_execution = Some x\<rparr> \<and>
     fst (register_idempotent_with_execution a x r') = Inr Existing \<and>
     cf_actions (snd (register_idempotent_with_execution a x r')) = cf_actions r' \<and>
     (\<forall>b z. pa_id b = pa_id a \<and> (b, z) \<noteq> (a, x) \<longrightarrow>
        \<not> is_ok (fst (register_idempotent_with_execution b z r')))"
proof -
  from assms obtain c where c: "enter_project_mutation (cf_barrier r) = Inr c"
    and ok: "validate_execution_action_binding a (Some x) = Inr ()" and p: "\<not> cf_poisoned r ActionsLock"
    and f: "find_action (pa_id a) r' = Some \<lparr>sp_action = a, sp_execution = Some x\<rparr>"
    and r': "cf_poisoned r' = cf_poisoned r" "cf_barrier r' = drop_mutation_lease c"
    by (auto simp: register_idempotent_with_execution_def with_admission_def Let_def
        split: sum.splits if_splits option.splits prod.splits)
  have b: "cf_barrier r' = cf_barrier r" using enter_then_drop [OF c assms(2)] r'(2) by simp
  show ?thesis using f ok p c r'(1) b
    by (auto simp: register_idempotent_with_execution_def with_admission_def Let_def split: sum.splits)
qed

theorem idempotent_registration_witness:
  "fst (register_idempotent_with_execution sample_action (ExecAgentLintRepairReview sample_binding)
     (snd (register_idempotent_with_execution sample_action (ExecAgentLintRepairReview sample_binding)
       empty_registry))) = Inr Existing"
proof -
  let ?x = "ExecAgentLintRepairReview sample_binding :: unit confirmation_execution"
  let ?r = "register_idempotent_with_execution sample_action ?x empty_registry"
  have "fst ?r = Inr Registered"
    by (simp add: registry_eval register_idempotent_with_execution_def)
  then have r: "?r = (Inr Registered, snd ?r)" by (simp add: prod_eq_iff)
  have "ub_active_project_mutations (cf_barrier empty_registry) < u64_max"
    by (simp add: empty_registry_def)
  from idempotent_registration [OF r this] show ?thesis by simp
qed

fun binding_facts :: "'x confirmation_execution \<Rightarrow> (string \<times> string \<times> string \<times> string) option" where
  "binding_facts (ExecAgentLintRepairReview b) = Some (rb_canonical_identity_key b,
     rb_identity_revision b, rb_task_id b, rb_action_id b)"
| "binding_facts (ExecGenerateContentOverwrite p root key irev task act cand) = Some (key, irev, task, act)"
| "binding_facts (ExecUpdateWikiReview p root key irev task act cand) = Some (key, irev, task, act)"
| "binding_facts _ = None"

text \<open>
  Restoring a persisted confirmation onto a pending one keeps the authority it was given
  for: the user-visible action stays the stored one, and the binding that replaces the stored
  one agrees with it on the canonical identity, the identity revision, the task, the action and
  the candidate; only the runtime project id and an equivalent spelling of the root may change.
\<close>

theorem restore_keeps_authority:
  assumes "restore_with_execution v a x r = (Inr (), r')" and "find_action (pa_id a) r = Some st"
  shows "\<exists>st'. find_action (pa_id a) r' = Some st' \<and> sp_action st' = sp_action st \<and>
     sp_execution st' = Some x \<and>
     (\<exists>y. sp_execution st = Some y \<and> binding_facts y = binding_facts x \<and> binding_facts y \<noteq> None) \<and>
     (\<forall>j. j \<noteq> pa_id a \<longrightarrow> find_action j r' = find_action j r)"
proof -
  from assms(1) obtain b r1 where
    c: "restore_admitted v a x (r\<lparr>cf_barrier := b\<rparr>) = (Inr (), r1)"
    and r': "r' = r1\<lparr>cf_barrier := drop_mutation_lease (cf_barrier r1)\<rparr>"
    unfolding restore_with_execution_def by (cases rule: with_admission_cases) auto
  from c assms(2) have m: "restoration_binding_matches v (sp_execution st) x"
    and f: "find_action (pa_id a) r1 = Some (st\<lparr>sp_execution := Some x\<rparr>) \<and>
      (\<forall>j. j \<noteq> pa_id a \<longrightarrow> find_action j r1 = find_action j r)"
    by (auto simp: restore_admitted_def Let_def split: sum.splits if_splits)
  from m obtain y where y: "sp_execution st = Some y" "binding_facts y = binding_facts x"
    "binding_facts y \<noteq> None"
    by (cases "sp_execution st") (auto simp: restoration_binding_matches_def
        split: confirmation_execution.splits)
  with f r' show ?thesis by auto
qed

theorem restore_keeps_authority_witness:
  "\<exists>st'. find_action ''act'' (snd (restore_with_execution (sample_time 5) sample_action
     (ExecAgentLintRepairReview (sample_binding\<lparr>rb_project_id := ''q''\<rparr>)) review_registry)) = Some st' \<and>
     sp_execution st' = Some (ExecAgentLintRepairReview (sample_binding\<lparr>rb_project_id := ''q''\<rparr>))"
proof -
  let ?x = "ExecAgentLintRepairReview (sample_binding\<lparr>rb_project_id := ''q''\<rparr>) :: unit confirmation_execution"
  let ?r = "restore_with_execution (sample_time 5) sample_action ?x review_registry"
  have "fst ?r = Inr ()"
    by (simp add: registry_eval restore_with_execution_def restore_admitted_def
        restoration_binding_matches_def canonical_roots_match_def)
  then have r: "?r = (Inr (), snd ?r)" by (simp add: prod_eq_iff)
  obtain st where "find_action (pa_id sample_action) review_registry = Some st"
    by (simp add: registry_eval)
  from restore_keeps_authority [OF r this] show ?thesis by (auto simp: sample_action_def)
qed



end
