(* ===== verification/Import_Model.thy ===== *)
theory Import_Model
  imports Workflow_Model
begin

text \<open>
  The import data model (\<open>models/import_v2.rs\<close>): the status machine of an import item, the
  issues reported to the user with their recovery actions, the frontmatter contract of a
  committed source page, and the batch accounting of \<open>services/import_v2/execution_control.rs\<close>.

  Previews, quality reports and diagnostics are carried and not inspected here: they are the
  type variable \<open>'x\<close>.
\<close>

section \<open>Data\<close>

datatype import_resource_mode = Balanced | Performance | Saver
datatype import_input_kind = FileInput | FolderInput | UrlInput | ClipboardTextInput
datatype media_save_mode = PreserveOriginal | ExtractOnly

datatype import_session_status =
    SessionDraft | SessionProcessing | SessionWaitingForConfirmation | SessionPartiallyCommitted
  | SessionCompleted | SessionCancelled

datatype import_item_status =
    ItemQueued | Inspecting | WaitingCapability | WaitingLogin | WaitingAuthorization
  | Extracting | Validating | PreviewReady | NeedsMerge | Committing | ItemCompleted | Paused
  | ItemCancelled | ItemSkipped | ItemFailed

datatype import_stage = StageInspect | StageRoute | StageExtract | StageValidate | StageCommit

datatype import_recovery_action =
    InstallCapability | Retry | SwitchParser | EnableOcr | InvokeAgent | Skip | ViewLog
  | RetryRoute | SwitchRoute | BeginLogin | AuthorizePrivateTarget | InstallBrowserCapability
  | InstallMediaCapability | InstallOcrCapability | AuthorizeLocalAsr | SelectSubtitle

datatype agent_recovery_action = InvokeLocalAgent | CompareCandidate | DiscardCandidate

record source_identity =
  si_canonical_path :: string
  si_size_bytes :: nat
  si_modified_nanos :: "nat option"
  si_file_id :: "string option"
  si_sha256 :: string
  si_magic :: string

record import_input =
  ii_kind :: import_input_kind
  ii_display_name :: string
  ii_locator :: string
  ii_normalized_locator :: "string option"
  ii_source_identity :: "source_identity option"
  ii_media_save_mode :: media_save_mode

record import_issue =
  is_code :: string
  is_message :: string
  is_stage :: import_stage
  is_retryable :: bool
  is_user_action_required :: bool
  is_recovery_actions :: "import_recovery_action list"
  is_available_actions :: "agent_recovery_action list"
  is_subtitle_candidates :: "string list"

record 'x import_item =
  it_item_id :: string
  it_item_revision :: nat
  it_input :: import_input
  it_status :: import_item_status
  it_selected :: bool
  it_selected_subtitle :: "string option"
  it_task_id :: "string option"
  it_progress :: "task_progress option"
  it_attempts :: "'x list"
  it_preview :: "'x option"
  it_issue :: "import_issue option"
  it_authenticated_retry :: bool
  it_authenticated_identity_summary :: "string option"
  it_restricted_content :: bool
  it_restricted_identity_summary :: "string option"

datatype import_media_authorization_kind = AuthorizeOcr | AuthorizeAsr
datatype import_asr_profile = AsrFast | AsrBalanced | AsrAccurate

record import_media_authorization =
  ma_item_id :: string
  ma_kind :: import_media_authorization_kind
  ma_authorized_at :: string
  ma_asr_profile :: "import_asr_profile option"
  ma_language :: "string option"

record 'x import_session =
  ss_schema_version :: nat
  ss_session_id :: string
  ss_project_id :: string
  ss_status :: import_session_status
  ss_resource_mode :: import_resource_mode
  ss_created_at :: string
  ss_updated_at :: string
  ss_discovery_task_id :: "string option"
  ss_media_authorizations :: "import_media_authorization list"
  ss_collection_relations :: "'x list"
  ss_items :: "'x import_item list"

record 'x source_frontmatter =
  fm_source_id :: string
  fm_version_id :: string
  fm_source_kind :: string
  fm_title :: string
  fm_imported_at :: string
  fm_content_hash :: string
  fm_platform :: "string option"
  fm_canonical_url :: "string option"
  fm_platform_content_id :: "string option"
  fm_author :: "string option"
  fm_published_at :: "string option"
  fm_language :: "string option"
  fm_quality :: 'x
  fm_restricted :: bool

record source_frontmatter_validation_error =
  fe_field :: string
  fe_code :: string

section \<open>The item status machine\<close>

fun can_transition_to :: "import_item_status \<Rightarrow> import_item_status \<Rightarrow> bool" where
  "can_transition_to ItemQueued t = (t \<in> {Inspecting, ItemCancelled, ItemSkipped})"
| "can_transition_to Inspecting t = (t \<in> {WaitingCapability, WaitingLogin, WaitingAuthorization,
     Extracting, Paused, ItemFailed, ItemCancelled})"
| "can_transition_to WaitingCapability t =
     (t \<in> {Inspecting, Extracting, ItemCancelled, ItemSkipped, ItemFailed})"
| "can_transition_to WaitingLogin t =
     (t \<in> {Inspecting, Extracting, ItemCancelled, ItemSkipped, ItemFailed})"
| "can_transition_to WaitingAuthorization t =
     (t \<in> {Inspecting, Extracting, ItemCancelled, ItemSkipped, ItemFailed})"
| "can_transition_to Extracting t = (t \<in> {WaitingCapability, WaitingLogin, WaitingAuthorization,
     Validating, Paused, ItemFailed, ItemCancelled})"
| "can_transition_to Validating t =
     (t \<in> {PreviewReady, NeedsMerge, Paused, ItemFailed, ItemCancelled})"
| "can_transition_to PreviewReady t =
     (t \<in> {Inspecting, NeedsMerge, Committing, ItemSkipped, ItemCancelled})"
| "can_transition_to NeedsMerge t = (t \<in> {PreviewReady, Committing, ItemSkipped, ItemCancelled})"
| "can_transition_to Committing t = (t \<in> {PreviewReady, NeedsMerge, ItemCompleted, ItemFailed})"
| "can_transition_to Paused t = (t \<in> {Inspecting, Extracting, ItemCancelled})"
| "can_transition_to ItemCancelled t = (t = Inspecting)"
| "can_transition_to ItemSkipped t = (t = Inspecting)"
| "can_transition_to ItemFailed t = (t \<in> {Inspecting, ItemSkipped, ItemCancelled})"
| "can_transition_to ItemCompleted t = False"

section \<open>Items and sessions\<close>

definition IMPORT_V2_SCHEMA_VERSION :: nat where
  "IMPORT_V2_SCHEMA_VERSION = 2"

definition item_queued :: "string \<Rightarrow> import_input \<Rightarrow> 'x import_item" where
  "item_queued i input = \<lparr>it_item_id = i, it_item_revision = 1, it_input = input,
     it_status = ItemQueued, it_selected = True, it_selected_subtitle = None, it_task_id = None,
     it_progress = None, it_attempts = [], it_preview = None, it_issue = None,
     it_authenticated_retry = False, it_authenticated_identity_summary = None,
     it_restricted_content = False, it_restricted_identity_summary = None\<rparr>"

definition session_new ::
  "string \<Rightarrow> string \<Rightarrow> string \<Rightarrow> import_resource_mode \<Rightarrow> 'x import_session" where
  "session_new now sid pid mode = \<lparr>ss_schema_version = IMPORT_V2_SCHEMA_VERSION,
     ss_session_id = sid, ss_project_id = pid, ss_status = SessionDraft, ss_resource_mode = mode,
     ss_created_at = now, ss_updated_at = now, ss_discovery_task_id = None,
     ss_media_authorizations = [], ss_collection_relations = [], ss_items = []\<rparr>"

definition has_media_authorization ::
  "'x import_session \<Rightarrow> string \<Rightarrow> import_media_authorization_kind \<Rightarrow> bool" where
  "has_media_authorization s i kind =
     list_ex (\<lambda>a. ma_item_id a = i \<and> ma_kind a = kind) (ss_media_authorizations s)"

section \<open>Issues and their recovery actions\<close>

text \<open>The arms of the \<open>match\<close> on the code, first match first.\<close>

definition web_code_facts ::
  "string \<Rightarrow> bool \<times> bool \<times> import_recovery_action list" where
  "web_code_facts c =
    (if c \<in> {''IMPORT_WEB_LOGIN_REQUIRED'', ''IMPORT_WEB_CHALLENGE_DETECTED'',
        ''IMPORT_WEB_CAPTCHA_REQUIRED''} then (False, True, [BeginLogin])
     else if c = ''IMPORT_WEB_ACCOUNT_PERMISSION_DENIED'' then (False, True, [])
     else if c \<in> {''IMPORT_V2_URL_REJECTED'', ''IMPORT_V2_REDIRECT_REJECTED''}
       then (False, True, [Skip])
     else if c = ''IMPORT_V2_PRIVATE_TARGET_BLOCKED'' then (False, True, [AuthorizePrivateTarget])
     else if c = ''IMPORT_V2_RESPONSE_TOO_LARGE'' then (False, True, [SwitchRoute])
     else if c = ''IMPORT_V2_CONNECTOR_RATE_LIMITED'' then (True, False, [RetryRoute, SwitchRoute])
     else if c \<in> {''IMPORT_WEB_CONTENT_REMOVED'', ''IMPORT_WEB_LINK_UNAVAILABLE''}
       then (False, True, [])
     else if c = ''IMPORT_WEB_MEDIA_HOST_UNSUPPORTED''
       then (True, True, [SwitchRoute, InstallMediaCapability])
     else if c = ''IMPORT_WEB_MEDIA_UNAVAILABLE'' then (True, True, [RetryRoute, SwitchRoute])
     else if c = ''IMPORT_WEB_STRUCTURE_CHANGED'' then (True, True, [SwitchRoute, InvokeAgent])
     else if c = ''IMPORT_WEB_SUBTITLE_UNAVAILABLE''
       then (True, True, [AuthorizeLocalAsr, InstallMediaCapability, InvokeAgent])
     else if c = ''IMPORT_WEB_OCR_UNAVAILABLE''
       then (True, True, [InstallOcrCapability, InvokeAgent])
     else if c = ''IMPORT_WEB_PLATFORM_CAPABILITY_MISSING''
       then (True, True, [InstallBrowserCapability, InvokeAgent])
     else if c \<in> {''IMPORT_ASR_ENGINE_UNAVAILABLE'', ''IMPORT_ASR_ENGINE_INTEGRITY_FAILED''}
       then (True, True, [InstallMediaCapability, RetryRoute])
     else if c \<in> {''IMPORT_ASR_TIMEOUT'', ''IMPORT_ASR_ENGINE_FAILED'', ''IMPORT_ASR_OUTPUT_INVALID''}
       then (True, True, [RetryRoute, InstallMediaCapability])
     else if starts_with c ''IMPORT_ASR_'' then (False, True, [InstallMediaCapability, InvokeAgent])
     else if c = ''IMPORT_V2_ENGINE_UNAVAILABLE'' then (True, True, [InstallBrowserCapability])
     else (True, False, [RetryRoute, SwitchRoute]))"

definition push_missing :: "'a list \<Rightarrow> 'a list \<Rightarrow> 'a list" where
  "push_missing extra xs = foldl (\<lambda>acc a. if a \<in> set acc then acc else acc @ [a]) xs extra"

definition for_web_code :: "string \<Rightarrow> import_stage \<Rightarrow> import_issue" where
  "for_web_code c stage =
    (let (retryable, action_required, actions) = web_code_facts c in
     \<lparr>is_code = c,
      is_message = (if c = ''IMPORT_WEB_ACCOUNT_PERMISSION_DENIED''
        then ''The current account cannot access this content.''
        else ''Web import could not be completed.''),
      is_stage = stage, is_retryable = retryable, is_user_action_required = action_required,
      is_recovery_actions = push_missing [Skip, ViewLog] actions, is_available_actions = [],
      is_subtitle_candidates = []\<rparr>)"

definition file_code_facts :: "string \<Rightarrow> bool \<times> bool \<times> import_recovery_action list" where
  "file_code_facts c =
    (if c = ''IMPORT_FILE_CAPABILITY_MISSING'' then (True, True, [InstallCapability, Retry])
     else if c = ''IMPORT_FILE_PASSWORD_REQUIRED'' then (True, True, [Retry])
     else if c = ''IMPORT_FILE_CORRUPT'' then (False, True, [SwitchParser, InvokeAgent])
     else if c = ''IMPORT_FILE_RESOURCE_LIMIT'' then (True, True, [Retry])
     else if c \<in> {''IMPORT_FILE_CONVERSION_FAILED'', ''IMPORT_FILE_PARSE_FAILED''}
       then (True, True, [Retry, SwitchParser, InvokeAgent])
     else if c = ''IMPORT_FILE_QUALITY_FAILED''
       then (True, True, [InstallOcrCapability, EnableOcr, SwitchParser, InvokeAgent])
     else if c = ''IMPORT_FILE_CANCELLED'' then (True, False, [Retry])
     else if c = ''IMPORT_FILE_SUBTITLE_AMBIGUOUS'' then (True, True, [SelectSubtitle])
     else (True, False, [Retry, InvokeAgent]))"

definition for_file_code :: "string \<Rightarrow> import_stage \<Rightarrow> import_issue" where
  "for_file_code c stage =
    (let (retryable, action_required, actions) = file_code_facts c in
     \<lparr>is_code = c, is_message = ''File import could not be completed.'', is_stage = stage,
      is_retryable = retryable, is_user_action_required = action_required,
      is_recovery_actions = actions @ [Skip, ViewLog], is_available_actions = [],
      is_subtitle_candidates = []\<rparr>)"

definition for_commit_code :: "string \<Rightarrow> import_issue" where
  "for_commit_code c =
     \<lparr>is_code = c, is_message = ''Import result could not be committed.'', is_stage = StageCommit,
      is_retryable = False, is_user_action_required = True, is_recovery_actions = [ViewLog],
      is_available_actions = [], is_subtitle_candidates = []\<rparr>"

section \<open>The frontmatter contract\<close>

definition required_fields :: "'x source_frontmatter \<Rightarrow> (string \<times> string) list" where
  "required_fields f =
    [(''sourceId'', fm_source_id f), (''versionId'', fm_version_id f),
     (''sourceKind'', fm_source_kind f), (''title'', fm_title f),
     (''importedAt'', fm_imported_at f), (''contentHash'', fm_content_hash f)]"

definition validate_source_frontmatter ::
  "'x source_frontmatter \<Rightarrow> string \<Rightarrow> source_frontmatter_validation_error + unit" where
  "validate_source_frontmatter f expected =
    (case List.find (\<lambda>(_, v). trim v = []) (required_fields f) of
       Some (field, _) \<Rightarrow> Inl \<lparr>fe_field = field, fe_code = ''required''\<rparr>
     | None \<Rightarrow>
       if length (fm_content_hash f) \<noteq> 64 \<or> \<not> list_all is_ascii_hexdigit (fm_content_hash f)
       then Inl \<lparr>fe_field = ''contentHash'', fe_code = ''invalid_sha256''\<rparr>
       else if fm_content_hash f \<noteq> expected
       then Inl \<lparr>fe_field = ''contentHash'', fe_code = ''manifest_mismatch''\<rparr>
       else Inr ())"

section \<open>Batch accounting\<close>

record import_operation_summary =
  os_ready :: nat
  os_completed :: nat
  os_waiting :: nat
  os_failed :: nat
  os_cancelled :: nat
  os_systemic_errors :: nat

datatype import_item_run_outcome =
    RunReady | RunCompleted | RunWaiting | RunFailed | RunCancelled | RunSystemicError

definition batch_terminal_status :: "import_operation_summary \<Rightarrow> task_status" where
  "batch_terminal_status s =
    (if os_failed s > 0 \<or> os_systemic_errors s > 0 then Failed
     else if os_waiting s > 0 then WaitingForConfirmation else Succeeded)"

text \<open>
  Instants are milliseconds of the monotonic clock; \<open>duration_since\<close> of an earlier instant is
  zero. The counters count the items of one batch, far below the range of \<open>u64\<close>.
\<close>

record batch_operation_state =
  bo_total :: nat
  bo_completed :: nat
  bo_summary :: import_operation_summary
  bo_last_publish :: int

definition summary_default :: import_operation_summary where
  "summary_default = \<lparr>os_ready = 0, os_completed = 0, os_waiting = 0, os_failed = 0,
     os_cancelled = 0, os_systemic_errors = 0\<rparr>"

definition batch_new :: "int \<Rightarrow> nat \<Rightarrow> batch_operation_state" where
  "batch_new now n = \<lparr>bo_total = n, bo_completed = 0, bo_summary = summary_default,
     bo_last_publish = now - 100\<rparr>"

fun count_outcome :: "import_item_run_outcome \<Rightarrow> import_operation_summary \<Rightarrow> import_operation_summary" where
  "count_outcome RunReady s = s\<lparr>os_ready := os_ready s + 1\<rparr>"
| "count_outcome RunCompleted s = s\<lparr>os_completed := os_completed s + 1\<rparr>"
| "count_outcome RunWaiting s = s\<lparr>os_waiting := os_waiting s + 1\<rparr>"
| "count_outcome RunFailed s = s\<lparr>os_failed := os_failed s + 1\<rparr>"
| "count_outcome RunCancelled s = s\<lparr>os_cancelled := os_cancelled s + 1\<rparr>"
| "count_outcome RunSystemicError s = s\<lparr>os_systemic_errors := os_systemic_errors s + 1\<rparr>"

definition record_at ::
  "import_item_run_outcome \<Rightarrow> int \<Rightarrow> batch_operation_state \<Rightarrow>
   (nat \<times> nat \<times> import_operation_summary \<times> bool) \<times> batch_operation_state" where
  "record_at outcome now b =
    (let done_count = bo_completed b + 1;
         summary = count_outcome outcome (bo_summary b);
         publish = (done_count = bo_total b \<or> max 0 (now - bo_last_publish b) \<ge> 100);
         b1 = b\<lparr>bo_completed := done_count, bo_summary := summary,
                bo_last_publish := (if publish then now else bo_last_publish b)\<rparr>
     in ((done_count, bo_total b, summary, publish), b1))"

section \<open>Lemmas\<close>

definition item_final :: "import_item_status \<Rightarrow> bool" where
  "item_final s \<longleftrightarrow> s = ItemCompleted"

interpretation item_lifecycle: lifecycle can_transition_to item_final
  by unfold_locales (simp add: item_final_def)

text \<open>A run that never enters a given status stays in a set closed under the other moves.\<close>

lemma avoiding_run_stays:
  assumes "(\<lambda>s t. can_transition_to s t \<and> t \<noteq> x)\<^sup>*\<^sup>* a b" and "a \<in> S"
    and "\<And>s t. s \<in> S \<Longrightarrow> can_transition_to s t \<Longrightarrow> t \<noteq> x \<Longrightarrow> t \<in> S"
  shows "b \<in> S"
  using assms(1,2) by (induction rule: rtranclp_induct) (auto intro: assms(3))

lemma push_missing_spec:
  "set (push_missing extra xs) = set xs \<union> set extra \<and>
   (distinct xs \<longrightarrow> distinct (push_missing extra xs)) \<and> (\<exists>ys. push_missing extra xs = xs @ ys)"
proof (induction extra arbitrary: xs)
  case (Cons a extra)
  have "push_missing (a # extra) xs = push_missing extra (if a \<in> set xs then xs else xs @ [a])"
    by (simp add: push_missing_def)
  with Cons.IH [of "if a \<in> set xs then xs else xs @ [a]"] show ?case by auto
qed (simp add: push_missing_def)

text \<open>A fact about every arm of a chain of alternatives.\<close>

lemma every_arm: "P a \<Longrightarrow> P b \<Longrightarrow> P (if c then a else b)"
  by simp

lemma web_actions_distinct: "distinct (snd (snd (web_code_facts c)))"
  unfolding web_code_facts_def
  by (intro every_arm [where P = "\<lambda>x. distinct (snd (snd x))"]; simp)

lemma file_actions_ok:
  "distinct (snd (snd (file_code_facts c))) \<and> Skip \<notin> set (snd (snd (file_code_facts c))) \<and>
   ViewLog \<notin> set (snd (snd (file_code_facts c)))"
  unfolding file_code_facts_def
  by (intro every_arm [where P = "\<lambda>x. distinct (snd (snd x)) \<and> Skip \<notin> set (snd (snd x)) \<and>
      ViewLog \<notin> set (snd (snd x))"]; simp)

section \<open>Properties\<close>

text \<open>
  No import item completes without going through the pipeline: a run of the item's
  status machine from the queue that avoids any one of Inspecting, Extracting, Validating or
  Committing never reaches Completed, and Completed is never left.
\<close>

theorem no_shortcut_to_completed:
  assumes "x \<in> {Inspecting, Extracting, Validating, Committing}"
  shows "\<not> (\<lambda>s t. can_transition_to s t \<and> t \<noteq> x)\<^sup>*\<^sup>* ItemQueued ItemCompleted \<and>
     (can_transition_to\<^sup>*\<^sup>* ItemCompleted t \<longrightarrow> t = ItemCompleted)"
proof -
  let ?idle = "{ItemQueued, ItemCancelled, ItemSkipped}"
  let ?early = "?idle \<union> {Inspecting, WaitingCapability, WaitingLogin, WaitingAuthorization, Paused, ItemFailed}"
  let ?mid = "?early \<union> {Extracting}"
  let ?late = "?mid \<union> {Validating, PreviewReady, NeedsMerge}"
  define S where "S = (if x = Inspecting then ?idle else if x = Extracting then ?early
    else if x = Validating then ?mid else ?late)"
  have "\<not> (\<lambda>s t. can_transition_to s t \<and> t \<noteq> x)\<^sup>*\<^sup>* ItemQueued ItemCompleted"
  proof
    assume run: "(\<lambda>s t. can_transition_to s t \<and> t \<noteq> x)\<^sup>*\<^sup>* ItemQueued ItemCompleted"
    have "ItemCompleted \<in> S"
    proof (rule avoiding_run_stays [OF run])
      show "ItemQueued \<in> S" by (simp add: S_def)
      fix s t
      assume "s \<in> S" and "can_transition_to s t" and "t \<noteq> x"
      then show "t \<in> S" using assms by (auto simp: S_def split: if_splits)
    qed
    then show False by (simp add: S_def split: if_splits)
  qed
  moreover have "can_transition_to\<^sup>*\<^sup>* ItemCompleted t \<longrightarrow> t = ItemCompleted"
    using item_lifecycle.final_absorbing [of ItemCompleted t] by (simp add: item_final_def)
  ultimately show ?thesis by blast
qed

theorem no_shortcut_to_completed_witness:
  "\<not> (\<lambda>s t. can_transition_to s t \<and> t \<noteq> Validating)\<^sup>*\<^sup>* ItemQueued ItemCompleted"
  using no_shortcut_to_completed [of Validating ItemCompleted] by simp

text \<open>
  Whatever error code a web or file import fails with, the user is never stuck: the issue
  keeps the code and stage, offers to skip the item and to view the log, and offers no recovery
  action twice; a commit failure offers the log and is never retried by itself.
\<close>

theorem issues_always_recoverable:
  "is_code (for_web_code c stage) = c \<and> is_stage (for_web_code c stage) = stage \<and>
   {Skip, ViewLog} \<subseteq> set (is_recovery_actions (for_web_code c stage)) \<and>
   distinct (is_recovery_actions (for_web_code c stage)) \<and>
   is_code (for_file_code c stage) = c \<and> is_stage (for_file_code c stage) = stage \<and>
   {Skip, ViewLog} \<subseteq> set (is_recovery_actions (for_file_code c stage)) \<and>
   distinct (is_recovery_actions (for_file_code c stage)) \<and>
   is_recovery_actions (for_commit_code c) = [ViewLog] \<and> \<not> is_retryable (for_commit_code c)"
proof -
  obtain r u xs where w: "web_code_facts c = (r, u, xs)" by (cases "web_code_facts c")
  have "distinct xs" using web_actions_distinct [of c] w by simp
  moreover obtain r' u' ys where f: "file_code_facts c = (r', u', ys)" by (cases "file_code_facts c")
  have "distinct ys \<and> Skip \<notin> set ys \<and> ViewLog \<notin> set ys" using file_actions_ok [of c] f by simp
  ultimately show ?thesis using w f push_missing_spec [of "[Skip, ViewLog]" xs]
    by (simp add: for_web_code_def for_file_code_def for_commit_code_def)
qed

text \<open>
  The frontmatter check accepts exactly the pages whose six required fields are not blank
  and whose content hash is a SHA-256 digest equal to the manifest's.
\<close>

theorem frontmatter_accepts_iff:
  "validate_source_frontmatter f expected = Inr () \<longleftrightarrow>
     list_all (\<lambda>(field, v). trim v \<noteq> []) (required_fields f) \<and>
     length expected = 64 \<and> list_all is_ascii_hexdigit expected \<and> fm_content_hash f = expected"
proof (cases "List.find (\<lambda>(_, v). trim v = []) (required_fields f)")
  case None
  then have "list_all (\<lambda>(field, v). trim v \<noteq> []) (required_fields f)"
    by (auto simp: find_None_iff list_all_iff)
  with None show ?thesis by (auto simp: validate_source_frontmatter_def)
next
  case (Some fv)
  then have "fv \<in> set (required_fields f)" and "trim (snd fv) = []"
    by (auto simp: find_Some_iff dest!: nth_mem)
  with Some show ?thesis by (cases fv) (auto simp: validate_source_frontmatter_def list_all_iff)
qed

definition summary_total :: "import_operation_summary \<Rightarrow> nat" where
  "summary_total s = os_ready s + os_completed s + os_waiting s + os_failed s + os_cancelled s +
     os_systemic_errors s"

fun record_all :: "(import_item_run_outcome \<times> int) list \<Rightarrow> batch_operation_state \<Rightarrow> batch_operation_state" where
  "record_all [] b = b"
| "record_all ((outcome, now) # xs) b = record_all xs (snd (record_at outcome now b))"

lemma record_at_counts:
  "bo_completed (snd (record_at outcome now b)) = bo_completed b + 1"
  "bo_total (snd (record_at outcome now b)) = bo_total b"
  "bo_summary (snd (record_at outcome now b)) = count_outcome outcome (bo_summary b)"
  by (simp_all add: record_at_def Let_def)

lemma record_all_counts:
  "bo_completed (record_all xs b) = bo_completed b + length xs \<and>
   summary_total (bo_summary (record_all xs b)) = summary_total (bo_summary b) + length xs \<and>
   os_failed (bo_summary (record_all xs b)) =
     os_failed (bo_summary b) + count_list (map fst xs) RunFailed \<and>
   os_systemic_errors (bo_summary (record_all xs b)) =
     os_systemic_errors (bo_summary b) + count_list (map fst xs) RunSystemicError \<and>
   os_waiting (bo_summary (record_all xs b)) =
     os_waiting (bo_summary b) + count_list (map fst xs) RunWaiting"
proof (induction xs b rule: record_all.induct)
  case (2 outcome now xs b)
  then show ?case
    by (cases outcome) (simp_all add: record_at_counts summary_total_def)
qed simp

text \<open>
  C37: The batch counters are exact: after recording any sequence of outcomes the number of
  processed items is the length of the sequence and the sum of the six counters; the batch then
  ends Failed if some item failed or erred, else it waits for the user if some item waits, else
  it succeeded.
\<close>

theorem batch_accounting_exact:
  "let b = record_all xs (batch_new t0 n); outcomes = set (map fst xs) in
     bo_completed b = length xs \<and> summary_total (bo_summary b) = length xs \<and>
     batch_terminal_status (bo_summary b) =
       (if RunFailed \<in> outcomes \<or> RunSystemicError \<in> outcomes then Failed
        else if RunWaiting \<in> outcomes then WaitingForConfirmation else Succeeded)"
  using record_all_counts [of xs "batch_new t0 n"]
  by (simp add: Let_def batch_new_def summary_default_def summary_total_def batch_terminal_status_def
      count_list_0_iff del: set_map)

text \<open>
  Progress reports are throttled and complete: the report of the last item is always
  published, any other report only when at least 100 ms passed since the last published one.
\<close>

theorem publish_throttled:
  "let ((k, n, summary, publish), b') = record_at outcome now b in
     (publish \<longleftrightarrow> k = bo_total b \<or> now - bo_last_publish b \<ge> 100) \<and>
     (publish \<longrightarrow> bo_last_publish b' = now) \<and> (\<not> publish \<longrightarrow> bo_last_publish b' = bo_last_publish b) \<and>
     k = bo_completed b' \<and> summary = bo_summary b'"
  by (auto simp: record_at_def Let_def max_def)

theorem publish_throttled_witness:
  "snd (snd (snd (fst (record_at RunReady 5 (batch_new 0 1)))))"
  using publish_throttled [of RunReady 5 "batch_new 0 1"] by (simp add: record_at_def batch_new_def Let_def)

end
