(* ===== verification/File_Routing.thy ===== *)
theory File_Routing
  imports Import_Model Complex_Main "HOL-Library.Multiset"
begin

text \<open>
  The first two routers of the import pipeline (\<open>services/import_v2/\<close>): local files
  (\<open>file_router.rs\<close>, \<open>routing.rs\<close>) and web targets (\<open>domain_router.rs\<close>).

  The host that \<open>url::Url::parse\<close> finds is a parameter. Ratios that the code keeps as
  floating-point numbers are exact rationals here.
\<close>

section \<open>Rust's paths and patterns\<close>

fun split_on :: "char \<Rightarrow> string \<Rightarrow> string list" where
  "split_on c [] = [[]]"
| "split_on c (x # xs) =
     (if x = c then [] # split_on c xs
      else case split_on c xs of [] \<Rightarrow> [[x]] | w # ws \<Rightarrow> (x # w) # ws)"

definition path_components :: "string \<Rightarrow> string list" where
  "path_components p = filter (\<lambda>c. c \<noteq> [] \<and> c \<noteq> ''.'') (split_on (CHR ''/'') p)"

definition path_file_name :: "string \<Rightarrow> string option" where
  "path_file_name p = (let cs = path_components p in
     if cs = [] \<or> last cs = ''..'' then None else Some (last cs))"

text \<open>\<open>Path::extension\<close>: what follows the last dot of the file name, unless it leads the name.\<close>

definition path_extension :: "string \<Rightarrow> string option" where
  "path_extension p = Option.bind (path_file_name p) (\<lambda>n.
     let parts = split_on (CHR ''.'') n in
     if length parts \<le> 1 \<or> concat (butlast parts) = [] \<and> length parts = 2 then None
     else Some (last parts))"

definition eq_ignore_ascii_case :: "string \<Rightarrow> string \<Rightarrow> bool" where
  "eq_ignore_ascii_case a b \<longleftrightarrow> to_ascii_lowercase a = to_ascii_lowercase b"

definition IMPORT_V2_CAPABILITY_INVALID :: string where
  "IMPORT_V2_CAPABILITY_INVALID = ''IMPORT_V2_CAPABILITY_INVALID''"

section \<open>Local files\<close>

datatype file_format =
    Markdown | PlainText | Html | Csv | Doc | Docx | Xls | Xlsx | Ppt | Pptx | Pdf | Png | Jpeg
  | Webp | Bmp | Tiff | Heic | Heif | AnimatedGif | Mp3 | Wav | M4a | Aac | Flac | Ogg | Opus
  | Wma | Mp4 | Mov | Mkv | Webm | Avi | M4v | Wmv | Srt | Vtt | Ass | Lrc

record capability_snapshot =
  ca_document_standard :: bool
  ca_office_legacy :: bool
  ca_office_oxide_installed :: bool
  ca_office_oxide_qualified :: bool
  ca_agent_available :: bool

record office_oxide_qualification =
  oq_schema_version :: nat
  oq_critical_assertions_passed :: bool
  oq_security_blockers :: nat
  oq_fuzz_blockers :: nat
  oq_qualified_target_triples :: "string list"

text \<open>\<open>evidence\<close> is the qualification file as read and parsed, \<open>None\<close> if either fails.\<close>

definition from_installation ::
  "bool \<Rightarrow> bool \<Rightarrow> office_oxide_qualification option \<Rightarrow> string \<Rightarrow> bool \<Rightarrow> capability_snapshot" where
  "from_installation document_standard oxide_installed evidence target agent =
     \<lparr>ca_document_standard = document_standard, ca_office_legacy = False,
      ca_office_oxide_installed = oxide_installed,
      ca_office_oxide_qualified = (oxide_installed \<and>
        (case evidence of None \<Rightarrow> False | Some q \<Rightarrow>
           oq_schema_version q = 1 \<and> oq_critical_assertions_passed q \<and>
           oq_security_blockers q = 0 \<and> oq_fuzz_blockers q = 0 \<and>
           list_ex (\<lambda>t. t = target) (oq_qualified_target_triples q))),
      ca_agent_available = agent\<rparr>"

datatype quality_floor = ModernOffice | DeterministicDocument | ComparisonFallback | AgentCandidate

record route_attempt =
  ra_route :: string
  ra_required_pack :: "string option"
  ra_quality_floor :: quality_floor

record quality_requirements =
  qr_minimum_text_coverage :: rat
  qr_require_exact_unit_count :: bool
  qr_require_ordered_structure :: bool
  qr_require_tables :: bool
  qr_require_images :: bool
  qr_require_notes_or_footnotes :: bool
  qr_require_formula_and_display_value :: bool

fun requirements :: "quality_floor \<Rightarrow> quality_requirements" where
  "requirements ModernOffice = \<lparr>qr_minimum_text_coverage = 98 / 100,
     qr_require_exact_unit_count = True, qr_require_ordered_structure = True,
     qr_require_tables = True, qr_require_images = True, qr_require_notes_or_footnotes = True,
     qr_require_formula_and_display_value = True\<rparr>"
| "requirements DeterministicDocument = \<lparr>qr_minimum_text_coverage = 98 / 100,
     qr_require_exact_unit_count = False, qr_require_ordered_structure = True,
     qr_require_tables = False, qr_require_images = False, qr_require_notes_or_footnotes = False,
     qr_require_formula_and_display_value = False\<rparr>"
| "requirements _ = \<lparr>qr_minimum_text_coverage = 0,
     qr_require_exact_unit_count = False, qr_require_ordered_structure = False,
     qr_require_tables = False, qr_require_images = False, qr_require_notes_or_footnotes = False,
     qr_require_formula_and_display_value = False\<rparr>"

datatype route_failure =
    UnsupportedFeature string | CorruptInput | ResourceLimit | CapabilityUnavailable
  | EngineFailure string

datatype attempt_outcome =
    AttemptSucceeded | AttemptFailed route_failure | QualityRejected rat rat | AttemptCancelled

record attempt_record =
  ar_route :: string
  ar_outcome :: attempt_outcome

definition allows_fallback :: "attempt_record \<Rightarrow> bool" where
  "allows_fallback r =
     (case ar_outcome r of AttemptFailed _ \<Rightarrow> True | QualityRejected _ _ \<Rightarrow> True | _ \<Rightarrow> False)"

definition attempt :: "string \<Rightarrow> string option \<Rightarrow> quality_floor \<Rightarrow> route_attempt" where
  "attempt route pack quality =
     \<lparr>ra_route = route, ra_required_pack = pack, ra_quality_floor = quality\<rparr>"

fun legacy_target :: "file_format \<Rightarrow> string option" where
  "legacy_target Doc = Some ''office.modern.docx''"
| "legacy_target Xls = Some ''office.modern.xlsx''"
| "legacy_target Ppt = Some ''office.modern.pptx''"
| "legacy_target _ = None"

fun modern_primary :: "file_format \<Rightarrow> string option" where
  "modern_primary Docx = Some ''office.modern.docx''"
| "modern_primary Xlsx = Some ''office.modern.xlsx''"
| "modern_primary Pptx = Some ''office.modern.pptx''"
| "modern_primary _ = None"

definition push_if :: "bool \<Rightarrow> 'a \<Rightarrow> 'a list \<Rightarrow> 'a list" where
  "push_if c x xs = (if c then xs @ [x] else xs)"

definition plan :: "file_format \<Rightarrow> capability_snapshot \<Rightarrow> route_attempt list" where
  "plan format ca =
    (case legacy_target format of
       Some modern \<Rightarrow>
         (let routes = (if ca_office_legacy ca then
                push_if (ca_document_standard ca)
                  (attempt ''pack.markitdown'' (Some ''document-standard'') ComparisonFallback)
                  [attempt ''pack.office-legacy'' (Some ''office-legacy'') ModernOffice,
                   attempt modern None ModernOffice]
              else []);
              routes = push_if (ca_office_oxide_installed ca \<and> ca_office_oxide_qualified ca)
                (attempt ''pack.office-oxide'' (Some ''office-oxide'') ModernOffice) routes
          in push_if (ca_agent_available ca) (attempt ''agent.office'' None AgentCandidate) routes)
     | None \<Rightarrow> (case modern_primary format of
         None \<Rightarrow> []
       | Some primary \<Rightarrow>
         (let routes = [attempt primary None ModernOffice];
              routes = push_if (ca_document_standard ca)
                (attempt ''pack.markitdown'' (Some ''document-standard'') ComparisonFallback) routes;
              routes = push_if (ca_office_oxide_installed ca \<and> ca_office_oxide_qualified ca)
                (attempt ''pack.office-oxide'' (Some ''office-oxide'') ModernOffice) routes
          in push_if (ca_agent_available ca) (attempt ''agent.office'' None AgentCandidate) routes)))"

definition deterministic_routes :: "file_format \<Rightarrow> capability_snapshot \<Rightarrow> string list" where
  "deterministic_routes format ca =
    (let planned = plan format ca in
     if planned \<noteq> [] then map ra_route planned
     else if format = Markdown then [''native.markdown'']
     else if format = Pdf then [''pack.pdf'', ''pack.ocr'']
     else [''native.file''])"

definition ocr_sort_key :: "string \<times> quality_floor \<Rightarrow> nat" where
  "ocr_sort_key r = (if fst r = ''pdf.text'' then 0 else if starts_with (fst r) ''ocr.'' then 1
     else if fst r = ''pdf.layout'' then 2 else 3)"

definition reorder_routes ::
  "(string \<times> quality_floor) list \<Rightarrow> import_recovery_action option \<Rightarrow> (string \<times> quality_floor) list" where
  "reorder_routes routes action =
    (case action of
       Some SwitchRoute \<Rightarrow> if length routes > 1 then rotate1 routes else routes
     | Some SwitchParser \<Rightarrow> if length routes > 1 then rotate1 routes else routes
     | Some EnableOcr \<Rightarrow> sort_key ocr_sort_key routes
     | _ \<Rightarrow> routes)"

definition audio_video_formats :: "file_format list" where
  "audio_video_formats = [Mp3, Wav, M4a, Aac, Flac, Ogg, Opus, Wma, Mp4, Mov, Mkv, Webm, Avi, M4v, Wmv]"

definition image_formats :: "file_format list" where
  "image_formats = [Png, Jpeg, Webp, Bmp, Tiff, Heic, Heif]"

definition office_routes :: "string \<Rightarrow> string list" where
  "office_routes primary = [primary, ''pack.markitdown'', ''pack.office-oxide'', ''agent.office'']"

definition pdf_routes :: "string list" where
  "pdf_routes = [''pdf.text'', ''pdf.layout'', ''ocr.cjk-accurate'', ''ocr.basic'', ''agent.pdf'']"

definition routes_for_format :: "file_format \<Rightarrow> string list" where
  "routes_for_format format =
    (if format \<in> {Markdown, PlainText, Html} then [''file.native'']
     else if format = Csv then [''file.csv-package'']
     else if format = Docx then office_routes ''office.modern.docx''
     else if format = Xlsx then office_routes ''office.modern.xlsx''
     else if format = Pptx then office_routes ''office.modern.pptx''
     else if format \<in> {Doc, Xls, Ppt} then office_routes ''pack.office-legacy''
     else if format = Pdf then pdf_routes
     else if format \<in> {Srt, Vtt, Ass, Lrc} then [''media.subtitle'']
     else if format = AnimatedGif then [''media.keyframes'']
     else if format \<in> set audio_video_formats
       then [''media.companion'', ''media.subtitle'', ''media.keyframes'', ''media.asr'']
     else [''ocr.cjk-accurate'', ''ocr.basic''])"

text \<open>The file name extensions of a format.\<close>

fun canonical_extension :: "file_format \<Rightarrow> string" where
  "canonical_extension Markdown = ''md''"
| "canonical_extension PlainText = ''txt''"
| "canonical_extension Html = ''html''"
| "canonical_extension Csv = ''csv''"
| "canonical_extension Doc = ''doc''"
| "canonical_extension Docx = ''docx''"
| "canonical_extension Xls = ''xls''"
| "canonical_extension Xlsx = ''xlsx''"
| "canonical_extension Ppt = ''ppt''"
| "canonical_extension Pptx = ''pptx''"
| "canonical_extension Pdf = ''pdf''"
| "canonical_extension Png = ''png''"
| "canonical_extension Jpeg = ''jpg''"
| "canonical_extension Webp = ''webp''"
| "canonical_extension Bmp = ''bmp''"
| "canonical_extension Tiff = ''tiff''"
| "canonical_extension Heic = ''heic''"
| "canonical_extension Heif = ''heif''"
| "canonical_extension AnimatedGif = ''gif''"
| "canonical_extension Mp3 = ''mp3''"
| "canonical_extension Wav = ''wav''"
| "canonical_extension M4a = ''m4a''"
| "canonical_extension Aac = ''aac''"
| "canonical_extension Flac = ''flac''"
| "canonical_extension Ogg = ''ogg''"
| "canonical_extension Opus = ''opus''"
| "canonical_extension Wma = ''wma''"
| "canonical_extension Mp4 = ''mp4''"
| "canonical_extension Mov = ''mov''"
| "canonical_extension Mkv = ''mkv''"
| "canonical_extension Webm = ''webm''"
| "canonical_extension Avi = ''avi''"
| "canonical_extension M4v = ''m4v''"
| "canonical_extension Wmv = ''wmv''"
| "canonical_extension Srt = ''srt''"
| "canonical_extension Vtt = ''vtt''"
| "canonical_extension Ass = ''ass''"
| "canonical_extension Lrc = ''lrc''"

fun format_accepts_extension :: "file_format \<Rightarrow> string \<Rightarrow> bool" where
  "format_accepts_extension Markdown e \<longleftrightarrow> e \<in> {''md'', ''markdown'', ''mdx'', ''mkd'', ''mkdn'',
     ''mdown'', ''mdwn'', ''rmd''}"
| "format_accepts_extension Html e \<longleftrightarrow> e \<in> {''html'', ''htm''}"
| "format_accepts_extension Jpeg e \<longleftrightarrow> e \<in> {''jpg'', ''jpeg''}"
| "format_accepts_extension Tiff e \<longleftrightarrow> e \<in> {''tif'', ''tiff''}"
| "format_accepts_extension Ass e \<longleftrightarrow> e \<in> {''ass'', ''ssa''}"
| "format_accepts_extension AnimatedGif e \<longleftrightarrow> e = ''gif''"
| "format_accepts_extension format e \<longleftrightarrow> e = canonical_extension format"

text \<open>A host is a platform's when it is the domain or a subdomain of it.\<close>

definition on_domain :: "string \<Rightarrow> string \<Rightarrow> bool" where
  "on_domain h d \<longleftrightarrow> h = d \<or> ends_with h (CHR ''.'' # d)"

definition input_host :: "(string \<Rightarrow> string option) \<Rightarrow> import_input \<Rightarrow> string option" where
  "input_host url_host input = map_option to_ascii_lowercase
     (url_host (case ii_normalized_locator input of Some l \<Rightarrow> l | None \<Rightarrow> ii_locator input))"

definition url_routes :: "string \<Rightarrow> string list" where
  "url_routes h =
    (if on_domain h ''xiaohongshu.com'' \<or> on_domain h ''xhslink.com'' \<or> on_domain h ''xhslink.cn''
     then [''web.xiaohongshu.note'', ''web.generic.readability'', ''web.generic.browser'']
     else if on_domain h ''douyin.com'' \<or> on_domain h ''iesdouyin.com''
     then [''web.douyin.video'', ''web.generic.readability'', ''web.generic.browser'']
     else if on_domain h ''x.com'' \<or> on_domain h ''twitter.com'' then [''web.x.post'']
     else if on_domain h ''bilibili.com'' \<or> h = ''b23.tv''
     then [''web.bilibili.video'', ''web.bilibili.metadata'', ''web.generic.browser'']
     else (if h = ''mp.weixin.qq.com'' then [''web.wechat.article'']
           else if on_domain h ''zhihu.com'' then [''web.zhihu.content''] else []) @
          [''web.generic.readability'', ''web.generic.browser''])"

definition extension_routes :: "string \<Rightarrow> string list" where
  "extension_routes ext =
    (if ext \<in> {''md'', ''markdown'', ''txt'', ''html'', ''htm''} then [''file.native'']
     else if ext = ''csv'' then [''file.csv-package'']
     else if ext = ''docx'' then office_routes ''office.modern.docx''
     else if ext = ''xlsx'' then office_routes ''office.modern.xlsx''
     else if ext = ''pptx'' then office_routes ''office.modern.pptx''
     else if ext \<in> {''doc'', ''xls'', ''ppt''}
       then [''pack.office-legacy'', ''pack.office-oxide'', ''agent.office'']
     else if ext = ''pdf'' then pdf_routes
     else if ext \<in> {''srt'', ''vtt'', ''lrc'', ''ass'', ''ssa''} then [''media.subtitle'']
     else if ext = ''gif'' then [''media.keyframes'']
     else if ext \<in> {''mp3'', ''wav'', ''m4a'', ''aac'', ''flac'', ''ogg'', ''opus'', ''wma'', ''mp4'',
         ''mov'', ''mkv'', ''webm'', ''avi'', ''m4v'', ''wmv''} then [''media.companion'', ''media.asr'']
     else if ext \<in> {''png'', ''jpg'', ''jpeg'', ''webp'', ''bmp'', ''tif'', ''tiff'', ''heic'', ''heif''}
       then [''ocr.cjk-accurate'', ''ocr.basic'']
     else [])"

definition explicit_routes :: "(string \<Rightarrow> string option) \<Rightarrow> import_input \<Rightarrow> string list" where
  "explicit_routes url_host input =
    (if ii_kind input = UrlInput
     then url_routes (case input_host url_host input of None \<Rightarrow> [] | Some h \<Rightarrow> h)
     else extension_routes (to_ascii_lowercase
       (case path_extension (ii_locator input) of None \<Rightarrow> [] | Some e \<Rightarrow> e)))"

definition is_bilibili_import_input :: "(string \<Rightarrow> string option) \<Rightarrow> import_input \<Rightarrow> bool" where
  "is_bilibili_import_input url_host input \<longleftrightarrow> ii_kind input = UrlInput \<and>
     (case input_host url_host input of None \<Rightarrow> False
      | Some h \<Rightarrow> on_domain h ''bilibili.com'' \<or> h = ''b23.tv'')"

section \<open>Web targets\<close>

datatype web_route_kind =
    GenericHttp | GenericBrowser | Wechat | Zhihu | Bilibili | Xiaohongshu | Douyin | XTwitter

record normalized_web_url =
  nu_public_url :: string
  nu_host :: string
  nu_scheme :: string

record connector_availability =
  co_browser :: bool
  co_wechat :: bool
  co_zhihu :: bool
  co_bilibili :: bool
  co_xiaohongshu :: bool
  co_douyin :: bool
  co_phase_two :: bool

record web_route_plan =
  wp_primary :: web_route_kind
  wp_fallbacks :: "web_route_kind list"
  wp_concurrency_key :: string
  wp_max_attempts_per_route :: nat
  wp_release_enabled :: bool

definition host :: "string \<Rightarrow> string \<Rightarrow> bool" where
  "host actual expected \<longleftrightarrow> actual = expected \<or>
     (case strip_suffix actual expected of None \<Rightarrow> False | Some p \<Rightarrow> ends_with p ''.'')"

definition trim_end_dots :: "string \<Rightarrow> string" where
  "trim_end_dots s = rev (dropWhile (\<lambda>c. c = CHR ''.'') (rev s))"

definition plan_web :: "normalized_web_url \<Rightarrow> connector_availability \<Rightarrow> web_route_plan" where
  "plan_web url a =
    (let h = to_ascii_lowercase (trim_end_dots (nu_host url));
         (primary, enabled) =
           (if host h ''mp.weixin.qq.com'' \<and> co_wechat a then (Wechat, True)
            else if (host h ''zhihu.com'' \<or> host h ''zhuanlan.zhihu.com'') \<and> co_zhihu a
            then (Zhihu, True)
            else if (host h ''bilibili.com'' \<or> host h ''b23.tv'') \<and> co_bilibili a
            then (Bilibili, True)
            else if (host h ''xiaohongshu.com'' \<or> host h ''xhslink.com'' \<or> host h ''xhslink.cn'') \<and>
                co_xiaohongshu a then (Xiaohongshu, True)
            else if (host h ''douyin.com'' \<or> host h ''iesdouyin.com'') \<and> co_douyin a
            then (Douyin, True)
            else if host h ''x.com'' \<or> host h ''twitter.com'' then (XTwitter, co_phase_two a)
            else (GenericHttp, True))
     in \<lparr>wp_primary = primary,
         wp_fallbacks = push_if (co_browser a) GenericBrowser
           (push_if (primary \<noteq> GenericHttp) GenericHttp []),
         wp_concurrency_key = h, wp_max_attempts_per_route = 2, wp_release_enabled = enabled\<rparr>)"

section \<open>Lemmas\<close>

lemma split_on_nonempty [simp]: "split_on c xs \<noteq> []"
  by (induction xs) (auto split: list.splits)

lemma split_on_append_sep: "split_on c (xs @ c # ys) = split_on c xs @ split_on c ys"
proof (induction xs)
  case (Cons x xs)
  obtain w ws where "split_on c xs = w # ws" by (cases "split_on c xs") auto
  then show ?case by (simp add: Cons.IH)
qed simp

lemma split_on_no_sep: "c \<notin> set xs \<Longrightarrow> split_on c xs = [xs]"
  by (induction xs) auto

lemma join_split_on:
  "concat (map (\<lambda>w. w @ [c]) (split_on c xs)) = xs @ [c]"
proof (induction xs)
  case (Cons x xs)
  obtain w ws where "split_on c xs = w # ws" by (cases "split_on c xs") auto
  with Cons.IH show ?case by auto
qed simp

lemma split_on_inject: "split_on c xs = split_on c ys \<longleftrightarrow> xs = ys"
  by (metis append_same_eq join_split_on)

text \<open>
  The domain test strips the expected suffix and looks for a dot. The labels of the expected
  domain are then the last labels of the host: no partial label can match.
\<close>

lemma host_on_domain: "host h d \<longleftrightarrow> on_domain h d"
  by (auto simp: host_def on_domain_def strip_suffix_def ends_with_def suffix_def
      split: option.splits if_splits)

lemma suffix_labels_split:
  assumes "split_on c xs = us @ split_on c ys" and "us \<noteq> []"
  shows "\<exists>p. xs = p @ c # ys"
proof -
  have "concat (map (\<lambda>w. w @ [c]) (split_on c xs)) =
      concat (map (\<lambda>w. w @ [c]) us) @ concat (map (\<lambda>w. w @ [c]) (split_on c ys))"
    by (simp add: assms(1))
  then have e: "xs @ [c] = concat (map (\<lambda>w. w @ [c]) us) @ ys @ [c]"
    by (simp only: join_split_on)
  obtain u us' where "us = us' @ [u]" using assms(2) by (metis rev_exhaust)
  with e have "xs = (concat (map (\<lambda>w. w @ [c]) us') @ u) @ c # ys" by simp
  then show ?thesis by blast
qed

lemma labels_suffix_iff:
  "suffix (split_on c d) (split_on c h) \<longleftrightarrow> h = d \<or> (\<exists>p. h = p @ c # d)"
proof
  assume "suffix (split_on c d) (split_on c h)"
  then obtain us where us: "split_on c h = us @ split_on c d" by (auto simp: suffix_def)
  show "h = d \<or> (\<exists>p. h = p @ c # d)"
  proof (cases "us = []")
    case True
    with us show ?thesis by (simp add: split_on_inject)
  next
    case False
    from suffix_labels_split [OF us this] show ?thesis by blast
  qed
next
  assume "h = d \<or> (\<exists>p. h = p @ c # d)"
  then show "suffix (split_on c d) (split_on c h)"
    by (auto simp: suffix_def split_on_append_sep)
qed

lemma set_push_if [simp]: "set (push_if b x xs) = set xs \<union> (if b then {x} else {})"
  by (simp add: push_if_def)

lemma map_push_if [simp]: "map f (push_if b x xs) = push_if b (f x) (map f xs)"
  by (simp add: push_if_def)

definition office_formats :: "file_format set" where
  "office_formats = {Doc, Docx, Xls, Xlsx, Ppt, Pptx}"

definition legacy_formats :: "file_format set" where
  "legacy_formats = {Doc, Xls, Ppt}"

lemma plan_cases:
  obtains (legacy) modern where "legacy_target f = Some modern" "f \<in> legacy_formats"
  | (modern) primary where "legacy_target f = None" "modern_primary f = Some primary"
      "f \<in> office_formats - legacy_formats"
  | (none) "legacy_target f = None" "modern_primary f = None" "f \<notin> office_formats"
  by (cases f) (auto simp: office_formats_def legacy_formats_def)

lemma modern_names:
  "legacy_target f = Some m \<Longrightarrow> m \<in> {''office.modern.docx'', ''office.modern.xlsx'', ''office.modern.pptx''}"
  "modern_primary f = Some m \<Longrightarrow> m \<in> {''office.modern.docx'', ''office.modern.xlsx'', ''office.modern.pptx''}"
  by (cases f; simp)+

lemmas plan_defs = plan_def attempt_def push_if_def Let_def

lemma plan_route_packs:
  assumes "a \<in> set (plan f ca)"
  shows "ra_required_pack a = Some ''office-legacy'' \<Longrightarrow> ca_office_legacy ca"
    and "ra_required_pack a = Some ''document-standard'' \<Longrightarrow> ca_document_standard ca"
    and "ra_required_pack a = Some ''office-oxide'' \<Longrightarrow>
      ca_office_oxide_installed ca \<and> ca_office_oxide_qualified ca"
    and "ra_quality_floor a = AgentCandidate \<Longrightarrow> ca_agent_available ca"
    and "f \<in> office_formats"
    and "f \<in> legacy_formats \<Longrightarrow> ra_required_pack a = None \<Longrightarrow>
      ra_quality_floor a \<noteq> AgentCandidate \<Longrightarrow> ca_office_legacy ca"
  using assms by (cases rule: plan_cases [of f]; force simp: plan_defs office_formats_def
      legacy_formats_def split: if_splits)+

lemma plan_agent_last:
  assumes "i < length (plan f ca)" and "ra_quality_floor (plan f ca ! i) = AgentCandidate"
  shows "Suc i = length (plan f ca)"
  using assms by (cases rule: plan_cases [of f])
    (auto simp: plan_defs nth_append nth_Cons' split: if_splits)

section \<open>Properties\<close>

text \<open>
  every planned attempt is backed by what is installed: an attempt that needs the
  \<open>office-legacy\<close>, \<open>document-standard\<close> or \<open>office-oxide\<close> pack is planned only if that pack is
  there (and, for oxide, qualified); a legacy binary format reaches a built-in parser only through
  the conversion pack; the Agent candidate is planned only when an Agent is available, and only
  as the last attempt; formats that are not Office documents have no planned attempt.
\<close>

theorem plan_capability_safe:
  assumes "i < length (plan f ca)" and "a = plan f ca ! i"
  shows "(ra_required_pack a = Some ''office-legacy'' \<longrightarrow> ca_office_legacy ca) \<and>
    (ra_required_pack a = Some ''document-standard'' \<longrightarrow> ca_document_standard ca) \<and>
    (ra_required_pack a = Some ''office-oxide'' \<longrightarrow>
      ca_office_oxide_installed ca \<and> ca_office_oxide_qualified ca) \<and>
    (f \<in> legacy_formats \<and> ra_required_pack a = None \<and> ra_quality_floor a \<noteq> AgentCandidate \<longrightarrow>
      ca_office_legacy ca) \<and>
    (ra_quality_floor a = AgentCandidate \<longrightarrow> ca_agent_available ca \<and> Suc i = length (plan f ca)) \<and>
    f \<in> office_formats"
proof -
  have m: "a \<in> set (plan f ca)" using assms by simp
  show ?thesis
    using plan_route_packs [OF m] plan_agent_last [OF assms(1)] assms(2) by blast
qed

definition agent_only_snapshot :: capability_snapshot where
  "agent_only_snapshot = \<lparr>ca_document_standard = True, ca_office_legacy = False,
     ca_office_oxide_installed = False, ca_office_oxide_qualified = False,
     ca_agent_available = True\<rparr>"

theorem plan_capability_safe_witness:
  "plan Doc agent_only_snapshot = [attempt ''agent.office'' None AgentCandidate] \<and>
   Doc \<in> office_formats"
  using plan_capability_safe [of 0 Doc agent_only_snapshot "plan Doc agent_only_snapshot ! 0"]
  by (simp add: plan_defs agent_only_snapshot_def)

text \<open>
  the oxide route is fail-closed. In a snapshot taken from an installation it is planned
  exactly for the Office formats when the pack is installed and its qualification file is
  readable, has schema version 1, passed its critical assertions with no security and no fuzz
  blocker, and names the running target.
\<close>

theorem oxide_fail_closed:
  "''pack.office-oxide'' \<in> set (map ra_route (plan f
      (from_installation standard installed evidence target agent))) \<longleftrightarrow>
   f \<in> office_formats \<and> installed \<and> (\<exists>q. evidence = Some q \<and> oq_schema_version q = 1 \<and>
     oq_critical_assertions_passed q \<and> oq_security_blockers q = 0 \<and> oq_fuzz_blockers q = 0 \<and>
     target \<in> set (oq_qualified_target_triples q))"
  by (cases rule: plan_cases [of f]; cases evidence)
    (auto simp: plan_defs from_installation_def list_ex_iff office_formats_def legacy_formats_def
      dest: modern_names)

definition switched :: "(string \<times> quality_floor) list \<Rightarrow> (string \<times> quality_floor) list" where
  "switched rs = reorder_routes rs (Some SwitchRoute)"

lemma mset_rotate1: "mset (rotate1 xs) = mset xs"
  by (cases xs) auto

lemma switched_rotate1: "switched rs = rotate1 rs"
  by (cases rs) (auto simp: switched_def reorder_routes_def)

lemma switched_pow: "(switched ^^ n) rs = rotate n rs"
proof -
  have "switched = rotate1" by (rule ext) (rule switched_rotate1)
  then show ?thesis by (simp add: rotate_def)
qed

text \<open>
  a recovery action reorders the attempts and loses none. Switching the route or the parser
  repeatedly rotates the list, so that every attempt comes first after at most as many switches
  as there are attempts; enabling OCR sorts by text, OCR, layout, rest, keeping the order within
  each class.
\<close>

theorem reorder_routes_fair:
  assumes "r \<in> set routes"
  shows "mset (reorder_routes routes action) = mset routes \<and>
    (\<exists>n < length routes. hd ((switched ^^ n) routes) = r) \<and>
    sorted (map ocr_sort_key (reorder_routes routes (Some EnableOcr))) \<and>
    filter (\<lambda>x. ocr_sort_key x = ocr_sort_key r) (reorder_routes routes (Some EnableOcr)) =
      filter (\<lambda>x. ocr_sort_key x = ocr_sort_key r) routes"
proof (intro conjI)
  show "mset (reorder_routes routes action) = mset routes"
    by (auto simp: reorder_routes_def mset_rotate1 split: option.splits import_recovery_action.splits)
  obtain n where n: "n < length routes" "routes ! n = r" using assms by (auto simp: in_set_conv_nth)
  then have "hd (rotate n routes) = r" by (metis hd_rotate_conv_nth length_greater_0_conv mod_less
        gr_implies_not0 list.size(3))
  with n show "\<exists>n < length routes. hd ((switched ^^ n) routes) = r"
    by (auto simp: switched_pow)
  show "sorted (map ocr_sort_key (reorder_routes routes (Some EnableOcr)))"
    by (simp add: reorder_routes_def)
  show "filter (\<lambda>x. ocr_sort_key x = ocr_sort_key r) (reorder_routes routes (Some EnableOcr)) =
      filter (\<lambda>x. ocr_sort_key x = ocr_sort_key r) routes"
    by (simp add: reorder_routes_def sort_key_stable)
qed

theorem reorder_routes_fair_witness:
  "mset (reorder_routes [(''pdf.layout'', ModernOffice), (''ocr.basic'', ModernOffice)]
      (Some EnableOcr)) = {#(''pdf.layout'', ModernOffice), (''ocr.basic'', ModernOffice)#} \<and>
   (\<exists>n < 2. hd ((switched ^^ n) [(''pdf.layout'', ModernOffice), (''ocr.basic'', ModernOffice)]) =
      (''ocr.basic'', ModernOffice))"
  using reorder_routes_fair [of "(''ocr.basic'', ModernOffice)"
      "[(''pdf.layout'', ModernOffice), (''ocr.basic'', ModernOffice)]" "Some EnableOcr"]
  by (simp add: numeral_2_eq_2)

text \<open>
  the domain test of the web router accepts a host exactly when the labels of the expected
  domain are the last labels of the host: a lookalike such as \<open>evilbilibili.com\<close> or
  \<open>bilibili.com.evil.net\<close> never matches.
\<close>

theorem host_is_label_suffix:
  "host h d \<longleftrightarrow> suffix (split_on (CHR ''.'') d) (split_on (CHR ''.'') h)"
  by (simp add: host_on_domain on_domain_def labels_suffix_iff ends_with_iff)

fun connector_domains :: "web_route_kind \<Rightarrow> string list" where
  "connector_domains Wechat = [''mp.weixin.qq.com'']"
| "connector_domains Zhihu = [''zhihu.com'']"
| "connector_domains Bilibili = [''bilibili.com'', ''b23.tv'']"
| "connector_domains Xiaohongshu = [''xiaohongshu.com'', ''xhslink.com'', ''xhslink.cn'']"
| "connector_domains Douyin = [''douyin.com'', ''iesdouyin.com'']"
| "connector_domains XTwitter = [''x.com'', ''twitter.com'']"
| "connector_domains _ = []"

fun connector_enabled :: "connector_availability \<Rightarrow> web_route_kind \<Rightarrow> bool" where
  "connector_enabled a Wechat = co_wechat a"
| "connector_enabled a Zhihu = co_zhihu a"
| "connector_enabled a Bilibili = co_bilibili a"
| "connector_enabled a Xiaohongshu = co_xiaohongshu a"
| "connector_enabled a Douyin = co_douyin a"
| "connector_enabled a _ = True"

lemma host_trans: "host d e \<Longrightarrow> host h d \<Longrightarrow> host h e"
  by (auto simp: host_on_domain on_domain_def ends_with_iff)

lemma zhuanlan_is_zhihu: "host h ''zhuanlan.zhihu.com'' \<Longrightarrow> host h ''zhihu.com''"
  by (rule host_trans [of "''zhuanlan.zhihu.com''"]) (simp_all add: host_def strip_suffix_def
      ends_with_def suffix_def eval_nat_numeral)

text \<open>
  the web plan. A dedicated connector is the primary route only when it is enabled and the
  host, without trailing dots and in lower case, lies on one of its domains; the X connector alone
  is planned while disabled, and then the plan is not released. Generic HTTP is always among the
  attempts, the browser exactly when there is one, and no attempt is repeated.
\<close>

theorem connector_only_on_its_domain:
  assumes "p = plan_web url a"
  shows "(wp_primary p = GenericHttp \<or> connector_enabled a (wp_primary p) \<and>
      list_ex (host (to_ascii_lowercase (trim_end_dots (nu_host url))))
        (connector_domains (wp_primary p))) \<and>
    (wp_release_enabled p \<longleftrightarrow> wp_primary p \<noteq> XTwitter \<or> co_phase_two a) \<and>
    GenericHttp \<in> set (wp_primary p # wp_fallbacks p) \<and>
    (GenericBrowser \<in> set (wp_primary p # wp_fallbacks p) \<longleftrightarrow> co_browser a) \<and>
    distinct (wp_primary p # wp_fallbacks p)"
  unfolding assms plan_web_def
  by (auto simp: push_if_def Let_def zhuanlan_is_zhihu)

definition bilibili_only :: connector_availability where
  "bilibili_only = \<lparr>co_browser = False, co_wechat = False, co_zhihu = False, co_bilibili = True,
     co_xiaohongshu = False, co_douyin = False, co_phase_two = False\<rparr>"

theorem connector_only_on_its_domain_witness:
  "\<exists>p. p = plan_web \<lparr>nu_public_url = [], nu_host = ''www.bilibili.com.'', nu_scheme = ''https''\<rparr>
      bilibili_only \<and> distinct (wp_primary p # wp_fallbacks p) \<and>
    (GenericBrowser \<in> set (wp_primary p # wp_fallbacks p) \<longleftrightarrow> co_browser bilibili_only)"
  using connector_only_on_its_domain [OF refl] by blast

lemma accepted_cases:
  assumes "format_accepts_extension f e"
  shows "e = canonical_extension f \<or> (f, e) \<in> set (map (Pair Markdown) [''markdown'', ''mdx'', ''mkd'',
     ''mkdn'', ''mdown'', ''mdwn'', ''rmd''] @ [(Html, ''htm''), (Jpeg, ''jpeg''), (Tiff, ''tif''),
     (Ass, ''ssa'')])"
  using assms by (cases f) auto

definition routes_by_extension_agree :: "file_format \<Rightarrow> string \<Rightarrow> bool" where
  "routes_by_extension_agree f e \<longleftrightarrow> extension_routes e =
     (if f = Markdown \<and> e \<notin> {''md'', ''markdown''} then []
      else filter (\<lambda>r. \<not> (f \<in> {Doc, Xls, Ppt} \<and> r = ''pack.markitdown'') \<and>
          \<not> (f \<in> set audio_video_formats \<and> r \<in> {''media.subtitle'', ''media.keyframes''}))
        (routes_for_format f))"

lemma canonical_agree: "routes_by_extension_agree f (canonical_extension f)"
  by (cases f; simp only: canonical_extension.simps; code_simp)

lemma alias_agree:
  "list_all (\<lambda>(f, e). routes_by_extension_agree f e) (map (Pair Markdown) [''markdown'', ''mdx'',
     ''mkd'', ''mkdn'', ''mdown'', ''mdwn'', ''rmd''] @ [(Html, ''htm''), (Jpeg, ''jpeg''), (Tiff, ''tif''),
     (Ass, ''ssa'')])"
  by code_simp

lemma routed_extension_accepted:
  assumes "extension_routes e \<noteq> []"
  shows "\<exists>f. format_accepts_extension f e"
proof -
  have "e \<in> {''markdown'', ''htm'', ''jpeg'', ''tif'', ''ssa''} \<or> e \<in> range canonical_extension"
  proof (rule ccontr)
    assume n: "\<not> ?thesis"
    have c: "e \<noteq> canonical_extension f" for f using n by blast
    from n c [of Markdown] c [of PlainText] c [of Html] c [of Csv] c [of Doc] c [of Docx] c [of Xls]
      c [of Xlsx] c [of Ppt] c [of Pptx] c [of Pdf] c [of Png] c [of Jpeg] c [of Webp] c [of Bmp]
      c [of Tiff] c [of Heic] c [of Heif] c [of AnimatedGif] c [of Mp3] c [of Wav] c [of M4a]
      c [of Aac] c [of Flac] c [of Ogg] c [of Opus] c [of Wma] c [of Mp4] c [of Mov] c [of Mkv]
      c [of Webm] c [of Avi] c [of M4v] c [of Wmv] c [of Srt] c [of Vtt] c [of Ass] c [of Lrc]
    have "extension_routes e = []" unfolding extension_routes_def by simp
    with assms show False by simp
  qed
  then show ?thesis
  proof
    assume "e \<in> range canonical_extension"
    then obtain f where "e = canonical_extension f" by auto
    then show ?thesis by (cases f) (auto intro!: exI [of _ f])
  next
    assume "e \<in> {''markdown'', ''htm'', ''jpeg'', ''tif'', ''ssa''}"
    then have "format_accepts_extension Markdown e \<or> format_accepts_extension Html e \<or>
        format_accepts_extension Jpeg e \<or> format_accepts_extension Tiff e \<or>
        format_accepts_extension Ass e" by auto
    then show ?thesis by blast
  qed
qed

text \<open>
  C38: The attempts by file extension (\<open>explicit_routes\<close>) against the canonical routes of the
  format that accepts the extension (\<open>format_accepts_extension\<close>): they are the canonical routes
  in their order, except that the legacy Office formats lack \<open>pack.markitdown\<close>, audio and video
  lack \<open>media.subtitle\<close> and \<open>media.keyframes\<close>, and the Markdown extensions other than \<open>md\<close> and
  \<open>markdown\<close> have no route at all. Every extension with a route is one some format accepts.
\<close>

theorem extension_routes_vs_canonical:
  assumes "format_accepts_extension f e"
  shows "extension_routes e =
     (if f = Markdown \<and> e \<notin> {''md'', ''markdown''} then []
      else filter (\<lambda>r. \<not> (f \<in> {Doc, Xls, Ppt} \<and> r = ''pack.markitdown'') \<and>
          \<not> (f \<in> set audio_video_formats \<and> r \<in> {''media.subtitle'', ''media.keyframes''}))
        (routes_for_format f)) \<and>
     (\<forall>x. extension_routes x \<noteq> [] \<longrightarrow> (\<exists>g. format_accepts_extension g x))"
proof -
  have "routes_by_extension_agree f e"
    using accepted_cases [OF assms] alias_agree canonical_agree [of f] by (auto simp: list_all_iff)
  then show ?thesis
    unfolding routes_by_extension_agree_def using routed_extension_accepted by blast
qed

theorem extension_routes_vs_canonical_witness:
  "format_accepts_extension Ppt ''ppt'' \<and> ''pack.markitdown'' \<in> set (routes_for_format Ppt) \<and>
   ''pack.markitdown'' \<notin> set (extension_routes ''ppt'') \<and> extension_routes ''mdx'' = []"
proof -
  have p: "format_accepts_extension Ppt ''ppt''" and m: "format_accepts_extension Markdown ''mdx''"
    by simp_all
  from extension_routes_vs_canonical [OF m] have "extension_routes ''mdx'' = []" by simp
  moreover have "extension_routes ''ppt'' = filter (\<lambda>r. r \<noteq> ''pack.markitdown'') (routes_for_format Ppt)"
    using extension_routes_vs_canonical [OF p] by (simp add: audio_video_formats_def)
  moreover have "''pack.markitdown'' \<in> set (routes_for_format Ppt)"
    by (simp add: routes_for_format_def office_routes_def)
  ultimately show ?thesis using p by simp
qed

end
