(* ===== verification/Media_Routing.thy ===== *)
theory Media_Routing
  imports File_Routing
begin

text \<open>
  The routers for media (\<open>services/import_v2/media_router.rs\<close>) and for the pages of a PDF
  (\<open>services/import_v2/pdf_router.rs\<close>). The parsed ASR manifest and the parsed PDF objects are
  arguments: the JSON and PDF parsers are not part of the repository.
\<close>

section \<open>Media\<close>

datatype media_kind = Audio | Video
datatype subtitle_kind = HumanPlatform | HumanLocal | Automatic_subtitle | Embedded

record subtitle_candidate =
  sc_kind :: subtitle_kind
  sc_path :: string

record media_input =
  mi_kind :: media_kind
  mi_subtitles :: "subtitle_candidate list"
  mi_cover_path :: "string option"

datatype media_route_status = MediaReady | MediaWaitingCapability | MediaWaitingAuthorization

record media_route_plan =
  mp_subtitle :: "subtitle_candidate option"
  mp_requires_asr :: bool
  mp_artifacts :: "string list"
  mp_chunk_bytes :: nat
  mp_max_in_flight_chunks :: nat
  mp_status :: media_route_status

definition MEDIA_CHUNK_BYTES :: nat where "MEDIA_CHUNK_BYTES = 1024 * 1024"
definition MEDIA_MAX_IN_FLIGHT_CHUNKS :: nat where "MEDIA_MAX_IN_FLIGHT_CHUNKS = 2"

definition subtitle_markdown_cover_metadata :: "string list" where
  "subtitle_markdown_cover_metadata = [''subtitle.vtt'', ''document.md'', ''cover'', ''metadata.json'']"

fun subtitle_rank :: "subtitle_kind \<Rightarrow> nat" where
  "subtitle_rank HumanPlatform = 0"
| "subtitle_rank Embedded = 1"
| "subtitle_rank HumanLocal = 2"
| "subtitle_rank Automatic_subtitle = 3"

definition plan_authorized :: "media_input \<Rightarrow> bool \<Rightarrow> bool \<Rightarrow> media_route_plan" where
  "plan_authorized input asr_available user_authorized =
    (let subtitle = min_by_key (\<lambda>c. subtitle_rank (sc_kind c)) (mi_subtitles input);
         status = (if subtitle \<noteq> None then MediaReady
           else if \<not> asr_available then MediaWaitingCapability
           else if \<not> user_authorized then MediaWaitingAuthorization else MediaReady)
     in \<lparr>mp_subtitle = subtitle,
         mp_requires_asr = (subtitle = None \<and> asr_available \<and> user_authorized),
         mp_artifacts = subtitle_markdown_cover_metadata, mp_chunk_bytes = MEDIA_CHUNK_BYTES,
         mp_max_in_flight_chunks = MEDIA_MAX_IN_FLIGHT_CHUNKS, mp_status = status\<rparr>)"

definition plan_media :: "media_input \<Rightarrow> bool \<Rightarrow> media_route_plan" where
  "plan_media input asr_available = plan_authorized input asr_available True"

text \<open>Zero-padded decimal printing, \<open>{:0w}\<close>.\<close>

definition show_padded :: "nat \<Rightarrow> nat \<Rightarrow> string" where
  "show_padded w n = replicate (w - length (show_nat n)) (CHR ''0'') @ show_nat n"

definition timestamp :: "nat \<Rightarrow> string" where
  "timestamp ms = show_padded 2 (ms div 3600000) @ '':'' @ show_padded 2 (ms div 60000 mod 60) @ '':'' @
     show_padded 2 (ms div 1000 mod 60) @ ''.'' @ show_padded 3 (ms mod 1000)"

record model_download_contract =
  md_resumable :: bool
  md_signature_required :: bool
  md_runtime_install_allowed :: bool

record asr_model =
  am_id :: string
  am_sha256 :: string
  am_download :: model_download_contract

definition media_error :: "string \<Rightarrow> backend_error" where
  "media_error m = backend_error_new IMPORT_V2_CAPABILITY_INVALID m False False"

text \<open>\<open>parsed\<close> is the outcome of \<open>serde_json::from_str\<close> on the manifest.\<close>

definition from_manifest_str :: "asr_model list option \<Rightarrow> asr_model list result" where
  "from_manifest_str parsed =
    (case parsed of
       None \<Rightarrow> Inl (media_error ''The ASR model catalog is invalid.'')
     | Some models \<Rightarrow>
       if list_ex (\<lambda>m. \<not> sha256_hex (am_sha256 m)) models
       then Inl (media_error ''Every ASR model must have a pinned SHA-256 digest.'')
       else Inr models)"

definition select_model :: "string \<Rightarrow> asr_model list \<Rightarrow> asr_model result" where
  "select_model i models =
    (case List.find (\<lambda>m. am_id m = i) models of
       None \<Rightarrow> Inl (media_error ''The requested ASR model is not declared.'') | Some m \<Rightarrow> Inr m)"

section \<open>PDF pages\<close>

record pdf_inspection =
  pi_page_count :: nat
  pi_text_characters_per_page :: "nat list"
  pi_image_only_pages :: "nat list"
  pi_encrypted :: bool
  pi_active_actions :: bool
  pi_estimated_ocr_pages :: nat

definition meets_quality_contract :: "pdf_inspection \<Rightarrow> nat \<Rightarrow> rat \<Rightarrow> bool" where
  "meets_quality_contract p extracted coverage \<longleftrightarrow> pi_page_count p = extracted \<and>
     length (pi_text_characters_per_page p) = pi_page_count p \<and> \<not> pi_active_actions p \<and>
     coverage \<ge> 98 / 100"

datatype pdf_inspection_error =
    PasswordRequired bool | InvalidPassword bool | ActiveContentRejected | CorruptPdf

record pdf_route_capabilities =
  pr_document_layout :: bool
  pr_ocr :: bool
  pr_agent :: bool

datatype pdf_page_route = TextLayer | DocumentLayout | SelectiveOcr | AgentEligible | PageWaitingCapability

record pdf_page_plan =
  pp_page_index :: nat
  pp_route :: pdf_page_route
  pp_reason :: string

definition page_route :: "bool \<Rightarrow> pdf_route_capabilities \<Rightarrow> pdf_page_route \<times> string" where
  "page_route needs_ocr ca =
    (if \<not> needs_ocr then (TextLayer, ''preserve readable text or a blank page'')
     else if pr_ocr ca then (SelectiveOcr, ''page has insufficient text and requires selective OCR'')
     else if pr_document_layout ca
       then (DocumentLayout, ''OCR unavailable; preserve page through layout pack'')
     else if pr_agent ca then (AgentEligible, ''deterministic capabilities unavailable'')
     else (PageWaitingCapability, ''required local document capability is not installed''))"

definition plan_pdf_pages ::
  "pdf_inspection \<Rightarrow> pdf_route_capabilities \<Rightarrow> pdf_inspection_error + pdf_page_plan list" where
  "plan_pdf_pages p ca =
    (if pi_encrypted p then Inl (PasswordRequired True)
     else if pi_active_actions p then Inl ActiveContentRejected
     else Inr (map (\<lambda>(index, _). let (route, reason) =
           page_route (index \<in> set (pi_image_only_pages p)) ca
         in \<lparr>pp_page_index = index, pp_route = route, pp_reason = reason\<rparr>)
       (enumerate 0 (pi_text_characters_per_page p))))"

text \<open>
  The objects of a parsed PDF, as far as the scan for active content looks at them: names,
  arrays, dictionaries and streams (their dictionary), everything else alike.
\<close>

datatype pdf_object =
    PdfName string
  | PdfArray "pdf_object list"
  | PdfDictionary "(string \<times> pdf_object) list"
  | PdfStream "(string \<times> pdf_object) list"
  | PdfOther

definition active_key :: "string \<Rightarrow> bool" where
  "active_key k \<longleftrightarrow>
     k \<in> {''AA'', ''JS'', ''JavaScript'', ''Launch'', ''RichMedia'', ''EmbeddedFiles''}"

definition active_action :: "string \<Rightarrow> pdf_object \<Rightarrow> bool" where
  "active_action k v \<longleftrightarrow> k = ''S'' \<and> (case v of
     PdfName n \<Rightarrow> n \<in> {''JavaScript'', ''Launch'', ''SubmitForm'', ''ImportData''} | _ \<Rightarrow> False)"

fun has_active_content :: "pdf_object \<Rightarrow> bool" where
  "has_active_content (PdfDictionary d) =
     list_ex (\<lambda>(k, v). active_key k \<or> active_action k v \<or> has_active_content v) d"
| "has_active_content (PdfStream d) =
     list_ex (\<lambda>(k, v). active_key k \<or> active_action k v \<or> has_active_content v) d"
| "has_active_content (PdfArray vs) = list_ex has_active_content vs"
| "has_active_content _ = False"

section \<open>Lemmas\<close>

text \<open>Reading a printed number back.\<close>

definition read_nat :: "string \<Rightarrow> nat" where
  "read_nat s = foldl (\<lambda>n c. 10 * n + (of_char c - 48)) 0 s"

lemma read_nat_snoc: "read_nat (s @ [c]) = 10 * read_nat s + (of_char c - 48)"
  by (simp add: read_nat_def)

lemma digit_char [simp]: "of_char (char_of (48 + n) :: char) = (48 + n :: nat)" if "n < 10"
  using that by simp

lemma read_show_nat [simp]: "read_nat (show_nat n) = n"
proof (induction n rule: show_nat.induct)
  case (1 n)
  show ?case
  proof (cases "n < 10")
    case True
    then show ?thesis by (simp add: show_nat.simps [of n] read_nat_def)
  next
    case False
    then have "read_nat (show_nat n) = 10 * (n div 10) + n mod 10"
      using 1 by (simp add: show_nat.simps [of n] read_nat_snoc)
    then show ?thesis by simp
  qed
qed

lemma read_nat_zeros [simp]: "read_nat (replicate k (CHR ''0'') @ s) = read_nat s"
proof (induction k)
  case (Suc k)
  then show ?case by (simp add: read_nat_def)
qed simp

lemma read_show_padded [simp]: "read_nat (show_padded w n) = n"
  by (simp add: show_padded_def)

lemma show_nat_digits: "c \<in> set (show_nat n) \<Longrightarrow> 48 \<le> (of_char c :: nat) \<and> of_char c \<le> (57 :: nat)"
proof (induction n rule: show_nat.induct)
  case (1 n)
  show ?case
  proof (cases "n < 10")
    case True
    with 1(2) show ?thesis by (simp add: show_nat.simps [of n])
  next
    case False
    with 1(2) consider "c \<in> set (show_nat (n div 10))" | "c = char_of (48 + n mod 10)"
      by (auto simp: show_nat.simps [of n])
    then show ?thesis
    proof cases
      case 2
      have "n mod 10 < 10" by simp
      with 2 show ?thesis by (simp del: of_char_of)
    qed (use 1(1) False in blast)
  qed
qed

lemma show_padded_digits:
  "c \<in> set (show_padded w n) \<Longrightarrow> 48 \<le> (of_char c :: nat) \<and> of_char c \<le> (57 :: nat)"
  by (auto simp: show_padded_def dest: show_nat_digits split: if_splits)

lemma length_show_nat: "length (show_nat n) = (if n < 10 then 1 else Suc (length (show_nat (n div 10))))"
  by (subst show_nat.simps) simp

lemma length_show_padded: "length (show_padded w n) = max w (length (show_nat n))"
  by (simp add: show_padded_def)

lemma padded_two: "length (show_padded 2 n) = 2 \<longleftrightarrow> n < 100"
proof (cases "n < 100")
  case False
  then have "\<not> n < 10" "\<not> n div 10 < 10" by auto
  then have "length (show_nat n) \<ge> 2 + length (show_nat (n div 10 div 10))"
    by (simp add: length_show_nat [of n] length_show_nat [of "n div 10"])
  moreover have "length (show_nat (n div 10 div 10)) > 0"
    by (simp add: length_show_nat [of "n div 10 div 10"])
  ultimately have "length (show_nat n) > 2" by linarith
  then show ?thesis using False by (simp add: length_show_padded)
qed (simp add: length_show_padded length_show_nat [of n] length_show_nat [of "n div 10"])

lemma padded_three: "n < 1000 \<Longrightarrow> length (show_padded 3 n) = 3"
  by (simp add: length_show_padded length_show_nat [of n] length_show_nat [of "n div 10"]
      length_show_nat [of "n div 100"] flip: div_mult2_eq)

text \<open>The inverse of \<open>timestamp\<close>, as a reader of a subtitle file would compute it.\<close>

definition parse_timestamp :: "string \<Rightarrow> nat option" where
  "parse_timestamp s =
    (case split_on (CHR '':'') s of
       [h, m, rest] \<Rightarrow>
         (case split_on (CHR ''.'') rest of
            [sec, milli] \<Rightarrow> Some (read_nat h * 3600000 + read_nat m * 60000 + read_nat sec * 1000 +
              read_nat milli)
          | _ \<Rightarrow> None)
     | _ \<Rightarrow> None)"

lemma no_colon [simp]: "CHR '':'' \<notin> set (show_padded w n)" "CHR ''.'' \<notin> set (show_padded w n)"
  by (auto dest: show_padded_digits)

lemma split_colon: "c \<notin> set xs \<Longrightarrow> split_on c (xs @ c # ys) = xs # split_on c ys"
  by (simp add: split_on_append_sep split_on_no_sep)

lemma milliseconds_decompose:
  "n div 3600000 * 3600000 + n div 60000 mod 60 * 60000 + n div 1000 mod 60 * 1000 + n mod 1000 =
     (n :: nat)"
proof -
  have "n = n div 1000 * 1000 + n mod 1000" by simp
  also have "n div 1000 = n div 60000 * 60 + n div 1000 mod 60"
    using div_mult_mod_eq [of "n div 1000" 60] by (simp flip: div_mult2_eq)
  also have "n div 60000 = n div 3600000 * 60 + n div 60000 mod 60"
    using div_mult_mod_eq [of "n div 60000" 60] by (simp flip: div_mult2_eq)
  finally show ?thesis by simp
qed

text \<open>
  The dictionaries inside an object: those it is, and those inside the elements of an array and
  the values of a dictionary or of a stream.
\<close>

inductive contains_dict :: "pdf_object \<Rightarrow> (string \<times> pdf_object) list \<Rightarrow> bool" where
  here: "contains_dict (PdfDictionary d) d"
| here_stream: "contains_dict (PdfStream d) d"
| in_array: "v \<in> set vs \<Longrightarrow> contains_dict v d \<Longrightarrow> contains_dict (PdfArray vs) d"
| in_dict: "(k, v) \<in> set e \<Longrightarrow> contains_dict v d \<Longrightarrow> contains_dict (PdfDictionary e) d"
| in_stream: "(k, v) \<in> set e \<Longrightarrow> contains_dict v d \<Longrightarrow> contains_dict (PdfStream e) d"

definition active_entry :: "(string \<times> pdf_object) list \<Rightarrow> bool" where
  "active_entry d \<longleftrightarrow> list_ex (\<lambda>(k, v). active_key k \<or> active_action k v) d"

inductive_cases contains_dict_elims:
  "contains_dict (PdfName n) d" "contains_dict (PdfArray vs) d" "contains_dict (PdfDictionary e) d"
  "contains_dict (PdfStream e) d" "contains_dict PdfOther d"

lemma active_content_complete:
  "contains_dict v d \<Longrightarrow> active_entry d \<Longrightarrow> has_active_content v"
  by (induction rule: contains_dict.induct)
    (force simp: active_entry_def list_ex_iff)+

lemma active_content_sound:
  "has_active_content v \<Longrightarrow> \<exists>d. contains_dict v d \<and> active_entry d"
proof (induction v rule: has_active_content.induct)
  case (1 d)
  then show ?case
    by (fastforce simp: active_entry_def list_ex_iff intro: contains_dict.intros)
next
  case (2 d)
  then show ?case
    by (fastforce simp: active_entry_def list_ex_iff intro: contains_dict.intros)
next
  case (3 vs)
  then show ?case by (fastforce simp: list_ex_iff intro: contains_dict.intros)
qed simp_all

lemma pages_determined:
  "map (\<lambda>(i, _). let (route, reason) = f i in
       \<lparr>pp_page_index = i, pp_route = route, pp_reason = reason\<rparr>) (enumerate 0 xs) = plans \<longleftrightarrow>
   map pp_page_index plans = [0..<length xs] \<and>
     list_all (\<lambda>q. (pp_route q, pp_reason q) = f (pp_page_index q)) plans" (is "map ?g _ = _ \<longleftrightarrow> ?r")
proof
  assume "map ?g (enumerate 0 xs) = plans"
  then show ?r
    by (auto simp: list_all_iff Let_def split_beta comp_def enumerate_eq_zip
        map_fst_zip [of "[0..<length xs]" xs, simplified comp_def])
next
  assume r: ?r
  then have len: "length plans = length xs" by (metis length_map length_upt diff_zero)
  show "map ?g (enumerate 0 xs) = plans"
  proof (rule nth_equalityI)
    fix i assume i: "i < length (map ?g (enumerate 0 xs))"
    then have "i < length plans" "pp_page_index (plans ! i) = i"
      using r len by (auto dest!: arg_cong [of _ _ "\<lambda>ys. ys ! i"])
    moreover from this have "(pp_route (plans ! i), pp_reason (plans ! i)) = f i"
      using r by (simp add: list_all_length)
    ultimately show "map ?g (enumerate 0 xs) ! i = plans ! i"
      using i by (simp add: nth_enumerate_eq split_beta Let_def prod_eq_iff)
  qed (simp add: len)
qed

section \<open>Properties\<close>

text \<open>
  the decision of the media router. The chosen subtitle is the first of the best rank; a
  subtitle makes the plan ready without speech recognition; without one, recognition runs exactly
  when it is available and authorised, and otherwise the plan waits, for the capability before
  the authorisation. The plan never asks for more than the fixed chunk size and two chunks in flight.
\<close>

theorem media_plan_decision:
  assumes "p = plan_authorized input asr authorized"
  shows "(case mp_subtitle p of
      None \<Rightarrow> mi_subtitles input = [] \<and> (mp_requires_asr p \<longleftrightarrow> asr \<and> authorized) \<and>
        mp_status p = (if \<not> asr then MediaWaitingCapability
          else if \<not> authorized then MediaWaitingAuthorization else MediaReady)
    | Some c \<Rightarrow> mp_status p = MediaReady \<and> \<not> mp_requires_asr p \<and>
        (\<exists>before after. mi_subtitles input = before @ c # after \<and>
          (\<forall>b \<in> set before. subtitle_rank (sc_kind c) < subtitle_rank (sc_kind b)) \<and>
          (\<forall>b \<in> set after. subtitle_rank (sc_kind c) \<le> subtitle_rank (sc_kind b)))) \<and>
    mp_chunk_bytes p * mp_max_in_flight_chunks p = 2097152"
  unfolding assms plan_authorized_def Let_def
  by (auto simp: MEDIA_CHUNK_BYTES_def MEDIA_MAX_IN_FLIGHT_CHUNKS_def split: option.splits
      dest!: min_by_key_first)

theorem media_plan_decision_witness:
  "mp_status (plan_authorized \<lparr>mi_kind = Audio, mi_subtitles = [], mi_cover_path = None\<rparr> True False) =
     MediaWaitingAuthorization \<and>
   (\<exists>before after. [\<lparr>sc_kind = HumanLocal, sc_path = ''a''\<rparr>, \<lparr>sc_kind = Embedded, sc_path = ''b''\<rparr>] =
     before @ \<lparr>sc_kind = Embedded, sc_path = ''b''\<rparr> # after \<and>
     (\<forall>b \<in> set before. subtitle_rank Embedded < subtitle_rank (sc_kind b)))"
  using media_plan_decision [OF refl, of "\<lparr>mi_kind = Audio, mi_subtitles = [], mi_cover_path = None\<rparr>"
      True False]
    media_plan_decision [OF refl, of "\<lparr>mi_kind = Audio, mi_subtitles =
      [\<lparr>sc_kind = HumanLocal, sc_path = ''a''\<rparr>, \<lparr>sc_kind = Embedded, sc_path = ''b''\<rparr>],
      mi_cover_path = None\<rparr>" True True]
  by (auto simp: plan_authorized_def)

text \<open>
  C39: subtitle timestamps lose nothing. Every number of milliseconds is printed as a timestamp
  that a reader of the \<open>hh:mm:ss.mmm\<close> form turns back into the same number; below one hundred
  hours the text has the fixed width of twelve characters.
\<close>

theorem timestamp_roundtrip:
  "parse_timestamp (timestamp ms) = Some ms \<and>
   (length (timestamp ms) = 12 \<longleftrightarrow> ms < 360000000)"
proof
  show "parse_timestamp (timestamp ms) = Some ms"
    by (simp add: parse_timestamp_def timestamp_def split_colon split_on_no_sep
        split_on_no_sep [of "CHR '':''"] milliseconds_decompose)
  have "ms div 60000 mod 60 < 100" "ms div 1000 mod 60 < 100" "ms mod 1000 < 1000"
    by (simp_all add: order_less_trans [OF mod_less_divisor])
  then have "length (timestamp ms) = length (show_padded 2 (ms div 3600000)) + 10"
    using padded_two [of "ms div 60000 mod 60"] padded_two [of "ms div 1000 mod 60"]
      padded_three [of "ms mod 1000"] by (simp add: timestamp_def)
  moreover have "ms div 3600000 < 100 \<longleftrightarrow> ms < 360000000" by (simp add: div_less_iff_less_mult)
  ultimately show "length (timestamp ms) = 12 \<longleftrightarrow> ms < 360000000"
    using padded_two [of "ms div 3600000"] by simp
qed

text \<open>
  the page plan of a PDF. An encrypted or active document has no plan; otherwise page \<open>i\<close> of
  the inspection gets exactly the plan at position \<open>i\<close>: the text layer unless it was found to be
  an image, and for an image the best capability there is; waiting means that there is none.
\<close>

theorem pdf_plan_per_page:
  "plan_pdf_pages p ca = Inr plans \<longleftrightarrow> \<not> pi_encrypted p \<and> \<not> pi_active_actions p \<and>
     map pp_page_index plans = [0..<length (pi_text_characters_per_page p)] \<and>
     list_all (\<lambda>q. (pp_route q, pp_reason q) =
       page_route (pp_page_index q \<in> set (pi_image_only_pages p)) ca) plans"
  unfolding plan_pdf_pages_def pages_determined
    [of "\<lambda>i. page_route (i \<in> set (pi_image_only_pages p)) ca", symmetric]
  by auto

text \<open>
  C40: the scan for active content is exact. It rejects an object exactly when some dictionary in
  it, at any depth of arrays, dictionaries and streams, has a forbidden key or a forbidden action.
\<close>

theorem active_content_exact:
  "has_active_content v \<longleftrightarrow> (\<exists>d. contains_dict v d \<and> active_entry d)"
  using active_content_complete active_content_sound by blast

end
