(* ===== verification/Ocr_Routing.thy ===== *)
theory Ocr_Routing
  imports File_Routing
begin

text \<open>
  The OCR router (\<open>services/import_v2/ocr_router.rs\<close>): requests and their cache keys, the choice
  of a pack, the validation of a model file, and the two accuracy scores. The SHA-256 digest, the
  canonicalised paths and the file reads are parameters; ratios that the code keeps as
  floating-point numbers are exact rationals here.
\<close>

section \<open>OCR\<close>

datatype ocr_layout_hint = AutoLayout | SingleColumn | MultiColumn | TableLayout | SparseText

record ocr_quality_thresholds =
  qt_minimum_character_accuracy :: rat
  qt_minimum_table_cell_accuracy :: rat
  qt_minimum_block_confidence :: rat

record ocr_request =
  oc_page_image_paths :: "string list"
  oc_languages :: "string list"
  oc_layout_hints :: "ocr_layout_hint list"
  oc_thresholds :: ocr_quality_thresholds

definition OCR_PREPROCESS_VERSION :: string where
  "OCR_PREPROCESS_VERSION = ''ocr-page-300dpi-v1''"

definition invalid_request :: backend_error where
  "invalid_request = backend_error_new IMPORT_V2_CAPABILITY_INVALID
     ''The OCR request contains a page path outside its authorized item staging directory.''
     False False"

text \<open>
  A page path is relative with normal components only when it does not start with the separator
  and no component is \<open>..\<close> or a leading \<open>.\<close>; the canonicalised path must then lie under the
  canonicalised staging root and be a file.
\<close>

definition normal_relative :: "string \<Rightarrow> bool" where
  "normal_relative p \<longleftrightarrow> \<not> starts_with p ''/'' \<and> \<not> list_ex (\<lambda>c. c = ''..'') (path_components p) \<and>
     hd (split_on (CHR ''/'') p) \<noteq> ''.''"

definition validate_staging_paths ::
  "(string \<Rightarrow> string option) \<Rightarrow> (string \<Rightarrow> bool) \<Rightarrow> string \<Rightarrow> ocr_request \<Rightarrow> unit result" where
  "validate_staging_paths canonicalize is_file staging req =
    (case canonicalize staging of
       None \<Rightarrow> Inl invalid_request
     | Some base \<Rightarrow>
       if oc_page_image_paths req = [] \<or> oc_languages req = [] then Inl invalid_request
       else if list_all (\<lambda>page. normal_relative page \<and>
           (case canonicalize (base @ ''/'' @ page) of
              None \<Rightarrow> False
            | Some p \<Rightarrow> prefix (path_components base) (path_components p) \<and> is_file p))
         (oc_page_image_paths req)
       then Inr () else Inl invalid_request)"

fun join :: "string \<Rightarrow> string list \<Rightarrow> string" where
  "join sep [] = []"
| "join sep [w] = w"
| "join sep (w # ws) = w @ sep @ join sep ws"

definition cache_material :: "ocr_request \<Rightarrow> string \<Rightarrow> string \<Rightarrow> string \<Rightarrow> string" where
  "cache_material req input engine model =
     ''input='' @ input @ [CHR 0x0A] @ ''preprocess='' @ OCR_PREPROCESS_VERSION @ [CHR 0x0A] @
     ''engine='' @ engine @ [CHR 0x0A] @ ''languages='' @
     join '','' (sorted_list_of_set (set (map (\<lambda>l. to_ascii_lowercase (trim l)) (oc_languages req)))) @
     [CHR 0x0A] @ ''model='' @ model"

definition cache_key ::
  "(string \<Rightarrow> string) \<Rightarrow> ocr_request \<Rightarrow> string \<Rightarrow> string \<Rightarrow> string \<Rightarrow> string" where
  "cache_key sha256 req input engine model = sha256 (cache_material req input engine model)"

record ocr_coordinates =
  cd_x :: nat
  cd_y :: nat
  cd_width :: nat
  cd_height :: nat

record ocr_block =
  bl_text :: string
  bl_confidence :: rat
  bl_coordinates :: ocr_coordinates
  bl_table_cell :: "ocr_coordinates option"

record ocr_page_result =
  pg_page_index :: nat
  pg_blocks :: "ocr_block list"
  pg_confidence :: rat
  pg_engine_id :: string
  pg_engine_version :: string
  pg_model_version :: string
  pg_model_sha256 :: string

definition meets_confidence_threshold :: "ocr_page_result \<Rightarrow> ocr_quality_thresholds \<Rightarrow> bool" where
  "meets_confidence_threshold r t \<longleftrightarrow> pg_confidence r \<ge> qt_minimum_block_confidence t \<and>
     list_all (\<lambda>b. bl_confidence b \<ge> qt_minimum_block_confidence t) (pg_blocks r)"

datatype ocr_pack_availability =
    PackInstalled | PackNotInstalled | UnsupportedPlatform | DownloadInterrupted | InvalidModel

record ocr_pack_metadata =
  op_pack_id :: string
  op_engine_version :: string
  op_model_version :: string
  op_model_sha256 :: string
  op_languages :: "string list"
  op_license_expression :: string
  op_download_bytes :: nat
  op_installed_bytes :: nat
  op_availability :: ocr_pack_availability

definition installed_and_supports :: "ocr_pack_metadata \<Rightarrow> string list \<Rightarrow> bool" where
  "installed_and_supports pack languages \<longleftrightarrow> op_availability pack = PackInstalled \<and>
     list_all (\<lambda>requested. list_ex (\<lambda>available. eq_ignore_ascii_case available requested)
       (op_languages pack)) languages"

datatype ocr_route = OcrBasic | OcrCjkAccurate | OcrWaitingCapability

record ocr_capability_requirement =
  cq_capability_id :: string
  cq_license_expression :: string
  cq_download_bytes :: nat
  cq_installed_bytes :: nat
  cq_required_disk_bytes :: nat
  cq_reason :: string

record ocr_route_plan =
  oo_route :: ocr_route
  oo_requirement :: "ocr_capability_requirement option"
  oo_cloud_fallback :: bool
  oo_reason :: string

definition ready :: "ocr_route \<Rightarrow> string \<Rightarrow> ocr_route_plan" where
  "ready route reason = \<lparr>oo_route = route, oo_requirement = None, oo_cloud_fallback = False,
     oo_reason = reason\<rparr>"

fun availability_reason :: "ocr_pack_availability \<Rightarrow> string" where
  "availability_reason PackInstalled = ''requested languages are not installed''"
| "availability_reason PackNotInstalled = ''capability pack is not installed''"
| "availability_reason UnsupportedPlatform = ''platform has no CI-proven build''"
| "availability_reason DownloadInterrupted = ''capability download was interrupted''"
| "availability_reason InvalidModel = ''model hash validation failed''"

definition plan_ocr ::
  "ocr_pack_metadata \<Rightarrow> ocr_pack_metadata \<Rightarrow> ocr_request \<Rightarrow> ocr_route_plan" where
  "plan_ocr basic accurate req =
    (let wants_cjk = list_ex (\<lambda>l. starts_with (to_ascii_lowercase l) ''chi_'') (oc_languages req);
         wants_layout = list_ex (\<lambda>h. h = TableLayout \<or> h = MultiColumn) (oc_layout_hints req) in
     if (wants_cjk \<or> wants_layout) \<and> installed_and_supports accurate (oc_languages req)
     then ready OcrCjkAccurate ''accurate local CJK/layout OCR selected''
     else if \<not> wants_layout \<and> installed_and_supports basic (oc_languages req)
     then ready OcrBasic ''pinned local Tesseract OCR selected''
     else
      (let pack = (if wants_cjk \<or> wants_layout then accurate else basic) in
       \<lparr>oo_route = OcrWaitingCapability,
        oo_requirement = Some \<lparr>cq_capability_id = op_pack_id pack,
          cq_license_expression = op_license_expression pack,
          cq_download_bytes = op_download_bytes pack, cq_installed_bytes = op_installed_bytes pack,
          cq_required_disk_bytes = saturating_add (op_installed_bytes pack) (op_download_bytes pack),
          cq_reason = availability_reason (op_availability pack)\<rparr>,
        oo_cloud_fallback = False,
        oo_reason = ''required verified local OCR pack is unavailable''\<rparr>))"

definition invalid_model :: backend_error where
  "invalid_model = backend_error_new IMPORT_V2_CAPABILITY_INVALID
     ''The OCR model is missing or does not match its pinned SHA-256 hash.'' False True"

definition validate_model ::
  "(string \<Rightarrow> string option) \<Rightarrow> (string \<Rightarrow> string) \<Rightarrow> string \<Rightarrow> string \<Rightarrow> unit result" where
  "validate_model read sha256 path expected =
    (if \<not> sha256_hex expected then Inl invalid_model
     else case read path of
       None \<Rightarrow> Inl invalid_model
     | Some content \<Rightarrow>
         if eq_ignore_ascii_case (sha256 content) expected then Inr () else Inl invalid_model)"

text \<open>
  The rolling rows of \<open>levenshtein\<close>: the inner loop reads the previous row and pushes onto
  the current one, the outer loop replaces the row.
\<close>

definition lev_push :: "'a \<Rightarrow> 'a list \<Rightarrow> nat list \<Rightarrow> nat list \<Rightarrow> nat \<Rightarrow> nat list" where
  "lev_push c right previous current j =
     current @ [min (min (previous ! (j + 1) + 1) (current ! j + 1))
       (previous ! j + (if c \<noteq> right ! j then 1 else 0))]"

definition lev_row :: "'a list \<Rightarrow> nat list \<Rightarrow> nat \<times> 'a \<Rightarrow> nat list" where
  "lev_row right previous ic =
     foldl (lev_push (snd ic) right previous) [fst ic + 1] [0..<length right]"

definition levenshtein :: "'a list \<Rightarrow> 'a list \<Rightarrow> nat" where
  "levenshtein left right =
     foldl (lev_row right) [0..<length right + 1] (enumerate 0 left) ! length right"

text \<open>
  The scores divide as exact rationals where the code divides floating-point numbers; the
  characters of a string are its list of code points.
\<close>

definition character_accuracy :: "'a list \<Rightarrow> 'a list \<Rightarrow> rat" where
  "character_accuracy expected actual =
    (if expected = [] then (if actual = [] then 1 else 0)
     else 1 - of_nat (min (levenshtein expected actual) (length expected)) / of_nat (length expected))"

definition non_empty_table_cell_accuracy :: "string list \<Rightarrow> string list \<Rightarrow> rat" where
  "non_empty_table_cell_accuracy expected actual =
    (let cells = filter (\<lambda>c. trim c \<noteq> []) expected in
     if cells = [] then 1
     else of_nat (length (filter (\<lambda>(l, r). trim l = trim r)
         (zip cells (filter (\<lambda>c. trim c \<noteq> []) actual)))) / of_nat (length cells))"

section \<open>Edit distance\<close>

text \<open>
  \<open>edits n xs ys\<close>: \<open>n\<close> insertions, deletions and substitutions, read along an alignment, turn
  \<open>xs\<close> into \<open>ys\<close>. The distance is the least such \<open>n\<close>; \<open>edit_distance\<close> computes it by the
  recursion on first elements, the code by rows over prefixes.
\<close>

inductive edits :: "nat \<Rightarrow> 'a list \<Rightarrow> 'a list \<Rightarrow> bool" where
  edits_nil: "edits 0 [] []"
| edits_keep: "edits n xs ys \<Longrightarrow> edits n (x # xs) (x # ys)"
| edits_substitute: "edits n xs ys \<Longrightarrow> edits (Suc n) (x # xs) (y # ys)"
| edits_delete: "edits n xs ys \<Longrightarrow> edits (Suc n) (x # xs) ys"
| edits_insert: "edits n xs ys \<Longrightarrow> edits (Suc n) xs (y # ys)"

fun edit_distance :: "'a list \<Rightarrow> 'a list \<Rightarrow> nat" where
  "edit_distance [] ys = length ys"
| "edit_distance xs [] = length xs"
| "edit_distance (x # xs) (y # ys) =
     min (min (edit_distance xs (y # ys) + 1) (edit_distance (x # xs) ys + 1))
       (edit_distance xs ys + (if x \<noteq> y then 1 else 0))"

lemma edit_distance_nil [simp]: "edit_distance xs [] = length xs"
  by (cases xs) simp_all

lemma edits_deletions: "edits (length xs) xs []"
  by (induction xs) (auto intro: edits.intros)

lemma edits_insertions: "edits (length ys) [] ys"
  by (induction ys) (auto intro: edits.intros)

lemma edit_distance_edits: "edits (edit_distance xs ys) xs ys"
proof (induction xs ys rule: edit_distance.induct)
  case (3 x xs y ys)
  then show ?case by (auto simp: min_def intro: edits.intros)
qed (auto intro: edits_insertions edits_deletions [of "_ # _", simplified])

lemma edit_distance_delete: "edit_distance (x # xs) ys \<le> Suc (edit_distance xs ys)"
  by (cases ys) simp_all

lemma edit_distance_insert: "edit_distance xs (y # ys) \<le> Suc (edit_distance xs ys)"
  by (cases xs) simp_all

lemma edit_distance_least: "edits n xs ys \<Longrightarrow> edit_distance xs ys \<le> n"
proof (induction rule: edits.induct)
  case (edits_delete n xs ys x)
  then show ?case using edit_distance_delete [of x xs ys] by simp
next
  case (edits_insert n xs ys y)
  then show ?case using edit_distance_insert [of xs y ys] by simp
qed auto

lemma edits_append: "edits n xs ys \<Longrightarrow> edits m us vs \<Longrightarrow> edits (n + m) (xs @ us) (ys @ vs)"
  by (induction rule: edits.induct) (auto intro: edits.intros)

lemma edits_rev: "edits n xs ys \<Longrightarrow> edits n (rev xs) (rev ys)"
proof (induction rule: edits.induct)
  case (edits_keep n xs ys x)
  then show ?case using edits_append [of n "rev xs" "rev ys" 0 "[x]" "[x]"]
    by (auto intro: edits.intros)
next
  case (edits_substitute n xs ys x y)
  then show ?case using edits_append [of n "rev xs" "rev ys" 1 "[x]" "[y]"]
    by (auto intro: edits.intros)
next
  case (edits_delete n xs ys x)
  then show ?case using edits_append [of n "rev xs" "rev ys" 1 "[x]" "[]"]
    by (auto intro: edits.intros)
next
  case (edits_insert n xs ys y)
  then show ?case using edits_append [of n "rev xs" "rev ys" 1 "[]" "[y]"]
    by (auto intro: edits.intros)
qed (simp add: edits.edits_nil)

lemma edit_distance_rev: "edit_distance (rev xs) (rev ys) = edit_distance xs ys"
proof (rule antisym)
  show "edit_distance (rev xs) (rev ys) \<le> edit_distance xs ys"
    by (intro edit_distance_least edits_rev edit_distance_edits)
  show "edit_distance xs ys \<le> edit_distance (rev xs) (rev ys)"
    using edits_rev [OF edit_distance_edits [of "rev xs" "rev ys"]]
    by (simp add: edit_distance_least)
qed

text \<open>A row of the table: the distances of one reversed prefix from every prefix of \<open>right\<close>.\<close>

definition distance_row :: "'a list \<Rightarrow> 'a list \<Rightarrow> nat \<Rightarrow> nat list" where
  "distance_row p right k = map (\<lambda>j. edit_distance p (rev (take j right))) [0..<Suc k]"

lemma distance_row_Suc:
  "distance_row p right (Suc k) = distance_row p right k @ [edit_distance p (rev (take (Suc k) right))]"
  by (simp add: distance_row_def)

lemma distance_row_nth [simp]:
  "j \<le> k \<Longrightarrow> distance_row p right k ! j = edit_distance p (rev (take j right))"
  by (simp add: distance_row_def nth_append del: upt_Suc)

lemma lev_push_row:
  assumes "k < length right"
  shows "lev_push c right (distance_row p right (length right)) (distance_row (c # p) right k) k =
    distance_row (c # p) right (Suc k)"
  using assms by (simp add: lev_push_def distance_row_Suc take_Suc_conv_app_nth)

lemma lev_row_row:
  "lev_row right (distance_row p right (length right)) (length p, c) =
     distance_row (c # p) right (length right)"
proof -
  have "foldl (lev_push c right (distance_row p right (length right))) [length p + 1] [0..<k] =
      distance_row (c # p) right k" if "k \<le> length right" for k
    using that
  proof (induction k)
    case 0
    show ?case by (simp add: distance_row_def)
  next
    case (Suc k)
    then show ?case by (simp add: lev_push_row)
  qed
  then show ?thesis by (simp add: lev_row_def)
qed

lemma lev_rows:
  "foldl (lev_row right) (distance_row p right (length right)) (enumerate (length p) left) =
     distance_row (rev left @ p) right (length right)"
proof (induction left arbitrary: p)
  case (Cons c left)
  then show ?case using Cons.IH [of "c # p"] by (simp add: lev_row_row)
qed simp

lemma levenshtein_edit_distance: "levenshtein left right = edit_distance left right"
proof -
  have "distance_row [] right (length right) = [0..<length right + 1]"
    by (rule nth_equalityI) (auto simp: distance_row_def nth_append simp del: upt_Suc)
  then show ?thesis
    using lev_rows [of right "[]" left]
    by (simp add: levenshtein_def edit_distance_rev)
qed

lemma edits_zero: "edits n xs ys \<Longrightarrow> n = 0 \<Longrightarrow> xs = ys"
  by (induction rule: edits.induct) auto

lemma edits_same: "edits 0 xs xs"
  by (induction xs) (auto intro: edits.intros)

lemma edit_distance_zero: "edit_distance xs ys = 0 \<longleftrightarrow> xs = ys"
  using edits_zero [OF edit_distance_edits, of xs ys] edit_distance_least [OF edits_same, of xs]
  by auto

section \<open>Properties\<close>

text \<open>
  C14: the rolling-row computation of \<open>levenshtein\<close> is the edit distance: some sequence of that
  many insertions, deletions and substitutions turns the left text into the right one, and no
  shorter one does.
\<close>

theorem levenshtein_least_edits:
  "levenshtein left right = (LEAST n. edits n left right) \<and>
   edits (levenshtein left right) left right"
  unfolding levenshtein_edit_distance
  by (metis (mono_tags, lifting) LeastI Least_le antisym edit_distance_edits edit_distance_least)

text \<open>
  the character accuracy lies between zero and one, and it is one exactly for a perfect
  recognition.
\<close>

theorem character_accuracy_bounds:
  "0 \<le> character_accuracy expected actual \<and> character_accuracy expected actual \<le> 1 \<and>
   (character_accuracy expected actual = 1 \<longleftrightarrow> expected = actual)"
proof (cases "expected = []")
  case False
  then have "(of_nat (min (levenshtein expected actual) (length expected)) :: rat) /
      of_nat (length expected) \<le> 1"
    by (simp add: divide_le_eq_1)
  moreover have "min (levenshtein expected actual) (length expected) = 0 \<longleftrightarrow> expected = actual"
    using False edit_distance_zero [of expected actual]
    by (auto simp: levenshtein_edit_distance min_def)
  ultimately show ?thesis using False by (simp add: character_accuracy_def)
qed (auto simp: character_accuracy_def)

text \<open>
  OCR stays local and is never planned on a pack that cannot do the job. The plan never
  falls back to a cloud service; the route it names is that of an installed pack that has every
  requested language, the accurate one where a table or several columns are expected; otherwise it
  waits and names the pack to install, with a disk requirement that cannot wrap around.
\<close>

theorem ocr_plan_sound:
  assumes "p = plan_ocr basic accurate req"
  shows "\<not> oo_cloud_fallback p \<and>
    (case oo_route p of
       OcrBasic \<Rightarrow> installed_and_supports basic (oc_languages req) \<and> oo_requirement p = None \<and>
         set (oc_layout_hints req) \<inter> {TableLayout, MultiColumn} = {}
     | OcrCjkAccurate \<Rightarrow> installed_and_supports accurate (oc_languages req) \<and> oo_requirement p = None
     | OcrWaitingCapability \<Rightarrow> (\<exists>q pack. oo_requirement p = Some q \<and> pack \<in> {basic, accurate} \<and>
         \<not> installed_and_supports pack (oc_languages req) \<and> cq_capability_id q = op_pack_id pack \<and>
         cq_required_disk_bytes q \<le> u64_max \<and>
         (cq_required_disk_bytes q = op_installed_bytes pack + op_download_bytes pack \<or>
          cq_required_disk_bytes q = u64_max)))"
  unfolding assms plan_ocr_def Let_def
  by (auto simp: ready_def list_ex_iff saturating_add_def)

definition sample_pack :: "string \<Rightarrow> string list \<Rightarrow> ocr_pack_availability \<Rightarrow> ocr_pack_metadata" where
  "sample_pack i languages availability = \<lparr>op_pack_id = i, op_engine_version = ''5'',
     op_model_version = ''1'', op_model_sha256 = [], op_languages = languages,
     op_license_expression = ''Apache-2.0'', op_download_bytes = 10, op_installed_bytes = 30,
     op_availability = availability\<rparr>"

definition sample_request :: "ocr_layout_hint list \<Rightarrow> ocr_request" where
  "sample_request hints = \<lparr>oc_page_image_paths = [''p1.png''], oc_languages = [''ENG''],
     oc_layout_hints = hints, oc_thresholds = \<lparr>qt_minimum_character_accuracy = 1,
     qt_minimum_table_cell_accuracy = 1, qt_minimum_block_confidence = 1\<rparr>\<rparr>"

theorem ocr_plan_sound_witness:
  "\<exists>p. p = plan_ocr (sample_pack ''ocr-basic'' [''eng''] PackInstalled)
      (sample_pack ''ocr-cjk'' [''eng''] PackNotInstalled) (sample_request [TableLayout]) \<and>
    oo_route p = OcrWaitingCapability \<and> \<not> oo_cloud_fallback p"
proof -
  let ?p = "plan_ocr (sample_pack ''ocr-basic'' [''eng''] PackInstalled)
      (sample_pack ''ocr-cjk'' [''eng''] PackNotInstalled) (sample_request [TableLayout])"
  have "oo_route ?p = OcrWaitingCapability"
    by (simp add: plan_ocr_def sample_pack_def sample_request_def installed_and_supports_def)
  moreover have "\<not> oo_cloud_fallback ?p" using ocr_plan_sound [OF refl] by blast
  ultimately show ?thesis by blast
qed

end
