(* ===== verification/Url_Policy.thy ===== *)
theory Url_Policy
  imports File_Routing "HOL-Library.Word"
begin

unbundle bit_operations_syntax

text \<open>
  The network policy of the importer (\<open>services/import_v2/url_policy.rs\<close>, with the key
  classification of \<open>redaction.rs\<close>): which URLs a session accepts, what of a URL is stored,
  and which addresses a request may reach.

  Addresses are words of 32 and 128 bits, read through their octets and segments as
  \<open>std::net\<close> does. The \<open>url\<close> crate is the parameter \<open>url_library\<close>, SHA-256 a parameter of
  \<open>source_locator\<close>, and the clock a parameter of what reads it.
\<close>

section \<open>Addresses of the standard library\<close>

type_synonym ipv4 = "32 word"
type_synonym ipv6 = "128 word"

datatype ip_addr = V4 ipv4 | V6 ipv6

definition octets :: "ipv4 \<Rightarrow> 8 word list" where
  "octets v = map (\<lambda>k. ucast (drop_bit k v)) [24, 16, 8, 0]"

definition segments :: "ipv6 \<Rightarrow> 16 word list" where
  "segments v = map (\<lambda>k. ucast (drop_bit k v)) [112, 96, 80, 64, 48, 32, 16, 0]"

definition ipv4_new :: "nat \<Rightarrow> nat \<Rightarrow> nat \<Rightarrow> nat \<Rightarrow> ipv4" where
  "ipv4_new a b c d = of_nat (((a * 256 + b) * 256 + c) * 256 + d)"

definition v4_LOCALHOST :: ipv4 where "v4_LOCALHOST = ipv4_new 127 0 0 1"
definition v6_LOCALHOST :: ipv6 where "v6_LOCALHOST = 1"

definition v4_is_private :: "ipv4 \<Rightarrow> bool" where
  "v4_is_private v \<longleftrightarrow> (let b = octets v in
     b ! 0 = 10 \<or> b ! 0 = 172 \<and> 16 \<le> b ! 1 \<and> b ! 1 \<le> 31 \<or> b ! 0 = 192 \<and> b ! 1 = 168)"

definition v4_is_loopback :: "ipv4 \<Rightarrow> bool" where
  "v4_is_loopback v \<longleftrightarrow> octets v ! 0 = 127"

definition v4_is_link_local :: "ipv4 \<Rightarrow> bool" where
  "v4_is_link_local v \<longleftrightarrow> octets v ! 0 = 169 \<and> octets v ! 1 = 254"

definition v4_is_multicast :: "ipv4 \<Rightarrow> bool" where
  "v4_is_multicast v \<longleftrightarrow> 224 \<le> octets v ! 0 \<and> octets v ! 0 \<le> 239"

definition v4_is_broadcast :: "ipv4 \<Rightarrow> bool" where
  "v4_is_broadcast v \<longleftrightarrow> octets v = [255, 255, 255, 255]"

definition v4_is_unspecified :: "ipv4 \<Rightarrow> bool" where
  "v4_is_unspecified v \<longleftrightarrow> octets v = [0, 0, 0, 0]"

definition v6_is_loopback :: "ipv6 \<Rightarrow> bool" where
  "v6_is_loopback v \<longleftrightarrow> v = 1"

definition v6_is_unspecified :: "ipv6 \<Rightarrow> bool" where
  "v6_is_unspecified v \<longleftrightarrow> v = 0"

definition v6_is_multicast :: "ipv6 \<Rightarrow> bool" where
  "v6_is_multicast v \<longleftrightarrow> segments v ! 0 AND 0xff00 = 0xff00"

definition to_ipv4_mapped :: "ipv6 \<Rightarrow> ipv4 option" where
  "to_ipv4_mapped v =
     (if take 6 (segments v) = [0, 0, 0, 0, 0, 0xffff] then Some (ucast v) else None)"

section \<open>Blocked addresses\<close>

definition blocked_v4 :: "ipv4 \<Rightarrow> bool" where
  "blocked_v4 v \<longleftrightarrow> (let b = octets v in
     v4_is_private v \<or> v4_is_loopback v \<or> v4_is_link_local v \<or> v4_is_multicast v
     \<or> v4_is_broadcast v \<or> v4_is_unspecified v
     \<or> b ! 0 = 0 \<or> b ! 0 \<ge> 224 \<or> b = [169, 254, 169, 254]
     \<or> b ! 0 = 100 \<and> 64 \<le> b ! 1 \<and> b ! 1 \<le> 127
     \<or> take 3 b = [192, 0, 0] \<or> take 3 b = [192, 0, 2] \<or> take 3 b = [192, 88, 99]
     \<or> b ! 0 = 198 \<and> (b ! 1 = 18 \<or> b ! 1 = 19)
     \<or> take 3 b = [198, 51, 100] \<or> take 3 b = [203, 0, 113])"

definition blocked_v6 :: "ipv6 \<Rightarrow> bool" where
  "blocked_v6 v \<longleftrightarrow> (let s = segments v in
     v6_is_loopback v \<or> v6_is_unspecified v \<or> v6_is_multicast v
     \<or> s ! 0 AND 0xfe00 = 0xfc00
     \<or> s ! 0 AND 0xffc0 = 0xfe80
     \<or> s ! 0 AND 0xffc0 = 0xfec0
     \<or> take 6 s = [0, 0, 0, 0, 0, 0]
     \<or> take 6 s = [0x0064, 0xff9b, 0, 0, 0, 0]
     \<or> take 3 s = [0x0064, 0xff9b, 0x0001]
     \<or> take 4 s = [0x0100, 0, 0, 0]
     \<or> take 3 s = [0x2001, 0x0002, 0]
     \<or> s ! 0 = 0x2001 \<and> s ! 1 = 0x0db8
     \<or> s ! 0 = 0x2001 \<and> s ! 1 AND 0xfff0 = 0x0010
     \<or> s ! 0 = 0x2001 \<and> s ! 1 AND 0xfff0 = 0x0020
     \<or> s ! 0 = 0x2002
     \<or> s ! 0 = 0x3fff \<and> s ! 1 AND 0xf000 = 0
     \<or> s ! 0 = 0x5f00
     \<or> (case to_ipv4_mapped v of None \<Rightarrow> False | Some w \<Rightarrow> blocked_v4 w))"

fun is_blocked :: "ip_addr \<Rightarrow> bool" where
  "is_blocked (V4 v) = blocked_v4 v"
| "is_blocked (V6 v) = blocked_v6 v"

section \<open>The url crate\<close>

datatype url_host = Domain string | Ipv4 ipv4 | Ipv6 ipv6

record 'u url_library =
  ul_parse :: "string \<Rightarrow> 'u option"
  ul_scheme :: "'u \<Rightarrow> string"
  ul_username :: "'u \<Rightarrow> string"
  ul_password :: "'u \<Rightarrow> string option"
  ul_host_str :: "'u \<Rightarrow> string option"
  ul_host :: "'u \<Rightarrow> url_host option"
  ul_set_host :: "'u \<Rightarrow> string \<Rightarrow> 'u option"
  ul_clear_fragment :: "'u \<Rightarrow> 'u"
  ul_query_pairs :: "'u \<Rightarrow> (string \<times> string) list"
  ul_clear_query :: "'u \<Rightarrow> 'u"
  ul_append_pair :: "'u \<Rightarrow> string \<times> string \<Rightarrow> 'u"
  ul_as_str :: "'u \<Rightarrow> string"
  ul_join :: "'u \<Rightarrow> string \<Rightarrow> 'u option"
  ul_port_or_known_default :: "'u \<Rightarrow> nat option"
  ul_origin :: "'u \<Rightarrow> string"

section \<open>Targets\<close>

record normalized_web_url =
  nw_public_url :: string
  nw_host :: string
  nw_scheme :: string

record 'u session_web_target =
  sw_request_url :: 'u
  sw_public :: normalized_web_url

datatype provider_network_class = PublicHttps | LoopbackHttp

record 'u provider_network_target =
  pt_session :: "'u session_web_target"
  pt_class :: provider_network_class

record private_target_grant =
  pg_item_id :: string
  pg_scheme :: string
  pg_host :: string
  pg_port :: nat
  pg_resolved_ips :: "ip_addr list"
  pg_expires_at :: int

definition rejected :: "string \<Rightarrow> backend_error" where
  "rejected msg = backend_error_new ''IMPORT_V2_URL_REJECTED'' msg False True"

definition private_target_blocked :: "string \<Rightarrow> backend_error" where
  "private_target_blocked msg =
     backend_error_new ''IMPORT_V2_PRIVATE_TARGET_BLOCKED'' msg False True"

section \<open>Query keys\<close>

definition SENSITIVE_KEYS :: "string list" where
  "SENSITIVE_KEYS =
    [''access_token'', ''authorization'', ''cookie'', ''expires'', ''expire'', ''msToken'',
     ''mstoken'', ''secret'', ''sessionid'', ''sid_guard'', ''web_session'', ''sessdata'',
     ''auth_key'', ''hdnts'', ''sign'', ''signature'', ''token'', ''xsec_token'', ''xsec-token'',
     ''data-token'', ''data-xsec-token'', ''x-bogus'', ''a_bogus'', ''verifyFp'', ''verify_fp'',
     ''ttwid'', ''odin_tt'', ''passport_csrf_token'', ''credential'', ''key-pair-id'',
     ''policy'', ''x-amz-credential'', ''x-amz-security-token'', ''x-amz-signature'']"

definition sensitive_normal_form :: "string \<Rightarrow> string" where
  "sensitive_normal_form key = to_ascii_lowercase (filter is_ascii_alphanumeric key)"

definition is_sensitive_json_key :: "string \<Rightarrow> bool" where
  "is_sensitive_json_key key \<longleftrightarrow> (let normalized = sensitive_normal_form key in
     list_ex (\<lambda>candidate. normalized = sensitive_normal_form candidate
        \<or> ends_with normalized (sensitive_normal_form candidate)) SENSITIVE_KEYS)"

definition PUBLIC_QUERY_KEYS :: "string list" where
  "PUBLIC_QUERY_KEYS = [''id'', ''p'', ''page'', ''article'', ''aid'', ''bvid'', ''mid'']"

definition is_public_key :: "string \<Rightarrow> string \<Rightarrow> bool" where
  "is_public_key hostname key \<longleftrightarrow> (let k = to_ascii_lowercase key in
     k \<in> set PUBLIC_QUERY_KEYS
     \<or> hostname = ''mp.weixin.qq.com'' \<and> k \<in> set [''__biz'', ''idx''])"

text \<open>The keys \<open>source_locator\<close> leaves out of the identity of a page.\<close>

definition locator_omits :: "string \<Rightarrow> bool" where
  "locator_omits key \<longleftrightarrow> (let lower = to_ascii_lowercase key in
     is_sensitive_json_key key \<or> starts_with lower ''utm_'' \<or> starts_with lower ''x-amz-''
     \<or> starts_with lower ''x-goog-''
     \<or> lower \<in> set [''token'', ''access_token'', ''auth'', ''authorization'', ''signature'',
          ''sig'', ''expires'', ''fbclid'', ''gclid''])"

definition source_locator ::
  "'u url_library \<Rightarrow> (string \<Rightarrow> string) \<Rightarrow> 'u session_web_target \<Rightarrow> string" where
  "source_locator lib digest target =
     (let identity = fold (\<lambda>(key, value) u.
            if locator_omits key then u else ul_append_pair lib u (key, value))
          (ul_query_pairs lib (sw_request_url target)) (ul_clear_query lib (sw_request_url target))
      in ''url:v1:'' @ digest (ul_as_str lib identity))"

section \<open>Normalisation\<close>

definition trim_end_dots :: "string \<Rightarrow> string" where
  "trim_end_dots s = rev (dropWhile (\<lambda>c. c = CHR ''.'') (rev s))"

text \<open>What remains of the request URL in the stored one.\<close>

definition public_url_of :: "'u url_library \<Rightarrow> string \<Rightarrow> 'u \<Rightarrow> 'u" where
  "public_url_of lib hostname request_url =
     fold (\<lambda>(key, value) u.
         if is_public_key hostname key then ul_append_pair lib u (key, value) else u)
       (ul_query_pairs lib request_url) (ul_clear_query lib request_url)"

definition normalize_http_target ::
  "'u url_library \<Rightarrow> string \<Rightarrow> bool \<Rightarrow> 'u session_web_target result" where
  "normalize_http_target lib raw allow_local =
    (case ul_parse lib raw of None \<Rightarrow> Inl (rejected ''URL is invalid.'')
     | Some request_url \<Rightarrow>
       if ul_scheme lib request_url \<notin> set [''http'', ''https'']
       then Inl (rejected ''Only HTTP and HTTPS URLs are allowed.'')
       else if ul_username lib request_url \<noteq> [] \<or> ul_password lib request_url \<noteq> None
       then Inl (rejected ''URL user information is not allowed.'')
       else case ul_host_str lib request_url of None \<Rightarrow> Inl (rejected ''URL host is required.'')
       | Some h \<Rightarrow>
         let hostname = to_ascii_lowercase (trim_end_dots h) in
         case (case ul_host lib request_url of
                 Some (Domain _) \<Rightarrow> ul_set_host lib request_url hostname
               | _ \<Rightarrow> Some request_url) of
           None \<Rightarrow> Inl (rejected ''URL host is invalid.'')
         | Some request_url \<Rightarrow>
           if \<not> allow_local \<and> (hostname = ''localhost'' \<or> ends_with hostname ''.localhost'')
           then Inl (rejected ''Local targets are blocked.'')
           else
             let request_url = ul_clear_fragment lib request_url;
                 public = public_url_of lib hostname request_url
             in Inr \<lparr>sw_request_url = request_url,
                   sw_public = \<lparr>nw_public_url = ul_as_str lib public, nw_host = hostname,
                                nw_scheme = ul_scheme lib public\<rparr>\<rparr>)"

definition normalize_for_session :: "'u url_library \<Rightarrow> string \<Rightarrow> 'u session_web_target result" where
  "normalize_for_session lib raw = normalize_http_target lib raw False"

definition is_syntactic_loopback :: "'u url_library \<Rightarrow> 'u \<Rightarrow> bool" where
  "is_syntactic_loopback lib url \<longleftrightarrow> (case ul_host lib url of
     Some (Domain hostname) \<Rightarrow> eq_ignore_ascii_case hostname ''localhost''
   | Some (Ipv4 ip) \<Rightarrow> ip = v4_LOCALHOST
   | Some (Ipv6 ip) \<Rightarrow> ip = v6_LOCALHOST
   | None \<Rightarrow> False)"

definition normalize_provider_endpoint ::
  "'u url_library \<Rightarrow> string \<Rightarrow> 'u provider_network_target result" where
  "normalize_provider_endpoint lib raw =
    (case normalize_http_target lib raw True of Inl e \<Rightarrow> Inl e
     | Inr session \<Rightarrow>
       let loopback = is_syntactic_loopback lib (sw_request_url session);
           scheme = ul_scheme lib (sw_request_url session)
       in if scheme = ''http'' \<and> loopback
          then Inr \<lparr>pt_session = session, pt_class = LoopbackHttp\<rparr>
          else if scheme = ''https'' \<and> \<not> loopback
          then Inr \<lparr>pt_session = session, pt_class = PublicHttps\<rparr>
          else if scheme = ''http''
          then Inl (private_target_blocked
                 ''Plain HTTP provider endpoints are allowed only on loopback.'')
          else if scheme = ''https''
          then Inl (private_target_blocked
                 ''Local provider endpoints must use explicit loopback HTTP.'')
          else Inl (rejected ''Only HTTP and HTTPS URLs are allowed.''))"

definition canonical_origin :: "'u url_library \<Rightarrow> 'u provider_network_target \<Rightarrow> string" where
  "canonical_origin lib target = ul_origin lib (sw_request_url (pt_session target))"

definition public_persistence_url :: "'u session_web_target \<Rightarrow> string" where
  "public_persistence_url target = nw_public_url (sw_public target)"

definition validate_redirect ::
  "'u url_library \<Rightarrow> 'u session_web_target \<Rightarrow> string \<Rightarrow> 'u session_web_target result" where
  "validate_redirect lib current location =
    (case ul_join lib (sw_request_url current) location of
       None \<Rightarrow> Inl (rejected ''Redirect URL is invalid.'')
     | Some joined \<Rightarrow> normalize_for_session lib (ul_as_str lib joined))"

section \<open>Validation of resolved addresses\<close>

definition is_strict_loopback_ip :: "ip_addr \<Rightarrow> bool" where
  "is_strict_loopback_ip ip \<longleftrightarrow>
     (case ip of V4 v4 \<Rightarrow> v4 = v4_LOCALHOST | V6 v6 \<Rightarrow> v6 = v6_LOCALHOST)"

definition is_benchmark_fake_ip :: "ip_addr \<Rightarrow> bool" where
  "is_benchmark_fake_ip ip \<longleftrightarrow> (case ip of
     V4 v \<Rightarrow> octets v ! 0 = 198 \<and> (octets v ! 1 = 18 \<or> octets v ! 1 = 19) | V6 _ \<Rightarrow> False)"

definition allows_tunneled_https_fake_ip ::
  "'u url_library \<Rightarrow> 'u session_web_target \<Rightarrow> ip_addr list \<Rightarrow> ip_addr \<Rightarrow> bool \<Rightarrow> bool" where
  "allows_tunneled_https_fake_ip lib target resolved conn trusted_fake_ip_host \<longleftrightarrow>
     trusted_fake_ip_host
     \<and> ul_scheme lib (sw_request_url target) = ''https''
     \<and> (case ul_host lib (sw_request_url target) of Some (Domain _) \<Rightarrow> True | _ \<Rightarrow> False)
     \<and> is_benchmark_fake_ip conn
     \<and> list_all is_benchmark_fake_ip resolved"

definition grant_allows ::
  "'u url_library \<Rightarrow> int \<Rightarrow> private_target_grant option \<Rightarrow> 'u session_web_target \<Rightarrow> ip_addr \<Rightarrow> string
     \<Rightarrow> bool" where
  "grant_allows lib now grant target ip item_id \<longleftrightarrow> (case grant of None \<Rightarrow> False
   | Some g \<Rightarrow> pg_item_id g = item_id
       \<and> pg_scheme g = nw_scheme (sw_public target)
       \<and> pg_host g = nw_host (sw_public target)
       \<and> pg_port g = (case ul_port_or_known_default lib (sw_request_url target) of
             None \<Rightarrow> 0 | Some p \<Rightarrow> p)
       \<and> pg_expires_at g > now
       \<and> ip \<in> set (pg_resolved_ips g))"

definition validate_resolved_target_for_fetch ::
  "'u url_library \<Rightarrow> int \<Rightarrow> 'u session_web_target \<Rightarrow> ip_addr list \<Rightarrow> ip_addr
     \<Rightarrow> private_target_grant option \<Rightarrow> string \<Rightarrow> bool \<Rightarrow> unit result" where
  "validate_resolved_target_for_fetch lib now target resolved conn grant item_id
     trusted_fake_ip_host =
    (if resolved = [] \<or> conn \<notin> set resolved
     then Inl (rejected ''Connected address was not in the validated DNS result.'')
     else
       let tunneled = allows_tunneled_https_fake_ip lib target resolved conn
             trusted_fake_ip_host
       in if list_ex (\<lambda>ip. is_blocked ip \<and> \<not> (tunneled \<and> is_benchmark_fake_ip ip)
               \<and> \<not> grant_allows lib now grant target ip item_id) (remdups resolved)
          then Inl (private_target_blocked
            ''Private, local, metadata, multicast, and reserved targets are blocked.'')
          else Inr ())"

definition validate_resolved_target ::
  "'u url_library \<Rightarrow> int \<Rightarrow> 'u session_web_target \<Rightarrow> ip_addr list \<Rightarrow> ip_addr
     \<Rightarrow> private_target_grant option \<Rightarrow> string \<Rightarrow> unit result" where
  "validate_resolved_target lib now target resolved conn grant item_id =
     validate_resolved_target_for_fetch lib now target resolved conn grant item_id False"

definition validate_provider_resolution ::
  "'u url_library \<Rightarrow> int \<Rightarrow> 'u provider_network_target \<Rightarrow> ip_addr list \<Rightarrow> ip_addr \<Rightarrow> bool
     \<Rightarrow> unit result" where
  "validate_provider_resolution lib now target resolved conn trusted_public_host =
    (case pt_class target of
       PublicHttps \<Rightarrow> validate_resolved_target_for_fetch lib now (pt_session target) resolved
         conn None ''provider'' trusted_public_host
     | LoopbackHttp \<Rightarrow>
         if resolved = [] \<or> conn \<notin> set resolved
            \<or> \<not> list_all is_strict_loopback_ip resolved
         then Inl (private_target_blocked ''The local provider name resolved outside loopback.'')
         else Inr ())"

section \<open>The reserved address blocks\<close>

text \<open>
  The specification of the block list: the special-purpose address blocks, as network address
  and prefix length. An address is in a block when it agrees with the network on the prefix.
\<close>

definition in_network :: "'w::len word \<Rightarrow> 'w word \<times> nat \<Rightarrow> bool" where
  "in_network a n \<longleftrightarrow>
     drop_bit (LENGTH('w) - snd n) a = drop_bit (LENGTH('w) - snd n) (fst n)"

definition reserved_v4 :: "(ipv4 \<times> nat) list" where
  "reserved_v4 =
    [(ipv4_new 0 0 0 0, 8), (ipv4_new 10 0 0 0, 8), (ipv4_new 100 64 0 0, 10),
     (ipv4_new 127 0 0 0, 8), (ipv4_new 169 254 0 0, 16), (ipv4_new 172 16 0 0, 12),
     (ipv4_new 192 0 0 0, 24), (ipv4_new 192 0 2 0, 24), (ipv4_new 192 88 99 0, 24),
     (ipv4_new 192 168 0 0, 16), (ipv4_new 198 18 0 0, 15), (ipv4_new 198 51 100 0, 24),
     (ipv4_new 203 0 113 0, 24), (ipv4_new 224 0 0 0, 3)]"

definition reserved_v6 :: "(ipv6 \<times> nat) list" where
  "reserved_v6 =
    [(0, 96), (0x0064ff9b000000000000000000000000, 96),
     (0x0064ff9b000100000000000000000000, 48), (0x01000000000000000000000000000000, 64),
     (0x20010002000000000000000000000000, 48), (0x20010db8000000000000000000000000, 32),
     (0x20010010000000000000000000000000, 28), (0x20010020000000000000000000000000, 28),
     (0x20020000000000000000000000000000, 16), (0x3fff0000000000000000000000000000, 20),
     (0x5f000000000000000000000000000000, 16), (0xfc000000000000000000000000000000, 7),
     (0xfe800000000000000000000000000000, 10), (0xfec00000000000000000000000000000, 10),
     (0xff000000000000000000000000000000, 8)]"

definition mapped_v4 :: "ipv6 \<times> nat" where
  "mapped_v4 = (0x00000000000000000000ffff00000000, 96)"

definition reserved :: "ip_addr \<Rightarrow> bool" where
  "reserved ip \<longleftrightarrow> (case ip of
     V4 v \<Rightarrow> \<exists>n\<in>set reserved_v4. in_network v n
   | V6 v \<Rightarrow> (\<exists>n\<in>set reserved_v6. in_network v n)
       \<or> in_network v mapped_v4 \<and> (\<exists>n\<in>set reserved_v4. in_network (ucast v) n))"

text \<open>The two laws of \<open>Url::set_query\<close> and \<open>append_pair\<close> the module relies on.\<close>

definition query_laws :: "'u url_library \<Rightarrow> bool" where
  "query_laws lib \<longleftrightarrow> (\<forall>u. ul_query_pairs lib (ul_clear_query lib u) = [])
     \<and> (\<forall>u p. ul_query_pairs lib (ul_append_pair lib u p) = ul_query_pairs lib u @ [p])"

text \<open>A small library that obeys them.\<close>

fun intercalate_pairs :: "(string \<times> string) list \<Rightarrow> string" where
  "intercalate_pairs [] = []"
| "intercalate_pairs [(k, v)] = k @ ''='' @ v"
| "intercalate_pairs ((k, v) # ps) = k @ ''='' @ v @ ''&'' @ intercalate_pairs ps"

definition sample_library :: "(string \<times> string \<times> (string \<times> string) list) url_library" where
  "sample_library = \<lparr>
     ul_parse = (\<lambda>raw. if raw = ''http://localhost:11434'' then Some (''http'', ''localhost'', [])
        else if raw = ''https://example.org?id=7&token=x''
        then Some (''https'', ''example.org'', [(''id'', ''7''), (''token'', ''x'')]) else None),
     ul_scheme = fst, ul_username = (\<lambda>_. []), ul_password = (\<lambda>_. None),
     ul_host_str = (\<lambda>u. Some (fst (snd u))), ul_host = (\<lambda>u. Some (Domain (fst (snd u)))),
     ul_set_host = (\<lambda>(s, _, q) h. Some (s, h, q)), ul_clear_fragment = id,
     ul_query_pairs = (\<lambda>(_, _, q). q), ul_clear_query = (\<lambda>(s, h, _). (s, h, [])),
     ul_append_pair = (\<lambda>(s, h, q) p. (s, h, q @ [p])),
     ul_as_str = (\<lambda>(s, h, q). s @ ''://'' @ h @ (if q = [] then [] else ''?'')
        @ intercalate_pairs q),
     ul_join = (\<lambda>u l. if l = ''/next'' then Some (''https'', ''example.org'', [(''id'', ''7''), (''token'', ''x'')]) else None),
     ul_port_or_known_default = (\<lambda>(s, _, _). Some (if s = ''https'' then 443 else 80)),
     ul_origin = (\<lambda>(s, h, _). s @ ''://'' @ h)\<rparr>"

section \<open>Words as numbers and digit lists\<close>

lemma and_not_mask_eq_iff:
  fixes v w :: "'w::len word"
  shows "v AND NOT (mask n) = w AND NOT (mask n) \<longleftrightarrow> drop_bit n v = drop_bit n w" (is "?l = ?r")
proof
  assume l: ?l
  show ?r
  proof (rule bit_word_eqI)
    fix k
    have "bit (v AND NOT (mask n)) (n + k) = bit (w AND NOT (mask n)) (n + k)" using l by simp
    thus "bit (drop_bit n v) k = bit (drop_bit n w) k" by (auto simp: bit_simps dest: bit_imp_le_length)
  qed
next
  assume r: ?r
  show ?l
  proof (rule bit_word_eqI)
    fix k
    have "n \<le> k \<Longrightarrow> bit v k = bit w k"
      using arg_cong [OF r, of "\<lambda>x. bit x (k - n)"] by (simp add: bit_simps)
    thus "bit (v AND NOT (mask n)) k = bit (w AND NOT (mask n)) k" by (auto simp: bit_simps)
  qed
qed

lemma drop_bit_eq_iff_unat:
  fixes v w :: "'w::len word"
  shows "drop_bit n v = drop_bit n w \<longleftrightarrow> unat v div 2 ^ n = unat w div 2 ^ n"
  by (metis drop_bit_eq_div unat_drop_bit_eq word_unat_eq_iff)

lemma and_mask_iff:
  fixes w b :: "'w::len word"
  assumes "m = NOT (mask n)" "b AND m = b"
  shows "w AND m = b \<longleftrightarrow> unat w div 2 ^ n = unat b div 2 ^ n"
  using and_not_mask_eq_iff [of w n b] assms by (simp add: drop_bit_eq_iff_unat)

lemma minus_words:
  "(- 256 :: 16 word) = 0xff00" "(- 512 :: 16 word) = 0xfe00" "(- 64 :: 16 word) = 0xffc0"
  "(- 16 :: 16 word) = 0xfff0" "(- 4096 :: 16 word) = 0xf000"
  by simp_all

lemma seg_masks:
  fixes w :: "16 word"
  shows "w AND 0xff00 = 0xff00 \<longleftrightarrow> unat w div 2 ^ 8 = 0xff"
    "w AND 0xfe00 = 0xfc00 \<longleftrightarrow> unat w div 2 ^ 9 = 0x7e"
    "w AND 0xffc0 = 0xfe80 \<longleftrightarrow> unat w div 2 ^ 6 = 0x3fa"
    "w AND 0xffc0 = 0xfec0 \<longleftrightarrow> unat w div 2 ^ 6 = 0x3fb"
    "w AND 0xfff0 = 0x0010 \<longleftrightarrow> unat w div 2 ^ 4 = 1"
    "w AND 0xfff0 = 0x0020 \<longleftrightarrow> unat w div 2 ^ 4 = 2"
    "w AND 0xf000 = 0 \<longleftrightarrow> unat w div 2 ^ 12 = 0"
  using and_mask_iff [of _ 8 "0xff00" w] and_mask_iff [of _ 9 "0xfc00" w]
    and_mask_iff [of _ 6 "0xfe80" w] and_mask_iff [of _ 6 "0xfec0" w]
    and_mask_iff [of _ 4 "0x0010" w] and_mask_iff [of _ 4 "0x0020" w]
    and_mask_iff [of _ 12 "0" w]
  by (simp_all add: mask_eq_exp_minus_1 minus_words)

text \<open>Big-endian digit lists.\<close>

definition be :: "nat \<Rightarrow> nat list \<Rightarrow> nat" where
  "be B ds = foldl (\<lambda>n d. n * B + d) 0 ds"

lemma be_snoc [simp]: "be B (ds @ [d]) = be B ds * B + d"
  by (simp add: be_def)

lemma be_Nil [simp]: "be B [] = 0"
  by (simp add: be_def)

lemma digit_inj:
  fixes d e :: nat
  assumes "d < B" "e < B"
  shows "m * B + d = n * B + e \<longleftrightarrow> m = n \<and> d = e"
proof
  assume eq: "m * B + d = n * B + e"
  have "(m * B + d) div B = m" "(m * B + d) mod B = d" "(n * B + e) div B = n" "(n * B + e) mod B = e"
    using assms by simp_all
  with eq show "m = n \<and> d = e" by metis
qed simp

lemma be_inj:
  "length xs = length ys \<Longrightarrow> (\<forall>d\<in>set xs \<union> set ys. d < B) \<Longrightarrow> be B xs = be B ys \<longleftrightarrow> xs = ys"
proof (induction xs arbitrary: ys rule: rev_induct)
  case (snoc d xs)
  then obtain e zs where ys: "ys = zs @ [e]" "length xs = length zs"
    by (cases ys rule: rev_cases) auto
  have d: "d < B" "e < B" and zs: "\<forall>d\<in>set xs \<union> set zs. d < B" using snoc.prems ys by simp_all
  from d have "be B xs * B + d = be B zs * B + e \<longleftrightarrow> be B xs = be B zs \<and> d = e"
    by (rule digit_inj)
  with snoc.IH [OF ys(2) zs] show ?case by (simp add: ys)
qed simp

lemma be_append_div:
  "(\<forall>d\<in>set ys. d < B) \<Longrightarrow> be B (xs @ ys) div B ^ length ys = be B xs"
proof (induction ys rule: rev_induct)
  case (snoc d ys)
  have "be B (xs @ ys @ [d]) div B = be B (xs @ ys)"
    using snoc.prems be_snoc [of B "xs @ ys" d] by auto
  thus ?case using snoc by (simp add: div_mult2_eq)
qed simp

lemma be_Cons: "be B (d # ds) = d * B ^ length ds + be B ds"
  by (induction ds rule: rev_induct) (simp_all add: be_def algebra_simps)

lemma be_digits: "be B (map (\<lambda>k. x div B ^ k mod B) (rev [0..<n])) = x mod B ^ n"
proof (induction n)
  case (Suc n)
  have "x mod B ^ Suc n = x div B ^ n mod B * B ^ n + x mod B ^ n"
    by (metis add.commute mod_mult2_eq mult.commute power_Suc2)
  with Suc show ?case by (simp add: be_Cons)
qed (simp add: be_def)

lemma unat_octets: "map unat (octets v) = map (\<lambda>k. unat v div 256 ^ k mod 256) (rev [0..<4])"
  by (simp add: octets_def unsigned_ucast_eq unat_div unat_drop_bit_eq drop_bit_eq_div
      take_bit_eq_mod upt_rec)

lemma unat_segments:
  "map unat (segments v) = map (\<lambda>k. unat v div 65536 ^ k mod 65536) (rev [0..<8])"
  by (simp add: segments_def unsigned_ucast_eq unat_div unat_drop_bit_eq drop_bit_eq_div
      take_bit_eq_mod upt_rec)

lemma octets_value: "be 256 (map unat (octets v)) = unat v"
  using unsigned_less [of v, where ?'a = nat] be_digits [of 256 "unat v" 4]
  by (simp only: unat_octets) simp

lemma segments_value: "be 65536 (map unat (segments v)) = unat v"
  using unsigned_less [of v, where ?'a = nat] be_digits [of 65536 "unat v" 8]
  by (simp only: unat_segments) simp

lemma octets_length [simp]: "length (octets v) = 4"
  by (simp add: octets_def)

lemma segments_length [simp]: "length (segments v) = 8"
  by (simp add: segments_def)

text \<open>A list prefix of the digits is a prefix of the number.\<close>

lemma take_digits_iff:
  fixes ds cs :: "'w::len word list"
  assumes "length cs \<le> length ds"
  shows "take (length cs) ds = cs \<longleftrightarrow>
    be (2 ^ LENGTH('w)) (map unat ds) div (2 ^ LENGTH('w)) ^ (length ds - length cs)
      = be (2 ^ LENGTH('w)) (map unat cs)"
proof -
  let ?B = "2 ^ LENGTH('w) :: nat" and ?n = "length cs"
  have less: "unat w < ?B" for w :: "'w word" by (rule unsigned_less)
  have "be ?B (map unat (take ?n ds) @ map unat (drop ?n ds)) div ?B ^ length (map unat (drop ?n ds))
      = be ?B (map unat (take ?n ds))"
    by (rule be_append_div) (auto intro: less)
  hence "be ?B (map unat ds) div ?B ^ (length ds - ?n) = be ?B (map unat (take ?n ds))"
    by (simp flip: map_append)
  moreover have "be ?B (map unat (take ?n ds)) = be ?B (map unat cs)
      \<longleftrightarrow> map unat (take ?n ds) = map unat cs"
    using assms by (intro be_inj) (auto intro: less)
  moreover have "inj (unat :: 'w word \<Rightarrow> nat)" by (rule injI) (simp add: word_unat_eq_iff)
  ultimately show ?thesis by (simp add: inj_map_eq_map)
qed

lemma take_octets_iff:
  "length cs \<le> 4 \<Longrightarrow> take (length cs) (octets v) = cs \<longleftrightarrow>
     unat v div 256 ^ (4 - length cs) = be 256 (map unat cs)"
  using take_digits_iff [of cs "octets v"] by (simp add: octets_value)

lemma take_segments_iff:
  "length cs \<le> 8 \<Longrightarrow> take (length cs) (segments v) = cs \<longleftrightarrow>
     unat v div 65536 ^ (8 - length cs) = be 65536 (map unat cs)"
  using take_digits_iff [of cs "segments v"] by (simp add: segments_value)

lemma in_network_unat:
  "in_network (a :: 'w::len word) (n, l) \<longleftrightarrow>
     unat a div 2 ^ (LENGTH('w) - l) = unat n div 2 ^ (LENGTH('w) - l)"
  by (simp add: in_network_def drop_bit_eq_iff_unat)

lemma octet0: "octets v ! 0 = c \<longleftrightarrow> unat v div 65536 div 256 = unat c"
  using take_octets_iff [of "[c]" v] by (simp add: be_def octets_def div_mult2_eq [of "unat v" 65536 256, symmetric])

lemma unat_octet0: "unat (octets v ! 0) = unat v div 65536 div 256"
  by (metis octet0)

lemma unat_octet1: "unat (octets v ! 1) = unat v div 65536 mod 256"
  by (simp add: octets_def unsigned_ucast_eq unat_div unat_drop_bit_eq drop_bit_eq_div take_bit_eq_mod)

lemma take3_octets:
  "take 3 (octets v) = [a, b, c] \<longleftrightarrow> unat v div 256 = (unat a * 256 + unat b) * 256 + unat c"
  using take_octets_iff [of "[a, b, c]" v] by (simp add: be_def numeral_3_eq_3)

lemma all_octets:
  "octets v = [a, b, c, d] \<longleftrightarrow>
     unat v = ((unat a * 256 + unat b) * 256 + unat c) * 256 + unat d"
  using take_octets_iff [of "[a, b, c, d]" v] by (simp add: be_def)

lemma top_half: "unat v div 65536 = unat v div 256 div (256 :: nat)"
  by (simp add: div_mult2_eq [symmetric])

lemma div_eq_iff_interval:
  "0 < n \<Longrightarrow> x div n = q \<longleftrightarrow> n * q \<le> x \<and> x < n * (q + 1)" for x n q :: nat
  by (metis Suc_eq_plus1 div_nat_eqI dividend_less_times_div mult.commute mult_Suc_right times_div_less_eq_dividend)

lemma digit_interval:
  "m < B \<Longrightarrow> b \<le> B \<Longrightarrow> B * c + a \<le> B * d + m \<and> B * d + m < B * c + b \<longleftrightarrow> d = c \<and> a \<le> m \<and> m < b"
  for m :: nat
proof (cases d c rule: linorder_cases)
  case less
  assume "m < B"
  moreover have "B * Suc d \<le> B * c" using less by (intro mult_le_mono) auto
  ultimately show ?thesis using less by auto
next
  case greater
  assume "b \<le> B"
  moreover have "B * Suc c \<le> B * d" using greater by (intro mult_le_mono) auto
  ultimately show ?thesis using greater by auto
qed auto

lemma two_digit_interval:
  fixes h :: nat
  assumes "b \<le> B" "0 < B"
  shows "h div B = c \<and> a \<le> h mod B \<and> h mod B < b \<longleftrightarrow> B * c + a \<le> h \<and> h < B * c + b"
  using digit_interval [of "h mod B" B b c a "h div B"] assms by simp

lemma half_tests:
  fixes h :: nat
  shows "h div 256 = 172 \<and> 16 \<le> h mod 256 \<and> h mod 256 \<le> 31 \<longleftrightarrow> h div 16 = 2753"
    "h div 256 = 192 \<and> h mod 256 = 168 \<longleftrightarrow> h = 49320"
    "h div 256 = 169 \<and> h mod 256 = 254 \<longleftrightarrow> h = 43518"
    "h div 256 = 100 \<and> 64 \<le> h mod 256 \<and> h mod 256 \<le> 127 \<longleftrightarrow> h div 64 = 401"
    "h div 256 = 198 \<and> (h mod 256 = 18 \<or> h mod 256 = 19) \<longleftrightarrow> h div 2 = 25353"
    "224 \<le> h div 256 \<longleftrightarrow> 57344 \<le> h"
proof -
  note digits = two_digit_interval [of _ 256 h]
  show "h div 256 = 172 \<and> 16 \<le> h mod 256 \<and> h mod 256 \<le> 31 \<longleftrightarrow> h div 16 = 2753"
    using digits [of 32 172 16] by (subst (2) div_eq_iff_interval) (simp, force)
  show "h div 256 = 192 \<and> h mod 256 = 168 \<longleftrightarrow> h = 49320"
    using digits [of 169 192 168] by force
  show "h div 256 = 169 \<and> h mod 256 = 254 \<longleftrightarrow> h = 43518"
    using digits [of 255 169 254] by force
  show "h div 256 = 100 \<and> 64 \<le> h mod 256 \<and> h mod 256 \<le> 127 \<longleftrightarrow> h div 64 = 401"
    using digits [of 128 100 64] by (subst (2) div_eq_iff_interval) (simp, force)
  show "h div 256 = 198 \<and> (h mod 256 = 18 \<or> h mod 256 = 19) \<longleftrightarrow> h div 2 = 25353"
    using digits [of 20 198 18] by (subst (2) div_eq_iff_interval) (simp, force)
  show "224 \<le> h div 256 \<longleftrightarrow> 57344 \<le> h"
    by (simp add: less_eq_div_iff_mult_less_eq)
qed

lemma blocked_v4_arith:
  "blocked_v4 v \<longleftrightarrow> (let h = unat v div 65536; t = unat v div 256 in
     h div 256 \<in> {0, 10, 127} \<or> 57344 \<le> h \<or> h div 64 = 401 \<or> h = 43518 \<or> h div 16 = 2753
     \<or> h = 49320 \<or> h div 2 = 25353 \<or> t \<in> {12582912, 12582914, 12605539, 12989284, 13303921})"
proof -
  define h where "h = unat v div 65536"
  have impl: "unat v = 4294967295 \<Longrightarrow> 57344 \<le> h" "unat v = 2852039166 \<Longrightarrow> h = 43518"
     "unat v = 0 \<Longrightarrow> h div 256 = 0" "224 \<le> h div 256 \<and> h div 256 \<le> 239 \<Longrightarrow> 57344 \<le> h"
    by (simp_all add: h_def half_tests)
  have "blocked_v4 v \<longleftrightarrow>
      (h div 256 = 10 \<or> h div 16 = 2753 \<or> h = 49320) \<or> h div 256 = 127 \<or> h = 43518
      \<or> (224 \<le> h div 256 \<and> h div 256 \<le> 239) \<or> unat v = 4294967295 \<or> unat v = 0
      \<or> h div 256 = 0 \<or> 57344 \<le> h \<or> unat v = 2852039166 \<or> h div 64 = 401
      \<or> unat v div 256 = 12582912 \<or> unat v div 256 = 12582914 \<or> unat v div 256 = 12605539
      \<or> h div 2 = 25353 \<or> unat v div 256 = 12989284 \<or> unat v div 256 = 13303921"
    unfolding blocked_v4_def v4_is_private_def v4_is_loopback_def v4_is_link_local_def
      v4_is_multicast_def v4_is_broadcast_def v4_is_unspecified_def Let_def
    by (simp only: take3_octets all_octets word_unat_eq_iff word_le_nat_alt unat_octet0 unat_octet1
        flip: h_def) (simp add: half_tests del: div_le_mono)
  with impl show ?thesis unfolding h_def Let_def insert_iff empty_iff by argo
qed

lemma blocked_v4_networks: "blocked_v4 v \<longleftrightarrow> (\<exists>n\<in>set reserved_v4. in_network v n)"
proof -
  have "57344 \<le> unat v div 65536 \<longleftrightarrow> unat v div 536870912 = 7"
    using unsigned_less [of v, where ?'a = nat]
    by (auto simp: div_eq_iff_interval less_eq_div_iff_mult_less_eq)
  thus ?thesis
    by (simp add: blocked_v4_arith reserved_v4_def in_network_unat ipv4_new_def Let_def
        div_mult2_eq [of _ 65536, symmetric]) blast
qed

lemma segment0: "unat (segments v ! 0) = unat v div 2 ^ 112"
  using take_segments_iff [of "[segments v ! 0]" v] by (simp add: be_def segments_def)

lemma segment1: "unat (segments v ! 1) = unat v div 2 ^ 96 mod 65536"
  by (simp add: segments_def unsigned_ucast_eq unat_div unat_drop_bit_eq drop_bit_eq_div take_bit_eq_mod)

lemma take_segments_n:
  "length cs = n \<Longrightarrow> n \<le> 8 \<Longrightarrow> take n (segments v) = cs \<longleftrightarrow>
     unat v div 65536 ^ (8 - n) = be 65536 (map unat cs)"
  using take_segments_iff [of cs v] by simp

lemma take3_segments:
  "take 3 (segments v) = [a, b, c] \<longleftrightarrow> unat v div 2 ^ 80 = (unat a * 65536 + unat b) * 65536 + unat c"
  by (subst take_segments_n) (simp_all add: be_def)

lemma take4_segments:
  "take 4 (segments v) = [a, b, c, d] \<longleftrightarrow>
    unat v div 2 ^ 64 = ((unat a * 65536 + unat b) * 65536 + unat c) * 65536 + unat d"
  by (subst take_segments_n) (simp_all add: be_def)

lemma take6_segments:
  "take 6 (segments v) = [a, b, c, d, e, f] \<longleftrightarrow>
    unat v div 2 ^ 32 = ((((unat a * 65536 + unat b) * 65536 + unat c) * 65536 + unat d) * 65536
       + unat e) * 65536 + unat f"
  by (subst take_segments_n) (simp_all add: be_def)

lemma segment_pair:
  "segments v ! 0 = a \<and> segments v ! 1 = b \<longleftrightarrow> unat v div 2 ^ 96 = unat a * 65536 + unat b"
proof -
  have "take 2 (segments v) = [segments v ! 0, segments v ! 1]" by (simp add: segments_def)
  thus ?thesis using take_segments_n [of "[a, b]" 2 v] by (simp add: be_def)
qed

lemma segment_mask_pair:
  "segments v ! 0 = 0x2001 \<and> segments v ! 1 AND 0xfff0 = 0x0010 \<longleftrightarrow> unat v div 2 ^ 100 = 0x2001001"
  "segments v ! 0 = 0x2001 \<and> segments v ! 1 AND 0xfff0 = 0x0020 \<longleftrightarrow> unat v div 2 ^ 100 = 0x2001002"
  "segments v ! 0 = 0x3fff \<and> segments v ! 1 AND 0xf000 = 0 \<longleftrightarrow> unat v div 2 ^ 108 = 0x3fff0"
proof -
  define m where "m = unat v div 2 ^ 96"
  have m0: "unat (segments v ! 0) = m div 65536"
    by (simp add: segment0 m_def div_mult2_eq [symmetric])
  have m1: "unat (segments v ! 1) = m mod 65536" by (simp only: segment1 m_def)
  have q: "unat v div 2 ^ 100 = m div 16" "unat v div 2 ^ 108 = m div 4096"
    by (simp_all add: m_def div_mult2_eq [symmetric])
  show "segments v ! 0 = 0x2001 \<and> segments v ! 1 AND 0xfff0 = 0x0010 \<longleftrightarrow> unat v div 2 ^ 100 = 0x2001001"
    using two_digit_interval [of 32 65536 m "0x2001" 16]
    unfolding seg_masks m1 q unfolding word_unat_eq_iff m0 by (simp add: div_eq_iff_interval)
  show "segments v ! 0 = 0x2001 \<and> segments v ! 1 AND 0xfff0 = 0x0020 \<longleftrightarrow> unat v div 2 ^ 100 = 0x2001002"
    using two_digit_interval [of 48 65536 m "0x2001" 32]
    unfolding seg_masks m1 q unfolding word_unat_eq_iff m0 by (simp add: div_eq_iff_interval)
  show "segments v ! 0 = 0x3fff \<and> segments v ! 1 AND 0xf000 = 0 \<longleftrightarrow> unat v div 2 ^ 108 = 0x3fff0"
    using two_digit_interval [of 4096 65536 m "0x3fff" 0]
    unfolding seg_masks m1 q unfolding word_unat_eq_iff m0 by (simp add: div_eq_iff_interval)
qed

lemma segment0_eq: "segments v ! 0 = a \<longleftrightarrow> unat v div 2 ^ 112 = unat a"
  by (simp add: word_unat_eq_iff segment0)

lemma segment0_masks:
  "segments v ! 0 AND 0xff00 = 0xff00 \<longleftrightarrow> unat v div 2 ^ 120 = 0xff"
  "segments v ! 0 AND 0xfe00 = 0xfc00 \<longleftrightarrow> unat v div 2 ^ 121 = 0x7e"
  "segments v ! 0 AND 0xffc0 = 0xfe80 \<longleftrightarrow> unat v div 2 ^ 118 = 0x3fa"
  "segments v ! 0 AND 0xffc0 = 0xfec0 \<longleftrightarrow> unat v div 2 ^ 118 = 0x3fb"
  unfolding seg_masks segment0 div_mult2_eq [symmetric] by simp_all

lemma blocked_v6_networks:
  "blocked_v6 v \<longleftrightarrow> (\<exists>n\<in>set reserved_v6. in_network v n)
     \<or> in_network v mapped_v4 \<and> blocked_v4 (ucast v)"
proof -
  have low: "v = 1 \<Longrightarrow> unat v div 4294967296 = 0" "v = 0 \<Longrightarrow> unat v div 4294967296 = 0" by simp_all
  have mapped: "(case to_ipv4_mapped v of None \<Rightarrow> False | Some w \<Rightarrow> blocked_v4 w)
      \<longleftrightarrow> in_network v mapped_v4 \<and> blocked_v4 (ucast v)"
    by (simp add: to_ipv4_mapped_def mapped_v4_def take6_segments in_network_unat)
  show ?thesis
    unfolding blocked_v6_def Let_def v6_is_loopback_def v6_is_unspecified_def v6_is_multicast_def
      segment0_masks segment_mask_pair segment_pair take6_segments take4_segments
      take3_segments mapped
    unfolding segment0_eq
    by (simp add: reserved_v6_def in_network_unat) (use low in argo)
qed

lemma is_blocked_reserved: "is_blocked ip \<longleftrightarrow> reserved ip"
  by (cases ip) (simp_all add: reserved_def blocked_v4_networks blocked_v6_networks)

lemma benchmark_network:
  "is_benchmark_fake_ip ip \<longleftrightarrow> (\<exists>v. ip = V4 v \<and> in_network v (ipv4_new 198 18 0 0, 15))"
proof (cases ip)
  case (V4 v)
  have "is_benchmark_fake_ip ip \<longleftrightarrow> unat v div 65536 div 256 = 198
      \<and> (unat v div 65536 mod 256 = 18 \<or> unat v div 65536 mod 256 = 19)"
    unfolding is_benchmark_fake_ip_def V4
    by (simp add: word_unat_eq_iff unat_octet0 [simplified] unat_octet1 [simplified])
  thus ?thesis
    unfolding half_tests by (simp add: V4 in_network_unat ipv4_new_def div_mult2_eq [symmetric])
qed (simp add: is_benchmark_fake_ip_def)

lemma query_pairs_fold_append:
  assumes "query_laws lib"
  shows "ul_query_pairs lib
      (fold (\<lambda>(key, value) u. if P key then ul_append_pair lib u (key, value) else u) ps u)
    = ul_query_pairs lib u @ filter (P \<circ> fst) ps"
  using assms by (induction ps arbitrary: u) (auto simp: query_laws_def)

lemma normalize_http_target_Inr:
  assumes "normalize_http_target lib raw allow = Inr t"
  obtains h where "ul_host_str lib (the (ul_parse lib raw)) = Some h"
    "nw_host (sw_public t) = to_ascii_lowercase (trim_end_dots h)"
    "nw_public_url (sw_public t) = ul_as_str lib (public_url_of lib (nw_host (sw_public t)) (sw_request_url t))"
    "\<not> allow \<Longrightarrow> nw_host (sw_public t) \<noteq> ''localhost'' \<and> \<not> ends_with (nw_host (sw_public t)) ''.localhost''"
  using assms
  by (auto simp: normalize_http_target_def Let_def split: option.splits url_host.splits if_splits)

lemma validate_for_fetch_Inr:
  "validate_resolved_target_for_fetch lib now t resolved c g item trusted = Inr () \<longleftrightarrow>
     c \<in> set resolved \<and>
     (\<forall>ip\<in>set resolved. reserved ip \<longrightarrow>
        allows_tunneled_https_fake_ip lib t resolved c trusted
        \<or> grant_allows lib now g t ip item)"
proof -
  have "allows_tunneled_https_fake_ip lib t resolved c trusted \<Longrightarrow> ip \<in> set resolved \<Longrightarrow> is_benchmark_fake_ip ip" for ip
    by (auto simp: allows_tunneled_https_fake_ip_def list_all_iff)
  thus ?thesis
    by (auto simp: validate_resolved_target_for_fetch_def Let_def list_ex_iff is_blocked_reserved)
qed

section \<open>Properties\<close>

text \<open>
  C26: the block list is exactly the table of special-purpose networks. The octet comparisons of
  \<open>blocked_v4\<close> and the segment masks of \<open>blocked_v6\<close> hold of an address precisely when it lies
  in one of the listed blocks, an IPv4-mapped IPv6 address being judged by the IPv4 address it
  carries.
\<close>

theorem block_list_exact: "is_blocked ip \<longleftrightarrow> reserved ip"
  by (rule is_blocked_reserved)

text \<open>
  C25: a fetch is accepted precisely when the connected address is one of the resolved ones and
  every resolved address is outside the reserved networks, up to the two exceptions: an HTTPS
  request to a named host the caller vouches for, all of whose addresses are in the benchmarking
  network 198.18.0.0/15, and an unexpired grant of this item for this scheme, host, port and
  address.
\<close>

theorem fetch_accepts_exactly:
  "validate_resolved_target_for_fetch lib now t resolved c g item trusted = Inr () \<longleftrightarrow>
     c \<in> set resolved \<and>
     (\<forall>ip\<in>set resolved. reserved ip \<longrightarrow>
        (trusted \<and> ul_scheme lib (sw_request_url t) = ''https''
         \<and> (\<exists>d. ul_host lib (sw_request_url t) = Some (Domain d))
         \<and> (\<forall>j\<in>set resolved. \<exists>v. j = V4 v \<and> in_network v (ipv4_new 198 18 0 0, 15)))
        \<or> (\<exists>gr. g = Some gr \<and> pg_item_id gr = item \<and> pg_scheme gr = nw_scheme (sw_public t)
            \<and> pg_host gr = nw_host (sw_public t)
            \<and> pg_port gr = case_option 0 id (ul_port_or_known_default lib (sw_request_url t))
            \<and> now < pg_expires_at gr \<and> ip \<in> set (pg_resolved_ips gr)))"
proof -
  have g: "grant_allows lib now g t ip item \<longleftrightarrow>
      (\<exists>gr. g = Some gr \<and> pg_item_id gr = item \<and> pg_scheme gr = nw_scheme (sw_public t)
        \<and> pg_host gr = nw_host (sw_public t)
        \<and> pg_port gr = case_option 0 id (ul_port_or_known_default lib (sw_request_url t))
        \<and> now < pg_expires_at gr \<and> ip \<in> set (pg_resolved_ips gr))" for ip
    by (cases g; cases "ul_port_or_known_default lib (sw_request_url t)")
      (simp_all add: grant_allows_def)
  have d: "(case h of Some (Domain _) \<Rightarrow> True | _ \<Rightarrow> False) \<longleftrightarrow> (\<exists>d. h = Some (Domain d))" for h
    by (simp split: option.split url_host.split)
  have "c \<in> set resolved \<Longrightarrow> allows_tunneled_https_fake_ip lib t resolved c trusted \<longleftrightarrow>
      trusted \<and> ul_scheme lib (sw_request_url t) = ''https''
      \<and> (\<exists>d. ul_host lib (sw_request_url t) = Some (Domain d))
      \<and> (\<forall>j\<in>set resolved. \<exists>v. j = V4 v \<and> in_network v (ipv4_new 198 18 0 0, 15))"
    unfolding allows_tunneled_https_fake_ip_def d list_all_iff benchmark_network by blast
  thus ?thesis unfolding validate_for_fetch_Inr g by (cases "c \<in> set resolved") simp_all
qed

theorem fetch_accepts_exactly_witness:
  "validate_resolved_target_for_fetch sample_library 10
     \<lparr>sw_request_url = (''http'', ''nas.lan'', []),
      sw_public = \<lparr>nw_public_url = ''http://nas.lan'', nw_host = ''nas.lan'', nw_scheme = ''http''\<rparr>\<rparr>
     [V4 (ipv4_new 192 168 1 2)] (V4 (ipv4_new 192 168 1 2))
     (Some \<lparr>pg_item_id = ''i'', pg_scheme = ''http'', pg_host = ''nas.lan'', pg_port = 80,
            pg_resolved_ips = [V4 (ipv4_new 192 168 1 2)], pg_expires_at = 11\<rparr>) ''i'' False = Inr ()
   \<and> reserved (V4 (ipv4_new 192 168 1 2))"
proof
  show "reserved (V4 (ipv4_new 192 168 1 2))"
    by (simp add: reserved_def reserved_v4_def in_network_unat ipv4_new_def)
qed (rule fetch_accepts_exactly [THEN iffD2], simp add: sample_library_def)

text \<open>
  C27: provider traffic is confined. When a provider endpoint was accepted and its resolution
  validated, either the request is HTTPS and the connected address is outside the reserved
  networks (or the benchmarking network, for a host the caller vouches for), or the request is
  plain HTTP and the connected address is 127.0.0.1 or ::1: clear text never leaves the machine.
\<close>

theorem provider_traffic_confined:
  assumes "normalize_provider_endpoint lib raw = Inr t"
    and "validate_provider_resolution lib now t resolved c trusted = Inr ()"
  shows "ul_scheme lib (sw_request_url (pt_session t)) = ''https''
        \<and> (reserved c \<longrightarrow> trusted \<and> (\<exists>v. c = V4 v \<and> in_network v (ipv4_new 198 18 0 0, 15)))
      \<or> ul_scheme lib (sw_request_url (pt_session t)) = ''http''
        \<and> c \<in> {V4 v4_LOCALHOST, V6 v6_LOCALHOST}"
proof (cases "pt_class t")
  case PublicHttps
  have "validate_resolved_target_for_fetch lib now (pt_session t) resolved c None ''provider''
      trusted = Inr ()"
    using assms(2) PublicHttps by (simp add: validate_provider_resolution_def)
  hence "c \<in> set resolved" "reserved c \<Longrightarrow> allows_tunneled_https_fake_ip lib (pt_session t) resolved c trusted"
    unfolding validate_for_fetch_Inr by (auto simp: grant_allows_def)
  hence "reserved c \<longrightarrow> trusted \<and> is_benchmark_fake_ip c"
    by (auto simp: allows_tunneled_https_fake_ip_def)
  moreover have "ul_scheme lib (sw_request_url (pt_session t)) = ''https''"
    using assms(1) PublicHttps
    by (auto simp: normalize_provider_endpoint_def Let_def split: sum.splits if_splits)
  ultimately show ?thesis using benchmark_network by blast
next
  case LoopbackHttp
  have "c \<in> set resolved" "\<forall>ip\<in>set resolved. is_strict_loopback_ip ip"
    using assms(2) LoopbackHttp
    by (auto simp: validate_provider_resolution_def list_all_iff split: if_splits)
  hence "is_strict_loopback_ip c" by blast
  hence "c \<in> {V4 v4_LOCALHOST, V6 v6_LOCALHOST}"
    by (simp add: is_strict_loopback_ip_def split: ip_addr.splits)
  moreover have "ul_scheme lib (sw_request_url (pt_session t)) = ''http''"
    using assms(1) LoopbackHttp
    by (auto simp: normalize_provider_endpoint_def Let_def split: sum.splits if_splits)
  ultimately show ?thesis by blast
qed

theorem provider_traffic_confined_witness:
  "\<exists>t. normalize_provider_endpoint sample_library ''http://localhost:11434'' = Inr t
     \<and> validate_provider_resolution sample_library 0 t [V4 v4_LOCALHOST] (V4 v4_LOCALHOST) False = Inr ()
     \<and> ul_scheme sample_library (sw_request_url (pt_session t)) = ''http''"
proof -
  obtain t where t: "normalize_provider_endpoint sample_library ''http://localhost:11434'' = Inr t"
      "validate_provider_resolution sample_library 0 t [V4 v4_LOCALHOST] (V4 v4_LOCALHOST) False = Inr ()"
      "pt_class t = LoopbackHttp"
    by (simp add: normalize_provider_endpoint_def normalize_http_target_def sample_library_def Let_def
        is_syntactic_loopback_def eq_ignore_ascii_case_def public_url_of_def trim_end_dots_def
        to_ascii_lowercase_def to_ascii_lowercase_char_def validate_provider_resolution_def
        is_strict_loopback_ip_def)
  have "reserved (V4 v4_LOCALHOST)"
    by (simp add: reserved_def reserved_v4_def in_network_unat ipv4_new_def v4_LOCALHOST_def)
  with provider_traffic_confined [OF t(1,2)] t show ?thesis by auto
qed

text \<open>
  a redirect that is followed is screened like the first request, and what is stored of it
  discloses only public query parameters: the host is not a local name, and the stored URL
  prints a URL whose parameters are, in order, those of the request with a public key.
\<close>

theorem redirect_stores_public_parameters:
  assumes "query_laws lib"
    and "validate_redirect lib current location = Inr t"
  shows "\<exists>u. public_persistence_url t = ul_as_str lib u
      \<and> ul_query_pairs lib u
        = filter (is_public_key (nw_host (sw_public t)) \<circ> fst) (ul_query_pairs lib (sw_request_url t))
      \<and> nw_host (sw_public t) \<noteq> ''localhost'' \<and> \<not> ends_with (nw_host (sw_public t)) ''.localhost''"
proof -
  obtain raw where "normalize_http_target lib raw False = Inr t"
    using assms(2) by (auto simp: validate_redirect_def normalize_for_session_def split: option.splits)
  then obtain h where h: "nw_public_url (sw_public t)
        = ul_as_str lib (public_url_of lib (nw_host (sw_public t)) (sw_request_url t))"
      "nw_host (sw_public t) \<noteq> ''localhost'' \<and> \<not> ends_with (nw_host (sw_public t)) ''.localhost''"
    by (rule normalize_http_target_Inr) simp_all
  have "ul_query_pairs lib (public_url_of lib (nw_host (sw_public t)) (sw_request_url t))
      = filter (is_public_key (nw_host (sw_public t)) \<circ> fst) (ul_query_pairs lib (sw_request_url t))"
    using assms(1) query_pairs_fold_append [OF assms(1)]
    by (simp add: public_url_of_def query_laws_def)
  with h show ?thesis unfolding public_persistence_url_def by blast
qed

theorem redirect_stores_public_parameters_witness:
  "query_laws sample_library
   \<and> (\<exists>t u. validate_redirect sample_library
          \<lparr>sw_request_url = (''https'', ''example.org'', []),
           sw_public = \<lparr>nw_public_url = ''https://example.org'', nw_host = ''example.org'',
                        nw_scheme = ''https''\<rparr>\<rparr> ''/next'' = Inr t
        \<and> public_persistence_url t = ul_as_str sample_library u
        \<and> nw_host (sw_public t) \<noteq> ''localhost'')"
proof -
  have laws: "query_laws sample_library" by (auto simp: query_laws_def sample_library_def)
  obtain t where "validate_redirect sample_library
          \<lparr>sw_request_url = (''https'', ''example.org'', []),
           sw_public = \<lparr>nw_public_url = ''https://example.org'', nw_host = ''example.org'',
                        nw_scheme = ''https''\<rparr>\<rparr> ''/next'' = Inr t"
    by (simp add: validate_redirect_def normalize_for_session_def normalize_http_target_def
        sample_library_def Let_def trim_end_dots_def to_ascii_lowercase_def
        to_ascii_lowercase_char_def ends_with_def suffix_to_prefix)
  with redirect_stores_public_parameters [OF laws this] laws show ?thesis by blast
qed

end
