(* ===== verification/Redaction.thy ===== *)
theory Redaction
  imports Url_Policy "HOL-Library.Monad_Syntax"
begin

text \<open>
  Removal of credentials from what the importer stores (\<open>services/import_v2/redaction.rs\<close>).

  The scanners of the module walk a cursor over the bytes of a text. They are partial functions:
  \<open>None\<close> is a scan that does not end, and that every scan ends is proved. The \<open>url\<close> crate is
  the parameter \<open>lib\<close>, the reader and printer of \<open>serde_json\<close> are parameters of
  \<open>redact_json_snapshot\<close>.
\<close>

section \<open>Searching a string\<close>

fun find_sub :: "string \<Rightarrow> string \<Rightarrow> nat option" where
  "find_sub [] p = (if p = [] then Some 0 else None)"
| "find_sub (c # s) p = (if starts_with (c # s) p then Some 0 else map_option Suc (find_sub s p))"

fun find_char :: "(char \<Rightarrow> bool) \<Rightarrow> string \<Rightarrow> nat option" where
  "find_char P [] = None"
| "find_char P (c # s) = (if P c then Some 0 else map_option Suc (find_char P s))"

definition is_quote :: "char \<Rightarrow> bool" where
  "is_quote c \<longleftrightarrow> c = CHR 0x22 \<or> c = CHR 0x27"

definition is_ascii_whitespace :: "char \<Rightarrow> bool" where
  "is_ascii_whitespace c \<longleftrightarrow>
     c \<in> {CHR '' '', CHR 0x09, CHR 0x0A, CHR 0x0C, CHR 0x0D}"

definition skip_ascii_whitespace :: "string \<Rightarrow> nat \<Rightarrow> nat" where
  "skip_ascii_whitespace input cursor =
     cursor + length (takeWhile is_ascii_whitespace (drop cursor input))"

section \<open>Attributes of a tag\<close>

definition slice :: "string \<Rightarrow> nat \<Rightarrow> nat \<Rightarrow> string" where
  "slice s a b = take (b - a) (drop a s)"

definition byte_at :: "string \<Rightarrow> nat \<Rightarrow> char option" where
  "byte_at s i = (if i < length s then Some (s ! i) else None)"

definition byte_before :: "string \<Rightarrow> nat \<Rightarrow> char option" where
  "byte_before s i = (if i = 0 then None else byte_at s (i - 1))"

definition name_char :: "char option \<Rightarrow> bool" where
  "name_char b \<longleftrightarrow> (case b of None \<Rightarrow> False | Some c \<Rightarrow> is_ascii_alphanumeric c \<or> c = CHR ''-'')"

partial_function (option) attribute_search ::
  "string \<Rightarrow> string \<Rightarrow> nat \<Rightarrow> (nat \<times> nat) option option" where
  "attribute_search tag attribute search =
    (case find_sub (drop search (to_ascii_lowercase tag)) attribute of
       None \<Rightarrow> Some None
     | Some offset \<Rightarrow>
       let start = search + offset; next = start + length attribute in
       if name_char (byte_before (to_ascii_lowercase tag) start)
          \<or> name_char (byte_at (to_ascii_lowercase tag) next)
       then attribute_search tag attribute next
       else
         let cursor = skip_ascii_whitespace tag next in
         if \<not> starts_with (drop cursor tag) ''='' then attribute_search tag attribute next
         else
           let cursor = skip_ascii_whitespace tag (cursor + 1) in
           case byte_at tag cursor of None \<Rightarrow> Some None
           | Some quote \<Rightarrow>
             if \<not> is_quote quote then attribute_search tag attribute next
             else case find_char (\<lambda>c. c = quote) (drop (cursor + 1) tag) of
                 None \<Rightarrow> Some None
               | Some offset \<Rightarrow> Some (Some (cursor + 1, cursor + 1 + offset)))"

definition attribute_value_range :: "string \<Rightarrow> string \<Rightarrow> (nat \<times> nat) option option" where
  "attribute_value_range tag attribute = attribute_search tag attribute 0"

section \<open>Meta tags\<close>

definition redact_meta_tag :: "string \<Rightarrow> string option" where
  "redact_meta_tag tag = do {
     named \<leftarrow> attribute_value_range tag ''name'';
     range \<leftarrow> (case named of Some r \<Rightarrow> Some (Some r)
                | None \<Rightarrow> attribute_value_range tag ''property'');
     if (case range of None \<Rightarrow> False | Some (a, b) \<Rightarrow> is_sensitive_json_key (slice tag a b))
     then do {
       content \<leftarrow> attribute_value_range tag ''content'';
       Some (case content of
           Some (a, b) \<Rightarrow> take a tag @ ''REDACTED'' @ drop b tag
         | None \<Rightarrow> tag)
     }
     else Some tag
   }"

partial_function (option) redact_meta_loop :: "string \<Rightarrow> nat \<Rightarrow> string option" where
  "redact_meta_loop input cursor =
    (case find_sub (drop cursor (to_ascii_lowercase input)) ''<meta'' of
       None \<Rightarrow> Some (drop cursor input)
     | Some offset \<Rightarrow>
       let start = cursor + offset in
       case find_char (\<lambda>c. c = CHR ''>'') (drop start input) of
         None \<Rightarrow> Some (drop cursor input)
       | Some relative_end \<Rightarrow>
         let last = start + relative_end + 1 in do {
           tag \<leftarrow> redact_meta_tag (slice input start last);
           rest \<leftarrow> redact_meta_loop input last;
           Some (slice input cursor start @ tag @ rest)
         })"

definition redact_sensitive_meta_tags :: "string \<Rightarrow> string option" where
  "redact_sensitive_meta_tags input = redact_meta_loop input 0"

section \<open>URLs in a text\<close>

definition PERSISTED_QUERY_KEYS :: "string list" where
  "PERSISTED_QUERY_KEYS = [''aid'', ''bvid'', ''cid'', ''id'', ''lang'', ''locale'', ''p'', ''page'']"

definition ends_url :: "char \<Rightarrow> bool" where
  "ends_url c \<longleftrightarrow> c \<in> {CHR '' '', CHR 0x09, CHR 0x0D, CHR 0x0A, CHR 0x22, CHR 0x27, CHR ''<'',
     CHR ''>'', CHR ''('', CHR '')'', CHR 0x60}"

definition trim_end_chars :: "char set \<Rightarrow> string \<Rightarrow> string" where
  "trim_end_chars cs s = rev (dropWhile (\<lambda>c. c \<in> cs) (rev s))"

definition persisted_url :: "'u url_library \<Rightarrow> 'u \<Rightarrow> 'u" where
  "persisted_url lib url =
     (let retained = filter (\<lambda>(key, _).
            list_ex (\<lambda>allowed. eq_ignore_ascii_case key allowed) PERSISTED_QUERY_KEYS)
          (ul_query_pairs lib url)
      in fold (\<lambda>p u. ul_append_pair lib u p) retained
           (ul_clear_fragment lib (ul_clear_query lib url)))"

definition redact_url_candidate :: "'u url_library \<Rightarrow> string \<Rightarrow> string" where
  "redact_url_candidate lib candidate =
     (let trimmed_end = trim_end_chars {CHR '','', CHR '';'', CHR ''}'', CHR '']''} candidate;
          suff = drop (length trimmed_end) candidate
      in case ul_parse lib trimmed_end of
           None \<Rightarrow> candidate
         | Some url \<Rightarrow> ul_as_str lib (persisted_url lib url) @ suff)"

definition next_url :: "string \<Rightarrow> nat \<Rightarrow> nat option" where
  "next_url input cursor =
     (case (find_sub (drop cursor (to_ascii_lowercase input)) ''https://'',
            find_sub (drop cursor (to_ascii_lowercase input)) ''http://'') of
        (None, None) \<Rightarrow> None
      | (Some a, None) \<Rightarrow> Some (cursor + a)
      | (None, Some b) \<Rightarrow> Some (cursor + b)
      | (Some a, Some b) \<Rightarrow> Some (min (cursor + a) (cursor + b)))"

partial_function (option) redact_url_loop :: "'u url_library \<Rightarrow> string \<Rightarrow> nat \<Rightarrow> string option" where
  "redact_url_loop lib input cursor =
    (if cursor < length input then
       case next_url input cursor of
         None \<Rightarrow> Some (drop cursor input)
       | Some start \<Rightarrow>
         let last = (case find_char ends_url (drop (start + 1) input) of
               None \<Rightarrow> length input | Some offset \<Rightarrow> start + 1 + offset) in do {
           rest \<leftarrow> redact_url_loop lib input last;
           Some (slice input cursor start @ redact_url_candidate lib (slice input start last) @ rest)
         }
     else Some [])"

definition redact_unknown_url_queries :: "'u url_library \<Rightarrow> string \<Rightarrow> string option" where
  "redact_unknown_url_queries lib input = redact_url_loop lib input 0"

section \<open>Keys and their values in a text\<close>

definition sensitive_hit :: "string \<Rightarrow> nat \<Rightarrow> (nat \<times> string) option" where
  "sensitive_hit input cursor =
     min_by_key fst (List.map_filter (\<lambda>key.
         map_option (\<lambda>offset. (cursor + offset, key))
           (find_sub (drop cursor (to_ascii_lowercase input)) (to_ascii_lowercase key)))
       SENSITIVE_KEYS)"

definition is_quote_at :: "string \<Rightarrow> nat \<Rightarrow> bool" where
  "is_quote_at input cursor \<longleftrightarrow>
     (case byte_at input cursor of None \<Rightarrow> False | Some c \<Rightarrow> is_quote c)"

definition sensitive_value_start :: "string \<Rightarrow> nat \<Rightarrow> (nat \<times> bool) option" where
  "sensitive_value_start input after_key =
    (let cursor = skip_ascii_whitespace input after_key in
     if is_quote_at input cursor then
       let cursor = skip_ascii_whitespace input (cursor + 1) in
       if \<not> starts_with (drop cursor input) '':'' then None
       else let cursor = skip_ascii_whitespace input (cursor + 1)
            in Some (cursor, is_quote_at input cursor)
     else if byte_at input cursor \<in> {Some (CHR '':''), Some (CHR ''='')} then
       let cursor = skip_ascii_whitespace input (cursor + 1)
       in Some (cursor, is_quote_at input cursor)
     else None)"

definition ends_value :: "char \<Rightarrow> bool" where
  "ends_value c \<longleftrightarrow> c \<in> {CHR ''&'', CHR 0x22, CHR 0x27, CHR ''<'', CHR ''>'', CHR '' '', CHR 0x0D,
     CHR 0x0A, CHR '','', CHR ''}''}"

text \<open>The word around a hit, as \<open>token_start\<close> and \<open>token_end\<close>.\<close>

definition token_bounds :: "string \<Rightarrow> nat \<Rightarrow> nat \<Rightarrow> nat \<Rightarrow> nat \<times> nat" where
  "token_bounds input cursor index after_key =
     (index - length (takeWhile is_ascii_alphanumeric (rev (slice input cursor index))),
      after_key + length (takeWhile is_ascii_alphanumeric (drop after_key input)))"

definition word_char :: "char option \<Rightarrow> bool" where
  "word_char b \<longleftrightarrow> (case b of None \<Rightarrow> False | Some c \<Rightarrow> is_ascii_alphanumeric c \<or> c = CHR ''_'')"

text \<open>
  One turn of the loop of \<open>redact_sensitive_text\<close>: what it writes, and where the cursor goes.
\<close>

definition redact_value :: "string \<Rightarrow> nat \<Rightarrow> nat \<Rightarrow> string \<times> nat" where
  "redact_value input cursor after_key =
    (case sensitive_value_start input after_key of
       None \<Rightarrow> (slice input cursor after_key, after_key)
     | Some (value_start, quoted) \<Rightarrow>
       let content_start = (if quoted then value_start + 1 else value_start);
           stop = (case find_char (if quoted then is_quote else ends_value) (drop content_start input)
                   of None \<Rightarrow> length input | Some offset \<Rightarrow> content_start + offset)
       in (slice input cursor content_start @ ''REDACTED'', stop))"

definition redact_step :: "string \<Rightarrow> nat \<Rightarrow> (string \<times> nat) option" where
  "redact_step input cursor =
    (case sensitive_hit input cursor of
       None \<Rightarrow> None
     | Some (index, key) \<Rightarrow>
       let after_key = index + length key in
       if word_char (byte_before (to_ascii_lowercase input) index) then
         let (token_start, token_end) = token_bounds input cursor index after_key in
         if is_sensitive_json_key (slice input token_start token_end)
         then Some (redact_value input cursor token_end)
         else Some (slice input cursor after_key, after_key)
       else Some (redact_value input cursor after_key))"

partial_function (option) redact_text_loop :: "string \<Rightarrow> nat \<Rightarrow> string option" where
  "redact_text_loop input cursor =
    (if cursor < length input then
       case redact_step input cursor of
         None \<Rightarrow> Some (drop cursor input)
       | Some (written, cursor) \<Rightarrow> do {
           rest \<leftarrow> redact_text_loop input cursor;
           Some (written @ rest)
         }
     else Some [])"

definition redact_sensitive_text :: "'u url_library \<Rightarrow> string \<Rightarrow> string option" where
  "redact_sensitive_text lib input = do {
     meta_redacted \<leftarrow> redact_sensitive_meta_tags input;
     output \<leftarrow> redact_text_loop meta_redacted 0;
     redact_unknown_url_queries lib output
   }"

section \<open>JSON documents\<close>

datatype 'n json_value =
    Null | Bool bool | Number 'n | String string | Array "'n json_value list"
  | Object "(string \<times> 'n json_value) list"

fun redact_json_value :: "(string \<Rightarrow> string option) \<Rightarrow> 'n json_value \<Rightarrow> 'n json_value option"
  and redact_json_items :: "(string \<Rightarrow> string option) \<Rightarrow> 'n json_value list \<Rightarrow> 'n json_value list option"
  and redact_json_members :: "(string \<Rightarrow> string option) \<Rightarrow> (string \<times> 'n json_value) list
        \<Rightarrow> (string \<times> 'n json_value) list option" where
  "redact_json_value text (Object values) = map_option Object (redact_json_members text values)"
| "redact_json_value text (Array values) = map_option Array (redact_json_items text values)"
| "redact_json_value text (String value) = map_option String (text value)"
| "redact_json_value text Null = Some Null"
| "redact_json_value text (Bool b) = Some (Bool b)"
| "redact_json_value text (Number n) = Some (Number n)"
| "redact_json_items text [] = Some []"
| "redact_json_items text (v # vs) = do {
     v' \<leftarrow> redact_json_value text v;
     vs' \<leftarrow> redact_json_items text vs;
     Some (v' # vs')
   }"
| "redact_json_members text [] = Some []"
| "redact_json_members text ((key, v) # vs) = do {
     v' \<leftarrow> (if is_sensitive_json_key key then Some (String ''REDACTED'')
            else redact_json_value text v);
     vs' \<leftarrow> redact_json_members text vs;
     Some ((key, v') # vs')
   }"

text \<open>The outer option is that the redaction ends; the inner one is the function's own result.\<close>

definition redact_json_snapshot ::
  "'u url_library \<Rightarrow> (string \<Rightarrow> 'n json_value option) \<Rightarrow> ('n json_value \<Rightarrow> string option) \<Rightarrow> string
     \<Rightarrow> string option option" where
  "redact_json_snapshot lib from_str to_vec input =
    (case from_str input of None \<Rightarrow> Some None
     | Some v \<Rightarrow> map_option to_vec (redact_json_value (redact_sensitive_text lib) v))"

text \<open>What a stored document and an assigned value look like.\<close>

fun credential_free :: "'n json_value \<Rightarrow> bool" where
  "credential_free (Object ms) \<longleftrightarrow>
     (\<forall>m\<in>set ms. (is_sensitive_json_key (fst m) \<longrightarrow> snd m = String ''REDACTED'') \<and> credential_free (snd m))"
| "credential_free (Array vs) \<longleftrightarrow> (\<forall>v\<in>set vs. credential_free v)"
| "credential_free _ \<longleftrightarrow> True"

definition value_char :: "char \<Rightarrow> bool" where
  "value_char c \<longleftrightarrow> \<not> ends_value c \<and> \<not> is_ascii_whitespace c"

section \<open>Scans end\<close>

lemma find_sub_Some:
  "find_sub s p = Some i \<Longrightarrow> i + length p \<le> length s"
proof (induction s arbitrary: i)
  case (Cons c s)
  show ?case
  proof (cases "starts_with (c # s) p")
    case True
    then obtain r where "c # s = p @ r" unfolding starts_with_iff by blast
    hence "length p \<le> length (c # s)" by simp
    with True Cons.prems show ?thesis by auto
  qed (use Cons in auto)
qed (simp split: if_splits)

lemma find_sub_zero [simp]: "find_sub s p = Some 0 \<longleftrightarrow> starts_with s p"
  by (cases s) (auto simp: starts_with_def)

lemma starts_with_set: "starts_with s p \<Longrightarrow> set p \<subseteq> set s"
  by (auto simp: starts_with_iff)

lemma find_sub_absent: "c \<in> set p \<Longrightarrow> c \<notin> set s \<Longrightarrow> find_sub s p = None"
  by (induction s) (use starts_with_set in fastforce)+

lemma find_char_Some: "find_char P s = Some i \<Longrightarrow> i < length s"
  by (induction s arbitrary: i) (auto split: if_splits)

lemma find_char_None: "find_char P s = None \<longleftrightarrow> (\<forall>c\<in>set s. \<not> P c)"
  by (induction s) auto

lemma skip_ge [simp]: "k \<le> j \<Longrightarrow> k \<le> skip_ascii_whitespace s j"
  by (simp add: skip_ascii_whitespace_def)

lemma find_sub_lower_advance:
  assumes "find_sub (drop k (to_ascii_lowercase s)) p = Some i" "p \<noteq> []"
  shows "k < k + i + length p" "k + i + length p \<le> length s"
proof -
  have "i + length p \<le> length s - k" "0 < length p"
    using find_sub_Some [OF assms(1)] assms(2) by simp_all
  thus "k < k + i + length p" "k + i + length p \<le> length s" by linarith+
qed

lemma attribute_search_total:
  assumes "attribute \<noteq> []"
  shows "\<exists>r. attribute_search tag attribute k = Some r"
proof (induction "length tag - k" arbitrary: k rule: less_induct)
  case less
  show ?case
  proof (cases "find_sub (drop k (to_ascii_lowercase tag)) attribute")
    case (Some i)
    have "\<exists>r. attribute_search tag attribute (k + i + length attribute) = Some r"
      using find_sub_lower_advance [OF Some assms] by (intro less) linarith
    with Some show ?thesis
      by (subst attribute_search.simps) (auto simp: Let_def split: option.split)
  qed (subst attribute_search.simps, simp)
qed

lemma redact_meta_tag_total: "\<exists>r. redact_meta_tag tag = Some r"
proof -
  have total: "\<exists>r. attribute_value_range tag a = Some r" if "a \<noteq> []" for a
    using attribute_search_total [OF that] by (simp add: attribute_value_range_def)
  obtain n p c where "attribute_value_range tag ''name'' = Some n"
    "attribute_value_range tag ''property'' = Some p"
    "attribute_value_range tag ''content'' = Some c"
    using total [of "''name''"] total [of "''property''"] total [of "''content''"] by auto
  thus ?thesis by (cases n) (simp_all add: redact_meta_tag_def)
qed

lemma redact_meta_loop_total: "\<exists>r. redact_meta_loop input k = Some r"
proof (induction "length input - k" arbitrary: k rule: less_induct)
  case less
  show ?case
  proof (cases "find_sub (drop k (to_ascii_lowercase input)) ''<meta''")
    case (Some i)
    note adv = find_sub_lower_advance [OF Some]
    show ?thesis
    proof (cases "find_char (\<lambda>c. c = CHR ''>'') (drop (k + i) input)")
      case (Some e)
      have "\<exists>r. redact_meta_loop input (k + i + e + 1) = Some r"
        using find_char_Some [OF Some] adv by (intro less) simp
      moreover obtain t where "redact_meta_tag (slice input (k + i) (k + i + e + 1)) = Some t"
        using redact_meta_tag_total by blast
      ultimately show ?thesis
        using Some \<open>find_sub _ _ = _\<close> by (subst redact_meta_loop.simps) (auto simp: Let_def)
    next
      case None
      thus ?thesis using Some by (subst redact_meta_loop.simps) (simp only: Let_def option.simps, simp)
    qed
  qed (subst redact_meta_loop.simps, simp)
qed

lemma next_url_Some: "next_url input k = Some i \<Longrightarrow> k \<le> i \<and> i < length input"
  using find_sub_lower_advance [of k input "''https://''"] find_sub_lower_advance [of k input "''http://''"]
  by (fastforce simp: next_url_def split: option.splits)

lemma redact_url_loop_total: "\<exists>r. redact_url_loop lib input k = Some r"
proof (induction "length input - k" arbitrary: k rule: less_induct)
  case less
  show ?case
  proof (cases "next_url input k")
    case None
    thus ?thesis by (subst redact_url_loop.simps) simp
  next
    case (Some i)
    note adv = next_url_Some [OF Some]
    let ?l = "case find_char ends_url (drop (i + 1) input) of None \<Rightarrow> length input | Some j \<Rightarrow> i + 1 + j"
    have "k < ?l" using adv by (auto split: option.split)
    hence "\<exists>r. redact_url_loop lib input ?l = Some r" using adv by (intro less) linarith
    with Some show ?thesis by (subst redact_url_loop.simps) (auto simp: Let_def)
  qed
qed

text \<open>Every turn of the main loop moves the cursor forward.\<close>

lemma sensitive_hit_bound:
  assumes "sensitive_hit input k = Some (i, key)"
  shows "k \<le> i" "key \<in> set SENSITIVE_KEYS"
proof -
  have "(i, key) \<in> set (List.map_filter (\<lambda>key. map_option (\<lambda>offset. (k + offset, key))
      (find_sub (drop k (to_ascii_lowercase input)) (to_ascii_lowercase key))) SENSITIVE_KEYS)"
    using min_by_key_first [OF assms [unfolded sensitive_hit_def]] by auto
  thus "k \<le> i" "key \<in> set SENSITIVE_KEYS" by (auto simp: List.map_filter_def)
qed

lemma sensitive_keys_nonempty: "\<forall>key\<in>set SENSITIVE_KEYS. key \<noteq> []"
  by (simp add: SENSITIVE_KEYS_def)

lemma sensitive_value_start_ge: "sensitive_value_start input k = Some (v, q) \<Longrightarrow> k \<le> v"
  by (auto simp: sensitive_value_start_def Let_def le_SucI split: if_splits)

lemma redact_value_ge: "redact_value input k a = (w, c) \<Longrightarrow> a \<le> c \<or> c = length input"
  using sensitive_value_start_ge [of input a]
  by (fastforce simp: redact_value_def Let_def split: option.splits if_splits)

lemma redact_step_advances:
  assumes "redact_step input k = Some (w, c)"
  shows "k < c \<or> c = length input"
proof -
  obtain i key where hit: "sensitive_hit input k = Some (i, key)"
    using assms by (auto simp: redact_step_def split: option.splits)
  have key: "k < i + length key" 
  proof -
    have "0 < length key" using sensitive_hit_bound(2) [OF hit] sensitive_keys_nonempty by blast
    thus ?thesis using sensitive_hit_bound(1) [OF hit] by linarith
  qed
  have token: "i + length key \<le> snd (token_bounds input k i (i + length key))" by (simp add: token_bounds_def)
  show ?thesis
    using assms hit key token
    by (auto simp: redact_step_def Let_def dest!: redact_value_ge split: if_splits prod.splits)
qed

lemma redact_text_loop_total: "\<exists>r. redact_text_loop input k = Some r"
proof (induction "length input - k" arbitrary: k rule: less_induct)
  case less
  show ?case
  proof (cases "k < length input \<and> redact_step input k \<noteq> None")
    case True
    then obtain w c where step: "redact_step input k = Some (w, c)" by auto
    have "\<exists>r. redact_text_loop input c = Some r"
      using redact_step_advances [OF step] True by (intro less) auto
    with step show ?thesis by (subst redact_text_loop.simps) auto
  next
    case False
    thus ?thesis by (subst redact_text_loop.simps) (cases "redact_step input k", auto)
  qed
qed


lemma redact_sensitive_text_total: "\<exists>out. redact_sensitive_text lib input = Some out"
proof -
  obtain m where m: "redact_sensitive_meta_tags input = Some m"
    using redact_meta_loop_total unfolding redact_sensitive_meta_tags_def by blast
  obtain t where "redact_text_loop m 0 = Some t" using redact_text_loop_total by blast
  with m redact_url_loop_total [of lib t 0] show ?thesis
    by (simp add: redact_sensitive_text_def redact_unknown_url_queries_def)
qed

section \<open>One key and its value\<close>

lemma min_by_key_zero:
  "find (\<lambda>x. f x = Some (0 :: nat)) xs = Some y \<Longrightarrow>
     min_by_key fst (List.map_filter (\<lambda>x. map_option (\<lambda>i. (i, x)) (f x)) xs) = Some (0, y)"
proof (induction xs)
  case (Cons x xs)
  show ?case
  proof (cases "f x = Some 0")
    case True
    with Cons.prems show ?thesis by (simp add: List.map_filter_def split: option.split)
  next
    case False
    with Cons have "min_by_key fst (List.map_filter (\<lambda>x. map_option (\<lambda>i. (i, x)) (f x)) xs) = Some (0, y)"
      by simp
    with False show ?thesis by (cases "f x") (simp_all add: List.map_filter_def)
  qed
qed simp

lemma sensitive_hit_start:
  assumes "find (\<lambda>key. starts_with (to_ascii_lowercase input) (to_ascii_lowercase key)) SENSITIVE_KEYS = Some key"
  shows "sensitive_hit input 0 = Some (0, key)"
  using assms min_by_key_zero [of "\<lambda>key. find_sub (to_ascii_lowercase input) (to_ascii_lowercase key)" SENSITIVE_KEYS key]
  by (simp add: sensitive_hit_def)

text \<open>A key in front of an equals sign is the first of the list that is a prefix of it.\<close>

lemma starts_with_key:
  "c \<notin> set p \<Longrightarrow> starts_with (k @ c # v) p \<longleftrightarrow> prefix p k"
proof
  assume c: "c \<notin> set p" and "starts_with (k @ c # v) p"
  then obtain r where "k @ c # v = p @ r" unfolding starts_with_iff by blast
  then obtain us where "k = p @ us \<and> us @ c # v = r \<or> k @ us = p \<and> c # v = us @ r"
    unfolding append_eq_append_conv2 by blast
  thus "prefix p k" using c by (cases us) auto
qed (auto simp: starts_with_iff prefix_def)

lemma lower_keys:
  "map to_ascii_lowercase SENSITIVE_KEYS =
    [''access_token'', ''authorization'', ''cookie'', ''expires'', ''expire'', ''mstoken'',
     ''mstoken'', ''secret'', ''sessionid'', ''sid_guard'', ''web_session'', ''sessdata'',
     ''auth_key'', ''hdnts'', ''sign'', ''signature'', ''token'', ''xsec_token'', ''xsec-token'',
     ''data-token'', ''data-xsec-token'', ''x-bogus'', ''a_bogus'', ''verifyfp'', ''verify_fp'',
     ''ttwid'', ''odin_tt'', ''passport_csrf_token'', ''credential'', ''key-pair-id'', ''policy'',
     ''x-amz-credential'', ''x-amz-security-token'', ''x-amz-signature'']"
  by code_simp

lemma key_table:
  "list_all (\<lambda>k. k = ''signature'' \<or>
      (case find (\<lambda>p. prefix p k) (map to_ascii_lowercase SENSITIVE_KEYS) of
         None \<Rightarrow> False | Some p \<Rightarrow> length p = length k)) (map to_ascii_lowercase SENSITIVE_KEYS)"
  "list_all (\<lambda>k. CHR ''='' \<notin> set k) (map to_ascii_lowercase SENSITIVE_KEYS)"
  "list_all (\<lambda>k. CHR ''<'' \<notin> set k \<and> CHR ''/'' \<notin> set k) SENSITIVE_KEYS"
  "list_all (\<lambda>k. length k \<noteq> 9 \<or> k = ''sessionid'' \<or> k = ''sid_guard'' \<or> k = ''signature'' \<or> k = ''verify_fp'')
     SENSITIVE_KEYS"
  by (simp_all add: lower_keys) (simp_all add: SENSITIVE_KEYS_def)

lemma lower_not_signature:
  assumes "k \<in> set SENSITIVE_KEYS" "k \<noteq> ''signature''"
  shows "to_ascii_lowercase k \<noteq> ''signature''"
proof
  assume low: "to_ascii_lowercase k = ''signature''"
  hence "length k = 9" using length_to_ascii_lowercase [of k] by simp
  hence "k \<in> {''sessionid'', ''sid_guard'', ''verify_fp''}"
    using assms key_table(4) unfolding list_all_iff by fastforce
  with low show False by (auto simp: to_ascii_lowercase_def to_ascii_lowercase_char_def)
qed

lemma find_map_lower: "find P (map f xs) = map_option f (find (P \<circ> f) xs)"
  by (induction xs) auto

lemma first_key:
  assumes k: "k \<in> set SENSITIVE_KEYS" "to_ascii_lowercase k \<noteq> ''signature''"
  obtains key where "sensitive_hit (k @ CHR ''='' # v) 0 = Some (0, key)" "length key = length k"
proof -
  let ?low = to_ascii_lowercase
  obtain key where key: "find (\<lambda>p. prefix (?low p) (?low k)) SENSITIVE_KEYS = Some key"
      "length key = length k"
    using key_table(1) k unfolding list_all_iff
    by (fastforce simp: find_map_lower comp_def split: option.splits)
  have "starts_with (?low (k @ CHR ''='' # v)) (?low p) \<longleftrightarrow> prefix (?low p) (?low k)"
    if "p \<in> set SENSITIVE_KEYS" for p
    using that key_table(2) starts_with_key [of "CHR ''=''" "?low p" "?low k"]
    by (auto simp: list_all_iff to_ascii_lowercase_def to_ascii_lowercase_char_def)
  hence "find (\<lambda>p. starts_with (?low (k @ CHR ''='' # v)) (?low p)) SENSITIVE_KEYS
      = find (\<lambda>p. prefix (?low p) (?low k)) SENSITIVE_KEYS"
    by (intro find_cong) auto
  with key have "find (\<lambda>p. starts_with (?low (k @ CHR ''='' # v)) (?low p)) SENSITIVE_KEYS = Some key"
    by simp
  with key(2) show thesis by (intro that sensitive_hit_start)
qed

lemma redact_value_assignment:
  assumes "\<forall>c\<in>set v. value_char c"
  shows "redact_value (k @ CHR ''='' # v) 0 (length k) = (k @ ''=REDACTED'', length k + 1 + length v)"
proof -
  have skip: "takeWhile is_ascii_whitespace v = []"
    using assms by (cases v) (auto simp: value_char_def)
  have quote: "\<not> is_quote_at (k @ CHR ''='' # v) (length k + 1)"
    using assms by (cases v) (auto simp: is_quote_at_def byte_at_def nth_append value_char_def ends_value_def is_quote_def)
  have "sensitive_value_start (k @ CHR ''='' # v) (length k) = Some (length k + 1, False)"
    using skip quote
    by (simp add: sensitive_value_start_def skip_ascii_whitespace_def is_ascii_whitespace_def
        is_quote_at_def byte_at_def is_quote_def Let_def nth_append)
  moreover have "find_char ends_value v = None"
    using assms by (auto simp: find_char_None value_char_def)
  ultimately show ?thesis by (simp add: redact_value_def slice_def)
qed

lemma lowercase_member:
  "\<not> is_ascii_alphabetic c \<Longrightarrow> c \<in> set (to_ascii_lowercase s) \<longleftrightarrow> c \<in> set s"
proof -
  assume c: "\<not> is_ascii_alphabetic c"
  have "c = to_ascii_lowercase_char d \<longleftrightarrow> d = c" for d
  proof (cases "65 \<le> (of_char d :: nat) \<and> (of_char d :: nat) \<le> 90")
    case True
    hence "is_ascii_alphabetic d" "is_ascii_alphabetic (to_ascii_lowercase_char d)"
      by (simp_all add: is_ascii_alphabetic_def to_ascii_lowercase_char_def Let_def)
    with c show ?thesis by auto
  qed (auto simp: to_ascii_lowercase_char_def Let_def)
  thus "c \<in> set (to_ascii_lowercase s) \<longleftrightarrow> c \<in> set s"
    by (simp add: to_ascii_lowercase_def image_iff)
qed

lemma redact_assignment:
  assumes k: "k \<in> set SENSITIVE_KEYS" "k \<noteq> ''signature''" and v: "\<forall>c\<in>set v. value_char c"
  shows "redact_sensitive_text lib (k @ ''='' @ v) = Some (k @ ''=REDACTED'')"
proof -
  let ?s = "k @ CHR ''='' # v"
  have chars: "CHR ''<'' \<notin> set k" "CHR ''/'' \<notin> set k" using k key_table(3) by (auto simp: list_all_iff)
  have "CHR ''<'' \<notin> set ?s" using chars v by (auto simp: value_char_def ends_value_def)
  hence "CHR ''<'' \<notin> set (to_ascii_lowercase ?s)"
    using lowercase_member [of "CHR ''<''" ?s] by (simp add: is_ascii_alphabetic_def)
  hence meta: "redact_sensitive_meta_tags ?s = Some ?s"
    by (simp add: redact_sensitive_meta_tags_def redact_meta_loop.simps find_sub_absent [of "CHR ''<''"])
  obtain key where key: "sensitive_hit ?s 0 = Some (0, key)" "length key = length k"
    using first_key [OF k(1) lower_not_signature [OF k]] by blast
  have "redact_step ?s 0 = Some (k @ ''=REDACTED'', length ?s)"
    by (simp add: redact_step_def key byte_before_def word_char_def redact_value_assignment [OF v])
  hence loop: "redact_text_loop ?s 0 = Some (k @ ''=REDACTED'')"
    by (simp add: redact_text_loop.simps [of ?s 0] redact_text_loop.simps [of ?s "Suc (length k + length v)"])
  have "CHR ''/'' \<notin> set (to_ascii_lowercase (k @ ''=REDACTED''))"
    using lowercase_member [of "CHR ''/''" "k @ ''=REDACTED''"] chars by (simp add: is_ascii_alphabetic_def)
  hence "redact_unknown_url_queries lib (k @ ''=REDACTED'') = Some (k @ ''=REDACTED'')"
    by (simp add: redact_unknown_url_queries_def redact_url_loop.simps [of _ _ 0] next_url_def
        find_sub_absent [of "CHR ''/''"])
  with meta loop show ?thesis by (simp add: redact_sensitive_text_def)
qed

text \<open>Where \<open>signature\<close> escapes: \<open>sign\<close> is found first, and no key begins inside the rest.\<close>

lemma find_sub_None: "find_sub s p = None \<longleftrightarrow> \<not> sublist p s"
  by (induction s) (auto simp: sublist_Cons_right starts_with_iff prefix_def)

lemma find_sub_split:
  "p \<noteq> [] \<Longrightarrow> c \<notin> set p \<Longrightarrow> find_sub u p = None \<Longrightarrow> find_sub w p = None \<Longrightarrow>
   find_sub (u @ c # w) p = None"
proof (induction u)
  case Nil
  then show ?case using starts_with_key [of c p "[]" w] by simp
next
  case (Cons a u)
  then show ?case
    using starts_with_key [of c p "a # u" w]
    by (auto simp: starts_with_iff prefix_def split: if_splits)
qed

lemma no_key_in_ature:
  "list_all (\<lambda>p. find_sub ''ature'' (to_ascii_lowercase p) = None) SENSITIVE_KEYS"
  "find (\<lambda>p. prefix (to_ascii_lowercase p) ''signature'') SENSITIVE_KEYS = Some ''sign''"
  by code_simp+

lemma lower_signature: "to_ascii_lowercase (''signature='' @ v) = ''signature='' @ to_ascii_lowercase v"
  by (simp add: to_ascii_lowercase_def to_ascii_lowercase_char_def)

lemma signature_hits:
  assumes "\<forall>k\<in>set SENSITIVE_KEYS. \<not> sublist (to_ascii_lowercase k) (to_ascii_lowercase v)"
  shows "sensitive_hit (''signature='' @ v) 0 = Some (0, ''sign'')"
    and "sensitive_hit (''signature='' @ v) 4 = None"
proof -
  let ?low = to_ascii_lowercase
  have eq: "CHR ''='' \<notin> set (?low p) \<and> ?low p \<noteq> []" if "p \<in> set SENSITIVE_KEYS" for p
    using that key_table(2) sensitive_keys_nonempty
    by (auto simp: list_all_iff to_ascii_lowercase_def)
  have "starts_with (?low (''signature='' @ v)) (?low p) \<longleftrightarrow> prefix (?low p) ''signature''"
    if "p \<in> set SENSITIVE_KEYS" for p
    unfolding lower_signature
    using eq [OF that] starts_with_key [of "CHR ''=''" "?low p" "''signature''" "?low v"] by simp
  then have "find (\<lambda>p. starts_with (?low (''signature='' @ v)) (?low p)) SENSITIVE_KEYS
      = find (\<lambda>p. prefix (?low p) ''signature'') SENSITIVE_KEYS"
    by (intro find_cong) blast+
  then show "sensitive_hit (''signature='' @ v) 0 = Some (0, ''sign'')"
    by (intro sensitive_hit_start) (simp only: no_key_in_ature(2))
  have tail: "drop 4 (?low (''signature='' @ v)) = ''ature'' @ CHR ''='' # ?low v"
    unfolding lower_signature by simp
  have "find_sub (drop 4 (?low (''signature='' @ v))) (?low p) = None" if "p \<in> set SENSITIVE_KEYS" for p
    unfolding tail
  proof (rule find_sub_split)
    show "find_sub ''ature'' (?low p) = None"
      using no_key_in_ature(1) that unfolding list_all_iff by blast
  qed (use eq [OF that] assms that find_sub_None in blast)+
  then have "List.map_filter (\<lambda>key. map_option (\<lambda>offset. (4 + offset, key))
      (find_sub (drop 4 (?low (''signature='' @ v))) (?low key))) SENSITIVE_KEYS = []"
    by (simp add: List.map_filter_def filter_empty_conv)
  then show "sensitive_hit (''signature='' @ v) 4 = None" by (simp add: sensitive_hit_def)
qed

lemma signature_steps:
  assumes "\<forall>k\<in>set SENSITIVE_KEYS. \<not> sublist (to_ascii_lowercase k) (to_ascii_lowercase v)"
  shows "redact_text_loop (''signature='' @ v) 0 = Some (''signature='' @ v)"
proof -
  let ?s = "''signature='' @ v"
  have "sensitive_value_start ?s 4 = None"
    by (simp add: sensitive_value_start_def skip_ascii_whitespace_def is_ascii_whitespace_def
        is_quote_at_def byte_at_def is_quote_def Let_def)
  then have "redact_value ?s 0 4 = (''sign'', 4)" by (simp add: redact_value_def slice_def)
  moreover have "redact_step ?s 0 = Some (redact_value ?s 0 (0 + length ''sign''))"
    by (simp only: redact_step_def signature_hits(1) [OF assms] option.case prod.case Let_def)
      (simp add: byte_before_def word_char_def)
  moreover have "0 + length ''sign'' = 4" by simp
  ultimately have "redact_step ?s 0 = Some (''sign'', 4)" by (simp only:)
  moreover have "redact_step ?s 4 = None"
    using signature_hits(2) [OF assms] by (simp add: redact_step_def)
  then have "redact_text_loop ?s 4 = Some (drop 4 ?s)"
    by (subst redact_text_loop.simps) (simp split: option.split)
  ultimately show ?thesis
    by (subst redact_text_loop.simps) simp
qed

section \<open>Documents\<close>

lemma redact_json_clean:
  fixes v :: "'n json_value" and vs :: "'n json_value list" and ms :: "(string \<times> 'n json_value) list"
  assumes "\<And>s. \<exists>r. f s = Some r"
  shows "\<exists>w. redact_json_value f v = Some w \<and> credential_free w"
    "\<exists>ws. redact_json_items f vs = Some ws \<and> (\<forall>w\<in>set ws. credential_free w)"
    "\<exists>ns. redact_json_members f ms = Some ns \<and> map fst ns = map fst ms
       \<and> (\<forall>m\<in>set ns. (is_sensitive_json_key (fst m) \<longrightarrow> snd m = String ''REDACTED'')
             \<and> credential_free (snd m))"
  using assms
proof (induction f v and f vs and f ms
    rule: redact_json_value_redact_json_items_redact_json_members.induct)
  case (3 f s)
  then show ?case by (metis credential_free.simps(6) option.simps(9) redact_json_value.simps(3))
next
  case (10 f key v vs)
  then show ?case by (cases "is_sensitive_json_key key") fastforce+
qed fastforce+

lemma persisted_url_query:
  assumes "query_laws lib" "\<And>u. ul_query_pairs lib (ul_clear_fragment lib u) = ul_query_pairs lib u"
  shows "ul_query_pairs lib (persisted_url lib url)
     = filter (\<lambda>(key, _). \<exists>a\<in>set PERSISTED_QUERY_KEYS. eq_ignore_ascii_case key a) (ul_query_pairs lib url)"
proof -
  have "ul_query_pairs lib (fold (\<lambda>p u. ul_append_pair lib u p) ps u) = ul_query_pairs lib u @ ps" for ps u
    using assms(1) by (induction ps arbitrary: u) (auto simp: query_laws_def)
  thus ?thesis using assms by (simp add: persisted_url_def query_laws_def list_ex_iff)
qed

section \<open>Properties\<close>

text \<open>
  C28: redaction always ends. Every turn of each scanner (the meta tags, the attributes of a tag,
  the keys of the text, the URLs) moves its cursor forward, so \<open>redact_sensitive_text\<close> returns a
  text for every input, whatever the URL library answers.
\<close>

theorem redaction_terminates: "\<exists>out. redact_sensitive_text lib input = Some out"
  by (rule redact_sensitive_text_total)

text \<open>
  C30: an assignment to a listed key discloses nothing of the assigned value: for every key of the
  list but \<open>signature\<close>, and every value free of delimiters and spaces, the redacted text is the
  same, the key with the marker in place of the value.
\<close>

theorem assignment_redacted:
  assumes "k \<in> set SENSITIVE_KEYS" "k \<noteq> ''signature''" "\<forall>c\<in>set v. value_char c"
  shows "redact_sensitive_text lib (k @ ''='' @ v) = Some (k @ ''=REDACTED'')"
  using assms by (rule redact_assignment)

theorem assignment_redacted_witness:
  "redact_sensitive_text sample_library (''web_session'' @ ''='' @ ''abc'') = Some ''web_session=REDACTED''"
  using assignment_redacted [of "''web_session''" "''abc''" sample_library]
  by (simp add: SENSITIVE_KEYS_def value_char_def ends_value_def is_ascii_whitespace_def)

text \<open>
  C31: The value of \<open>signature\<close> is stored: for every value in which no listed key occurs (in
  whatever case), without a tag and without a colon (so without a URL), the redacted text of
  the assignment is the assignment itself. The list names \<open>sign\<close> before \<open>signature\<close> and both
  match at the same place; the scan takes \<open>sign\<close>, finds neither a colon nor an equals sign after
  it and goes on behind it, where \<open>signature\<close> no longer matches.
\<close>

theorem signature_value_stored:
  assumes "\<forall>k\<in>set SENSITIVE_KEYS. \<not> sublist (to_ascii_lowercase k) (to_ascii_lowercase v)"
    and "CHR ''<'' \<notin> set v" and "CHR '':'' \<notin> set v"
  shows "redact_sensitive_text lib (''signature='' @ v) = Some (''signature='' @ v)"
proof -
  let ?s = "''signature='' @ v"
  have "CHR ''<'' \<notin> set (to_ascii_lowercase ?s)" "CHR '':'' \<notin> set (to_ascii_lowercase ?s)"
    using assms(2,3) lowercase_member [of "CHR ''<''" ?s] lowercase_member [of "CHR '':''" ?s]
    by (simp_all add: is_ascii_alphabetic_def)
  then have "redact_sensitive_meta_tags ?s = Some ?s" "redact_unknown_url_queries lib ?s = Some ?s"
    by (simp_all add: redact_sensitive_meta_tags_def redact_meta_loop.simps
        find_sub_absent [of "CHR ''<''"] redact_unknown_url_queries_def
        redact_url_loop.simps [of _ _ 0] next_url_def find_sub_absent [of "CHR '':''"])
  with signature_steps [OF assms(1)] show ?thesis by (simp add: redact_sensitive_text_def)
qed

theorem signature_value_stored_witness:
  "redact_sensitive_text sample_library ''signature=a1/b2==&page=3'' = Some ''signature=a1/b2==&page=3''"
proof -
  have "list_all (\<lambda>k. find_sub (to_ascii_lowercase ''a1/b2==&page=3'') (to_ascii_lowercase k) = None)
      SENSITIVE_KEYS" by code_simp
  then have "\<forall>k\<in>set SENSITIVE_KEYS.
      \<not> sublist (to_ascii_lowercase k) (to_ascii_lowercase ''a1/b2==&page=3'')"
    by (simp add: list_all_iff find_sub_None)
  from signature_value_stored [OF this] show ?thesis by simp
qed

text \<open>
  C29: a JSON snapshot is stored without credentials: whenever the document parses, redaction ends
  and what is printed is a document in which, at every depth, the value under a credential key is
  the marker \<open>REDACTED\<close>.
\<close>

theorem snapshot_credential_free:
  assumes "from_str input = Some v"
  shows "\<exists>w. redact_json_snapshot lib from_str to_vec input = Some (to_vec w) \<and> credential_free w"
  using redact_json_clean(1) [of "redact_sensitive_text lib" v] redact_sensitive_text_total assms
  by (fastforce simp: redact_json_snapshot_def)

theorem snapshot_credential_free_witness:
  "redact_json_snapshot sample_library (\<lambda>_. Some (Object [(''accessToken'', Number (1 :: nat))]))
      (\<lambda>w. if credential_free w then Some ''clean'' else None) ''{}'' = Some (Some ''clean'')"
  using snapshot_credential_free
    [of "\<lambda>_. Some (Object [(''accessToken'', Number (1 :: nat))])" "''{}''" _ sample_library
        "\<lambda>w. if credential_free w then Some ''clean'' else None"]
  by fastforce

end
