(* ===== verification/Bound_Files.thy ===== *)
theory Bound_Files
  imports Prelude
begin

text \<open>
  Files below a retained project directory (\<open>utils/safe_project_dir.rs\<close>, on Unix), the primitives
  under the import transaction.

  A project-relative path is its parent directory and its file name. A disk lists the inode of each
  name and maps inodes to bytes, so that hard links, renames and exchanges of names are what they are on a
  Unix file system. Only regular files are modelled: directories exist, and the checks against
  links and special files are in the walk that binds a directory, which is not modelled.

  Every system call first asks the schedule of the environment: it proceeds, fails, or the process
  dies before it. A call that changes more than one name asks before each change, so every
  intermediate state is one the process can die in. The number of a new inode is chosen by the
  environment too.
\<close>

section \<open>Actions\<close>

datatype ('e, 'a) outcome = Return 'a | Raise 'e | Crashed

type_synonym ('s, 'e, 'a) act = "'s \<Rightarrow> ('e, 'a) outcome \<times> 's"

definition give :: "'a \<Rightarrow> ('s, 'e, 'a) act" where
  "give a s = (Return a, s)"

definition fail :: "'e \<Rightarrow> ('s, 'e, 'a) act" where
  "fail e s = (Raise e, s)"

definition chain :: "('s, 'e, 'a) act \<Rightarrow> ('a \<Rightarrow> ('s, 'e, 'b) act) \<Rightarrow> ('s, 'e, 'b) act" where
  "chain f k s = (case f s of
     (Return a, s') \<Rightarrow> k a s' | (Raise e, s') \<Rightarrow> (Raise e, s') | (Crashed, s') \<Rightarrow> (Crashed, s'))"

text \<open>The result of an action as a value, for code that inspects an error.\<close>

definition attempt :: "('s, 'e, 'a) act \<Rightarrow> ('s, 'f, 'e + 'a) act" where
  "attempt f s = (case f s of
     (Return a, s') \<Rightarrow> (Return (Inr a), s') | (Raise e, s') \<Rightarrow> (Return (Inl e), s')
   | (Crashed, s') \<Rightarrow> (Crashed, s'))"

definition ignore :: "('s, 'e, 'a) act \<Rightarrow> ('s, 'f, unit) act" where
  "ignore f s = (case f s of (Crashed, s') \<Rightarrow> (Crashed, s') | (_, s') \<Rightarrow> (Return (), s'))"

definition map_err :: "('e \<Rightarrow> 'f) \<Rightarrow> ('s, 'e, 'a) act \<Rightarrow> ('s, 'f, 'a) act" where
  "map_err g f s = (case f s of
     (Return a, s') \<Rightarrow> (Return a, s') | (Raise e, s') \<Rightarrow> (Raise (g e), s')
   | (Crashed, s') \<Rightarrow> (Crashed, s'))"

definition modify :: "('s \<Rightarrow> 's) \<Rightarrow> ('s, 'e, unit) act" where
  "modify f s = (Return (), f s)"

definition observe :: "('s \<Rightarrow> 'a) \<Rightarrow> ('s, 'e, 'a) act" where
  "observe f s = (Return (f s), s)"

section \<open>Disks\<close>

text \<open>
  Names the code makes up carry a fresh UUID; here they carry its serial number in the order of
  drawing, so two drawn names differ: \<open>Temporary\<close> is \<open>.{target}.{uuid}.tmp\<close>, the guards are
  \<open>.wiki-guard-\<close>, \<open>.wiki-guard-installed-\<close>, \<open>.wiki-delete-guard-\<close>, \<open>.wiki-bound-delete-\<close> and
  \<open>.import-v2-recovery-guard-\<close> with a UUID, \<open>JournalFile\<close> is \<open>{uuid}.json\<close>. \<open>Plain\<close> is every
  other name.
\<close>

datatype file_name =
    Plain string | Temporary file_name nat | OriginalGuard nat | InstalledGuard nat
  | DeleteGuard nat | BoundDelete nat | RecoveryGuard nat | JournalFile nat

datatype path = Path (dir_of: string) (name_of: file_name)

datatype io_kind = NotFound | AlreadyExists | WouldBlock | Unsupported | OtherIo

record disk =
  dk_entries :: "(path \<times> nat) list"
  dk_bytes :: "nat \<Rightarrow> string"
  dk_step :: nat
  dk_drawn :: nat

datatype verdict = Proceed | Fault | Unavailable | Crash

record environment =
  en_schedule :: "nat \<Rightarrow> verdict"
  en_inode :: "nat list \<Rightarrow> nat"
  en_digest :: "string \<Rightarrow> string"
  en_safe_target :: "path \<Rightarrow> bool"
  en_cancel :: "nat \<Rightarrow> bool"
  en_show :: "path \<Rightarrow> string"

type_synonym 'a io = "(disk, io_kind, 'a) act"

definition syscall :: "environment \<Rightarrow> unit io" where
  "syscall env d = (case en_schedule env (dk_step d) of
     Proceed \<Rightarrow> (Return (), d\<lparr>dk_step := dk_step d + 1\<rparr>)
   | Fault \<Rightarrow> (Raise OtherIo, d\<lparr>dk_step := dk_step d + 1\<rparr>)
   | Unavailable \<Rightarrow> (Raise Unsupported, d\<lparr>dk_step := dk_step d + 1\<rparr>)
   | Crash \<Rightarrow> (Crashed, d))"

definition new_uuid :: "(disk, 'e, nat) act" where
  "new_uuid d = (Return (dk_drawn d), d\<lparr>dk_drawn := dk_drawn d + 1\<rparr>)"

definition dk_names :: "disk \<Rightarrow> path \<Rightarrow> nat option" where
  "dk_names d = map_of (dk_entries d)"

definition set_name :: "path \<Rightarrow> nat option \<Rightarrow> disk \<Rightarrow> disk" where
  "set_name p x d = d\<lparr>dk_entries :=
     (case x of None \<Rightarrow> [] | Some i \<Rightarrow> [(p, i)]) @ filter (\<lambda>(q, _). q \<noteq> p) (dk_entries d)\<rparr>"

definition put_bytes :: "nat \<Rightarrow> string \<Rightarrow> disk \<Rightarrow> disk" where
  "put_bytes i b d = d\<lparr>dk_bytes := (dk_bytes d)(i := b)\<rparr>"

text \<open>What a reader finds under a name.\<close>

definition contents :: "disk \<Rightarrow> path \<Rightarrow> string option" where
  "contents d p = map_option (dk_bytes d) (dk_names d p)"

section \<open>System calls on one directory\<close>

definition open_existing_relative :: "environment \<Rightarrow> path \<Rightarrow> nat io" where
  "open_existing_relative env p = chain (syscall env) (\<lambda>_ d.
     case dk_names d p of None \<Rightarrow> (Raise NotFound, d) | Some i \<Rightarrow> (Return i, d))"

definition create_new_relative :: "environment \<Rightarrow> path \<Rightarrow> nat io" where
  "create_new_relative env p = chain (syscall env) (\<lambda>_ d.
     if dk_names d p \<noteq> None then (Raise AlreadyExists, d)
     else let i = en_inode env (map snd (dk_entries d)) in
       (Return i, put_bytes i [] (set_name p (Some i) d)))"

text \<open>\<open>renameat2\<close> with \<open>RENAME_NOREPLACE\<close>, after the check that the name still has the inode.\<close>

definition rename_no_replace :: "environment \<Rightarrow> nat \<Rightarrow> path \<Rightarrow> path \<Rightarrow> unit io" where
  "rename_no_replace env i source target = chain (syscall env) (\<lambda>_ d.
     if dk_names d source \<noteq> Some i then (Raise WouldBlock, d)
     else if dk_names d target \<noteq> None then (Raise AlreadyExists, d)
     else (Return (), set_name source None (set_name target (Some i) d)))"

definition exchange_file_names :: "environment \<Rightarrow> path \<Rightarrow> path \<Rightarrow> unit io" where
  "exchange_file_names env source target = chain (syscall env) (\<lambda>_ d.
     if dk_names d source = None \<or> dk_names d target = None then (Raise NotFound, d)
     else (Return (), set_name source (dk_names d target) (set_name target (dk_names d source) d)))"

definition hard_link_open_file :: "environment \<Rightarrow> nat \<Rightarrow> path \<Rightarrow> path \<Rightarrow> unit io" where
  "hard_link_open_file env i source target = chain (syscall env) (\<lambda>_ d.
     if dk_names d source \<noteq> Some i then (Raise WouldBlock, d)
     else if dk_names d target \<noteq> None then (Raise AlreadyExists, d)
     else (Return (), set_name target (Some i) d))"

definition delete_relative_open_file :: "environment \<Rightarrow> nat \<Rightarrow> path \<Rightarrow> unit io" where
  "delete_relative_open_file env i p = chain (syscall env) (\<lambda>_ d.
     if dk_names d p \<noteq> Some i then (Raise WouldBlock, d) else (Return (), set_name p None d))"

section \<open>Operations of a bound directory\<close>

definition sync :: "environment \<Rightarrow> unit io" where
  "sync env = syscall env"

definition file_identity :: "environment \<Rightarrow> path \<Rightarrow> nat io" where
  "file_identity env p = open_existing_relative env p"

definition read_regular_with_identity :: "environment \<Rightarrow> path \<Rightarrow> (string \<times> nat) io" where
  "read_regular_with_identity env p =
     chain (open_existing_relative env p) (\<lambda>i. observe (\<lambda>d. (dk_bytes d i, i)))"

definition read_regular :: "environment \<Rightarrow> path \<Rightarrow> string io" where
  "read_regular env p = chain (read_regular_with_identity env p) (\<lambda>r. give (fst r))"

text \<open>
  \<open>populate\<close> is what fills the new file: its bytes, or an error after the file was written in part.
\<close>

fun create_synced_temp :: "environment \<Rightarrow> nat \<Rightarrow> path \<Rightarrow> io_kind + string \<Rightarrow> path io" where
  "create_synced_temp env 0 target populate = fail AlreadyExists"
| "create_synced_temp env (Suc tries) target populate =
     chain (new_uuid) (\<lambda>uuid.
     let name = Path (dir_of target) (Temporary (name_of target) uuid) in
     chain (attempt (create_new_relative env name)) (\<lambda>created.
     case created of
       Inl AlreadyExists \<Rightarrow> create_synced_temp env tries target populate
     | Inl e \<Rightarrow> fail e
     | Inr i \<Rightarrow>
         chain (attempt (chain (syscall env) (\<lambda>_. case populate of
             Inl e \<Rightarrow> fail e
           | Inr data \<Rightarrow> chain (modify (put_bytes i data)) (\<lambda>_. syscall env)))) (\<lambda>written.
         case written of
           Inr _ \<Rightarrow> give name
         | Inl e \<Rightarrow> chain (ignore (delete_relative_open_file env i name)) (\<lambda>_. fail e))))"

definition write_synced_temp :: "environment \<Rightarrow> path \<Rightarrow> string \<Rightarrow> path io" where
  "write_synced_temp env target data = create_synced_temp env 32 target (Inr data)"

text \<open>The source is read through \<open>VerifiedReader\<close>, which fails unless size and digest agree.\<close>

definition copy_synced_temp :: "environment \<Rightarrow> path \<Rightarrow> string \<Rightarrow> string \<Rightarrow> nat \<Rightarrow> path io" where
  "copy_synced_temp env target source expected_hash expected_size =
     create_synced_temp env 32 target
       (if length source = expected_size \<and> en_digest env source = expected_hash
        then Inr source else Inl OtherIo)"

definition expected_state ::
  "environment \<Rightarrow> (nat \<times> string option) option \<Rightarrow> nat \<Rightarrow> disk \<Rightarrow> bool" where
  "expected_state env expected i d \<longleftrightarrow> (case expected of None \<Rightarrow> True
   | Some (identity, hash) \<Rightarrow> i = identity
       \<and> (case hash of None \<Rightarrow> True | Some h \<Rightarrow> en_digest env (dk_bytes d i) = h))"

definition expected_bytes ::
  "environment \<Rightarrow> (nat \<times> string option) option \<Rightarrow> nat \<Rightarrow> disk \<Rightarrow> bool" where
  "expected_bytes env expected i d \<longleftrightarrow> (case expected of
     Some (_, Some h) \<Rightarrow> en_digest env (dk_bytes d i) = h | _ \<Rightarrow> True)"

definition replace_existing_inner ::
  "environment \<Rightarrow> path \<Rightarrow> path \<Rightarrow> (nat \<times> string option) option \<Rightarrow> unit io" where
  "replace_existing_inner env temporary target expected =
     chain (open_existing_relative env temporary) (\<lambda>source.
     chain (open_existing_relative env target) (\<lambda>displaced.
     chain (observe (expected_state env expected displaced)) (\<lambda>as_expected.
     if \<not> as_expected then fail WouldBlock
     else
       chain (exchange_file_names env temporary target) (\<lambda>_.
       chain (open_existing_relative env temporary) (\<lambda>swapped.
       chain (observe (expected_bytes env expected swapped)) (\<lambda>hash_matches.
       if swapped \<noteq> displaced \<or> \<not> hash_matches
       then chain (ignore (exchange_file_names env temporary target)) (\<lambda>_. fail WouldBlock)
       else delete_relative_open_file env displaced temporary))))))"

definition replace_existing :: "environment \<Rightarrow> path \<Rightarrow> path \<Rightarrow> unit io" where
  "replace_existing env temporary target = replace_existing_inner env temporary target None"

definition replace_existing_if_identity_and_hash ::
  "environment \<Rightarrow> path \<Rightarrow> path \<Rightarrow> nat \<Rightarrow> string \<Rightarrow> unit io" where
  "replace_existing_if_identity_and_hash env temporary target identity hash =
     replace_existing_inner env temporary target (Some (identity, Some hash))"

definition publish_new :: "environment \<Rightarrow> path \<Rightarrow> path \<Rightarrow> unit io" where
  "publish_new env temporary target =
     chain (open_existing_relative env temporary) (\<lambda>i. rename_no_replace env i temporary target)"

definition hard_link :: "environment \<Rightarrow> path \<Rightarrow> path \<Rightarrow> unit io" where
  "hard_link env source target =
     chain (open_existing_relative env source) (\<lambda>i. hard_link_open_file env i source target)"

text \<open>\<open>rename\<close> without replacement inside one directory.\<close>

definition rename_new :: "environment \<Rightarrow> path \<Rightarrow> path \<Rightarrow> unit io" where
  "rename_new env source target =
     chain (open_existing_relative env source) (\<lambda>i.
     chain (rename_no_replace env i source target) (\<lambda>_.
     chain (open_existing_relative env target) (\<lambda>renamed.
     if renamed \<noteq> i
     then chain (ignore (rename_no_replace env renamed target source)) (\<lambda>_. fail WouldBlock)
     else sync env)))"

definition remove_file_inner :: "environment \<Rightarrow> path \<Rightarrow> (nat \<times> string option) option \<Rightarrow> unit io" where
  "remove_file_inner env p expected =
     chain (open_existing_relative env p) (\<lambda>i.
     chain (observe (expected_state env expected i)) (\<lambda>as_expected.
     if \<not> as_expected then fail WouldBlock
     else
       chain (new_uuid) (\<lambda>uuid.
       let guard = Path (dir_of p) (BoundDelete uuid) in
       chain (rename_no_replace env i p guard) (\<lambda>_.
       chain (open_existing_relative env guard) (\<lambda>moved.
       chain (observe (expected_bytes env expected moved)) (\<lambda>hash_matches.
       if moved \<noteq> i \<or> \<not> hash_matches
       then chain (ignore (rename_no_replace env moved guard p)) (\<lambda>_. fail WouldBlock)
       else chain (delete_relative_open_file env moved guard) (\<lambda>_. sync env)))))))"

definition remove_file :: "environment \<Rightarrow> path \<Rightarrow> unit io" where
  "remove_file env p = remove_file_inner env p None"

definition remove_file_if_identity_and_hash ::
  "environment \<Rightarrow> path \<Rightarrow> nat \<Rightarrow> string \<Rightarrow> unit io" where
  "remove_file_if_identity_and_hash env p identity hash =
     remove_file_inner env p (Some (identity, Some hash))"

definition write_atomic_create_new :: "environment \<Rightarrow> path \<Rightarrow> string \<Rightarrow> unit io" where
  "write_atomic_create_new env target data =
     chain (write_synced_temp env target data) (\<lambda>temporary.
     chain (attempt (publish_new env temporary target)) (\<lambda>published.
     case published of
       Inr _ \<Rightarrow> sync env
     | Inl e \<Rightarrow> chain (ignore (remove_file env temporary)) (\<lambda>_. fail e)))"

end
