(* ===== verification/File_Transaction.thy ===== *)
theory File_Transaction
  imports Bound_Files
begin

text \<open>
  The transaction under every import write (\<open>services/import_v2/transaction.rs\<close>, on Unix).

  Before a target changes, the transaction makes durable a journal of the bytes to restore; the
  candidate is pinned by a hard link, so that its inode number proves what was installed. A
  machine is the disk, the journals in the journal directory, and the transaction of the process.
  A journal is written by \<open>write_atomic_replace\<close>, so that a reader finds the old or the new one.

  Directories are not modelled: neither their creation and removal by a transaction, nor the
  check that a retained parent is still the same. Project-relative paths stand for the paths
  below the project root.
\<close>

section \<open>Journals\<close>

datatype recovery_action = DeleteInstalled | RestorePrevious

datatype recovery_phase = Planned | Quarantined | Restored

record recovery_record =
  rr_canonical :: path
  rr_guard :: path
  rr_expected_hash :: string
  rr_expected_identity :: nat
  rr_action :: recovery_action
  rr_phase :: recovery_phase

record journal_entry =
  je_path :: path
  je_previous :: "string option"
  je_desired_hash :: string
  je_desired_absent :: bool
  je_installed_identity :: "nat option"
  je_recovery :: "recovery_record option"

datatype journal_state = InProgress | Committed

record journal =
  jr_state :: journal_state
  jr_entries :: "journal_entry list"
  jr_recovery_artifacts :: "path list"

section \<open>Transactions\<close>

record installed_ownership =
  io_path :: path
  io_identity :: nat
  io_hash :: string

record file_transaction =
  tx_backups :: "(path \<times> string option) list"
  tx_recovery_artifacts :: "path list"
  tx_installed :: "installed_ownership list"
  tx_unverified :: "path list"
  tx_guards :: "(path \<times> path) list"
  tx_deleted :: "path list"
  tx_journal_root :: "string option"
  tx_journal_path :: "path option"
  tx_entries :: "journal_entry list"
  tx_journal_artifacts :: "path list"
  tx_finished :: bool

definition new_transaction :: file_transaction where
  "new_transaction = \<lparr>tx_backups = [], tx_recovery_artifacts = [], tx_installed = [],
     tx_unverified = [], tx_guards = [], tx_deleted = [], tx_journal_root = None,
     tx_journal_path = None, tx_entries = [], tx_journal_artifacts = [], tx_finished = False\<rparr>"

definition new_for_project_at :: "string \<Rightarrow> file_transaction" where
  "new_for_project_at journal_root = new_transaction\<lparr>tx_journal_root := Some journal_root\<rparr>"

record machine =
  mc_disk :: disk
  mc_journals :: "(path \<times> journal) list"
  mc_tx :: file_transaction

type_synonym 'a tx = "(machine, backend_error, 'a) act"

definition io_error :: "io_kind \<Rightarrow> backend_error" where
  "io_error _ = backend_error_new ''FILE_WRITE_FAILED'' ''A project file operation failed.'' True True"

definition staging_safe_io_error :: backend_error where
  "staging_safe_io_error =
     backend_error_new ''FILE_READ_FAILED'' ''A project file could not be read safely.'' True True"

definition conflict_error :: backend_error where
  "conflict_error =
     backend_error_new ''IMPORT_V2_COMMIT_CONFLICT'' ''A commit target changed concurrently.'' True True"

definition transaction_cancelled_error :: backend_error where
  "transaction_cancelled_error =
     backend_error_new ''IMPORT_V2_CANCELLED'' ''Import was cancelled.'' True False"

definition rollback_failure :: "string \<Rightarrow> string list \<Rightarrow> backend_error" where
  "rollback_failure msg failures =
     with_details (backend_error_new ''IMPORT_V2_COMMIT_FAILED'' msg False True)
       (JObject [(''rollbackFailures'', JArray (map JString failures))])"

definition candidate_identity_pin_error :: "environment \<Rightarrow> path \<Rightarrow> backend_error" where
  "candidate_identity_pin_error env p =
     with_details (backend_error_new ''IMPORT_V2_IDENTITY_PIN_UNAVAILABLE''
       ''The project filesystem cannot provide the hard-link identity proof required for a fail-closed import write.''
       False True) (JObject [(''path'', JString (en_show env p))])"

definition hard_link_identity_proof_error :: "environment \<Rightarrow> io_kind \<Rightarrow> path \<Rightarrow> backend_error" where
  "hard_link_identity_proof_error env e p =
     (if e = NotFound then conflict_error
      else if e = Unsupported then candidate_identity_pin_error env p
      else io_error e)"

section \<open>Access to the machine\<close>

definition on_disk :: "(disk, 'e, 'a) act \<Rightarrow> (machine, 'e, 'a) act" where
  "on_disk f m = (case f (mc_disk m) of (r, d) \<Rightarrow> (r, m\<lparr>mc_disk := d\<rparr>))"

definition disk_op :: "'a io \<Rightarrow> 'a tx" where
  "disk_op f = map_err io_error (on_disk f)"

definition update_tx :: "(file_transaction \<Rightarrow> file_transaction) \<Rightarrow> (machine, 'e, unit) act" where
  "update_tx f = modify (\<lambda>m. m\<lparr>mc_tx := f (mc_tx m)\<rparr>)"

definition digest_bytes :: "environment \<Rightarrow> string \<Rightarrow> string" where
  "digest_bytes env data = en_digest env data"

definition bound_hash :: "environment \<Rightarrow> path \<Rightarrow> string io" where
  "bound_hash env p = chain (read_regular env p) (\<lambda>data. give (digest_bytes env data))"

definition put_journal :: "path \<Rightarrow> journal \<Rightarrow> (path \<times> journal) list \<Rightarrow> (path \<times> journal) list" where
  "put_journal p j js =
     (if p \<in> fst ` set js then map (\<lambda>(q, k). (q, if q = p then j else k)) js else js @ [(p, j)])"

definition write_journal :: "environment \<Rightarrow> path \<Rightarrow> journal \<Rightarrow> unit tx" where
  "write_journal env p j =
     chain (disk_op (syscall env)) (\<lambda>_.
     chain (modify (\<lambda>m. m\<lparr>mc_journals := put_journal p j (mc_journals m)\<rparr>)) (\<lambda>_.
     disk_op (sync env)))"

definition remove_journal :: "environment \<Rightarrow> path \<Rightarrow> (machine, io_kind, unit) act" where
  "remove_journal env p =
     chain (on_disk (syscall env)) (\<lambda>_.
     chain (observe (\<lambda>m. p \<in> fst ` set (mc_journals m))) (\<lambda>present.
     if \<not> present then fail NotFound
     else
       chain (modify (\<lambda>m. m\<lparr>mc_journals := filter (\<lambda>(q, _). q \<noteq> p) (mc_journals m)\<rparr>)) (\<lambda>_.
       chain (on_disk (syscall env)) (\<lambda>_. on_disk (sync env)))))"

fun traverse :: "('a \<Rightarrow> ('s, 'e, unit) act) \<Rightarrow> 'a list \<Rightarrow> ('s, 'e, unit) act" where
  "traverse f [] = give ()"
| "traverse f (x # xs) = chain (f x) (\<lambda>_. traverse f xs)"

section \<open>Recording intents\<close>

definition journal_path_or_new :: "path tx" where
  "journal_path_or_new =
     chain (observe (\<lambda>m. tx_journal_path (mc_tx m))) (\<lambda>current.
     case current of Some p \<Rightarrow> give p
     | None \<Rightarrow>
       chain (on_disk new_uuid) (\<lambda>uuid.
       chain (observe (\<lambda>m. case tx_journal_root (mc_tx m) of
           None \<Rightarrow> ''.app/import-v2-journal'' | Some r \<Rightarrow> r)) (\<lambda>root.
       chain (update_tx (\<lambda>t. t\<lparr>tx_journal_path := Some (Path root (JournalFile uuid))\<rparr>)) (\<lambda>_.
       give (Path root (JournalFile uuid))))))"

definition current_journal :: "journal_state \<Rightarrow> machine \<Rightarrow> journal" where
  "current_journal st m = \<lparr>jr_state = st, jr_entries = tx_entries (mc_tx m),
     jr_recovery_artifacts = tx_journal_artifacts (mc_tx m)\<rparr>"

definition publish_intent :: "environment \<Rightarrow> journal_entry \<Rightarrow> unit tx" where
  "publish_intent env entry =
     chain (observe (\<lambda>m. tx_journal_root (mc_tx m) = None)) (\<lambda>unbound.
     if unbound then give ()
     else
       chain (update_tx (\<lambda>t. t\<lparr>tx_entries := tx_entries t @ [entry]\<rparr>)) (\<lambda>_.
       chain journal_path_or_new (\<lambda>p.
       chain (observe (current_journal InProgress)) (\<lambda>j. write_journal env p j))))"

definition record_intent ::
  "environment \<Rightarrow> path \<Rightarrow> string option \<Rightarrow> string \<Rightarrow> nat \<Rightarrow> unit tx" where
  "record_intent env p previous desired_hash candidate_identity =
     publish_intent env \<lparr>je_path = p, je_previous = previous, je_desired_hash = desired_hash,
       je_desired_absent = False, je_installed_identity = Some candidate_identity,
       je_recovery = None\<rparr>"

definition record_delete_intent :: "environment \<Rightarrow> path \<Rightarrow> string \<Rightarrow> unit tx" where
  "record_delete_intent env p previous =
     publish_intent env \<lparr>je_path = p, je_previous = Some previous,
       je_desired_hash = digest_bytes env [], je_desired_absent = True,
       je_installed_identity = None, je_recovery = None\<rparr>"

definition stage_recovery_artifact :: "path \<Rightarrow> unit tx" where
  "stage_recovery_artifact p = update_tx (\<lambda>t.
     if tx_journal_root t = None then t
     else t\<lparr>tx_journal_artifacts := tx_journal_artifacts t @ [p]\<rparr>)"

definition track_artifact :: "path \<Rightarrow> unit tx" where
  "track_artifact p = update_tx (\<lambda>t. t\<lparr>tx_recovery_artifacts := tx_recovery_artifacts t @ [p]\<rparr>)"

definition untrack_artifact :: "path \<Rightarrow> unit tx" where
  "untrack_artifact p = update_tx (\<lambda>t.
     t\<lparr>tx_recovery_artifacts := filter (\<lambda>q. q \<noteq> p) (tx_recovery_artifacts t)\<rparr>)"

definition cleanup_artifact :: "environment \<Rightarrow> path \<Rightarrow> unit tx" where
  "cleanup_artifact env p =
     chain (attempt (on_disk (remove_file env p))) (\<lambda>removed.
     case removed of
       Inr _ \<Rightarrow> untrack_artifact p
     | Inl NotFound \<Rightarrow> untrack_artifact p
     | Inl e \<Rightarrow> fail (io_error e))"

definition pin_candidate_identity :: "environment \<Rightarrow> path \<Rightarrow> path tx" where
  "pin_candidate_identity env temporary =
     chain (on_disk new_uuid) (\<lambda>uuid.
     let pin = Path (dir_of temporary) (InstalledGuard uuid) in
     chain (map_err (\<lambda>e. hard_link_identity_proof_error env e pin)
       (on_disk (hard_link env temporary pin))) (\<lambda>_.
     chain (track_artifact pin) (\<lambda>_. give pin)))"

definition sync_candidate_pin_parent :: "environment \<Rightarrow> path \<Rightarrow> unit tx" where
  "sync_candidate_pin_parent env pin =
     chain (attempt (on_disk (sync env))) (\<lambda>synced.
     case synced of
       Inr _ \<Rightarrow> give ()
     | Inl e \<Rightarrow> chain (ignore (cleanup_artifact env pin)) (\<lambda>_. fail (io_error e)))"

section \<open>Ownership of installed files\<close>

definition put_ownership :: "installed_ownership \<Rightarrow> installed_ownership list \<Rightarrow> installed_ownership list" where
  "put_ownership x xs = filter (\<lambda>y. io_path y \<noteq> io_path x) xs @ [x]"

text \<open>The last entry of a path gets the identity that was found installed.\<close>

fun set_last_identity :: "path \<Rightarrow> nat \<Rightarrow> journal_entry list \<Rightarrow> journal_entry list option" where
  "set_last_identity p i [] = None"
| "set_last_identity p i (e # es) = (case set_last_identity p i es of
     Some es' \<Rightarrow> Some (e # es')
   | None \<Rightarrow> if je_path e = p then Some (e\<lparr>je_installed_identity := Some i\<rparr> # es) else None)"

definition own_installed :: "environment \<Rightarrow> path \<Rightarrow> string \<Rightarrow> nat \<Rightarrow> unit tx" where
  "own_installed env p hash expected_identity =
     chain (update_tx (\<lambda>t. t\<lparr>tx_unverified := p # filter (\<lambda>q. q \<noteq> p) (tx_unverified t)\<rparr>)) (\<lambda>_.
     chain (disk_op (file_identity env p)) (\<lambda>identity.
     if identity \<noteq> expected_identity then fail conflict_error
     else update_tx (\<lambda>t. t\<lparr>tx_installed :=
         put_ownership \<lparr>io_path = p, io_identity = identity, io_hash = hash\<rparr> (tx_installed t)\<rparr>)))"

definition mark_verified :: "path \<Rightarrow> unit tx" where
  "mark_verified p = update_tx (\<lambda>t. t\<lparr>tx_unverified := filter (\<lambda>q. q \<noteq> p) (tx_unverified t)\<rparr>)"

definition capture_cohort_install :: "environment \<Rightarrow> path \<Rightarrow> string \<Rightarrow> nat \<Rightarrow> unit tx" where
  "capture_cohort_install env p data expected_identity =
     chain (own_installed env p (digest_bytes env data) expected_identity) (\<lambda>_. mark_verified p)"

definition capture_installed_expected :: "environment \<Rightarrow> path \<Rightarrow> string \<Rightarrow> nat \<Rightarrow> unit tx" where
  "capture_installed_expected env p expected_hash expected_identity =
     chain (own_installed env p expected_hash expected_identity) (\<lambda>_.
     chain (observe (\<lambda>m. if tx_journal_root (mc_tx m) = None then None
         else tx_journal_path (mc_tx m))) (\<lambda>journal_path.
     chain (case journal_path of None \<Rightarrow> give ()
       | Some jp \<Rightarrow>
         chain (observe (\<lambda>m. set_last_identity p expected_identity (tx_entries (mc_tx m)))) (\<lambda>updated.
         case updated of None \<Rightarrow> fail staging_safe_io_error
         | Some es \<Rightarrow>
           chain (update_tx (\<lambda>t. t\<lparr>tx_entries := es\<rparr>)) (\<lambda>_.
           chain (observe (current_journal InProgress)) (\<lambda>j. write_journal env jp j)))) (\<lambda>_.
     mark_verified p)))"

definition is_candidate_identity_pin :: "path \<Rightarrow> bool" where
  "is_candidate_identity_pin p \<longleftrightarrow> (case name_of p of InstalledGuard _ \<Rightarrow> True | _ \<Rightarrow> False)"

section \<open>Writing\<close>

fun cleanup_all :: "environment \<Rightarrow> path list \<Rightarrow> (machine, backend_error, string list) act" where
  "cleanup_all env [] = give []"
| "cleanup_all env (p # ps) =
     chain (attempt (cleanup_artifact env p)) (\<lambda>r.
     chain (cleanup_all env ps) (\<lambda>failures.
     give (case r of Inl e \<Rightarrow> message e # failures | Inr _ \<Rightarrow> failures)))"

definition push_backup :: "path \<Rightarrow> string option \<Rightarrow> unit tx" where
  "push_backup p previous = update_tx (\<lambda>t. t\<lparr>tx_backups := tx_backups t @ [(p, previous)]\<rparr>)"

definition write_new_stream :: "environment \<Rightarrow> path \<Rightarrow> string \<Rightarrow> string \<Rightarrow> nat \<Rightarrow> unit tx" where
  "write_new_stream env p source expected_hash expected_size =
     chain (disk_op (copy_synced_temp env p source expected_hash expected_size)) (\<lambda>temporary.
     chain (track_artifact temporary) (\<lambda>_.
     chain (disk_op (file_identity env temporary)) (\<lambda>candidate_identity.
     chain (pin_candidate_identity env temporary) (\<lambda>candidate_pin.
     chain (sync_candidate_pin_parent env candidate_pin) (\<lambda>_.
     chain (stage_recovery_artifact temporary) (\<lambda>_.
     chain (stage_recovery_artifact candidate_pin) (\<lambda>_.
     chain (record_intent env p None expected_hash candidate_identity) (\<lambda>_.
     chain (attempt (on_disk (publish_new env temporary p))) (\<lambda>installed.
     case installed of
       Inl e \<Rightarrow>
         chain (cleanup_all env [temporary, candidate_pin]) (\<lambda>cleanup_failures.
         if cleanup_failures = [] then fail (io_error e)
         else fail (rollback_failure
           ''New-file install failed and recovery artifact cleanup failed.''
           (''candidate install failed'' # cleanup_failures)))
     | Inr _ \<Rightarrow>
         chain (push_backup p None) (\<lambda>_.
         chain (capture_installed_expected env p expected_hash candidate_identity) (\<lambda>_.
         disk_op (sync env))))))))))))"

definition write_new :: "environment \<Rightarrow> path \<Rightarrow> string \<Rightarrow> unit tx" where
  "write_new env p data = write_new_stream env p data (digest_bytes env data) (length data)"

text \<open>
  The part a checked replacement and a cohort share: the candidate next to its target, the guard
  link to the displaced file, and the identities.
\<close>

definition prepare_guard :: "environment \<Rightarrow> path \<Rightarrow> path \<Rightarrow> path tx" where
  "prepare_guard env p temporary =
     chain (on_disk new_uuid) (\<lambda>uuid.
     let guard = Path (dir_of p) (OriginalGuard uuid) in
     chain (track_artifact temporary) (\<lambda>_.
     chain (attempt (on_disk (hard_link env p guard))) (\<lambda>linked.
     case linked of
       Inl e \<Rightarrow> chain (ignore (cleanup_artifact env temporary)) (\<lambda>_.
         fail (hard_link_identity_proof_error env e p))
     | Inr _ \<Rightarrow>
       chain (track_artifact guard) (\<lambda>_.
       chain (update_tx (\<lambda>t. t\<lparr>tx_guards := (p, guard) # filter (\<lambda>g. fst g \<noteq> p) (tx_guards t)\<rparr>)) (\<lambda>_.
       give guard)))))"

definition abandon :: "environment \<Rightarrow> path list \<Rightarrow> backend_error \<Rightarrow> (machine, backend_error, 'a) act" where
  "abandon env ps e = chain (traverse (\<lambda>p. ignore (cleanup_artifact env p)) ps) (\<lambda>_. fail e)"

definition write_if_hash_matches :: "environment \<Rightarrow> path \<Rightarrow> string \<Rightarrow> string \<Rightarrow> unit tx" where
  "write_if_hash_matches env p data expected_hash =
     chain (disk_op (write_synced_temp env p data)) (\<lambda>temporary.
     chain (prepare_guard env p temporary) (\<lambda>guard.
     chain (disk_op (file_identity env p)) (\<lambda>before_identity.
     chain (disk_op (file_identity env guard)) (\<lambda>guard_identity.
     chain (attempt (on_disk (read_regular env guard))) (\<lambda>read.
     case read of
       Inl e \<Rightarrow> abandon env [temporary, guard] (io_error e)
     | Inr previous_before \<Rightarrow>
       if before_identity \<noteq> guard_identity \<or> digest_bytes env previous_before \<noteq> expected_hash
       then abandon env [temporary, guard] conflict_error
       else
         chain (disk_op (file_identity env temporary)) (\<lambda>candidate_identity.
         chain (pin_candidate_identity env temporary) (\<lambda>candidate_pin.
         chain (sync_candidate_pin_parent env candidate_pin) (\<lambda>_.
         chain (stage_recovery_artifact temporary) (\<lambda>_.
         chain (stage_recovery_artifact guard) (\<lambda>_.
         chain (stage_recovery_artifact candidate_pin) (\<lambda>_.
         chain (record_intent env p (Some previous_before) (digest_bytes env data)
           candidate_identity) (\<lambda>_.
         chain (attempt (on_disk (replace_existing_if_identity_and_hash env temporary p
           before_identity expected_hash))) (\<lambda>replaced.
         case replaced of
           Inl e \<Rightarrow> abandon env [temporary, guard, candidate_pin] (io_error e)
         | Inr _ \<Rightarrow>
           chain (push_backup p (Some previous_before)) (\<lambda>_.
           chain (capture_installed_expected env p (digest_bytes env data) candidate_identity) (\<lambda>_.
           chain (untrack_artifact temporary) (\<lambda>_.
           chain (disk_op (read_regular env guard)) (\<lambda>previous.
           if digest_bytes env previous \<noteq> expected_hash
           then
             chain (disk_op (replace_existing env guard p)) (\<lambda>_.
             chain (untrack_artifact guard) (\<lambda>_.
             chain (disk_op (sync env)) (\<lambda>_. fail conflict_error)))
           else
             chain (disk_op (sync env)) (\<lambda>_.
             chain (cleanup_artifact env temporary) (\<lambda>_.
             cleanup_artifact env guard)))))))))))))))))))"

definition delete_if_hash_matches :: "environment \<Rightarrow> path \<Rightarrow> string \<Rightarrow> unit tx" where
  "delete_if_hash_matches env p expected_hash =
     chain (on_disk new_uuid) (\<lambda>uuid.
     let guard = Path (dir_of p) (DeleteGuard uuid) in
     chain (map_err (\<lambda>e. hard_link_identity_proof_error env e p)
       (on_disk (hard_link env p guard))) (\<lambda>_.
     chain (track_artifact guard) (\<lambda>_.
     chain (disk_op (file_identity env p)) (\<lambda>before_identity.
     chain (disk_op (file_identity env guard)) (\<lambda>guard_identity.
     chain (disk_op (read_regular env guard)) (\<lambda>previous.
     if before_identity \<noteq> guard_identity \<or> digest_bytes env previous \<noteq> expected_hash
     then abandon env [guard] conflict_error
     else
       chain (stage_recovery_artifact guard) (\<lambda>_.
       chain (record_delete_intent env p previous) (\<lambda>_.
       chain (disk_op (file_identity env p)) (\<lambda>identity.
       if identity \<noteq> before_identity then abandon env [guard] conflict_error
       else
         chain (disk_op (remove_file_if_identity_and_hash env p before_identity expected_hash)) (\<lambda>_.
         chain (push_backup p (Some previous)) (\<lambda>_.
         chain (update_tx (\<lambda>t. t\<lparr>tx_deleted := p # tx_deleted t\<rparr>)) (\<lambda>_.
         chain (disk_op (sync env)) (\<lambda>_. cleanup_artifact env guard)))))))))))))"

section \<open>Cohorts of checked replacements\<close>

record pending_checked_replacement =
  pc_path :: path
  pc_temporary :: path
  pc_guard :: path
  pc_previous :: string
  pc_expected_identity :: nat
  pc_candidate_identity :: nat
  pc_desired :: string

definition check_cancel :: "environment \<Rightarrow> unit tx" where
  "check_cancel env = chain (observe (\<lambda>m. en_cancel env (dk_step (mc_disk m)))) (\<lambda>cancelled.
     if cancelled then fail transaction_cancelled_error else give ())"

definition prepare_replacement ::
  "environment \<Rightarrow> path \<times> string \<times> string \<Rightarrow> pending_checked_replacement tx" where
  "prepare_replacement env w = (case w of (p, desired, expected_hash) \<Rightarrow>
     chain (check_cancel env) (\<lambda>_.
     chain (disk_op (write_synced_temp env p desired)) (\<lambda>temporary.
     chain (prepare_guard env p temporary) (\<lambda>guard.
     chain (disk_op (file_identity env p)) (\<lambda>expected_identity.
     chain (disk_op (file_identity env guard)) (\<lambda>guard_identity.
     chain (disk_op (read_regular env guard)) (\<lambda>previous.
     if expected_identity \<noteq> guard_identity \<or> digest_bytes env previous \<noteq> expected_hash
     then fail conflict_error
     else
       chain (disk_op (file_identity env temporary)) (\<lambda>candidate_identity.
       chain (pin_candidate_identity env temporary) (\<lambda>_.
       give \<lparr>pc_path = p, pc_temporary = temporary, pc_guard = guard, pc_previous = previous,
          pc_expected_identity = expected_identity, pc_candidate_identity = candidate_identity,
          pc_desired = desired\<rparr>)))))))))"

fun prepare_all ::
  "environment \<Rightarrow> (path \<times> string \<times> string) list \<Rightarrow> pending_checked_replacement list tx" where
  "prepare_all env [] = give []"
| "prepare_all env (w # ws) =
     chain (prepare_replacement env w) (\<lambda>r. chain (prepare_all env ws) (\<lambda>rs. give (r # rs)))"

definition replacement_entry :: "environment \<Rightarrow> pending_checked_replacement \<Rightarrow> journal_entry" where
  "replacement_entry env r = \<lparr>je_path = pc_path r, je_previous = Some (pc_previous r),
     je_desired_hash = digest_bytes env (pc_desired r), je_desired_absent = False,
     je_installed_identity = Some (pc_candidate_identity r), je_recovery = None\<rparr>"

definition install_cohort_journal :: "environment \<Rightarrow> pending_checked_replacement list \<Rightarrow> unit tx" where
  "install_cohort_journal env pending =
     chain (update_tx (\<lambda>t. t\<lparr>tx_entries := map (replacement_entry env) pending,
       tx_journal_artifacts := tx_recovery_artifacts t\<rparr>)) (\<lambda>_.
     chain journal_path_or_new (\<lambda>p.
     chain (observe (current_journal InProgress)) (\<lambda>j. write_journal env p j)))"

definition install_replacement :: "environment \<Rightarrow> pending_checked_replacement \<Rightarrow> unit tx" where
  "install_replacement env r =
     chain (check_cancel env) (\<lambda>_.
     chain (disk_op (file_identity env (pc_path r))) (\<lambda>identity.
     if identity \<noteq> pc_expected_identity r then fail conflict_error
     else
       chain (disk_op (replace_existing_if_identity_and_hash env (pc_temporary r) (pc_path r)
         (pc_expected_identity r) (digest_bytes env (pc_previous r)))) (\<lambda>_.
       chain (push_backup (pc_path r) (Some (pc_previous r))) (\<lambda>_.
       chain (capture_cohort_install env (pc_path r) (pc_desired r) (pc_candidate_identity r)) (\<lambda>_.
       chain (disk_op (sync env)) (\<lambda>_.
       disk_op (remove_file env (pc_guard r))))))))"

text \<open>The parents of the pins are synced once each, in the order of their first replacement.\<close>

definition pin_parents :: "pending_checked_replacement list \<Rightarrow> string list" where
  "pin_parents pending = rev (remdups (rev (map (dir_of \<circ> pc_path) pending)))"

definition write_many_if_hash_matches ::
  "environment \<Rightarrow> (path \<times> string \<times> string) list \<Rightarrow> unit tx" where
  "write_many_if_hash_matches env writes =
     (if writes = [] then give ()
      else
        chain (observe (\<lambda>m. tx_journal_root (mc_tx m) = None)) (\<lambda>unbound.
        if unbound then fail staging_safe_io_error
        else
          chain (prepare_all env writes) (\<lambda>pending.
          chain (traverse (\<lambda>_. disk_op (sync env)) (pin_parents pending)) (\<lambda>_.
          chain (check_cancel env) (\<lambda>_.
          chain (install_cohort_journal env pending) (\<lambda>_.
          chain (traverse (install_replacement env) pending) (\<lambda>_.
          chain (check_cancel env) (\<lambda>_.
          update_tx (\<lambda>t. t\<lparr>tx_recovery_artifacts :=
            filter is_candidate_identity_pin (tx_recovery_artifacts t)\<rparr>)))))))))"

section \<open>Rollback\<close>

fun live_candidate_pin_matches :: "environment \<Rightarrow> path list \<Rightarrow> nat \<Rightarrow> (machine, 'e, bool) act" where
  "live_candidate_pin_matches env [] expected = give False"
| "live_candidate_pin_matches env (p # ps) expected =
     (if is_candidate_identity_pin p
      then chain (attempt (on_disk (file_identity env p))) (\<lambda>found.
        if found = Inr expected then give True else live_candidate_pin_matches env ps expected)
      else live_candidate_pin_matches env ps expected)"

definition still_owned :: "environment \<Rightarrow> installed_ownership \<Rightarrow> (machine, 'e, bool) act" where
  "still_owned env own =
     chain (attempt (on_disk (file_identity env (io_path own)))) (\<lambda>identity.
     if identity \<noteq> Inr (io_identity own) then give False
     else
       chain (attempt (on_disk (bound_hash env (io_path own)))) (\<lambda>hash.
       if hash \<noteq> Inr (io_hash own) then give False
       else
         chain (observe (\<lambda>m. tx_recovery_artifacts (mc_tx m))) (\<lambda>artifacts.
         live_candidate_pin_matches env artifacts (io_identity own))))"

definition verify_live_installed_ownership :: "environment \<Rightarrow> unit tx" where
  "verify_live_installed_ownership env =
     chain (observe (\<lambda>m. tx_installed (mc_tx m))) (\<lambda>owned.
     traverse (\<lambda>own. chain (still_owned env own) (\<lambda>ok.
       if ok then give () else fail conflict_error)) owned)"

fun ownership_valid ::
  "environment \<Rightarrow> installed_ownership list \<Rightarrow> (machine, 'e, (path \<times> (nat \<times> string) option) list) act" where
  "ownership_valid env [] = give []"
| "ownership_valid env (own # rest) =
     chain (still_owned env own) (\<lambda>ok.
     chain (ownership_valid env rest) (\<lambda>known.
     give ((io_path own, if ok then Some (io_identity own, io_hash own) else None) # known)))"

definition restore_bytes ::
  "environment \<Rightarrow> bool \<Rightarrow> (nat \<times> string) option option \<Rightarrow> path \<Rightarrow> string \<Rightarrow> unit io" where
  "restore_bytes env deleted owned p data =
     (if deleted then write_atomic_create_new env p data
      else case owned of
        Some (Some (identity, hash)) \<Rightarrow>
          chain (write_synced_temp env p data) (\<lambda>temporary.
          chain (attempt (replace_existing_if_identity_and_hash env temporary p identity hash)) (\<lambda>r.
          case r of
            Inr _ \<Rightarrow> give ()
          | Inl e \<Rightarrow> chain (ignore (remove_file env temporary)) (\<lambda>_. fail e)))
      | _ \<Rightarrow> fail WouldBlock)"

definition roll_back_one ::
  "environment \<Rightarrow> (path \<times> (nat \<times> string) option) list \<Rightarrow> path \<times> string option \<Rightarrow> (machine, 'e, string list) act"
  where
  "roll_back_one env known backup = (case backup of (p, previous) \<Rightarrow>
     chain (observe (\<lambda>m. (p \<in> set (tx_unverified (mc_tx m)), p \<in> set (tx_deleted (mc_tx m))))) (\<lambda>st.
     if fst st then give [en_show env p @ '': installed ownership could not be verified; preserved instead of rolling back'']
     else if map_of known p = Some None
     then give [en_show env p @ '': destination changed externally; preserved instead of rolling back'']
     else case previous of
       Some data \<Rightarrow>
         chain (attempt (on_disk (restore_bytes env (snd st) (map_of known p) p data))) (\<lambda>r.
         give (case r of Inr _ \<Rightarrow> []
           | Inl _ \<Rightarrow> [en_show env p @ '': rollback write conflict or failure; preserved instead of overwriting'']))
     | None \<Rightarrow>
         chain (attempt (on_disk (case map_of known p of
             Some (Some (identity, hash)) \<Rightarrow> remove_file_if_identity_and_hash env p identity hash
           | _ \<Rightarrow> fail WouldBlock))) (\<lambda>r.
         give (case r of Inr _ \<Rightarrow> [] | Inl NotFound \<Rightarrow> []
           | Inl _ \<Rightarrow> [en_show env p @ '': rollback removal conflict or failure; preserved instead of deleting'']))))"

fun collect :: "('a \<Rightarrow> ('s, 'e, string list) act) \<Rightarrow> 'a list \<Rightarrow> ('s, 'e, string list) act" where
  "collect f [] = give []"
| "collect f (x # xs) = chain (f x) (\<lambda>a. chain (collect f xs) (\<lambda>b. give (a @ b)))"

definition roll_back_artifact :: "environment \<Rightarrow> path \<Rightarrow> (machine, 'e, string list) act" where
  "roll_back_artifact env p =
     chain (observe (\<lambda>m. list_ex (\<lambda>(destination, guard).
         guard = p \<and> destination \<in> set (tx_unverified (mc_tx m))) (tx_guards (mc_tx m)))) (\<lambda>retained.
     if retained
     then give [en_show env p @ '': retained original recovery guard after unverified install'']
     else
       chain (attempt (cleanup_artifact env p)) (\<lambda>r.
       give (case r of Inr _ \<Rightarrow> [] | Inl _ \<Rightarrow> [en_show env p @ '': recovery cleanup failed''])))"

definition finish_journal :: "environment \<Rightarrow> unit tx" where
  "finish_journal env =
     chain (observe (\<lambda>m. tx_journal_path (mc_tx m))) (\<lambda>journal_path.
     case journal_path of None \<Rightarrow> give ()
     | Some p \<Rightarrow>
       chain (update_tx (\<lambda>t. t\<lparr>tx_journal_path := None\<rparr>)) (\<lambda>_.
       chain (attempt (remove_journal env p)) (\<lambda>r.
       case r of Inr _ \<Rightarrow> give () | Inl NotFound \<Rightarrow> give () | Inl e \<Rightarrow> fail (io_error e))))"

definition rollback :: "environment \<Rightarrow> unit tx" where
  "rollback env =
     chain (observe (\<lambda>m. tx_installed (mc_tx m))) (\<lambda>owned.
     chain (ownership_valid env owned) (\<lambda>known.
     chain (update_tx (\<lambda>t. t\<lparr>tx_installed := []\<rparr>)) (\<lambda>_.
     chain (observe (\<lambda>m. rev (tx_backups (mc_tx m)))) (\<lambda>backups.
     chain (collect (roll_back_one env known) backups) (\<lambda>restored.
     chain (observe (\<lambda>m. rev (tx_recovery_artifacts (mc_tx m)))) (\<lambda>artifacts.
     chain (collect (roll_back_artifact env) artifacts) (\<lambda>cleaned.
     chain (update_tx (\<lambda>t. t\<lparr>tx_backups := [], tx_recovery_artifacts := [], tx_finished := True\<rparr>)) (\<lambda>_.
     if restored @ cleaned \<noteq> []
     then fail (rollback_failure ''Import rollback was incomplete.'' (restored @ cleaned))
     else
       chain (attempt (finish_journal env)) (\<lambda>r.
       case r of
         Inr _ \<Rightarrow> give ()
       | Inl _ \<Rightarrow> fail (rollback_failure ''Import rollback was incomplete.''
           [''.app/import-v2-journal: cleanup failed'']))))))))))"

definition rollback_after :: "environment \<Rightarrow> backend_error \<Rightarrow> (machine, 'e, backend_error) act" where
  "rollback_after env primary =
     chain (attempt (rollback env)) (\<lambda>r.
     give (case r of
       Inr _ \<Rightarrow> primary
     | Inl e \<Rightarrow> with_details (backend_error_new ''IMPORT_V2_COMMIT_FAILED''
         ''Import commit failed and rollback was incomplete.'' False True)
         (JObject [(''primaryCode'', JString (code primary)), (''primaryError'', JString (message primary)),
           (''rollbackError'', JString (message e)),
           (''rollbackDetails'', case details e of None \<Rightarrow> JNull | Some d \<Rightarrow> d)])))"

text \<open>\<open>Drop\<close>: a transaction that goes out of scope unfinished is rolled back.\<close>

definition drop_transaction :: "environment \<Rightarrow> (machine, 'e, unit) act" where
  "drop_transaction env =
     chain (observe (\<lambda>m. tx_finished (mc_tx m))) (\<lambda>finished.
     if finished then give () else ignore (rollback env))"

section \<open>Commit\<close>

definition mark_journal_committed :: "environment \<Rightarrow> unit tx" where
  "mark_journal_committed env =
     chain (observe (\<lambda>m. (tx_journal_path (mc_tx m), tx_journal_root (mc_tx m)))) (\<lambda>(p, root).
     case p of None \<Rightarrow> give ()
     | Some jp \<Rightarrow> if root = None then fail staging_safe_io_error
       else chain (observe (current_journal Committed)) (\<lambda>j. write_journal env jp j))"

fun cleanup_or_stop :: "environment \<Rightarrow> path list \<Rightarrow> (machine, 'e, backend_error option) act" where
  "cleanup_or_stop env [] = give None"
| "cleanup_or_stop env (p # ps) =
     chain (attempt (cleanup_artifact env p)) (\<lambda>r.
     case r of Inl e \<Rightarrow> give (Some e) | Inr _ \<Rightarrow> cleanup_or_stop env ps)"

definition commit_after_marker :: "environment \<Rightarrow> bool \<Rightarrow> unit tx" where
  "commit_after_marker env durable =
     chain (if durable
            then chain (update_tx (\<lambda>t. t\<lparr>tx_finished := True\<rparr>)) (\<lambda>_.
              chain (observe (\<lambda>m. filter is_candidate_identity_pin (tx_recovery_artifacts (mc_tx m))))
                (cleanup_or_stop env))
            else give None) (\<lambda>pin_failure.
     if pin_failure \<noteq> None then give ()
     else
       chain (attempt (finish_journal env)) (\<lambda>r.
       if (case r of Inl _ \<Rightarrow> durable | Inr _ \<Rightarrow> False) then give ()
       else update_tx (\<lambda>t. t\<lparr>tx_finished := True\<rparr>)))"

definition commit :: "environment \<Rightarrow> unit tx" where
  "commit env =
     chain (attempt (verify_live_installed_ownership env)) (\<lambda>verified.
     case verified of
       Inl e \<Rightarrow> chain (rollback_after env e) fail
     | Inr _ \<Rightarrow>
       chain (observe (\<lambda>m. tx_journal_path (mc_tx m) \<noteq> None)) (\<lambda>durable.
       chain (observe (\<lambda>m. filter (\<lambda>p. \<not> durable \<or> \<not> is_candidate_identity_pin p)
           (tx_recovery_artifacts (mc_tx m)))) (\<lambda>artifacts.
       chain (cleanup_or_stop env artifacts) (\<lambda>failure.
       case failure of
         Some e \<Rightarrow> chain (rollback_after env e) fail
       | None \<Rightarrow>
         chain (attempt (mark_journal_committed env)) (\<lambda>marked.
         case marked of
           Inl e \<Rightarrow> chain (rollback_after env e) fail
         | Inr _ \<Rightarrow> commit_after_marker env durable)))))"

end
