(* ===== verification/Recovery.thy ===== *)
theory Recovery
  imports File_Transaction
begin

text \<open>
  Reconciliation of the journals a dead process left behind
  (\<open>services/import_v2/transaction.rs\<close>, \<open>reconcile_project_at\<close>): the checks of the recovery
  artifacts, the per-entry recovery with its persisted phases, and the removal of artifacts and
  journal. Whether a journaled path is a safe project path is asked of the environment.
\<close>

section \<open>Validation of the artifacts\<close>

datatype journal_artifact_kind = CandidateKind | OriginalGuardKind | DeleteGuardKind

definition journal_artifact_kind_of :: "path \<Rightarrow> path \<Rightarrow> journal_entry \<Rightarrow> journal_artifact_kind option" where
  "journal_artifact_kind_of artifact target entry = (case name_of artifact of
     Temporary t _ \<Rightarrow> if t = name_of target then Some CandidateKind else None
   | InstalledGuard _ \<Rightarrow> Some CandidateKind
   | OriginalGuard _ \<Rightarrow> if je_previous entry \<noteq> None then Some OriginalGuardKind else None
   | DeleteGuard _ \<Rightarrow> if je_desired_absent entry then Some DeleteGuardKind else None
   | _ \<Rightarrow> None)"

definition path_invalid :: backend_error where
  "path_invalid = backend_error_new ''PATH_INVALID'' ''Recovery target is invalid.'' False True"

definition safe_journal_target :: "environment \<Rightarrow> path \<Rightarrow> path tx" where
  "safe_journal_target env p = (if en_safe_target env p then give p else fail path_invalid)"

definition artifact_associations ::
  "environment \<Rightarrow> journal_entry list \<Rightarrow> path \<Rightarrow> (journal_entry \<times> journal_artifact_kind) list" where
  "artifact_associations env entries artifact = List.map_filter (\<lambda>e.
     if en_safe_target env (je_path e) \<and> dir_of (je_path e) = dir_of artifact
     then map_option (Pair e) (journal_artifact_kind_of artifact (je_path e) e) else None) entries"

definition previous_hash :: "environment \<Rightarrow> journal_entry \<Rightarrow> string option" where
  "previous_hash env e = map_option (digest_bytes env) (je_previous e)"

fun artifact_matches ::
  "environment \<Rightarrow> (string \<times> nat) option \<Rightarrow> journal_entry \<times> journal_artifact_kind \<Rightarrow> bool" where
  "artifact_matches env None _ = True"
| "artifact_matches env (Some (hash, identity)) (e, CandidateKind) \<longleftrightarrow>
     \<not> je_desired_absent e \<and> hash = je_desired_hash e \<and> je_installed_identity e = Some identity"
| "artifact_matches env (Some (hash, identity)) (e, OriginalGuardKind) \<longleftrightarrow>
     \<not> je_desired_absent e \<and> previous_hash env e = Some hash"
| "artifact_matches env (Some (hash, identity)) (e, DeleteGuardKind) \<longleftrightarrow>
     je_desired_absent e \<and> previous_hash env e = Some hash"

definition artifact_on_disk :: "environment \<Rightarrow> path \<Rightarrow> (string \<times> nat) option tx" where
  "artifact_on_disk env p =
     chain (attempt (on_disk (read_regular_with_identity env p))) (\<lambda>r.
     case r of
       Inr (data, identity) \<Rightarrow> give (Some (digest_bytes env data, identity))
     | Inl NotFound \<Rightarrow> give None
     | Inl _ \<Rightarrow> fail staging_safe_io_error)"

fun validate_artifacts :: "environment \<Rightarrow> journal_entry list \<Rightarrow> path list \<Rightarrow> path list \<Rightarrow> unit tx" where
  "validate_artifacts env entries seen [] = give ()"
| "validate_artifacts env entries seen (a # artifacts) =
     (if a \<in> set seen then fail staging_safe_io_error
      else
        chain (safe_journal_target env a) (\<lambda>artifact.
        let associations = artifact_associations env entries artifact in
        if associations = [] then fail staging_safe_io_error
        else
          chain (artifact_on_disk env artifact) (\<lambda>existing.
          if \<not> list_ex (artifact_matches env existing) associations then fail conflict_error
          else validate_artifacts env entries (a # seen) artifacts)))"

definition validate_journal_recovery_artifacts :: "environment \<Rightarrow> journal \<Rightarrow> unit tx" where
  "validate_journal_recovery_artifacts env j =
     (if jr_entries j = [] \<and> jr_recovery_artifacts j \<noteq> [] then fail staging_safe_io_error
      else validate_artifacts env (jr_entries j) [] (jr_recovery_artifacts j))"

section \<open>Proofs of ownership\<close>

fun pin_search :: "environment \<Rightarrow> nat \<Rightarrow> path list \<Rightarrow> bool tx" where
  "pin_search env expected [] = give False"
| "pin_search env expected (a # artifacts) =
     chain (safe_journal_target env a) (\<lambda>artifact.
     if \<not> is_candidate_identity_pin artifact then pin_search env expected artifacts
     else
       chain (attempt (on_disk (file_identity env artifact))) (\<lambda>r.
       case r of
         Inr actual \<Rightarrow> if actual = expected then give True else pin_search env expected artifacts
       | Inl NotFound \<Rightarrow> pin_search env expected artifacts
       | Inl e \<Rightarrow> fail (io_error e)))"

definition journal_candidate_pin_matches :: "environment \<Rightarrow> journal \<Rightarrow> journal_entry \<Rightarrow> bool tx" where
  "journal_candidate_pin_matches env j e = (case je_installed_identity e of
     None \<Rightarrow> give False
   | Some expected \<Rightarrow> pin_search env expected (jr_recovery_artifacts j))"

definition journal_identity_matches ::
  "environment \<Rightarrow> journal \<Rightarrow> path \<Rightarrow> journal_entry \<Rightarrow> bool \<Rightarrow> bool tx" where
  "journal_identity_matches env j p e require_candidate_pin = (case je_installed_identity e of
     None \<Rightarrow> give False
   | Some expected \<Rightarrow>
       chain (disk_op (file_identity env p)) (\<lambda>actual.
       if actual \<noteq> expected then give False
       else if require_candidate_pin then journal_candidate_pin_matches env j e
       else give True))"

section \<open>Recovery of one entry\<close>

definition set_entry :: "nat \<Rightarrow> (journal_entry \<Rightarrow> journal_entry) \<Rightarrow> journal \<Rightarrow> journal" where
  "set_entry k f j = j\<lparr>jr_entries := (jr_entries j)[k := f (jr_entries j ! k)]\<rparr>"

definition set_phase :: "recovery_phase \<Rightarrow> journal_entry \<Rightarrow> journal_entry" where
  "set_phase ph e = e\<lparr>je_recovery := map_option (\<lambda>r. r\<lparr>rr_phase := ph\<rparr>) (je_recovery e)\<rparr>"

definition clear_recovery :: "journal_entry \<Rightarrow> journal_entry" where
  "clear_recovery e = e\<lparr>je_recovery := None\<rparr>"

definition persist_entry ::
  "environment \<Rightarrow> path \<Rightarrow> nat \<Rightarrow> (journal_entry \<Rightarrow> journal_entry) \<Rightarrow> journal \<Rightarrow> journal tx" where
  "persist_entry env jp k f j =
     (let j' = set_entry k f j in chain (write_journal env jp j') (\<lambda>_. give j'))"

definition expected_action :: "journal_entry \<Rightarrow> recovery_action" where
  "expected_action e = (if je_previous e \<noteq> None then RestorePrevious else DeleteInstalled)"

definition record_agrees :: "journal_entry \<Rightarrow> recovery_record \<Rightarrow> bool" where
  "record_agrees e r \<longleftrightarrow> rr_canonical r = je_path e \<and> rr_expected_hash r = je_desired_hash e
     \<and> Some (rr_expected_identity r) = je_installed_identity e \<and> rr_action r = expected_action e"

definition is_recovery_guard :: "path \<Rightarrow> bool" where
  "is_recovery_guard p \<longleftrightarrow> (case name_of p of RecoveryGuard _ \<Rightarrow> True | _ \<Rightarrow> False)"

definition ok_value :: "'e + 'a \<Rightarrow> 'a option" where
  "ok_value r = (case r of Inr a \<Rightarrow> Some a | Inl _ \<Rightarrow> None)"

definition bound_restore_guard_if_absent :: "environment \<Rightarrow> path \<Rightarrow> path \<Rightarrow> unit io" where
  "bound_restore_guard_if_absent env guard p =
     chain (hard_link env guard p) (\<lambda>_. remove_file env guard)"

text \<open>The part of \<open>resume_recovery_entry\<close> after the installed file is in quarantine.\<close>

definition finish_recovery ::
  "environment \<Rightarrow> path \<Rightarrow> nat \<Rightarrow> path \<Rightarrow> recovery_record \<Rightarrow> journal \<Rightarrow> journal tx" where
  "finish_recovery env jp k p r j =
    (let e = jr_entries j ! k; guard = rr_guard r in
     chain (attempt (on_disk (file_identity env guard))) (\<lambda>identity.
     chain (attempt (on_disk (bound_hash env guard))) (\<lambda>hash.
     if ok_value identity \<noteq> Some (rr_expected_identity r) \<or> ok_value hash \<noteq> Some (rr_expected_hash r)
     then
       chain (attempt (on_disk (bound_restore_guard_if_absent env guard p))) (\<lambda>restored.
       fail (rollback_failure ''Recovery could not verify the quarantined installed file.''
         [case restored of
            Inr _ \<Rightarrow> en_show env guard @ '': unverified child was restored without replacing another file''
          | Inl _ \<Rightarrow> en_show env guard @ '': unverified child was preserved; canonical-name restore failed'']))
     else
       chain (if rr_action r = RestorePrevious
         then
           chain (attempt (on_disk (bound_hash env p))) (\<lambda>canonical.
           chain (if ok_value canonical \<noteq> previous_hash env e
             then
               chain (disk_op (write_synced_temp env p (the (je_previous e)))) (\<lambda>temporary.
               chain (attempt (on_disk (publish_new env temporary p))) (\<lambda>installed.
               case installed of
                 Inl _ \<Rightarrow> chain (ignore (on_disk (remove_file env temporary))) (\<lambda>_.
                   fail (rollback_failure ''Recovery preserved an external child replacement.''
                     [en_show env guard @ '': verified installed recovery guard was retained; canonical destination was not overwritten'']))
               | Inr _ \<Rightarrow> chain (disk_op (sync env)) (\<lambda>_. ignore (on_disk (remove_file env temporary)))))
             else give ()) (\<lambda>_. persist_entry env jp k (set_phase Restored) j))
         else give j) (\<lambda>j'.
       chain (disk_op (remove_file env guard)) (\<lambda>_.
       chain (disk_op (sync env)) (\<lambda>_.
       persist_entry env jp k clear_recovery j'))))))"

definition resume_recovery_entry ::
  "environment \<Rightarrow> path \<Rightarrow> nat \<Rightarrow> path \<Rightarrow> journal \<Rightarrow> journal tx" where
  "resume_recovery_entry env jp k p j =
    (let e = jr_entries j ! k in
     case je_recovery e of None \<Rightarrow> fail staging_safe_io_error
     | Some r \<Rightarrow>
       if \<not> record_agrees e r then fail staging_safe_io_error
       else
         chain (safe_journal_target env (rr_guard r)) (\<lambda>guard.
         if dir_of guard \<noteq> dir_of p \<or> \<not> is_recovery_guard guard then fail staging_safe_io_error
         else
           chain (attempt (on_disk (file_identity env guard))) (\<lambda>found.
           if ok_value found \<noteq> None then finish_recovery env jp k p r j
           else
             chain (attempt (on_disk (bound_hash env p))) (\<lambda>hash.
             chain (attempt (on_disk (file_identity env p))) (\<lambda>identity.
             if rr_phase r = Planned \<and> ok_value identity = Some (rr_expected_identity r)
                \<and> ok_value hash = Some (rr_expected_hash r)
             then
               chain (disk_op (rename_new env p guard)) (\<lambda>_.
               chain (disk_op (sync env)) (\<lambda>_.
               chain (persist_entry env jp k (set_phase Quarantined) j) (\<lambda>j'.
               finish_recovery env jp k p r j')))
             else if rr_action r = DeleteInstalled \<or> ok_value hash = previous_hash env e
             then persist_entry env jp k clear_recovery j
             else fail conflict_error)))))"

definition plan_and_recover_entry ::
  "environment \<Rightarrow> path \<Rightarrow> nat \<Rightarrow> path \<Rightarrow> journal \<Rightarrow> journal tx" where
  "plan_and_recover_entry env jp k p j =
    (let e = jr_entries j ! k in
     case je_installed_identity e of None \<Rightarrow> fail conflict_error
     | Some identity \<Rightarrow>
       chain (on_disk new_uuid) (\<lambda>uuid.
       chain (persist_entry env jp k (\<lambda>e. e\<lparr>je_recovery := Some
         \<lparr>rr_canonical = je_path e, rr_guard = Path (dir_of p) (RecoveryGuard uuid),
          rr_expected_hash = je_desired_hash e, rr_expected_identity = identity,
          rr_action = expected_action e, rr_phase = Planned\<rparr>\<rparr>) j) (\<lambda>j'.
       resume_recovery_entry env jp k p j')))"

section \<open>Reconciliation\<close>

definition current_hash :: "environment \<Rightarrow> path \<Rightarrow> string option tx" where
  "current_hash env p =
     chain (attempt (on_disk (bound_hash env p))) (\<lambda>r.
     case r of Inr h \<Rightarrow> give (Some h) | Inl NotFound \<Rightarrow> give None | Inl e \<Rightarrow> fail (io_error e))"

definition reconcile_committed :: "environment \<Rightarrow> journal \<Rightarrow> journal_entry \<Rightarrow> string option \<Rightarrow> unit tx" where
  "reconcile_committed env j e hash =
     chain (if hash = Some (je_desired_hash e)
            then journal_identity_matches env j (je_path e) e False else give False) (\<lambda>present.
     if je_desired_absent e \<and> hash \<noteq> None \<or> \<not> je_desired_absent e \<and> \<not> present
     then fail conflict_error else give ())"

definition restore_deleted :: "environment \<Rightarrow> journal_entry \<Rightarrow> unit tx" where
  "restore_deleted env e = (case je_previous e of None \<Rightarrow> fail staging_safe_io_error
   | Some previous \<Rightarrow>
       chain (disk_op (write_synced_temp env (je_path e) previous)) (\<lambda>temporary.
       chain (disk_op (publish_new env temporary (je_path e))) (\<lambda>_.
       chain (disk_op (sync env)) (\<lambda>_. ignore (on_disk (remove_file env temporary))))))"

definition reconcile_entry :: "environment \<Rightarrow> path \<Rightarrow> nat \<Rightarrow> journal \<Rightarrow> journal tx" where
  "reconcile_entry env jp k j =
    (let e = jr_entries j ! k in
     chain (safe_journal_target env (je_path e)) (\<lambda>target.
     chain (current_hash env target) (\<lambda>hash.
     if jr_state j = Committed
     then chain (reconcile_committed env j e hash) (\<lambda>_. give j)
     else if je_desired_absent e
     then
       if hash = previous_hash env e then give j
       else if hash \<noteq> None then fail conflict_error
       else chain (restore_deleted env e) (\<lambda>_. give j)
     else if je_recovery e \<noteq> None
     then
       chain (journal_candidate_pin_matches env j e) (\<lambda>pinned.
       if \<not> pinned then fail conflict_error else resume_recovery_entry env jp k target j)
     else if hash \<noteq> previous_hash env e
     then
       chain (if hash = Some (je_desired_hash e) then journal_identity_matches env j target e True
              else give False) (\<lambda>installed.
       if \<not> installed then fail conflict_error else plan_and_recover_entry env jp k target j)
     else give j)))"

fun reconcile_entries :: "environment \<Rightarrow> path \<Rightarrow> nat list \<Rightarrow> journal \<Rightarrow> journal tx" where
  "reconcile_entries env jp [] j = give j"
| "reconcile_entries env jp (k # ks) j =
     chain (reconcile_entry env jp k j) (\<lambda>j'. reconcile_entries env jp ks j')"

definition remove_artifact :: "environment \<Rightarrow> path \<Rightarrow> unit tx" where
  "remove_artifact env a =
     chain (safe_journal_target env a) (\<lambda>artifact.
     chain (attempt (on_disk (remove_file env artifact))) (\<lambda>r.
     case r of
       Inr _ \<Rightarrow> disk_op (sync env)
     | Inl NotFound \<Rightarrow> give ()
     | Inl e \<Rightarrow> fail (io_error e)))"

definition reconcile_journal :: "environment \<Rightarrow> path \<Rightarrow> unit tx" where
  "reconcile_journal env jp =
     chain (disk_op (syscall env)) (\<lambda>_.
     chain (observe (\<lambda>m. map_of (mc_journals m) jp)) (\<lambda>found.
     case found of None \<Rightarrow> fail (io_error NotFound)
     | Some j \<Rightarrow>
       chain (validate_journal_recovery_artifacts env j) (\<lambda>_.
       chain (reconcile_entries env jp (let ks = [0..<length (jr_entries j)] in
         if jr_state j = Committed then ks else rev ks) j) (\<lambda>j'.
       chain (traverse (remove_artifact env) (jr_recovery_artifacts j')) (\<lambda>_.
       chain (map_err io_error (remove_journal env jp)) (\<lambda>_.
       disk_op (sync env)))))))"

definition reconcile_project_at :: "environment \<Rightarrow> unit tx" where
  "reconcile_project_at env =
     chain (observe (\<lambda>m. map fst (mc_journals m))) (\<lambda>paths. traverse (reconcile_journal env) paths)"

end
