(* ===== verification/Disk_Logic.thy ===== *)
theory Disk_Logic
  imports Recovery
begin

text \<open>
  A program logic for the actions on disks and machines. A triple speaks of what a name leads to,
  of the bytes of the inodes and of the drawn identifiers; the step counter is left out, so that
  a triple holds wherever in the schedule the action starts. Its four parts are the condition of
  every state the process may die in, the postcondition, the condition of an error, and the
  start. The environments here do not fail: a system call proceeds or the process dies.
\<close>

named_theorems wp \<open>rules of the logic, applied backwards\<close>

section \<open>Triples\<close>

type_synonym names = "path \<Rightarrow> nat option"
type_synonym store = "nat \<Rightarrow> string"

definition dens ::
  "(names \<Rightarrow> store \<Rightarrow> nat \<Rightarrow> bool) \<Rightarrow> (disk, 'e, 'a) act \<Rightarrow> ('a \<Rightarrow> names \<Rightarrow> store \<Rightarrow> nat \<Rightarrow> bool)
     \<Rightarrow> ('e \<Rightarrow> names \<Rightarrow> store \<Rightarrow> nat \<Rightarrow> bool) \<Rightarrow> names \<Rightarrow> store \<Rightarrow> nat \<Rightarrow> bool" where
  "dens C f Q E N B k \<longleftrightarrow> (\<forall>d. dk_names d = N \<longrightarrow> dk_bytes d = B \<longrightarrow> dk_drawn d = k \<longrightarrow>
     (case f d of
        (Return a, d') \<Rightarrow> Q a (dk_names d') (dk_bytes d') (dk_drawn d')
      | (Raise e, d') \<Rightarrow> E e (dk_names d') (dk_bytes d') (dk_drawn d')
      | (Crashed, d') \<Rightarrow> C (dk_names d') (dk_bytes d') (dk_drawn d')))"

definition mens ::
  "(names \<Rightarrow> store \<Rightarrow> nat \<Rightarrow> (path \<times> journal) list \<Rightarrow> bool) \<Rightarrow> (machine, 'e, 'a) act
     \<Rightarrow> ('a \<Rightarrow> names \<Rightarrow> store \<Rightarrow> nat \<Rightarrow> (path \<times> journal) list \<Rightarrow> file_transaction \<Rightarrow> bool)
     \<Rightarrow> ('e \<Rightarrow> names \<Rightarrow> store \<Rightarrow> nat \<Rightarrow> (path \<times> journal) list \<Rightarrow> file_transaction \<Rightarrow> bool)
     \<Rightarrow> names \<Rightarrow> store \<Rightarrow> nat \<Rightarrow> (path \<times> journal) list \<Rightarrow> file_transaction \<Rightarrow> bool" where
  "mens C f Q E N B k js t \<longleftrightarrow>
     (\<forall>m. dk_names (mc_disk m) = N \<longrightarrow> dk_bytes (mc_disk m) = B \<longrightarrow> dk_drawn (mc_disk m) = k \<longrightarrow>
        mc_journals m = js \<longrightarrow> mc_tx m = t \<longrightarrow>
     (case f m of
        (Return a, m') \<Rightarrow> Q a (dk_names (mc_disk m')) (dk_bytes (mc_disk m')) (dk_drawn (mc_disk m'))
          (mc_journals m') (mc_tx m')
      | (Raise e, m') \<Rightarrow> E e (dk_names (mc_disk m')) (dk_bytes (mc_disk m')) (dk_drawn (mc_disk m'))
          (mc_journals m') (mc_tx m')
      | (Crashed, m') \<Rightarrow> C (dk_names (mc_disk m')) (dk_bytes (mc_disk m')) (dk_drawn (mc_disk m'))
          (mc_journals m')))"

section \<open>Structural rules\<close>

lemma dens_give [wp]: "Q a N B k \<Longrightarrow> dens C (give a) Q E N B k"
  by (simp add: dens_def give_def)

lemma dens_fail [wp]: "E e N B k \<Longrightarrow> dens C (fail e) Q E N B k"
  by (simp add: dens_def fail_def)

lemma dens_chain [wp]:
  "dens C f (\<lambda>a. dens C (g a) Q E) E N B k \<Longrightarrow> dens C (chain f g) Q E N B k"
  by (force simp: dens_def chain_def split: prod.splits outcome.splits)

lemma dens_attempt [wp]:
  "dens C f (\<lambda>a. Q (Inr a)) (\<lambda>e. Q (Inl e)) N B k \<Longrightarrow> dens C (attempt f) Q E N B k"
  by (force simp: dens_def attempt_def split: prod.splits outcome.splits)

lemma dens_ignore [wp]:
  "dens C f (\<lambda>_. Q ()) (\<lambda>_. Q ()) N B k \<Longrightarrow> dens C (ignore f) Q E N B k"
  by (force simp: dens_def ignore_def split: prod.splits outcome.splits)

lemma dens_if [wp]:
  "(b \<Longrightarrow> dens C f Q E N B k) \<Longrightarrow> (\<not> b \<Longrightarrow> dens C g Q E N B k) \<Longrightarrow> dens C (if b then f else g) Q E N B k"
  by simp

lemma mens_give [wp]: "Q a N B k js t \<Longrightarrow> mens C (give a) Q E N B k js t"
  by (simp add: mens_def give_def)

lemma mens_fail [wp]: "E e N B k js t \<Longrightarrow> mens C (fail e) Q E N B k js t"
  by (simp add: mens_def fail_def)

lemma mens_chain [wp]:
  "mens C f (\<lambda>a. mens C (g a) Q E) E N B k js t \<Longrightarrow> mens C (chain f g) Q E N B k js t"
  by (force simp: mens_def chain_def split: prod.splits outcome.splits)

lemma mens_attempt [wp]:
  "mens C f (\<lambda>a. Q (Inr a)) (\<lambda>e. Q (Inl e)) N B k js t \<Longrightarrow> mens C (attempt f) Q E N B k js t"
  by (force simp: mens_def attempt_def split: prod.splits outcome.splits)

lemma mens_ignore [wp]:
  "mens C f (\<lambda>_. Q ()) (\<lambda>_. Q ()) N B k js t \<Longrightarrow> mens C (ignore f) Q E N B k js t"
  by (force simp: mens_def ignore_def split: prod.splits outcome.splits)

lemma mens_map_err [wp]:
  "mens C f Q (\<lambda>e. E (g e)) N B k js t \<Longrightarrow> mens C (map_err g f) Q E N B k js t"
  by (force simp: mens_def map_err_def split: prod.splits outcome.splits)

lemma mens_if [wp]:
  "(b \<Longrightarrow> mens C f Q E N B k js t) \<Longrightarrow> (\<not> b \<Longrightarrow> mens C g Q E N B k js t)
     \<Longrightarrow> mens C (if b then f else g) Q E N B k js t"
  by simp

lemma mens_case_sum [wp]:
  "mens C (f a) Q E N B k js t \<Longrightarrow> mens C (case Inr a of Inl e \<Rightarrow> g e | Inr b \<Rightarrow> f b) Q E N B k js t"
  "mens C (g e) Q E N B k js t \<Longrightarrow> mens C (case Inl e of Inl e \<Rightarrow> g e | Inr b \<Rightarrow> f b) Q E N B k js t"
  by simp_all

lemma mens_case_None [wp]:
  "mens C f Q E N B k js t \<Longrightarrow> mens C (case None of None \<Rightarrow> f | Some x \<Rightarrow> g x) Q E N B k js t"
  by simp

lemma mens_case_Some [wp]:
  "mens C (g a) Q E N B k js t \<Longrightarrow> mens C (case Some a of None \<Rightarrow> f | Some x \<Rightarrow> g x) Q E N B k js t"
  by simp

lemma mens_update_tx [wp]: "Q () N B k js (f t) \<Longrightarrow> mens C (update_tx f) Q E N B k js t"
  by (simp add: mens_def update_tx_def modify_def)

lemma mens_on_disk [wp]:
  "dens (\<lambda>N B k. C N B k js) f (\<lambda>a N B k. Q a N B k js t) (\<lambda>e N B k. E e N B k js t) N B k
     \<Longrightarrow> mens C (on_disk f) Q E N B k js t"
  by (force simp: dens_def mens_def on_disk_def split: prod.splits outcome.splits)

lemma mens_disk_op [wp]:
  "dens (\<lambda>N B k. C N B k js) f (\<lambda>a N B k. Q a N B k js t) (\<lambda>e N B k. E (io_error e) N B k js t) N B k
     \<Longrightarrow> mens C (disk_op f) Q E N B k js t"
  unfolding disk_op_def by (intro wp)

lemma dens_conseq:
  assumes "dens C f Q E N B k"
    and "\<And>a N B k. Q a N B k \<Longrightarrow> Q' a N B k" "\<And>e N B k. E e N B k \<Longrightarrow> E' e N B k" "\<And>N B k. C N B k \<Longrightarrow> C' N B k"
  shows "dens C' f Q' E' N B k"
  using assms by (force simp: dens_def split: prod.splits outcome.splits)

lemma mens_conseq:
  assumes "mens C f Q E N B k js t"
    and "\<And>a N B k js t. Q a N B k js t \<Longrightarrow> Q' a N B k js t" "\<And>e N B k js t. E e N B k js t \<Longrightarrow> E' e N B k js t"
    and "\<And>N B k js. C N B k js \<Longrightarrow> C' N B k js"
  shows "mens C' f Q' E' N B k js t"
  using assms by (force simp: mens_def split: prod.splits outcome.splits)

section \<open>System calls\<close>

definition faultless :: "environment \<Rightarrow> bool" where
  "faultless env \<longleftrightarrow> (\<forall>n. en_schedule env n = Proceed \<or> en_schedule env n = Crash)"

definition crashless :: "environment \<Rightarrow> bool" where
  "crashless env \<longleftrightarrow> (\<forall>n. en_schedule env n = Proceed)"

definition fresh_inodes :: "environment \<Rightarrow> bool" where
  "fresh_inodes env \<longleftrightarrow> (\<forall>xs. en_inode env xs \<notin> set xs)"

text \<open>A condition on the states that a process dies in.\<close>

abbreviation at_crash :: "environment \<Rightarrow> (names \<Rightarrow> store \<Rightarrow> nat \<Rightarrow> (path \<times> journal) list \<Rightarrow> bool)
   \<Rightarrow> names \<Rightarrow> store \<Rightarrow> nat \<Rightarrow> (path \<times> journal) list \<Rightarrow> bool" where
  "at_crash env C \<equiv> \<lambda>N B k js. \<not> crashless env \<and> C N B k js"

lemma map_of_filter_neq: "map_of (filter (\<lambda>(q, _). q \<noteq> p) xs) = (map_of xs)(p := None)"
  by (induction xs) auto

lemma dk_names_set_name [simp]: "dk_names (set_name p x d) = (dk_names d)(p := x)"
  by (cases x) (simp_all add: dk_names_def set_name_def map_of_filter_neq)

lemma set_name_simps [simp]:
  "dk_bytes (set_name p x d) = dk_bytes d" "dk_drawn (set_name p x d) = dk_drawn d"
  by (simp_all add: set_name_def)

lemma put_bytes_simps [simp]:
  "dk_names (put_bytes i b d) = dk_names d" "dk_bytes (put_bytes i b d) = (dk_bytes d)(i := b)"
  "dk_drawn (put_bytes i b d) = dk_drawn d"
  by (simp_all add: put_bytes_def dk_names_def)

lemma dk_names_step [simp]: "dk_names (d\<lparr>dk_step := n\<rparr>) = dk_names d" "dk_names (d\<lparr>dk_drawn := n\<rparr>) = dk_names d"
  by (simp_all add: dk_names_def)

lemma dens_new_uuid [wp]: "Q k N B (Suc k) \<Longrightarrow> dens C new_uuid Q E N B k"
  by (auto simp: dens_def new_uuid_def)

lemma dens_modify_bytes [wp]: "Q () N (B(i := b)) k \<Longrightarrow> dens C (modify (put_bytes i b)) Q E N B k"
  by (auto simp: dens_def modify_def)

lemma dens_syscall:
  assumes "faultless env" "crashless env \<or> C N B k" "Q () N B k"
  shows "dens C (syscall env) Q E N B k"
  using assms by (auto simp: dens_def syscall_def faultless_def crashless_def split: verdict.splits)
    (metis verdict.distinct)+

text \<open>A system call followed by a deterministic step on the disk.\<close>

lemma dens_syscall_step:
  assumes "faultless env" "crashless env \<or> C N B k" "dens C f Q E N B k"
  shows "dens C (chain (syscall env) (\<lambda>_. f)) Q E N B k"
  using assms by (intro dens_chain dens_syscall)

lemma dens_open:
  assumes "faultless env" "crashless env \<or> C N B k"
    and "\<And>i. N p = Some i \<Longrightarrow> Q i N B k" "N p = None \<Longrightarrow> E NotFound N B k"
  shows "dens C (open_existing_relative env p) Q E N B k"
  unfolding open_existing_relative_def
proof (rule dens_syscall_step)
  show "dens C (\<lambda>d. case dk_names d p of None \<Rightarrow> (Raise NotFound, d) | Some i \<Rightarrow> (Return i, d)) Q E N B k"
    using assms(3,4) by (auto simp: dens_def split: option.splits)
qed (fact assms)+

lemma ran_map_of: "ran (map_of xs) \<subseteq> set (map snd xs)"
  by (force simp: ran_def dest: map_of_SomeD)

lemma dens_create:
  assumes "faultless env" "fresh_inodes env" "crashless env \<or> C N B k" "N p = None"
    and "\<And>i. i \<notin> ran N \<Longrightarrow> Q i (N(p \<mapsto> i)) (B(i := [])) k"
  shows "dens C (create_new_relative env p) Q E N B k"
  unfolding create_new_relative_def
proof (rule dens_syscall_step)
  have "en_inode env (map snd (dk_entries d)) \<notin> ran (dk_names d)" for d
    using assms(2) ran_map_of [of "dk_entries d"] unfolding fresh_inodes_def dk_names_def by blast
  thus "dens C (\<lambda>d. if dk_names d p \<noteq> None then (Raise AlreadyExists, d)
     else let i = en_inode env (map snd (dk_entries d)) in
       (Return i, put_bytes i [] (set_name p (Some i) d))) Q E N B k"
    using assms(4,5) by (auto simp: dens_def Let_def)
qed (fact assms)+

lemma dens_rename:
  assumes "faultless env" "crashless env \<or> C N B k" "N source = Some i" "N target = None"
    and "Q () (N(target \<mapsto> i, source := None)) B k"
  shows "dens C (rename_no_replace env i source target) Q E N B k"
  unfolding rename_no_replace_def
proof (rule dens_syscall_step)
  show "dens C (\<lambda>d. if dk_names d source \<noteq> Some i then (Raise WouldBlock, d)
     else if dk_names d target \<noteq> None then (Raise AlreadyExists, d)
     else (Return (), set_name source None (set_name target (Some i) d))) Q E N B k"
    using assms(3-5) by (auto simp: dens_def)
qed (fact assms)+

lemma dens_exchange:
  assumes "faultless env" "crashless env \<or> C N B k" "N source = Some i" "N target = Some j"
    and "Q () (N(target \<mapsto> i, source \<mapsto> j)) B k"
  shows "dens C (exchange_file_names env source target) Q E N B k"
  unfolding exchange_file_names_def
proof (rule dens_syscall_step)
  show "dens C (\<lambda>d. if dk_names d source = None \<or> dk_names d target = None then (Raise NotFound, d)
     else (Return (), set_name source (dk_names d target) (set_name target (dk_names d source) d))) Q E N B k"
    using assms(3-5) by (auto simp: dens_def)
qed (fact assms)+

lemma dens_link_open:
  assumes "faultless env" "crashless env \<or> C N B k" "N source = Some i" "N target = None"
    and "Q () (N(target \<mapsto> i)) B k"
  shows "dens C (hard_link_open_file env i source target) Q E N B k"
  unfolding hard_link_open_file_def
proof (rule dens_syscall_step)
  show "dens C (\<lambda>d. if dk_names d source \<noteq> Some i then (Raise WouldBlock, d)
     else if dk_names d target \<noteq> None then (Raise AlreadyExists, d)
     else (Return (), set_name target (Some i) d)) Q E N B k"
    using assms(3-5) by (auto simp: dens_def)
qed (fact assms)+

lemma dens_delete:
  assumes "faultless env" "crashless env \<or> C N B k" "N p = Some i" "Q () (N(p := None)) B k"
  shows "dens C (delete_relative_open_file env i p) Q E N B k"
  unfolding delete_relative_open_file_def
proof (rule dens_syscall_step)
  show "dens C (\<lambda>d. if dk_names d p \<noteq> Some i then (Raise WouldBlock, d)
     else (Return (), set_name p None d)) Q E N B k"
    using assms(3-4) by (auto simp: dens_def)
qed (fact assms)+

lemma dens_observe_bytes [wp]:
  "Q (f B) N B k \<Longrightarrow> dens C (observe (\<lambda>d. f (dk_bytes d))) Q E N B k"
  by (simp add: dens_def observe_def)

lemma dens_observe_expected [wp]:
  "\<lbrakk>\<And>d. dk_bytes d = B \<Longrightarrow> Q (f d) N B k\<rbrakk> \<Longrightarrow> dens C (observe f) Q E N B k"
  by (auto simp: dens_def observe_def)

section \<open>Generated names\<close>

definition temporary_name :: "path \<Rightarrow> nat \<Rightarrow> path" where
  "temporary_name p k = Path (dir_of p) (Temporary (name_of p) k)"

definition original_guard_name :: "path \<Rightarrow> nat \<Rightarrow> path" where
  "original_guard_name p k = Path (dir_of p) (OriginalGuard k)"

definition pin_name :: "path \<Rightarrow> nat \<Rightarrow> path" where
  "pin_name p k = Path (dir_of p) (InstalledGuard k)"

definition delete_guard_name :: "path \<Rightarrow> nat \<Rightarrow> path" where
  "delete_guard_name p k = Path (dir_of p) (DeleteGuard k)"

definition bound_delete_name :: "path \<Rightarrow> nat \<Rightarrow> path" where
  "bound_delete_name p k = Path (dir_of p) (BoundDelete k)"

definition recovery_guard_name :: "path \<Rightarrow> nat \<Rightarrow> path" where
  "recovery_guard_name p k = Path (dir_of p) (RecoveryGuard k)"

lemmas generated_name_defs = temporary_name_def original_guard_name_def pin_name_def delete_guard_name_def
  bound_delete_name_def recovery_guard_name_def

fun serial :: "file_name \<Rightarrow> nat option" where
  "serial (Plain _) = None"
| "serial (Temporary _ k) = Some k"
| "serial (OriginalGuard k) = Some k"
| "serial (InstalledGuard k) = Some k"
| "serial (DeleteGuard k) = Some k"
| "serial (BoundDelete k) = Some k"
| "serial (RecoveryGuard k) = Some k"
| "serial (JournalFile k) = Some k"

definition is_plain :: "path \<Rightarrow> bool" where
  "is_plain p \<longleftrightarrow> serial (name_of p) = None"

lemma generated_name_simps [simp]:
  "dir_of (temporary_name p k) = dir_of p"
  "dir_of (original_guard_name p k) = dir_of p"
  "dir_of (pin_name p k) = dir_of p"
  "dir_of (delete_guard_name p k) = dir_of p"
  "dir_of (bound_delete_name p k) = dir_of p"
  "dir_of (recovery_guard_name p k) = dir_of p"
  "is_candidate_identity_pin (pin_name p k)" "\<not> is_candidate_identity_pin (temporary_name p k)"
  "\<not> is_candidate_identity_pin (original_guard_name p k)" "\<not> is_candidate_identity_pin (delete_guard_name p k)"
  "name_of (temporary_name p k) = Temporary (name_of p) k" "name_of (original_guard_name p k) = OriginalGuard k"
  "name_of (pin_name p k) = InstalledGuard k" "name_of (delete_guard_name p k) = DeleteGuard k"
  "name_of (bound_delete_name p k) = BoundDelete k" "name_of (recovery_guard_name p k) = RecoveryGuard k"
  by (simp_all add: generated_name_defs is_candidate_identity_pin_def)

lemma generated_not_plain [simp]:
  "\<not> is_plain (temporary_name p k)" "\<not> is_plain (original_guard_name p k)" "\<not> is_plain (pin_name p k)"
  "\<not> is_plain (delete_guard_name p k)" "\<not> is_plain (bound_delete_name p k)" "\<not> is_plain (recovery_guard_name p k)"
  by (simp_all add: is_plain_def)

lemma generated_names_differ [simp]:
  "temporary_name p k \<noteq> original_guard_name q l" "original_guard_name q l \<noteq> temporary_name p k"
  "temporary_name p k \<noteq> pin_name q l" "pin_name q l \<noteq> temporary_name p k"
  "original_guard_name p k \<noteq> pin_name q l" "pin_name q l \<noteq> original_guard_name p k"
  "bound_delete_name p k \<noteq> temporary_name q l" "bound_delete_name p k \<noteq> original_guard_name q l"
  "bound_delete_name p k \<noteq> pin_name q l" "bound_delete_name p k \<noteq> delete_guard_name q l"
  "bound_delete_name p k \<noteq> recovery_guard_name q l"
  by (simp_all add: generated_name_defs)

lemma plain_differs:
  assumes "is_plain p"
  shows "temporary_name q k \<noteq> p" "p \<noteq> temporary_name q k" "original_guard_name q k \<noteq> p" "p \<noteq> original_guard_name q k"
    "pin_name q k \<noteq> p" "p \<noteq> pin_name q k" "delete_guard_name q k \<noteq> p" "p \<noteq> delete_guard_name q k"
    "bound_delete_name q k \<noteq> p" "p \<noteq> bound_delete_name q k" "recovery_guard_name q k \<noteq> p" "p \<noteq> recovery_guard_name q k"
  using assms by auto

text \<open>Names with a serial number that was not drawn yet do not exist.\<close>

definition fresh_names :: "names \<Rightarrow> nat \<Rightarrow> bool" where
  "fresh_names N k \<longleftrightarrow> (\<forall>p s. N p \<noteq> None \<longrightarrow> serial (name_of p) = Some s \<longrightarrow> s < k)"

lemma fresh_name: "fresh_names N k \<Longrightarrow> serial (name_of p) = Some s \<Longrightarrow> k \<le> s \<Longrightarrow> N p = None"
  by (force simp: fresh_names_def)

lemma generated_fresh:
  assumes "fresh_names N k" "k \<le> l"
  shows "N (temporary_name p l) = None" "N (original_guard_name p l) = None" "N (pin_name p l) = None"
    "N (delete_guard_name p l) = None" "N (bound_delete_name p l) = None" "N (recovery_guard_name p l) = None"
  using assms by (auto intro: fresh_name)

lemma fresh_names_later: "fresh_names N k \<Longrightarrow> k \<le> k' \<Longrightarrow> fresh_names N k'"
  by (auto simp: fresh_names_def intro: less_le_trans)

lemma fresh_names_upd:
  "fresh_names N k \<Longrightarrow> k \<le> k' \<Longrightarrow> (x \<noteq> None \<Longrightarrow> \<forall>s. serial (name_of p) = Some s \<longrightarrow> s < k')
     \<Longrightarrow> fresh_names (N(p := x)) k'"
  by (auto simp: fresh_names_def split: if_splits intro: less_le_trans)

section \<open>Operations of a bound directory\<close>

lemma dens_sync:
  "faultless env \<Longrightarrow> crashless env \<or> C N B k \<Longrightarrow> Q () N B k \<Longrightarrow> dens C (sync env) Q E N B k"
  unfolding sync_def by (rule dens_syscall)

lemma dens_identity:
  assumes "faultless env" "crashless env \<or> C N B k"
    and "\<And>i. N p = Some i \<Longrightarrow> Q i N B k" "N p = None \<Longrightarrow> E NotFound N B k"
  shows "dens C (file_identity env p) Q E N B k"
  unfolding file_identity_def using assms by (rule dens_open)

lemma dens_read_with_identity:
  assumes "faultless env" "crashless env \<or> C N B k"
    and "\<And>i. N p = Some i \<Longrightarrow> Q (B i, i) N B k" "N p = None \<Longrightarrow> E NotFound N B k"
  shows "dens C (read_regular_with_identity env p) Q E N B k"
  unfolding read_regular_with_identity_def
  by (intro wp dens_open) (use assms in auto)

lemma dens_read:
  assumes "faultless env" "crashless env \<or> C N B k"
    and "\<And>i. N p = Some i \<Longrightarrow> Q (B i) N B k" "N p = None \<Longrightarrow> E NotFound N B k"
  shows "dens C (read_regular env p) Q E N B k"
  unfolding read_regular_def
  by (intro wp dens_read_with_identity) (use assms in auto)

text \<open>The same for a name that is known to exist.\<close>

lemma dens_identity_the:
  assumes "faultless env" "crashless env \<or> C N B k" "N p \<noteq> None" "Q (the (N p)) N B k"
  shows "dens C (file_identity env p) Q E N B k"
  by (rule dens_identity) (use assms in auto)

lemma dens_read_the:
  assumes "faultless env" "crashless env \<or> C N B k" "N p \<noteq> None" "Q (B (the (N p))) N B k"
  shows "dens C (read_regular env p) Q E N B k"
  by (rule dens_read) (use assms in auto)

lemma dens_identity_absent:
  assumes "faultless env" "crashless env \<or> C N B k" "N p = None" "E NotFound N B k"
  shows "dens C (file_identity env p) Q E N B k"
  by (rule dens_identity) (use assms in auto)

lemma dens_hash:
  assumes "faultless env" "crashless env \<or> C N B k"
    and "\<And>i. N p = Some i \<Longrightarrow> Q (en_digest env (B i)) N B k" "N p = None \<Longrightarrow> E NotFound N B k"
  shows "dens C (bound_hash env p) Q E N B k"
  unfolding bound_hash_def digest_bytes_def
  by (intro wp dens_read) (use assms in auto)

lemma dens_hash_the:
  assumes "faultless env" "crashless env \<or> C N B k" "N p \<noteq> None" "Q (en_digest env (B (the (N p)))) N B k"
  shows "dens C (bound_hash env p) Q E N B k"
  by (rule dens_hash) (use assms in auto)

lemma dens_hash_absent:
  assumes "faultless env" "crashless env \<or> C N B k" "N p = None" "E NotFound N B k"
  shows "dens C (bound_hash env p) Q E N B k"
  by (rule dens_hash) (use assms in auto)

lemma dens_publish:
  assumes "faultless env" "crashless env \<or> C N B k" "N source = Some i" "N target = None"
    and "Q () (N(target \<mapsto> i, source := None)) B k"
  shows "dens C (publish_new env source target) Q E N B k"
  unfolding publish_new_def
  by (intro wp dens_open) (use assms in \<open>auto intro: dens_rename\<close>)

lemma dens_link:
  assumes "faultless env" "crashless env \<or> C N B k" "N source = Some i" "N target = None"
    and "Q () (N(target \<mapsto> i)) B k"
  shows "dens C (hard_link env source target) Q E N B k"
  unfolding hard_link_def
  by (intro wp dens_open) (use assms in \<open>auto intro: dens_link_open\<close>)


lemma dens_replace:
  assumes "faultless env" "N temporary = Some c" "N target = Some i"
    and "expected = Some (i, Some (en_digest env (B i))) \<or> expected = None"
    and "crashless env \<or> C N B k" "crashless env \<or> C (N(target \<mapsto> c, temporary \<mapsto> i)) B k"
    and "Q () (N(target \<mapsto> c, temporary := None)) B k"
  shows "dens C (replace_existing_inner env temporary target expected) Q E N B k"
proof -
  have "(N(target \<mapsto> c, temporary \<mapsto> i))(temporary := None) = N(target \<mapsto> c, temporary := None)"
    by (rule ext) simp
  thus ?thesis
    unfolding replace_existing_inner_def
    by (intro wp dens_open dens_exchange dens_delete)
      (use assms in \<open>auto simp: expected_state_def expected_bytes_def split: if_splits\<close>)
qed


lemma dens_replace_checked:
  assumes "faultless env" "N temporary = Some c" "N target = Some i" "hash = en_digest env (B i)"
    and "crashless env \<or> C N B k" "crashless env \<or> C (N(target \<mapsto> c, temporary \<mapsto> i)) B k"
    and "Q () (N(target \<mapsto> c, temporary := None)) B k"
  shows "dens C (replace_existing_if_identity_and_hash env temporary target i hash) Q E N B k"
  unfolding replace_existing_if_identity_and_hash_def
  by (rule dens_replace) (use assms in auto)

lemma dens_remove_inner:
  fixes p :: path and k :: nat
  defines "g \<equiv> bound_delete_name p k"
  assumes "faultless env" "N p = Some i" "N g = None" "g \<noteq> p"
    and "expected = Some (i, Some (en_digest env (B i))) \<or> expected = None"
    and "crashless env \<or> C N B k" "crashless env \<or> C N B (Suc k)"
    and "crashless env \<or> C (N(p := None, g \<mapsto> i)) B (Suc k)" "crashless env \<or> C (N(p := None)) B (Suc k)"
    and "Q () (N(p := None)) B (Suc k)"
  shows "dens C (remove_file_inner env p expected) Q E N B k"
proof -
  have upd: "N(g \<mapsto> i, p := None) = N(p := None, g \<mapsto> i)" using \<open>g \<noteq> p\<close> by (simp add: fun_upd_twist)
  have del: "N(p := None, g := None) = N(p := None)" using \<open>N g = None\<close> \<open>g \<noteq> p\<close> by (auto simp: fun_eq_iff)
  show ?thesis
    unfolding remove_file_inner_def Let_def bound_delete_name_def [symmetric]
    by (intro wp dens_open dens_rename dens_delete dens_sync)
      (use assms upd del in \<open>auto simp: expected_state_def expected_bytes_def split: if_splits\<close>)
qed

lemma dens_remove:
  fixes p :: path and k :: nat
  defines "g \<equiv> bound_delete_name p k"
  assumes "faultless env" "N p = Some i" "N g = None" "g \<noteq> p"
    and "crashless env \<or> C N B k" "crashless env \<or> C N B (Suc k)"
    and "crashless env \<or> C (N(p := None, g \<mapsto> i)) B (Suc k)" "crashless env \<or> C (N(p := None)) B (Suc k)"
    and "Q () (N(p := None)) B (Suc k)"
  shows "dens C (remove_file env p) Q E N B k"
  unfolding remove_file_def by (rule dens_remove_inner) (use assms in auto)

lemma dens_remove_checked:
  fixes p :: path and k :: nat
  defines "g \<equiv> bound_delete_name p k"
  assumes "faultless env" "N p = Some i" "N g = None" "g \<noteq> p" "hash = en_digest env (B i)"
    and "crashless env \<or> C N B k" "crashless env \<or> C N B (Suc k)"
    and "crashless env \<or> C (N(p := None, g \<mapsto> i)) B (Suc k)" "crashless env \<or> C (N(p := None)) B (Suc k)"
    and "Q () (N(p := None)) B (Suc k)"
  shows "dens C (remove_file_if_identity_and_hash env p i hash) Q E N B k"
  unfolding remove_file_if_identity_and_hash_def by (rule dens_remove_inner) (use assms in auto)

lemma dens_remove_absent:
  assumes "faultless env" "N p = None" "crashless env \<or> C N B k" "E NotFound N B k"
  shows "dens C (remove_file env p) Q E N B k"
  unfolding remove_file_def remove_file_inner_def
  by (intro wp dens_open) (use assms in auto)

lemma dens_temp:
  fixes p :: path and k :: nat
  defines "t \<equiv> temporary_name p k"
  assumes "faultless env" "fresh_inodes env" "N t = None"
    and "crashless env \<or> C N B k" "crashless env \<or> C N B (Suc k)"
    and "\<And>i b. i \<notin> ran N \<Longrightarrow> crashless env \<or> C (N(t \<mapsto> i)) (B(i := b)) (Suc k)"
    and "\<And>i. i \<notin> ran N \<Longrightarrow> Q t (N(t \<mapsto> i)) (B(i := data)) (Suc k)"
  shows "dens C (create_synced_temp env 32 p (Inr data)) Q E N B k"
proof -
  let ?fill = "\<lambda>i. chain (attempt (chain (syscall env) (\<lambda>_. case Inr data of
        Inl e \<Rightarrow> fail e
      | Inr data \<Rightarrow> chain (modify (put_bytes i data)) (\<lambda>_. syscall env))))
      (\<lambda>written. case written of Inr _ \<Rightarrow> give t
         | Inl e \<Rightarrow> chain (ignore (delete_relative_open_file env i t)) (\<lambda>_. fail e))"
  have fill: "dens C (?fill i) Q E (N(t \<mapsto> i)) (B(i := [])) (Suc k)" if i: "i \<notin> ran N" for i
  proof -
    have "crashless env \<or> C (N(t \<mapsto> i)) (B(i := [])) (Suc k)"
      "crashless env \<or> C (N(t \<mapsto> i)) (B(i := data)) (Suc k)"
      "Q t (N(t \<mapsto> i)) (B(i := data)) (Suc k)"
      using assms(7,8) i by auto
    thus ?thesis unfolding sum.case
      by (intro dens_chain dens_attempt dens_syscall dens_modify_bytes) (simp_all add: assms(2) dens_give)
  qed
  have "dens C (create_synced_temp env (Suc n) p (Inr data)) Q E N B k" for n
    unfolding create_synced_temp.simps Let_def temporary_name_def [symmetric]
    by (intro dens_chain dens_new_uuid dens_attempt dens_create)
      (use assms(2-6) fill [unfolded t_def] in \<open>simp_all add: t_def\<close>)
  from this [of 31] show ?thesis unfolding Suc_numeral by (simp only: semiring_norm)
qed

section \<open>Machines\<close>

lemma mens_observe_tx [wp]: "Q (f t) N B k js t \<Longrightarrow> mens C (observe (\<lambda>m. f (mc_tx m))) Q E N B k js t"
  by (simp add: mens_def observe_def)

lemma mens_observe_journals:
  "Q (f js) N B k js t \<Longrightarrow> mens C (observe (\<lambda>m. f (mc_journals m))) Q E N B k js t"
  by (simp add: mens_def observe_def)

lemma mens_observe_current [wp]:
  "Q \<lparr>jr_state = st, jr_entries = tx_entries t, jr_recovery_artifacts = tx_journal_artifacts t\<rparr> N B k js t
     \<Longrightarrow> mens C (observe (current_journal st)) Q E N B k js t"
  by (simp add: mens_def observe_def current_journal_def)

lemma mens_modify_journals:
  "Q () N B k (f js) t \<Longrightarrow> mens C (modify (\<lambda>m. m\<lparr>mc_journals := f (mc_journals m)\<rparr>)) Q E N B k js t"
  by (simp add: mens_def modify_def)

lemma mens_write_journal:
  assumes "faultless env" "crashless env \<or> C N B k js" "crashless env \<or> C N B k (put_journal p j js)"
    and "Q () N B k (put_journal p j js) t"
  shows "mens C (write_journal env p j) Q E N B k js t"
  unfolding write_journal_def
  by (intro mens_chain mens_disk_op dens_syscall mens_modify_journals dens_sync) (use assms in auto)

lemma mens_remove_journal:
  assumes "faultless env" "p \<in> fst ` set js"
    and "crashless env \<or> C N B k js" "crashless env \<or> C N B k (filter (\<lambda>(q, _). q \<noteq> p) js)"
    and "Q () N B k (filter (\<lambda>(q, _). q \<noteq> p) js) t"
  shows "mens C (remove_journal env p) Q E N B k js t"
  unfolding remove_journal_def
  by (intro mens_chain mens_on_disk dens_syscall mens_observe_journals mens_if mens_modify_journals dens_sync)
    (use assms in auto)

lemma mens_traverse_Cons [wp]:
  "mens C (chain (f x) (\<lambda>_. traverse f xs)) Q E N B k js t \<Longrightarrow> mens C (traverse f (x # xs)) Q E N B k js t"
  by simp

lemma mens_traverse_Nil [wp]: "Q () N B k js t \<Longrightarrow> mens C (traverse f []) Q E N B k js t"
  by (simp add: mens_give)

lemma mens_cleanup_absent:
  assumes "faultless env" "N p = None" "crashless env \<or> C N B k js"
    and "Q () N B k js (t\<lparr>tx_recovery_artifacts := filter (\<lambda>q. q \<noteq> p) (tx_recovery_artifacts t)\<rparr>)"
  shows "mens C (cleanup_artifact env p) Q E N B k js t"
  unfolding cleanup_artifact_def untrack_artifact_def
  by (intro mens_chain mens_attempt mens_on_disk dens_remove_absent)
    (use assms in \<open>simp_all add: mens_update_tx\<close>)

lemma mens_cleanup:
  fixes p :: path and k :: nat
  defines "g \<equiv> bound_delete_name p k"
  assumes "faultless env" "N p = Some i" "N g = None" "g \<noteq> p"
    and "crashless env \<or> C N B k js" "crashless env \<or> C N B (Suc k) js"
    and "crashless env \<or> C (N(p := None, g \<mapsto> i)) B (Suc k) js"
    and "crashless env \<or> C (N(p := None)) B (Suc k) js"
    and "Q () (N(p := None)) B (Suc k) js
      (t\<lparr>tx_recovery_artifacts := filter (\<lambda>q. q \<noteq> p) (tx_recovery_artifacts t)\<rparr>)"
  shows "mens C (cleanup_artifact env p) Q E N B k js t"
  unfolding cleanup_artifact_def untrack_artifact_def
  by (intro mens_chain mens_attempt mens_on_disk dens_remove)
    (use assms in \<open>simp_all add: mens_update_tx\<close>)

text \<open>Both cases at once.\<close>

lemma mens_cleanup_cases:
  fixes p :: path and k :: nat
  defines "g \<equiv> bound_delete_name p k"
  assumes "faultless env" "crashless env \<or> C N B k js" "N p = None \<Longrightarrow> Q () N B k js (t\<lparr>tx_recovery_artifacts := filter (\<lambda>q. q \<noteq> p) (tx_recovery_artifacts t)\<rparr>)"
    and "N p \<noteq> None \<Longrightarrow> N g = None \<and> g \<noteq> p \<and> Q () (N(p := None)) B (Suc k) js (t\<lparr>tx_recovery_artifacts := filter (\<lambda>q. q \<noteq> p) (tx_recovery_artifacts t)\<rparr>)
      \<and> (crashless env \<or> C N B (Suc k) js \<and> C (N(p := None, g := N p)) B (Suc k) js \<and> C (N(p := None)) B (Suc k) js)"
  shows "mens C (cleanup_artifact env p) Q E N B k js t"
proof (cases "N p")
  case None
  thus ?thesis using assms by (intro mens_cleanup_absent) auto
next
  case (Some i)
  hence "N p \<noteq> None" by simp
  from assms(5) [OF this] show ?thesis
    using Some assms(1-3) by (intro mens_cleanup [where i = i]) (auto simp: g_def)
qed

end
