(* ===== verification/Crash_Safety.thy ===== *)
theory Crash_Safety
  imports Disk_Logic
begin

text \<open>
  Atomicity of a transaction under crashes. A transaction writes, replaces and removes files and
  commits; the process may die before any system call. What a reader finds under the names that
  the code did not make up is the abstract state; the property is that after reconciliation it is
  the state before the transaction or the state it asks for.
\<close>

section \<open>Requests\<close>

datatype request = NewFile path string | Replace path string string | Remove path string

fun perform :: "environment \<Rightarrow> request \<Rightarrow> unit tx" where
  "perform env (NewFile p data) = write_new env p data"
| "perform env (Replace p data hash) = write_if_hash_matches env p data hash"
| "perform env (Remove p hash) = delete_if_hash_matches env p hash"

fun target :: "request \<Rightarrow> path" where
  "target (NewFile p data) = p"
| "target (Replace p data hash) = p"
| "target (Remove p hash) = p"

definition run_transaction :: "environment \<Rightarrow> request list \<Rightarrow> unit tx" where
  "run_transaction env rs = chain (traverse (perform env) rs) (\<lambda>_. commit env)"

text \<open>The abstract effect, on what is found under each name.\<close>

type_synonym view = "path \<Rightarrow> string option"

fun apply_request :: "request \<Rightarrow> view \<Rightarrow> view" where
  "apply_request (NewFile p data) v = v(p \<mapsto> data)"
| "apply_request (Replace p data hash) v = v(p \<mapsto> data)"
| "apply_request (Remove p hash) v = v(p := None)"

text \<open>
  A request agrees with the state it was made for; the digest tells the new bytes of a
  replacement from the old ones.
\<close>

fun admissible :: "environment \<Rightarrow> view \<Rightarrow> request \<Rightarrow> bool" where
  "admissible env v (NewFile p data) \<longleftrightarrow> v p = None"
| "admissible env v (Replace p data hash) \<longleftrightarrow>
     (\<exists>old. v p = Some old \<and> hash = en_digest env old \<and> (hash = en_digest env data \<longrightarrow> data = old))"
| "admissible env v (Remove p hash) \<longleftrightarrow> (\<exists>old. v p = Some old \<and> hash = en_digest env old)"

definition seen :: "names \<Rightarrow> store \<Rightarrow> view" where
  "seen N B p = map_option B (N p)"

section \<open>Recoverable states\<close>

definition pinned :: "names \<Rightarrow> path list \<Rightarrow> nat \<Rightarrow> bool" where
  "pinned N arts i \<longleftrightarrow> (\<exists>q\<in>set arts. is_candidate_identity_pin q \<and> N q = Some i)"

definition installed_at :: "environment \<Rightarrow> names \<Rightarrow> store \<Rightarrow> journal_entry \<Rightarrow> nat \<Rightarrow> bool" where
  "installed_at env N B e i \<longleftrightarrow> N (je_path e) = Some i \<and> en_digest env (B i) = je_desired_hash e"

definition safe_dir :: "environment \<Rightarrow> string \<Rightarrow> bool" where
  "safe_dir env d \<longleftrightarrow> (\<forall>n. en_safe_target env (Path d n))"

definition entry_ok :: "environment \<Rightarrow> view \<Rightarrow> names \<Rightarrow> store \<Rightarrow> path list \<Rightarrow> journal_entry \<Rightarrow> bool" where
  "entry_ok env v N B arts e \<longleftrightarrow> is_plain (je_path e) \<and> safe_dir env (dir_of (je_path e)) \<and> je_recovery e = None
     \<and> je_previous e = v (je_path e)
     \<and> (if je_desired_absent e
        then je_previous e \<noteq> None \<and> (seen N B (je_path e) = v (je_path e) \<or> N (je_path e) = None)
        else \<exists>i. je_installed_identity e = Some i
          \<and> (seen N B (je_path e) = v (je_path e) \<or> installed_at env N B e i \<and> pinned N arts i
               \<and> previous_hash env e \<noteq> Some (je_desired_hash e)))"

definition artifact_ok :: "environment \<Rightarrow> names \<Rightarrow> store \<Rightarrow> journal_entry list \<Rightarrow> path \<Rightarrow> bool" where
  "artifact_ok env N B es a \<longleftrightarrow> artifact_associations env es a \<noteq> []
     \<and> (case N a of None \<Rightarrow> True
        | Some i \<Rightarrow> list_ex (artifact_matches env (Some (en_digest env (B i), i)))
            (artifact_associations env es a))"

definition artifacts_ok ::
  "environment \<Rightarrow> names \<Rightarrow> store \<Rightarrow> nat \<Rightarrow> journal_entry list \<Rightarrow> path list \<Rightarrow> bool" where
  "artifacts_ok env N B k es arts \<longleftrightarrow> distinct arts
     \<and> (\<forall>a\<in>set arts. artifact_ok env N B es a \<and> (\<exists>s<k. serial (name_of a) = Some s))"

definition journal_ok ::
  "environment \<Rightarrow> view \<Rightarrow> names \<Rightarrow> store \<Rightarrow> nat \<Rightarrow> journal_entry list \<Rightarrow> path list \<Rightarrow> bool" where
  "journal_ok env v N B k es arts \<longleftrightarrow> distinct (map je_path es)
     \<and> (\<forall>e\<in>set es. entry_ok env v N B arts e)
     \<and> artifacts_ok env N B k es arts
     \<and> (\<forall>p. is_plain p \<longrightarrow> p \<notin> je_path ` set es \<longrightarrow> seen N B p = v p)"

definition in_progress :: "journal_entry list \<Rightarrow> path list \<Rightarrow> journal" where
  "in_progress es arts = \<lparr>jr_state = InProgress, jr_entries = es, jr_recovery_artifacts = arts\<rparr>"

definition undoable ::
  "environment \<Rightarrow> view \<Rightarrow> names \<Rightarrow> store \<Rightarrow> nat \<Rightarrow> (path \<times> journal) list \<Rightarrow> bool" where
  "undoable env v N B k js \<longleftrightarrow> fresh_names N k
     \<and> (js = [] \<and> (\<forall>p. is_plain p \<longrightarrow> seen N B p = v p)
        \<or> (\<exists>jp es arts. js = [(jp, in_progress es arts)] \<and> journal_ok env v N B k es arts))"

section \<open>Frames\<close>

lemma in_progress_eq [simp]: "in_progress es arts = in_progress es' arts' \<longleftrightarrow> es = es' \<and> arts = arts'"
  by (simp add: in_progress_def)

lemma plain_not_pin [simp]: "is_plain p \<Longrightarrow> \<not> is_candidate_identity_pin p"
  by (cases "name_of p") (simp_all add: is_plain_def is_candidate_identity_pin_def)

text \<open>What the invariant reads: the plain names and the journaled artifacts.\<close>

lemma journal_ok_frame:
  assumes "journal_ok env v N B k es arts" "k \<le> k'"
    and same: "\<And>p. is_plain p \<or> p \<in> set arts \<Longrightarrow> N' p = N p"
    and bytes: "\<And>i. i \<in> ran N \<Longrightarrow> B' i = B i"
  shows "journal_ok env v N' B' k' es arts"
proof -
  have seen: "seen N' B' p = seen N B p" if "is_plain p \<or> p \<in> set arts" for p
    using same [OF that] bytes by (cases "N p") (auto simp: seen_def ran_def)
  have byt: "B' i = B i" if "N p = Some i" for p i using bytes that by (auto simp: ran_def)
  have pin: "pinned N' arts i = pinned N arts i" for i
    using same by (auto simp: pinned_def)
  have "entry_ok env v N' B' arts e" if "entry_ok env v N B arts e" for e
  proof -
    have "is_plain (je_path e)" using that by (simp add: entry_ok_def)
    hence "seen N' B' (je_path e) = seen N B (je_path e)" "N' (je_path e) = N (je_path e)"
      "installed_at env N' B' e i = installed_at env N B e i" for i
      using seen same byt by (auto simp: installed_at_def)
    thus ?thesis using that unfolding entry_ok_def pin by auto
  qed
  moreover have "artifact_ok env N' B' es a" if "artifact_ok env N B es a" "a \<in> set arts" for a
    using that same [of a] byt [of a] by (cases "N a") (simp_all add: artifact_ok_def)
  ultimately show ?thesis
    using assms(1,2) seen unfolding journal_ok_def artifacts_ok_def
    by (auto intro: less_le_trans)
qed

text \<open>A fresh name does not matter to the invariant, nor do the bytes of an unused inode.\<close>

lemma journal_ok_fresh:
  assumes "journal_ok env v N B k es arts" "serial (name_of q) = Some s" "k \<le> s" "k \<le> k'"
    and "\<And>i. i \<in> ran N \<Longrightarrow> B' i = B i"
  shows "journal_ok env v (N(q := x)) B' k' es arts"
proof (rule journal_ok_frame [OF assms(1,4)])
  fix p assume "is_plain p \<or> p \<in> set arts"
  hence "p \<noteq> q"
    using assms(1-3) by (fastforce simp: journal_ok_def artifacts_ok_def is_plain_def)
  thus "(N(q := x)) p = N p" by simp
qed (fact assms(5))

lemma undoable_fresh:
  assumes "undoable env v N B k js" "serial (name_of q) = Some s" "k \<le> s" "s < k'"
    and "\<And>i. i \<in> ran N \<Longrightarrow> B' i = B i"
  shows "undoable env v (N(q := x)) B' k' js"
proof -
  have fresh: "fresh_names (N(q := x)) k'"
    using assms(1-4) by (intro fresh_names_upd [of N k]) (auto simp: undoable_def)
  have "seen (N(q := x)) B' p = seen N B p" if "is_plain p" for p
    using that assms(2,5) by (cases "N p") (auto simp: seen_def is_plain_def ran_def)
  moreover have "journal_ok env v (N(q := x)) B' k' es arts" if "journal_ok env v N B k es arts" for es arts
    by (rule journal_ok_fresh [OF that assms(2,3)]) (use assms(3-5) in auto)
  ultimately show ?thesis using assms(1) fresh unfolding undoable_def by auto
qed

lemma undoable_later: "undoable env v N B k js \<Longrightarrow> k \<le> k' \<Longrightarrow> undoable env v N B k' js"
  using journal_ok_frame [of env v N B k _ _ k' N B] unfolding undoable_def fresh_names_def
  by (fastforce intro: less_le_trans)

lemma artifact_associations_append:
  "artifact_associations env (es @ es') a = artifact_associations env es a @ artifact_associations env es' a"
  by (simp add: artifact_associations_def List.map_filter_def)

lemma pinned_append: "pinned N (arts @ arts') i \<longleftrightarrow> pinned N arts i \<or> pinned N arts' i"
  by (auto simp: pinned_def)

lemma journal_ok_add:
  assumes j: "journal_ok env v N B k es arts" and "k \<le> k'" "je_path e \<notin> je_path ` set es"
    and e: "entry_ok env v N B (arts @ new) e"
    and new: "distinct new" "set new \<inter> set arts = {}"
      "\<And>a. a \<in> set new \<Longrightarrow> artifact_ok env N B [e] a \<and> (\<exists>s<k'. serial (name_of a) = Some s)"
  shows "journal_ok env v N B k' (es @ [e]) (arts @ new)"
proof -
  have "entry_ok env v N B (arts @ new) e'" if "e' \<in> set es" for e'
    using that j by (auto simp: journal_ok_def entry_ok_def pinned_append split: if_splits)
  moreover have "artifact_ok env N B (es @ [e]) a"
    if "artifact_ok env N B es a \<or> artifact_ok env N B [e] a" for a
    using that by (cases "N a") (auto simp: artifact_ok_def artifact_associations_append)
  ultimately show ?thesis
    using assms unfolding journal_ok_def artifacts_ok_def
    by (auto intro: less_le_trans)
qed

lemma journal_ok_paths_plain: "journal_ok env v N B k es arts \<Longrightarrow> e \<in> set es \<Longrightarrow> is_plain (je_path e)"
  by (simp add: journal_ok_def entry_ok_def)

text \<open>A target and an artifact that is no pin change together.\<close>

lemma journal_ok_change:
  assumes j: "journal_ok env v N B k es arts" and e: "e \<in> set es" "je_path e = p"
    and a: "\<not> is_plain a" "\<not> is_candidate_identity_pin a"
    and ok: "entry_ok env v (N(p := x, a := None)) B arts e"
  shows "journal_ok env v (N(p := x, a := None)) B k es arts"
proof -
  have p: "is_plain p" using journal_ok_paths_plain [OF j e(1)] e(2) by simp
  have pa: "p \<noteq> a" using p a(1) by auto
  have arts: "q \<noteq> p" if "q \<in> set arts" for q
    using that j p by (force simp: journal_ok_def artifacts_ok_def is_plain_def)
  let ?N = "N(p := x, a := None)"
  have same: "?N q = N q" if "q \<noteq> p" "q \<noteq> a" for q using that by simp
  have pin: "pinned ?N arts i = pinned N arts i" for i
    using a(2) plain_not_pin [OF p] by (auto simp: pinned_def)
  have "entry_ok env v ?N B arts e'" if "e' \<in> set es" for e'
  proof (cases "je_path e' = p")
    case True
    hence "e' = e" using that e j by (auto simp: journal_ok_def distinct_map inj_on_def)
    thus ?thesis using ok by simp
  next
    case False
    hence "?N (je_path e') = N (je_path e')"
      using journal_ok_paths_plain [OF j that] a(1) by auto
    thus ?thesis
      using that j unfolding journal_ok_def entry_ok_def pin by (auto simp: seen_def installed_at_def)
  qed
  moreover have "artifact_ok env ?N B es q" if "q \<in> set arts" for q
    using that j arts [OF that] by (cases "q = a") (auto simp: journal_ok_def artifacts_ok_def artifact_ok_def)
  moreover have "seen ?N B q = v q" if "is_plain q" "q \<notin> je_path ` set es" for q
    using that j e a(1) by (auto simp: journal_ok_def seen_def)
  ultimately show ?thesis using j unfolding journal_ok_def artifacts_ok_def by auto
qed

lemma journal_ok_drop:
  assumes j: "journal_ok env v N B k es arts" and a: "\<not> is_plain a" "\<not> is_candidate_identity_pin a"
  shows "journal_ok env v (N(a := None)) B k es arts"
proof -
  let ?N = "N(a := None)"
  have pin: "pinned ?N arts i = pinned N arts i" for i using a(2) by (auto simp: pinned_def)
  have plain: "?N q = N q" if "is_plain q" for q using that a(1) by auto
  have "entry_ok env v ?N B arts e" if "e \<in> set es" for e
    using that j plain [OF journal_ok_paths_plain [OF j that]] unfolding journal_ok_def entry_ok_def pin
    by (auto simp: seen_def installed_at_def)
  moreover have "artifact_ok env ?N B es q" if "q \<in> set arts" for q
    using that j by (cases "q = a") (auto simp: journal_ok_def artifacts_ok_def artifact_ok_def)
  moreover have "seen ?N B q = v q" if "is_plain q" "q \<notin> je_path ` set es" for q
    using that j plain by (auto simp: journal_ok_def seen_def)
  ultimately show ?thesis using j unfolding journal_ok_def artifacts_ok_def by auto
qed

end
