(* ===== verification/Transaction_Safety.thy ===== *)
theory Transaction_Safety
  imports Crash_Safety
begin

text \<open>
  Every operation of a transaction keeps the journal able to undo it: at each system call of a
  write, a replacement or a removal the process can die with the project crash_ok, and the
  operation ends with the requested bytes installed, owned and pinned.
\<close>

section \<open>A running transaction\<close>

definition bound_journal :: "file_transaction \<Rightarrow> (path \<times> journal) list \<Rightarrow> bool" where
  "bound_journal t js \<longleftrightarrow> tx_journal_root t \<noteq> None \<and> (case tx_journal_path t of
     None \<Rightarrow> js = [] | Some jp \<Rightarrow> \<exists>j. js = [(jp, j)])"

definition journaled :: "file_transaction \<Rightarrow> (path \<times> journal) list \<Rightarrow> bool" where
  "journaled t js \<longleftrightarrow> tx_journal_root t \<noteq> None \<and> (case tx_journal_path t of
     None \<Rightarrow> js = [] \<and> tx_entries t = [] \<and> tx_journal_artifacts t = []
   | Some jp \<Rightarrow> js = [(jp, in_progress (tx_entries t) (tx_journal_artifacts t))])"

definition settled :: "environment \<Rightarrow> names \<Rightarrow> store \<Rightarrow> journal_entry \<Rightarrow> bool" where
  "settled env N B e \<longleftrightarrow> (if je_desired_absent e then N (je_path e) = None
     else \<exists>i. je_installed_identity e = Some i \<and> installed_at env N B e i)"

definition owned :: "environment \<Rightarrow> names \<Rightarrow> store \<Rightarrow> path list \<Rightarrow> installed_ownership \<Rightarrow> bool" where
  "owned env N B arts own \<longleftrightarrow> is_plain (io_path own) \<and> N (io_path own) = Some (io_identity own)
     \<and> en_digest env (B (io_identity own)) = io_hash own \<and> pinned N arts (io_identity own)"

definition drawn_before :: "nat \<Rightarrow> path list \<Rightarrow> bool" where
  "drawn_before k arts \<longleftrightarrow> (\<forall>a\<in>set arts. \<exists>s<k. serial (name_of a) = Some s)"

definition live ::
  "environment \<Rightarrow> view \<Rightarrow> view \<Rightarrow> names \<Rightarrow> store \<Rightarrow> nat \<Rightarrow> (path \<times> journal) list \<Rightarrow> file_transaction \<Rightarrow> bool" where
  "live env v w N B k js t \<longleftrightarrow> fresh_names N k \<and> journaled t js
     \<and> journal_ok env v N B k (tx_entries t) (tx_journal_artifacts t)
     \<and> (\<forall>e\<in>set (tx_entries t). settled env N B e)
     \<and> (\<forall>own\<in>set (tx_installed t). owned env N B (tx_recovery_artifacts t) own)
     \<and> io_path ` set (tx_installed t) \<subseteq> je_path ` set (tx_entries t)
     \<and> drawn_before k (tx_recovery_artifacts t)
     \<and> (\<forall>p. is_plain p \<longrightarrow> seen N B p = w p)"

text \<open>Between two operations the tracked artifacts are pins or gone.\<close>

definition tidy :: "names \<Rightarrow> file_transaction \<Rightarrow> bool" where
  "tidy N t \<longleftrightarrow> (\<forall>a\<in>set (tx_recovery_artifacts t). is_candidate_identity_pin a \<or> N a = None)"

text \<open>The transaction can roll back: it holds the previous bytes of every entry, and verified every install.\<close>

definition backed :: "file_transaction \<Rightarrow> bool" where
  "backed t \<longleftrightarrow> \<not> tx_finished t \<and> tx_unverified t = []
     \<and> tx_backups t = map (\<lambda>e. (je_path e, je_previous e)) (tx_entries t)
     \<and> set (tx_deleted t) = je_path ` {e \<in> set (tx_entries t). je_desired_absent e}
     \<and> io_path ` set (tx_installed t) = je_path ` {e \<in> set (tx_entries t). \<not> je_desired_absent e}
     \<and> distinct (map io_path (tx_installed t))"

text \<open>The transaction after an operation that journaled one more entry.\<close>

definition backs_up :: "file_transaction \<Rightarrow> journal_entry \<Rightarrow> file_transaction \<Rightarrow> bool" where
  "backs_up t e t' \<longleftrightarrow> tx_backups t' = tx_backups t @ [(je_path e, je_previous e)]
     \<and> tx_unverified t' = (if je_desired_absent e then tx_unverified t else filter (\<lambda>q. q \<noteq> je_path e) (tx_unverified t))
     \<and> tx_deleted t' = (if je_desired_absent e then je_path e # tx_deleted t else tx_deleted t)
     \<and> tx_finished t' = tx_finished t"

definition extends_tx ::
  "file_transaction \<Rightarrow> journal_entry \<Rightarrow> path list \<Rightarrow> path \<Rightarrow> installed_ownership list \<Rightarrow> file_transaction \<Rightarrow> bool" where
  "extends_tx t e new jp inst t' \<longleftrightarrow> tx_entries t' = tx_entries t @ [e]
     \<and> tx_journal_artifacts t' = tx_journal_artifacts t @ new \<and> tx_journal_path t' = Some jp
     \<and> tx_journal_root t' = tx_journal_root t \<and> tx_installed t' = inst"

definition idle ::
  "environment \<Rightarrow> view \<Rightarrow> view \<Rightarrow> path set \<Rightarrow> names \<Rightarrow> store \<Rightarrow> nat \<Rightarrow> (path \<times> journal) list \<Rightarrow> file_transaction \<Rightarrow> bool" where
  "idle env v w ps N B k js t \<longleftrightarrow>
     live env v w N B k js t \<and> tidy N t \<and> ps = je_path ` set (tx_entries t)
     \<and> (tx_journal_path t = None \<longrightarrow> tx_recovery_artifacts t = []) \<and> backed t"

section \<open>Rules of the transaction's steps\<close>

definition entry_for ::
  "path \<Rightarrow> string option \<Rightarrow> string \<Rightarrow> bool \<Rightarrow> nat option \<Rightarrow> journal_entry" where
  "entry_for p previous hash absent identity = \<lparr>je_path = p, je_previous = previous, je_desired_hash = hash,
     je_desired_absent = absent, je_installed_identity = identity, je_recovery = None\<rparr>"

lemma entry_for_simps [simp]:
  "je_path (entry_for p previous hash absent identity) = p"
  "je_previous (entry_for p previous hash absent identity) = previous"
  "je_desired_hash (entry_for p previous hash absent identity) = hash"
  "je_desired_absent (entry_for p previous hash absent identity) = absent"
  "je_installed_identity (entry_for p previous hash absent identity) = identity"
  "je_recovery (entry_for p previous hash absent identity) = None"
  by (simp_all add: entry_for_def)

lemma mens_pin:
  fixes a :: path and k :: nat
  defines "pin \<equiv> pin_name a k"
  assumes "faultless env" "N a = Some c" "N pin = None" "crashless env \<or> C N B (Suc k) js"
    and "Q pin (N(pin \<mapsto> c)) B (Suc k) js (t\<lparr>tx_recovery_artifacts := tx_recovery_artifacts t @ [pin]\<rparr>)"
  shows "mens C (pin_candidate_identity env a) Q E N B k js t"
  unfolding pin_candidate_identity_def track_artifact_def Let_def pin_name_def [symmetric]
  by (intro mens_chain mens_on_disk mens_map_err dens_new_uuid dens_link mens_update_tx mens_give)
    (use assms in auto)

lemma mens_sync_pin:
  assumes "faultless env" "crashless env \<or> C N B k js" "Q () N B k js t"
  shows "mens C (sync_candidate_pin_parent env a) Q E N B k js t"
  unfolding sync_candidate_pin_parent_def
  by (intro mens_chain mens_attempt mens_on_disk dens_sync) (use assms in \<open>simp_all add: mens_give\<close>)

lemma mens_prepare_guard:
  fixes p :: path and k :: nat
  defines "guard \<equiv> original_guard_name p k"
  assumes "faultless env" "N p = Some i" "N guard = None" "crashless env \<or> C N B (Suc k) js"
    and "\<And>g. Q guard (N(guard \<mapsto> i)) B (Suc k) js
      (t\<lparr>tx_recovery_artifacts := tx_recovery_artifacts t @ [tmp, guard], tx_guards := g\<rparr>)"
  shows "mens C (prepare_guard env p tmp) Q E N B k js t"
  unfolding prepare_guard_def track_artifact_def Let_def original_guard_name_def [symmetric]
  by (intro mens_chain mens_attempt mens_on_disk dens_new_uuid dens_link mens_update_tx mens_case_sum mens_give)
    (use assms in auto)

lemma put_journal_single [simp]: "put_journal p j [] = [(p, j)]" "put_journal p j [(p, j')] = [(p, j)]"
  by (simp_all add: put_journal_def)

lemma mens_journal_path:
  assumes "bound_journal t js"
    and "\<And>jp k'. k \<le> k' \<Longrightarrow> k' \<le> Suc k \<Longrightarrow> (\<And>j. put_journal jp j js = [(jp, j)])
      \<Longrightarrow> Q jp N B k' js (t\<lparr>tx_journal_path := Some jp\<rparr>)"
  shows "mens C journal_path_or_new Q E N B k js t"
proof (cases "tx_journal_path t")
  case None
  hence js: "js = []" using assms(1) by (simp add: bound_journal_def)
  show ?thesis unfolding journal_path_or_new_def
    by (intro mens_chain mens_observe_tx)
      (use None js assms(2) in \<open>simp, intro mens_chain mens_on_disk dens_new_uuid mens_observe_tx mens_update_tx mens_give, simp\<close>)
next
  case (Some jp)
  then obtain j where js: "js = [(jp, j)]" using assms(1) by (auto simp: bound_journal_def)
  have "t\<lparr>tx_journal_path := Some jp\<rparr> = t" using Some by (cases t) simp
  hence "Q jp N B k js t" using assms(2) [of k jp] js by simp
  thus ?thesis unfolding journal_path_or_new_def
    using Some by (intro mens_chain mens_observe_tx) (simp add: mens_give)
qed

lemma mens_publish_intent:
  assumes "faultless env" "bound_journal t js"
    and "\<And>k'. k \<le> k' \<Longrightarrow> crashless env \<or> C N B k' js"
    and "\<And>jp k'. k \<le> k' \<Longrightarrow> crashless env \<or> C N B k' [(jp, in_progress (tx_entries t @ [e]) (tx_journal_artifacts t))]"
    and "\<And>jp k'. k \<le> k' \<Longrightarrow> Q () N B k' [(jp, in_progress (tx_entries t @ [e]) (tx_journal_artifacts t))]
      (t\<lparr>tx_entries := tx_entries t @ [e], tx_journal_path := Some jp\<rparr>)"
  shows "mens C (publish_intent env e) Q E N B k js t"
proof -
  have b: "bound_journal (t\<lparr>tx_entries := tx_entries t @ [e]\<rparr>) js"
    using assms(2) by (simp add: bound_journal_def)
  show ?thesis unfolding publish_intent_def
    by (intro mens_chain mens_observe_tx mens_if mens_update_tx mens_journal_path [OF b]
          mens_observe_current mens_write_journal)
      (use assms in \<open>auto simp: bound_journal_def in_progress_def\<close>)
qed

lemma mens_record_intent:
  assumes "faultless env" "bound_journal t js" "e = entry_for p previous hash False (Some c)"
    and "\<And>k'. k \<le> k' \<Longrightarrow> crashless env \<or> C N B k' js"
    and "\<And>jp k'. k \<le> k' \<Longrightarrow> crashless env \<or> C N B k' [(jp, in_progress (tx_entries t @ [e]) (tx_journal_artifacts t))]"
    and "\<And>jp k'. k \<le> k' \<Longrightarrow> Q () N B k' [(jp, in_progress (tx_entries t @ [e]) (tx_journal_artifacts t))]
      (t\<lparr>tx_entries := tx_entries t @ [e], tx_journal_path := Some jp\<rparr>)"
  shows "mens C (record_intent env p previous hash c) Q E N B k js t"
  unfolding record_intent_def entry_for_def [symmetric] assms(3) [symmetric]
  using assms(1,2,4-6) by (rule mens_publish_intent)

lemma mens_track:
  "Q () N B k js (t\<lparr>tx_recovery_artifacts := tx_recovery_artifacts t @ [a]\<rparr>)
     \<Longrightarrow> mens C (track_artifact a) Q E N B k js t"
  unfolding track_artifact_def by (rule mens_update_tx)

lemma mens_stage:
  "tx_journal_root t \<noteq> None \<Longrightarrow> Q () N B k js (t\<lparr>tx_journal_artifacts := tx_journal_artifacts t @ [a]\<rparr>)
     \<Longrightarrow> mens C (stage_recovery_artifact a) Q E N B k js t"
  unfolding stage_recovery_artifact_def by (rule mens_update_tx) auto

lemma mens_own_installed:
  assumes "faultless env" "crashless env \<or> C N B k js" "N p = Some c"
    and "Q () N B k js (t\<lparr>tx_unverified := p # filter (\<lambda>q. q \<noteq> p) (tx_unverified t), tx_installed :=
        put_ownership \<lparr>io_path = p, io_identity = c, io_hash = hash\<rparr> (tx_installed t)\<rparr>)"
  shows "mens C (own_installed env p hash c) Q E N B k js t"
  unfolding own_installed_def
  by (intro mens_chain mens_update_tx mens_disk_op dens_identity mens_if)
    (use assms in \<open>auto intro: mens_update_tx\<close>)

lemma set_last_identity_snoc:
  "set_last_identity (je_path e) i (es @ [e]) = Some (es @ [e\<lparr>je_installed_identity := Some i\<rparr>])"
  by (induction es) auto

lemma mens_capture:
  assumes "faultless env" "crashless env \<or> C N B k js" "N p = Some c"
    and "js = [(jp, in_progress (tx_entries t) (tx_journal_artifacts t))]"
    and "tx_journal_root t \<noteq> None" "tx_journal_path t = Some jp"
    and "tx_entries t = es @ [e]" "je_path e = p" "je_installed_identity e = Some c"
    and "Q () N B k js (t\<lparr>tx_unverified := filter (\<lambda>q. q \<noteq> p) (tx_unverified t), tx_installed :=
        put_ownership \<lparr>io_path = p, io_identity = c, io_hash = hash\<rparr> (tx_installed t)\<rparr>)"
  shows "mens C (capture_installed_expected env p hash c) Q E N B k js t"
proof -
  have e: "e\<lparr>je_installed_identity := Some c\<rparr> = e" using assms(9) by (cases e) simp
  have last: "set_last_identity p c (tx_entries t) = Some (tx_entries t)"
    using set_last_identity_snoc [of e c es] assms(7,8) e by simp
  have same: "t\<lparr>tx_installed := x, tx_entries := es @ [e], tx_unverified := u\<rparr>
     = t\<lparr>tx_unverified := u, tx_installed := x\<rparr>" for u x using assms(7) by (cases t) simp
  show ?thesis unfolding capture_installed_expected_def mark_verified_def
    by (intro mens_chain mens_own_installed mens_observe_tx)
      (use assms last in \<open>auto intro!: mens_chain mens_observe_tx mens_update_tx mens_observe_current
         mens_write_journal simp: in_progress_def same\<close>)
qed

section \<open>Frames of a running transaction\<close>

lemma live_undoable:
  assumes "live env v w N B k js t"
  shows "undoable env v N B k js"
proof (cases "tx_journal_path t")
  case None
  thus ?thesis using assms by (auto simp: live_def journaled_def undoable_def journal_ok_def)
next
  case (Some jp)
  thus ?thesis using assms by (auto simp: live_def journaled_def undoable_def)
qed

lemma live_bound: "live env v w N B k js t \<Longrightarrow> bound_journal t js"
  by (auto simp: live_def journaled_def bound_journal_def split: option.splits)

lemma drawn_before_mono: "drawn_before k arts \<Longrightarrow> k \<le> k' \<Longrightarrow> drawn_before k' arts"
  unfolding drawn_before_def by (meson less_le_trans)

lemma live_entry:
  "live env v w N B k js t \<Longrightarrow> e \<in> set (tx_entries t) \<Longrightarrow> settled env N B e \<and> is_plain (je_path e)"
  by (simp add: live_def journal_ok_def entry_ok_def)

lemma live_owned:
  "live env v w N B k js t \<Longrightarrow> own \<in> set (tx_installed t) \<Longrightarrow> owned env N B (tx_recovery_artifacts t) own"
  by (simp add: live_def)

lemma live_owned_plain: "live env v w N B k js t \<Longrightarrow> own \<in> set (tx_installed t) \<Longrightarrow> is_plain (io_path own)"
  by (simp add: live_def owned_def)

lemma settled_frame:
  "settled env N B e \<Longrightarrow> N' (je_path e) = N (je_path e) \<Longrightarrow> (\<And>i. i \<in> ran N \<Longrightarrow> B' i = B i) \<Longrightarrow> settled env N' B' e"
  by (force simp: settled_def installed_at_def ran_def)

lemma owned_frame:
  assumes "owned env N B arts own" "N' (io_path own) = N (io_path own)" "\<And>i. i \<in> ran N \<Longrightarrow> B' i = B i"
    and "\<And>q. q \<in> set arts \<Longrightarrow> is_candidate_identity_pin q \<Longrightarrow> q \<in> set arts' \<and> N' q = N q"
  shows "owned env N' B' arts' own"
  using assms by (fastforce simp: owned_def pinned_def ran_def)

lemma live_fresh:
  assumes l: "live env v w N B k js t" and q: "serial (name_of q) = Some s" "k \<le> s" "s < k'"
    and B: "\<And>i. i \<in> ran N \<Longrightarrow> B' i = B i"
  shows "live env v w (N(q := x)) B' k' js t"
proof -
  let ?N = "N(q := x)"
  have plain: "?N p = N p" if "is_plain p" for p using that q(1) by (auto simp: is_plain_def)
  have art: "?N a = N a" if "a \<in> set (tx_recovery_artifacts t)" for a
    using that l q(1,2) by (fastforce simp: live_def drawn_before_def)
  have "seen ?N B' p = seen N B p" if "is_plain p" for p
    using plain [OF that] B by (cases "N p") (auto simp: seen_def ran_def)
  moreover have "settled env ?N B' e" if "e \<in> set (tx_entries t)" for e
    using live_entry [OF l that] plain B by (auto elim: settled_frame)
  moreover have "owned env ?N B' (tx_recovery_artifacts t) own" if "own \<in> set (tx_installed t)" for own
    by (rule owned_frame [OF live_owned [OF l that]]) (use plain [OF live_owned_plain [OF l that]] B art in auto)
  moreover have "fresh_names ?N k'"
    using l q by (intro fresh_names_upd [of N k]) (auto simp: live_def)
  moreover have "journal_ok env v ?N B' k' (tx_entries t) (tx_journal_artifacts t)"
    using l q B by (intro journal_ok_fresh [where k = k and s = s]) (auto simp: live_def)
  moreover have "drawn_before k' (tx_recovery_artifacts t)"
    using l q by (auto simp: live_def intro: drawn_before_mono)
  ultimately show ?thesis using l by (simp add: live_def)
qed

lemma live_later:
  assumes "live env v w N B k js t" "k \<le> k'"
  shows "live env v w N B k' js t"
  using assms journal_ok_frame [of env v N B k _ _ k' N B] drawn_before_mono [of k _ k']
  by (auto simp: live_def fresh_names_def intro: less_le_trans)

text \<open>An artifact that is no pin may go.\<close>

lemma live_drop:
  assumes l: "live env v w N B k js t" and a: "\<not> is_plain a" "\<not> is_candidate_identity_pin a"
  shows "live env v w (N(a := None)) B k js t"
proof -
  have plain: "(N(a := None)) p = N p" if "is_plain p" for p using that a by auto
  have "settled env (N(a := None)) B e" if "e \<in> set (tx_entries t)" for e
    using live_entry [OF l that] plain by (auto elim: settled_frame)
  moreover have "owned env (N(a := None)) B (tx_recovery_artifacts t) own" if "own \<in> set (tx_installed t)" for own
    by (rule owned_frame [OF live_owned [OF l that]]) (use plain [OF live_owned_plain [OF l that]] a(2) in auto)
  moreover have "fresh_names (N(a := None)) k" using l by (auto simp: live_def fresh_names_def)
  ultimately show ?thesis
    using l journal_ok_drop [OF _ a] plain by (auto simp: live_def seen_def)
qed

lemma live_artifacts:
  assumes "live env v w N B k js t" "drawn_before k arts"
    and "\<And>q. q \<in> set (tx_recovery_artifacts t) \<Longrightarrow> is_candidate_identity_pin q \<Longrightarrow> q \<in> set arts"
  shows "live env v w N B k js (t\<lparr>tx_recovery_artifacts := arts\<rparr>)"
proof -
  have "owned env N B arts own" if "own \<in> set (tx_installed t)" for own
    by (rule owned_frame [OF live_owned [OF assms(1) that]]) (use assms(3) in auto)
  thus ?thesis using assms(1,2) by (simp add: live_def journaled_def split: option.splits)
qed

lemma live_retrack:
  assumes "live env v w N B k js (t\<lparr>tx_recovery_artifacts := arts\<rparr>)" "set (tx_recovery_artifacts t) \<subseteq> set arts"
    and "\<And>q. q \<in> set arts \<Longrightarrow> is_candidate_identity_pin q \<Longrightarrow> q \<in> set (tx_recovery_artifacts t)"
  shows "live env v w N B k js t"
proof -
  have "drawn_before k (tx_recovery_artifacts t)" using assms(1,2) by (auto simp: live_def drawn_before_def)
  from live_artifacts [OF assms(1) this] show ?thesis using assms(3) by simp
qed

section \<open>Completing an operation\<close>

text \<open>
  An entry is journaled before its target changes, and the change makes the transaction live
  again with the new view.
\<close>

lemma live_journal:
  "live env v w N B k js t \<Longrightarrow> journal_ok env v N B k (tx_entries t) (tx_journal_artifacts t) \<and> fresh_names N k"
  by (simp add: live_def)

lemma undoable_journal:
  "fresh_names N k \<Longrightarrow> journal_ok env v N B k es arts \<Longrightarrow> undoable env v N B k [(jp, in_progress es arts)]"
  by (auto simp: undoable_def)

lemma put_ownership_set: "own \<in> set (put_ownership x xs) \<Longrightarrow> own = x \<or> own \<in> set xs \<and> io_path own \<noteq> io_path x"
  by (auto simp: put_ownership_def)

text \<open>The target changes from what the journal has to what it asks for.\<close>

lemma live_change:
  assumes l: "live env v w N B k js t"
    and p: "is_plain p" "p \<notin> je_path ` set (tx_entries t)" and e: "je_path e = p"
    and j: "journal_ok env v (N(p := x, a := None)) B k (tx_entries t @ [e]) (tx_journal_artifacts t @ new)"
    and a: "\<not> is_plain a" "\<not> is_candidate_identity_pin a"
    and e': "settled env (N(p := x, a := None)) B e"
    and own: "\<And>own. own \<in> set inst \<Longrightarrow> own \<in> set (tx_installed t) \<and> io_path own \<noteq> p
      \<or> owned env (N(p := x, a := None)) B (tx_recovery_artifacts t) own"
    and inst: "io_path ` set inst \<subseteq> insert p (io_path ` set (tx_installed t))"
    and t': "extends_tx t e new jp inst t'" "tx_recovery_artifacts t' = tx_recovery_artifacts t"
  shows "live env v (w(p := map_option B x)) (N(p := x, a := None)) B k
    [(jp, in_progress (tx_entries t @ [e]) (tx_journal_artifacts t @ new))] t'"
proof -
  let ?N = "N(p := x, a := None)"
  have ap: "a \<noteq> p" using a(1) p(1) by auto
  have plain: "?N q = N q" if "is_plain q" "q \<noteq> p" for q using that a by auto
  have "settled env ?N B e2" if "e2 \<in> set (tx_entries t)" for e2
  proof -
    have "je_path e2 \<noteq> p" using that p(2) by auto
    thus ?thesis using live_entry [OF l that] plain by (auto elim: settled_frame)
  qed
  moreover have "owned env ?N B (tx_recovery_artifacts t) o2" if "o2 \<in> set inst" for o2
  proof (cases "o2 \<in> set (tx_installed t) \<and> io_path o2 \<noteq> p")
    case True
    hence o2: "o2 \<in> set (tx_installed t)" "io_path o2 \<noteq> p" by auto
    have "q \<noteq> p" if "is_candidate_identity_pin q" for q using that p(1) by auto
    thus ?thesis
      by (intro owned_frame [OF live_owned [OF l o2(1)]])
        (use plain [OF live_owned_plain [OF l o2(1)] o2(2)] a(2) in auto)
  qed (use own that in blast)
  moreover have "fresh_names ?N k"
    using l p(1) by (auto simp: live_def fresh_names_def is_plain_def)
  moreover have "seen ?N B q = (w(p := map_option B x)) q" if "is_plain q" for q
    using that l ap a(1) by (auto simp: seen_def live_def)
  moreover have "io_path ` set inst \<subseteq> je_path ` set (tx_entries t @ [e])"
  proof -
    have "io_path ` set (tx_installed t) \<subseteq> je_path ` set (tx_entries t)" using l by (simp add: live_def)
    thus ?thesis using inst e by auto blast
  qed
  ultimately show ?thesis
    using l j e' t' by (auto simp: live_def journaled_def extends_tx_def split: option.splits)
qed

lemma live_unchanged: "live env v w N B k js t \<Longrightarrow> is_plain p \<Longrightarrow> p \<notin> je_path ` set (tx_entries t)
   \<Longrightarrow> seen N B p = v p \<and> w p = v p"
  by (auto simp: live_def journal_ok_def)

lemma live_artifact_drawn: "live env v w N B k js t \<Longrightarrow> a \<in> set (tx_journal_artifacts t)
   \<Longrightarrow> \<exists>s<k. serial (name_of a) = Some s"
  by (auto simp: live_def journal_ok_def artifacts_ok_def)

lemma live_intent:
  assumes l: "live env v w N B k js t" and p: "is_plain p" "p \<notin> je_path ` set (tx_entries t)" "safe_dir env (dir_of p)"
    and e: "e = entry_for p (v p) hash absent identity" "if absent then v p \<noteq> None else identity \<noteq> None"
    and new: "distinct new" "set new \<inter> set (tx_journal_artifacts t) = {}" "drawn_before k new"
      "\<And>a. a \<in> set new \<Longrightarrow> artifact_ok env N B [e] a"
  shows "journal_ok env v N B k (tx_entries t @ [e]) (tx_journal_artifacts t @ new)"
proof (rule journal_ok_add [OF conjunct1 [OF live_journal [OF l]] order_refl])
  show "entry_ok env v N B (tx_journal_artifacts t @ new) e"
    using live_unchanged [OF l p(1,2)] p e by (auto simp: entry_ok_def split: if_splits)
  show "artifact_ok env N B [e] a \<and> (\<exists>s<k. serial (name_of a) = Some s)" if "a \<in> set new" for a
    using new(3,4) that by (auto simp: drawn_before_def)
qed (use p(2) e(1) new(1,2) in auto)

lemma artifact_associations_single:
  assumes "safe_dir env (dir_of p)" "dir_of a = dir_of p"
  shows "artifact_associations env [entry_for p v hash absent identity] a =
    (case journal_artifact_kind_of a p (entry_for p v hash absent identity) of
       None \<Rightarrow> [] | Some kind \<Rightarrow> [(entry_for p v hash absent identity, kind)])"
  using assms by (cases p)
    (auto simp: artifact_associations_def List.map_filter_def safe_dir_def split: option.splits)

lemmas artifact_ok_single =
  artifact_ok_def artifact_associations_single journal_artifact_kind_of_def previous_hash_def
  digest_bytes_def

text \<open>The names that the candidate of an entry occupies, and the two states around its installation.\<close>

definition candidate ::
  "environment \<Rightarrow> names \<Rightarrow> store \<Rightarrow> nat \<Rightarrow> file_transaction \<Rightarrow> path list \<Rightarrow> journal_entry \<Rightarrow> path \<Rightarrow> bool" where
  "candidate env N B c t new e tmp \<longleftrightarrow> \<not> is_plain tmp \<and> \<not> is_candidate_identity_pin tmp
     \<and> en_digest env (B c) = je_desired_hash e \<and> je_installed_identity e = Some c
     \<and> distinct new \<and> set new \<inter> set (tx_journal_artifacts t) = {} \<and> set new \<subseteq> set (tx_recovery_artifacts t)
     \<and> (\<forall>a\<in>set new. artifact_ok env N B [e] a)
     \<and> pinned N new c"

lemma live_intent_candidate:
  assumes "live env v w N B k js t" "is_plain p" "p \<notin> je_path ` set (tx_entries t)" "safe_dir env (dir_of p)"
    and "e = entry_for p (v p) hash False (Some c)" "candidate env N B c t new e tmp"
  shows "journal_ok env v N B k (tx_entries t @ [e]) (tx_journal_artifacts t @ new)"
  by (rule live_intent [OF assms(1-5)])
    (use assms in \<open>auto simp: candidate_def live_def drawn_before_def\<close>)

lemma live_install:
  assumes l: "live env v w N B k js t" and p: "is_plain p" "p \<notin> je_path ` set (tx_entries t)" "safe_dir env (dir_of p)"
    and e: "e = entry_for p (v p) hash False (Some c)" and c: "candidate env N B c t new e tmp"
    and tell: "map_option (en_digest env) (v p) = Some hash \<Longrightarrow> v p = Some (B c)"
    and t': "extends_tx t e new jp (put_ownership \<lparr>io_path = p, io_identity = c, io_hash = hash\<rparr> (tx_installed t)) t'"
      "tx_recovery_artifacts t' = tx_recovery_artifacts t"
  shows "live env v (w(p \<mapsto> B c)) (N(p \<mapsto> c, tmp := None)) B k
    [(jp, in_progress (tx_entries t @ [e]) (tx_journal_artifacts t @ new))] t'"
proof -
  let ?N = "N(p \<mapsto> c, tmp := None)"
  have tmp: "\<not> is_plain tmp" "\<not> is_candidate_identity_pin tmp" "tmp \<noteq> p" using c p(1) by (auto simp: candidate_def)
  have at: "?N p = Some c" using tmp(3) by simp
  have pin: "pinned ?N xs c" if "set new \<subseteq> set xs" for xs
    using that c tmp plain_not_pin [OF p(1)] by (fastforce simp: candidate_def pinned_def)
  have hash: "en_digest env (B c) = hash" using c e by (simp add: candidate_def)
  have "entry_ok env v ?N B (tx_journal_artifacts t @ new) e"
    using p e at hash tell pin by (auto simp: entry_ok_def installed_at_def seen_def previous_hash_def digest_bytes_def)
  hence j: "journal_ok env v ?N B k (tx_entries t @ [e]) (tx_journal_artifacts t @ new)"
    using tmp e by (intro journal_ok_change [OF live_intent_candidate [OF l p e c]]) auto
  have "live env v (w(p := map_option B (Some c))) ?N B k
      [(jp, in_progress (tx_entries t @ [e]) (tx_journal_artifacts t @ new))] t'"
  proof (rule live_change [OF l p(1,2) _ j _ _ _ _ _ t'])
    show "own \<in> set (tx_installed t) \<and> io_path own \<noteq> p \<or> owned env ?N B (tx_recovery_artifacts t) own"
      if "own \<in> set (put_ownership \<lparr>io_path = p, io_identity = c, io_hash = hash\<rparr> (tx_installed t))" for own
      using that at hash p(1) pin c by (auto simp: owned_def candidate_def dest!: put_ownership_set)
  qed (use e at hash tmp in \<open>auto simp: settled_def installed_at_def put_ownership_def\<close>)
  thus ?thesis by simp
qed

lemma tidy_extend:
  assumes "live env v w N B k js t" "tidy N t" "set (tx_recovery_artifacts t') \<subseteq> set (tx_recovery_artifacts t) \<union> new"
    and "\<And>q s. N' q \<noteq> N q \<Longrightarrow> serial (name_of q) = Some s \<Longrightarrow> k \<le> s"
    and "\<And>a. a \<in> new \<Longrightarrow> is_candidate_identity_pin a \<or> N' a = None"
  shows "tidy N' t'"
  unfolding tidy_def
proof
  fix a assume a: "a \<in> set (tx_recovery_artifacts t')"
  show "is_candidate_identity_pin a \<or> N' a = None"
  proof (cases "a \<in> new")
    case False
    hence old: "a \<in> set (tx_recovery_artifacts t)" using a assms(3) by auto
    then obtain s where "serial (name_of a) = Some s" "s < k"
      using assms(1) by (auto simp: live_def drawn_before_def)
    hence "N' a = N a" using assms(4) [of a s] by auto
    thus ?thesis using old assms(2) by (auto simp: tidy_def)
  qed (use assms(5) in auto)
qed

lemma backed_install:
  assumes "backed t" "je_path e \<notin> je_path ` set (tx_entries t)" "\<not> je_desired_absent e" "backs_up t e t'"
    and "extends_tx t e new jp (put_ownership own (tx_installed t)) t'" "io_path own = je_path e"
  shows "backed t'"
proof -
  have "filter (\<lambda>y. io_path y \<noteq> je_path e) (tx_installed t) = tx_installed t"
    using assms(1,2) by (force simp: backed_def filter_id_conv)
  moreover have "je_path e \<notin> io_path ` set (tx_installed t)" using assms(1,2) by (auto simp: backed_def)
  ultimately show ?thesis
    using assms by (auto simp: backed_def backs_up_def extends_tx_def put_ownership_def)
qed

lemma backed_delete:
  assumes "backed t" "je_desired_absent e" "backs_up t e t'" "extends_tx t e new jp (tx_installed t) t'"
  shows "backed t'"
  using assms by (auto simp: backed_def backs_up_def extends_tx_def)

section \<open>Writing a new file\<close>

abbreviation new_arts :: "path \<Rightarrow> nat \<Rightarrow> path list" where
  "new_arts p k \<equiv> [temporary_name p k, pin_name p (Suc k)]"

abbreviation prepared_new :: "path \<Rightarrow> nat \<Rightarrow> nat \<Rightarrow> names \<Rightarrow> names" where
  "prepared_new p k c N \<equiv> N(temporary_name p k \<mapsto> c, pin_name p (Suc k) \<mapsto> c)"

abbreviation installed_new :: "path \<Rightarrow> nat \<Rightarrow> nat \<Rightarrow> names \<Rightarrow> names" where
  "installed_new p k c N \<equiv> N(pin_name p (Suc k) \<mapsto> c, p \<mapsto> c, temporary_name p k := None)"

abbreviation new_entry :: "environment \<Rightarrow> path \<Rightarrow> string \<Rightarrow> nat \<Rightarrow> journal_entry" where
  "new_entry env p data c \<equiv> entry_for p None (en_digest env data) False (Some c)"

abbreviation new_ownership :: "environment \<Rightarrow> path \<Rightarrow> string \<Rightarrow> nat \<Rightarrow> file_transaction \<Rightarrow> installed_ownership list" where
  "new_ownership env p data c t \<equiv> put_ownership \<lparr>io_path = p, io_identity = c, io_hash = en_digest env data\<rparr> (tx_installed t)"

abbreviation journal_with ::
  "file_transaction \<Rightarrow> journal_entry \<Rightarrow> path list \<Rightarrow> path \<Rightarrow> (path \<times> journal) list" where
  "journal_with t e new jp \<equiv> [(jp, in_progress (tx_entries t @ [e]) (tx_journal_artifacts t @ new))]"

abbreviation tracking :: "file_transaction \<Rightarrow> path list \<Rightarrow> file_transaction" where
  "tracking t new \<equiv> t\<lparr>tx_recovery_artifacts := tx_recovery_artifacts t @ new\<rparr>"

text \<open>What a write has to start with, and the inode of its candidate.\<close>

definition target_free ::
  "environment \<Rightarrow> view \<Rightarrow> view \<Rightarrow> names \<Rightarrow> store \<Rightarrow> nat \<Rightarrow> (path \<times> journal) list \<Rightarrow> file_transaction \<Rightarrow> path \<Rightarrow> bool" where
  "target_free env v w N B k js t p \<longleftrightarrow> live env v w N B k js t \<and> is_plain p
     \<and> p \<notin> je_path ` set (tx_entries t) \<and> safe_dir env (dir_of p)"

lemma target_freeD:
  assumes "target_free env v w N B k js t p"
  shows "live env v w N B k js t" "is_plain p" "p \<notin> je_path ` set (tx_entries t)" "safe_dir env (dir_of p)"
    "seen N B p = v p" "fresh_names N k" "tx_journal_root t \<noteq> None"
    "tx_journal_path t' = tx_journal_path t \<Longrightarrow> tx_journal_root t' = tx_journal_root t \<Longrightarrow> bound_journal t' js"
  using assms live_unchanged [of env v w N B k js t p] live_bound [of env v w N B k js t]
  by (auto simp: target_free_def live_def bound_journal_def)

lemma live_generated:
  "live env v w N B k js t \<Longrightarrow> serial (name_of q) = Some s \<Longrightarrow> k \<le> s \<Longrightarrow> s < k' \<Longrightarrow> live env v w (N(q := x)) B k' js t"
  by (erule live_fresh) auto

lemma live_candidate_written:
  "live env v w N B k js t \<Longrightarrow> c \<notin> ran N \<Longrightarrow> Suc k \<le> k' \<Longrightarrow> live env v w (N(temporary_name p k \<mapsto> c)) (B(c := b)) k' js t"
  by (erule live_fresh [where s = k]) auto

lemma live_tracking:
  "live env v w N B k js t \<Longrightarrow> drawn_before k new \<Longrightarrow> live env v w N B k js (tracking t new)"
  by (rule live_artifacts) (auto simp: live_def drawn_before_def)

lemma journal_artifacts_generated:
  "live env v w N B k js t \<Longrightarrow> serial (name_of a) = Some s \<Longrightarrow> k \<le> s \<Longrightarrow> a \<notin> set (tx_journal_artifacts t)"
  using live_artifact_drawn by fastforce

lemma prepared_new_live:
  assumes "target_free env v w N B k js t p" "c \<notin> ran N" "Suc (Suc k) \<le> k'"
  shows "live env v w (prepared_new p k c N) (B(c := data)) k' js (tracking t (new_arts p k))"
proof -
  have "live env v w (N(temporary_name p k \<mapsto> c)) (B(c := data)) (Suc k) js t"
    using target_freeD(1) [OF assms(1)] assms(2) by (rule live_candidate_written) simp
  hence "live env v w (prepared_new p k c N) (B(c := data)) k' js t"
    by (rule live_generated) (use assms(3) in auto)
  thus ?thesis by (rule live_tracking) (use assms(3) in \<open>auto simp: drawn_before_def\<close>)
qed

lemma prepared_new_candidate:
  assumes t: "target_free env v w N B k js t p"
  shows "candidate env (prepared_new p k c N) (B(c := data)) c (tracking t (new_arts p k)) (new_arts p k)
    (new_entry env p data c) (temporary_name p k)"
  using target_freeD(4) [OF t] journal_artifacts_generated [OF target_freeD(1) [OF t]]
  by (auto simp: candidate_def pinned_def artifact_ok_single)

lemma prepared_new_intent:
  assumes "target_free env v w N B k js t p" "v p = None" "c \<notin> ran N" "Suc (Suc k) \<le> k'"
  shows "undoable env v (prepared_new p k c N) (B(c := data)) k' (journal_with t (new_entry env p data c) (new_arts p k) jp)"
proof -
  note l = prepared_new_live [OF assms(1,3,4), of data] and t = target_freeD [OF assms(1)]
  have "journal_ok env v (prepared_new p k c N) (B(c := data)) k' (tx_entries t @ [new_entry env p data c])
      (tx_journal_artifacts t @ new_arts p k)"
    using live_intent_candidate [OF l t(2) _ t(4) _ prepared_new_candidate [OF assms(1)]] t(3) assms(2) by simp
  thus ?thesis using l by (auto simp: undoable_def live_def)
qed

lemma installed_new_live:
  assumes "target_free env v w N B k js t p" "v p = None" "c \<notin> ran N" "Suc (Suc k) \<le> k'"
    and "extends_tx t (new_entry env p data c) (new_arts p k) jp (new_ownership env p data c t) t'"
      "tx_recovery_artifacts t' = tx_recovery_artifacts t @ new_arts p k"
  shows "live env v (w(p \<mapsto> data)) (installed_new p k c N) (B(c := data)) k'
    (journal_with t (new_entry env p data c) (new_arts p k) jp) t'"
  using live_install [OF prepared_new_live [OF assms(1,3,4)] target_freeD(2) [OF assms(1)] _ target_freeD(4) [OF assms(1)] _
      prepared_new_candidate [OF assms(1)], where jp = jp and t' = t'] target_freeD(3) [OF assms(1)] assms(2,5,6)
  by (simp add: extends_tx_def)

lemma installed_new_undoable:
  assumes "target_free env v w N B k js t p" "v p = None" "c \<notin> ran N" "Suc (Suc k) \<le> k'"
  shows "undoable env v (installed_new p k c N) (B(c := data)) k' (journal_with t (new_entry env p data c) (new_arts p k) jp)"
  by (rule live_undoable, rule installed_new_live [OF assms, of _ _ "t\<lparr>tx_entries := tx_entries t @ [new_entry env p data c],
      tx_journal_artifacts := tx_journal_artifacts t @ new_arts p k, tx_journal_path := Some jp,
      tx_installed := new_ownership env p data c t, tx_recovery_artifacts := tx_recovery_artifacts t @ new_arts p k\<rparr>"])
    (simp_all add: extends_tx_def)

lemma installed_new_idle:
  assumes "idle env v w ps N B k js t" "target_free env v w N B k js t p" "v p = None" "c \<notin> ran N" "Suc (Suc k) \<le> k'"
    and ext: "extends_tx t (new_entry env p data c) (new_arts p k) jp (new_ownership env p data c t) t'"
      "tx_recovery_artifacts t' = tx_recovery_artifacts t @ new_arts p k" "backs_up t (new_entry env p data c) t'"
  shows "idle env v (w(p \<mapsto> data)) (insert p ps) (installed_new p k c N) (B(c := data)) k'
    (journal_with t (new_entry env p data c) (new_arts p k) jp) t'"
proof -
  note p = target_freeD(2) [OF assms(2)]
  have "tidy (installed_new p k c N) t'"
  proof (rule tidy_extend [OF target_freeD(1) [OF assms(2)], where new = "set (new_arts p k)"])
    show "k \<le> s" if "installed_new p k c N q \<noteq> N q" "serial (name_of q) = Some s" for q s
      using that p by (auto simp: is_plain_def fun_upd_def split: if_splits)
  qed (use assms(1) ext(2) plain_differs(5) [OF p, of p "Suc k"] in \<open>auto simp: idle_def\<close>)
  moreover have "backed t'"
    by (rule backed_install [OF _ _ _ ext(3,1)])
      (use assms(1) target_freeD(3) [OF assms(2)] in \<open>auto simp: idle_def\<close>)
  ultimately show ?thesis
    using installed_new_live [OF assms(2-5) ext(1,2)] assms(1) ext(1) by (simp add: idle_def extends_tx_def)
qed

lemma idle_target_free:
  "idle env v w ps N B k js t \<Longrightarrow> is_plain p \<Longrightarrow> p \<notin> ps \<Longrightarrow> safe_dir env (dir_of p) \<Longrightarrow> target_free env v w N B k js t p"
  by (simp add: idle_def target_free_def)

lemma mens_write_new:
  assumes env: "faultless env" "fresh_inodes env" and i: "idle env v w ps N B k js t"
    and p: "is_plain p" "p \<notin> ps" "safe_dir env (dir_of p)" "v p = None"
  shows "mens (at_crash env (undoable env v)) (write_new env p data) (\<lambda>_. idle env v (w(p \<mapsto> data)) (insert p ps))
    (\<lambda>_ _ _ _ _ _. False) N B k js t"
proof -
  have t: "target_free env v w N B k js t p" using i p by (intro idle_target_free)
  note l = target_freeD(1) [OF t] and fresh = generated_fresh [OF target_freeD(6) [OF t]]
  have now: "undoable env v N B k js" "undoable env v N B (Suc k) js"
    using live_undoable [OF l] live_undoable [OF live_later [OF l, of "Suc k"]] by simp_all
  have "undoable env v (N(temporary_name p k \<mapsto> c)) (B(c := b)) (Suc k) js"
    "undoable env v (N(temporary_name p k \<mapsto> c)) (B(c := b)) (Suc (Suc k)) js"
    "Suc (Suc k) \<le> k' \<Longrightarrow> undoable env v (prepared_new p k c N) (B(c := data)) k' js" if "c \<notin> ran N" for c b k'
    using that live_undoable [OF live_candidate_written [OF l that]] live_undoable [OF prepared_new_live [OF t that]] by simp_all
  note crash = this prepared_new_intent [OF t p(4)] installed_new_undoable [OF t p(4)]
  have "N p = None" using target_freeD(5) [OF t] p(4) by (simp add: seen_def)
  note side = env now crash fresh this plain_differs [OF p(1)] target_freeD(7,8) [OF t]
  show ?thesis
    unfolding write_new_def write_new_stream_def copy_synced_temp_def digest_bytes_def push_backup_def
    apply (simp only: simp_thms if_True)
    apply (intro mens_chain mens_disk_op dens_temp mens_track dens_identity_the mens_pin mens_sync_pin mens_stage
      mens_record_intent refl mens_attempt mens_on_disk dens_publish mens_case_sum mens_update_tx mens_capture dens_sync)
    apply (simp_all add: side pin_name_def [of "temporary_name p k"] pin_name_def [of p, symmetric])
    apply (auto simp: side extends_tx_def backs_up_def intro!: installed_new_idle [OF i t p(4)])
    done
qed

section \<open>Replacing a file\<close>

text \<open>
  The one state that the journal cannot undo: the names of the candidate and of the target were
  exchanged, and the displaced file is still under the name of the candidate.
\<close>

definition mid_exchange :: "environment \<Rightarrow> names \<Rightarrow> store \<Rightarrow> (path \<times> journal) list \<Rightarrow> bool" where
  "mid_exchange env N B js \<longleftrightarrow> (\<exists>jp es arts a rest e i. js = [(jp, in_progress es (arts @ a # rest))]
     \<and> distinct (arts @ [a]) \<and> (\<forall>b\<in>set (arts @ [a]). en_safe_target env b)
     \<and> (\<forall>b\<in>set arts. artifact_ok env N B es b)
     \<and> artifact_associations env es a = [(e, CandidateKind)] \<and> e \<in> set es
     \<and> N a = Some i \<and> je_installed_identity e \<noteq> Some i
     \<and> dir_of a = dir_of (je_path e) \<and> (\<exists>s. name_of a = Temporary (name_of (je_path e)) s))"

definition crash_ok ::
  "environment \<Rightarrow> view \<Rightarrow> names \<Rightarrow> store \<Rightarrow> nat \<Rightarrow> (path \<times> journal) list \<Rightarrow> bool" where
  "crash_ok env v N B k js \<longleftrightarrow> undoable env v N B k js \<or> mid_exchange env N B js"

lemma live_crash_ok: "live env v w N B k js t \<Longrightarrow> crash_ok env v N B k js"
  by (simp add: crash_ok_def live_undoable)

lemma artifact_ok_safe:
  assumes "journal_ok env v N B k es arts" "a \<in> set arts"
  shows "en_safe_target env a"
proof -
  have "artifact_associations env es a \<noteq> []"
    using assms by (simp add: journal_ok_def artifacts_ok_def artifact_ok_def)
  then obtain e where "e \<in> set es" "dir_of (je_path e) = dir_of a"
    by (auto simp: artifact_associations_def List.map_filter_def filter_empty_conv split: if_splits)
  moreover from this have "safe_dir env (dir_of (je_path e))" using assms(1) by (auto simp: journal_ok_def entry_ok_def)
  ultimately show ?thesis by (cases a) (simp add: safe_dir_def)
qed

lemma temporary_associations:
  assumes "dir_of a = dir_of p" "name_of a = Temporary (name_of p) s" "p \<notin> je_path ` set es"
  shows "artifact_associations env es a = []"
proof -
  have "je_path e = p" if "e \<in> set es" "dir_of (je_path e) = dir_of a" "name_of (je_path e) = name_of p" for e
    using that assms(1) by (cases p; cases "je_path e") auto
  hence "\<not> (dir_of (je_path e) = dir_of a \<and> name_of (je_path e) = name_of p)" if "e \<in> set es" for e
    using that assms(3) by auto
  thus ?thesis using assms(2)
    by (fastforce simp: artifact_associations_def List.map_filter_def journal_artifact_kind_of_def filter_empty_conv
        split: if_splits)
qed

lemma mid_exchangeI:
  assumes j: "journal_ok env v N B k (es @ [e]) (arts @ tmp # rest)"
    and p: "je_path e = p" "dir_of tmp = dir_of p" "name_of tmp = Temporary (name_of p) s" "safe_dir env (dir_of p)"
    and e: "\<not> je_desired_absent e" "je_installed_identity e \<noteq> Some i"
    and N: "\<And>q. q \<in> set arts \<Longrightarrow> N' q = N q" "N' tmp = Some i"
  shows "mid_exchange env N' B [(jp, in_progress (es @ [e]) (arts @ tmp # rest))]"
proof -
  have d: "distinct (arts @ [tmp])" "p \<notin> je_path ` set es" using j p(1) by (auto simp: journal_ok_def artifacts_ok_def)
  have ok: "artifact_ok env N' B (es @ [e]) b" if "b \<in> set arts" for b
    using that j N(1) [OF that] by (simp add: journal_ok_def artifacts_ok_def artifact_ok_def)
  have "artifact_associations env [e] tmp = [(e, CandidateKind)]"
    using p by (cases p)
      (simp add: artifact_associations_def List.map_filter_def safe_dir_def journal_artifact_kind_of_def)
  hence "artifact_associations env (es @ [e]) tmp = [(e, CandidateKind)]"
    using temporary_associations [OF p(2,3) d(2)] by (simp add: artifact_associations_append)
  moreover have "\<forall>b\<in>set (arts @ [tmp]). en_safe_target env b" using artifact_ok_safe [OF j] by auto
  ultimately show ?thesis
    unfolding mid_exchange_def using d(1) ok e(2) N(2) p
    by (intro exI [of _ jp] exI [of _ "es @ [e]"] exI [of _ arts] exI [of _ tmp] exI [of _ rest] exI [of _ e] exI [of _ i])
      simp
qed

abbreviation replacement_arts :: "path \<Rightarrow> nat \<Rightarrow> path list" where
  "replacement_arts p k \<equiv> [temporary_name p k, original_guard_name p (Suc k), pin_name p (Suc (Suc k))]"

abbreviation prepared_replacement :: "path \<Rightarrow> nat \<Rightarrow> nat \<Rightarrow> names \<Rightarrow> names" where
  "prepared_replacement p k c N \<equiv>
     N(temporary_name p k \<mapsto> c, original_guard_name p (Suc k) := N p, pin_name p (Suc (Suc k)) \<mapsto> c)"

abbreviation replaced :: "path \<Rightarrow> nat \<Rightarrow> nat \<Rightarrow> names \<Rightarrow> names" where
  "replaced p k c N \<equiv>
     N(original_guard_name p (Suc k) := N p, pin_name p (Suc (Suc k)) \<mapsto> c, p \<mapsto> c, temporary_name p k := None)"

abbreviation replaced_clean :: "path \<Rightarrow> nat \<Rightarrow> nat \<Rightarrow> names \<Rightarrow> names" where
  "replaced_clean p k c N \<equiv>
     N(pin_name p (Suc (Suc k)) \<mapsto> c, p \<mapsto> c, temporary_name p k := None, original_guard_name p (Suc k) := None)"

abbreviation replacement_entry_of :: "environment \<Rightarrow> path \<Rightarrow> string \<Rightarrow> string \<Rightarrow> nat \<Rightarrow> journal_entry" where
  "replacement_entry_of env p old data c \<equiv> entry_for p (Some old) (en_digest env data) False (Some c)"

text \<open>The file to replace and the inode of the candidate.\<close>

definition replacing ::
  "environment \<Rightarrow> view \<Rightarrow> view \<Rightarrow> names \<Rightarrow> store \<Rightarrow> nat \<Rightarrow> (path \<times> journal) list \<Rightarrow> file_transaction
     \<Rightarrow> path \<Rightarrow> string \<Rightarrow> string \<Rightarrow> nat \<Rightarrow> bool" where
  "replacing env v w N B k js t p old data c \<longleftrightarrow> target_free env v w N B k js t p \<and> v p = Some old
     \<and> c \<notin> ran N \<and> (en_digest env old = en_digest env data \<longrightarrow> data = old)"

lemma replacingD:
  assumes "replacing env v w N B k js t p old data c"
  shows "target_free env v w N B k js t p" "v p = Some old" "c \<notin> ran N"
    "en_digest env old = en_digest env data \<Longrightarrow> data = old" "\<exists>i. N p = Some i \<and> B i = old \<and> i \<noteq> c"
  using assms target_freeD(5) [of env v w N B k js t p]
  by (auto simp: replacing_def seen_def ran_def)

lemma prepared_replacement_live:
  assumes r: "replacing env v w N B k js t p old data c" and k': "Suc (Suc (Suc k)) \<le> k'"
  shows "live env v w (prepared_replacement p k c N) (B(c := data)) k' js (tracking t (replacement_arts p k))"
proof -
  have "live env v w (N(temporary_name p k \<mapsto> c)) (B(c := data)) (Suc k) js t"
    using target_freeD(1) [OF replacingD(1) [OF r]] replacingD(3) [OF r] by (rule live_candidate_written) simp
  hence "live env v w (N(temporary_name p k \<mapsto> c, original_guard_name p (Suc k) := N p)) (B(c := data)) (Suc (Suc k)) js t"
    by (rule live_generated) auto
  hence "live env v w (prepared_replacement p k c N) (B(c := data)) k' js t"
    by (rule live_generated) (use k' in auto)
  thus ?thesis by (rule live_tracking) (use k' in \<open>auto simp: drawn_before_def\<close>)
qed

lemma prepared_replacement_candidate:
  assumes r: "replacing env v w N B k js t p old data c"
  shows "candidate env (prepared_replacement p k c N) (B(c := data)) c (tracking t (replacement_arts p k))
    (replacement_arts p k) (replacement_entry_of env p old data c) (temporary_name p k)"
proof -
  note t = replacingD(1) [OF r]
  obtain i where i: "N p = Some i" "B i = old" "i \<noteq> c" using replacingD(5) [OF r] by auto
  have "artifact_ok env (prepared_replacement p k c N) (B(c := data)) [replacement_entry_of env p old data c] a"
    if "a \<in> set (replacement_arts p k)" for a
    using that i target_freeD(4) [OF t] by (auto simp: artifact_ok_single)
  thus ?thesis using journal_artifacts_generated [OF target_freeD(1) [OF t]]
    by (auto simp: candidate_def pinned_def)
qed

lemma prepared_replacement_journal:
  assumes r: "replacing env v w N B k js t p old data c" and k': "Suc (Suc (Suc k)) \<le> k'"
  shows "journal_ok env v (prepared_replacement p k c N) (B(c := data)) k'
    (tx_entries t @ [replacement_entry_of env p old data c]) (tx_journal_artifacts t @ replacement_arts p k)"
proof -
  note t = target_freeD [OF replacingD(1) [OF r]]
  show ?thesis
    using live_intent_candidate [OF prepared_replacement_live [OF r k'] t(2) _ t(4) _ prepared_replacement_candidate [OF r]]
      t(3) replacingD(2) [OF r] by simp
qed

lemma prepared_replacement_undoable:
  assumes r: "replacing env v w N B k js t p old data c" and k': "Suc (Suc (Suc k)) \<le> k'"
  shows "undoable env v (prepared_replacement p k c N) (B(c := data)) k'
    (journal_with t (replacement_entry_of env p old data c) (replacement_arts p k) jp)"
  using prepared_replacement_journal [OF r k'] prepared_replacement_live [OF r k']
  by (auto simp: undoable_def live_def)

text \<open>The torn state: the target has the candidate, the candidate's name has the displaced file.\<close>

lemma exchanged_replacement_torn:
  assumes r: "replacing env v w N B k js t p old data c" and k': "Suc (Suc (Suc k)) \<le> k'"
  shows "mid_exchange env (N(original_guard_name p (Suc k) := N p, pin_name p (Suc (Suc k)) \<mapsto> c, p \<mapsto> c, temporary_name p k := N p))
    (B(c := data)) (journal_with t (replacement_entry_of env p old data c) (replacement_arts p k) jp)"
proof -
  note t = target_freeD [OF replacingD(1) [OF r]]
  obtain i where i: "N p = Some i" "i \<noteq> c" using replacingD(5) [OF r] by auto
  have "q \<noteq> temporary_name p k \<and> q \<noteq> original_guard_name p (Suc k) \<and> q \<noteq> pin_name p (Suc (Suc k)) \<and> q \<noteq> p"
    if "q \<in> set (tx_journal_artifacts t)" for q
    using live_artifact_drawn [OF t(1) that] t(2) by (auto simp: is_plain_def)
  thus ?thesis
    by (intro mid_exchangeI [OF prepared_replacement_journal [OF r k'], where i = i and p = p and s = k])
      (use t(4) i in auto)
qed

lemma replaced_live:
  assumes r: "replacing env v w N B k js t p old data c" and k': "Suc (Suc (Suc k)) \<le> k'"
    and ext: "extends_tx t (replacement_entry_of env p old data c) (replacement_arts p k) jp (new_ownership env p data c t) t'"
      "tx_recovery_artifacts t' = tx_recovery_artifacts t @ replacement_arts p k"
  shows "live env v (w(p \<mapsto> data)) (replaced p k c N) (B(c := data)) k'
    (journal_with t (replacement_entry_of env p old data c) (replacement_arts p k) jp) t'"
proof -
  note t = target_freeD [OF replacingD(1) [OF r]]
  show ?thesis
    using live_install [OF prepared_replacement_live [OF r k'] t(2) _ t(4) _ prepared_replacement_candidate [OF r],
        where jp = jp and t' = t' and hash = "en_digest env data"]
      t(3) replacingD(2) [OF r] replacingD(4) [OF r, THEN sym] ext
    by (simp add: extends_tx_def)
qed

lemma replaced_clean_live:
  assumes r: "replacing env v w N B k js t p old data c" and k': "Suc (Suc (Suc k)) \<le> k'"
    and ext: "extends_tx t (replacement_entry_of env p old data c) (replacement_arts p k) jp (new_ownership env p data c t) t'"
      "tx_recovery_artifacts t' = filter (\<lambda>a. a \<noteq> temporary_name p k \<and> a \<noteq> original_guard_name p (Suc k)) (tx_recovery_artifacts t)
        @ [pin_name p (Suc (Suc k))]"
  shows "live env v (w(p \<mapsto> data)) (replaced_clean p k c N) (B(c := data)) k'
    (journal_with t (replacement_entry_of env p old data c) (replacement_arts p k) jp) t'"
proof -
  let ?t = "t'\<lparr>tx_recovery_artifacts := tx_recovery_artifacts t @ replacement_arts p k\<rparr>"
  have "live env v (w(p \<mapsto> data)) (replaced p k c N) (B(c := data)) k'
    (journal_with t (replacement_entry_of env p old data c) (replacement_arts p k) jp) ?t"
    by (rule replaced_live [OF r k']) (use ext in \<open>simp_all add: extends_tx_def\<close>)
  from live_drop [OF this, of "original_guard_name p (Suc k)"]
  have "live env v (w(p \<mapsto> data)) (replaced_clean p k c N) (B(c := data)) k'
    (journal_with t (replacement_entry_of env p old data c) (replacement_arts p k) jp) ?t" by simp
  thus ?thesis by (rule live_retrack) (use ext(2) in auto)
qed

lemma replaced_clean_idle:
  assumes i: "idle env v w ps N B k js t" and r: "replacing env v w N B k js t p old data c" and k': "Suc (Suc (Suc k)) \<le> k'"
    and ext: "extends_tx t (replacement_entry_of env p old data c) (replacement_arts p k) jp (new_ownership env p data c t) t'"
      "tx_recovery_artifacts t' = filter (\<lambda>a. a \<noteq> temporary_name p k \<and> a \<noteq> original_guard_name p (Suc k)) (tx_recovery_artifacts t)
        @ [pin_name p (Suc (Suc k))]"
      "backs_up t (replacement_entry_of env p old data c) t'"
  shows "idle env v (w(p \<mapsto> data)) (insert p ps) (replaced_clean p k c N) (B(c := data)) k'
    (journal_with t (replacement_entry_of env p old data c) (replacement_arts p k) jp) t'"
proof -
  note t = target_freeD [OF replacingD(1) [OF r]]
  have "tidy (replaced_clean p k c N) t'"
  proof (rule tidy_extend [OF t(1), where new = "{pin_name p (Suc (Suc k))}"])
    show "k \<le> s" if "replaced_clean p k c N q \<noteq> N q" "serial (name_of q) = Some s" for q s
      using that t(2) by (auto simp: is_plain_def fun_upd_def split: if_splits)
  qed (use i ext(2) in \<open>auto simp: idle_def\<close>)
  moreover have "backed t'"
    by (rule backed_install [OF _ _ _ ext(3,1)]) (use i t(3) in \<open>auto simp: idle_def\<close>)
  ultimately show ?thesis
    using replaced_clean_live [OF r k' ext(1,2)] i ext(1) by (simp add: idle_def extends_tx_def)
qed

lemma replacing_crash:
  assumes r: "replacing env v w N B k js t p old data c"
  defines "js' \<equiv> \<lambda>jp. journal_with t (replacement_entry_of env p old data c) (replacement_arts p k) jp"
  shows "Suc k \<le> k' \<Longrightarrow> crash_ok env v (N(temporary_name p k \<mapsto> c)) (B(c := b)) k' js"
    and "Suc (Suc k) \<le> k'
      \<Longrightarrow> crash_ok env v (N(temporary_name p k \<mapsto> c, original_guard_name p (Suc k) := N p)) (B(c := data)) k' js"
    and "Suc (Suc (Suc k)) \<le> k' \<Longrightarrow> crash_ok env v (prepared_replacement p k c N) (B(c := data)) k' js"
    and "Suc (Suc (Suc k)) \<le> k' \<Longrightarrow> crash_ok env v (prepared_replacement p k c N) (B(c := data)) k' (js' jp)"
    and "Suc (Suc (Suc k)) \<le> k' \<Longrightarrow> crash_ok env v (N(original_guard_name p (Suc k) := N p, pin_name p (Suc (Suc k)) \<mapsto> c,
      p \<mapsto> c, temporary_name p k := N p)) (B(c := data)) k' (js' jp)"
    and "Suc (Suc (Suc k)) \<le> k' \<Longrightarrow> crash_ok env v (replaced p k c N) (B(c := data)) k' (js' jp)"
    and "Suc (Suc (Suc k)) \<le> k' \<Longrightarrow> crash_ok env v (replaced_clean p k c N) (B(c := data)) k' (js' jp)"
    and "Suc (Suc (Suc k)) \<le> k' \<Longrightarrow> crash_ok env v ((replaced_clean p k c N)(bound_delete_name q k' := N p)) (B(c := data)) (Suc k') (js' jp)"
proof -
  note l = target_freeD(1) [OF replacingD(1) [OF r]] and ran = replacingD(3,5) [OF r]
  define t' where "t' jp arts = t\<lparr>tx_entries := tx_entries t @ [replacement_entry_of env p old data c], tx_journal_path := Some jp,
    tx_journal_artifacts := tx_journal_artifacts t @ replacement_arts p k, tx_installed := new_ownership env p data c t,
    tx_recovery_artifacts := arts\<rparr>" for jp arts
  have ext: "extends_tx t (replacement_entry_of env p old data c) (replacement_arts p k) jp (new_ownership env p data c t) (t' jp arts)"
    for jp arts by (simp add: t'_def extends_tx_def)
  { assume "Suc k \<le> k'"
    thus "crash_ok env v (N(temporary_name p k \<mapsto> c)) (B(c := b)) k' js"
      by (rule live_crash_ok [OF live_candidate_written [OF l ran(1)]]) }
  { assume "Suc (Suc k) \<le> k'"
    thus "crash_ok env v (N(temporary_name p k \<mapsto> c, original_guard_name p (Suc k) := N p)) (B(c := data)) k' js"
      by (intro live_crash_ok [OF live_generated [OF live_candidate_written [OF l ran(1), of "Suc k"], of _ "Suc k"]]) auto }
  assume k': "Suc (Suc (Suc k)) \<le> k'"
  show "crash_ok env v (prepared_replacement p k c N) (B(c := data)) k' js"
    by (rule live_crash_ok [OF prepared_replacement_live [OF r k']])
  show "crash_ok env v (prepared_replacement p k c N) (B(c := data)) k' (js' jp)"
    using prepared_replacement_undoable [OF r k'] by (simp add: crash_ok_def js'_def)
  show "crash_ok env v (N(original_guard_name p (Suc k) := N p, pin_name p (Suc (Suc k)) \<mapsto> c,
      p \<mapsto> c, temporary_name p k := N p)) (B(c := data)) k' (js' jp)"
    using exchanged_replacement_torn [OF r k'] by (simp add: crash_ok_def js'_def)
  show "crash_ok env v (replaced p k c N) (B(c := data)) k' (js' jp)"
    unfolding js'_def by (rule live_crash_ok [OF replaced_live [OF r k' ext]]) (simp add: t'_def)
  note clean = replaced_clean_live [OF r k' ext]
  show "crash_ok env v (replaced_clean p k c N) (B(c := data)) k' (js' jp)"
    unfolding js'_def by (rule live_crash_ok [OF clean]) (simp add: t'_def)
  show "crash_ok env v ((replaced_clean p k c N)(bound_delete_name q k' := N p)) (B(c := data)) (Suc k') (js' jp)"
    unfolding js'_def by (rule live_crash_ok [OF live_generated [OF clean, where s = k']]) (simp_all add: t'_def)
qed

lemma mens_replace:
  assumes env: "faultless env" "fresh_inodes env" and i: "idle env v w ps N B k js t"
    and p: "is_plain p" "p \<notin> ps" "safe_dir env (dir_of p)" "v p = Some old"
    and hash: "hash = en_digest env old" "hash = en_digest env data \<Longrightarrow> data = old"
  shows "mens (at_crash env (crash_ok env v)) (write_if_hash_matches env p data hash)
    (\<lambda>_. idle env v (w(p \<mapsto> data)) (insert p ps)) (\<lambda>_ _ _ _ _ _. False) N B k js t"
proof -
  have t: "target_free env v w N B k js t p" using i p by (intro idle_target_free)
  note l = target_freeD(1) [OF t] and fresh = generated_fresh [OF target_freeD(6) [OF t]]
  have r: "replacing env v w N B k js t p old data c" if "c \<notin> ran N" for c
    using that t p(4) hash by (simp add: replacing_def)
  obtain i0 where i0: "N p = Some i0" "B i0 = old" using target_freeD(5) [OF t] p(4) by (auto simp: seen_def)
  have c0: "c \<noteq> i0" "i0 \<noteq> c" if "c \<notin> ran N" for c using that i0(1) by (auto simp: ran_def)
  have now: "crash_ok env v N B k js" "crash_ok env v N B (Suc k) js"
    using live_crash_ok [OF l] live_crash_ok [OF live_later [OF l, of "Suc k"]] by simp_all
  note side = env now replacing_crash [OF r, unfolded i0(1)] fresh plain_differs [OF p(1)] i0 c0 hash(1) target_freeD(7,8) [OF t]
  show ?thesis
    unfolding write_if_hash_matches_def write_synced_temp_def digest_bytes_def push_backup_def untrack_artifact_def
    apply (intro mens_chain mens_disk_op dens_temp mens_prepare_guard dens_identity_the mens_attempt mens_on_disk dens_read_the
      mens_if mens_case_sum mens_pin mens_sync_pin mens_stage mens_record_intent refl dens_replace_checked mens_update_tx
      mens_capture dens_sync mens_cleanup_cases)
    apply (simp_all add: side pin_name_def [of "temporary_name p k"] pin_name_def [of p, symmetric])
    apply (simp_all add: side extends_tx_def backs_up_def replaced_clean_idle [OF i r, unfolded i0(1)])
    done
qed

section \<open>Removing a file\<close>

lemma mens_record_delete_intent:
  assumes "faultless env" "bound_journal t js" "e = entry_for p (Some previous) (en_digest env []) True None"
    and "\<And>k'. k \<le> k' \<Longrightarrow> crashless env \<or> C N B k' js"
    and "\<And>jp k'. k \<le> k' \<Longrightarrow> crashless env \<or> C N B k' [(jp, in_progress (tx_entries t @ [e]) (tx_journal_artifacts t))]"
    and "\<And>jp k'. k \<le> k' \<Longrightarrow> Q () N B k' [(jp, in_progress (tx_entries t @ [e]) (tx_journal_artifacts t))]
      (t\<lparr>tx_entries := tx_entries t @ [e], tx_journal_path := Some jp\<rparr>)"
  shows "mens C (record_delete_intent env p previous) Q E N B k js t"
  unfolding record_delete_intent_def digest_bytes_def entry_for_def [symmetric] assms(3) [symmetric]
  using assms(1,2,4-6) by (rule mens_publish_intent)

lemma live_delete:
  assumes l: "live env v w N B k js t" and p: "is_plain p" "p \<notin> je_path ` set (tx_entries t)" "safe_dir env (dir_of p)"
    and e: "e = entry_for p (v p) hash True None"
    and j: "journal_ok env v N B k (tx_entries t @ [e]) (tx_journal_artifacts t @ new)" and v: "v p \<noteq> None"
    and t': "extends_tx t e new jp (tx_installed t) t'" "tx_recovery_artifacts t' = tx_recovery_artifacts t"
  shows "live env v (w(p := None)) (N(p := None)) B k
    [(jp, in_progress (tx_entries t @ [e]) (tx_journal_artifacts t @ new))] t'"
proof -
  define a where "a = Path [] (BoundDelete k)"
  have a: "\<not> is_plain a" "\<not> is_candidate_identity_pin a" "N a = None"
    using l by (auto simp: a_def is_plain_def is_candidate_identity_pin_def live_def intro: fresh_name)
  hence upd: "N(p := None, a := None) = N(p := None)" using p(1) by (auto simp: fun_eq_iff)
  have ok: "entry_ok env v (N(p := None)) B (tx_journal_artifacts t @ new) e"
    using p e v by (simp add: entry_ok_def)
  have "journal_ok env v (N(p := None, a := None)) B k (tx_entries t @ [e]) (tx_journal_artifacts t @ new)"
    using e a ok upd by (intro journal_ok_change [OF j]) auto
  moreover have "own \<in> set (tx_installed t) \<and> io_path own \<noteq> p" if "own \<in> set (tx_installed t)" for own
    using that l p(2) by (auto simp: live_def)
  ultimately have "live env v (w(p := map_option B None)) (N(p := None, a := None)) B k
    [(jp, in_progress (tx_entries t @ [e]) (tx_journal_artifacts t @ new))] t'"
    using e by (intro live_change [OF l p(1,2) _ _ a(1,2) _ _ _ t']) (auto simp: settled_def)
  thus ?thesis by (simp add: upd)
qed

abbreviation guarded_delete :: "path \<Rightarrow> nat \<Rightarrow> names \<Rightarrow> names" where
  "guarded_delete p k N \<equiv> N(delete_guard_name p k := N p)"

abbreviation deleted :: "path \<Rightarrow> nat \<Rightarrow> names \<Rightarrow> names" where
  "deleted p k N \<equiv> N(delete_guard_name p k := N p, p := None)"

abbreviation deleted_clean :: "path \<Rightarrow> nat \<Rightarrow> names \<Rightarrow> names" where
  "deleted_clean p k N \<equiv> N(p := None, delete_guard_name p k := None)"

abbreviation delete_entry :: "environment \<Rightarrow> path \<Rightarrow> string \<Rightarrow> journal_entry" where
  "delete_entry env p old \<equiv> entry_for p (Some old) (en_digest env []) True None"

lemma guarded_delete_live:
  assumes "target_free env v w N B k js t p" "Suc k \<le> k'"
  shows "live env v w (guarded_delete p k N) B k' js (tracking t [delete_guard_name p k])"
proof -
  have "live env v w (guarded_delete p k N) B k' js t"
    by (rule live_generated [OF target_freeD(1) [OF assms(1)], where s = k]) (use assms(2) in auto)
  thus ?thesis by (rule live_tracking) (use assms(2) in \<open>auto simp: drawn_before_def\<close>)
qed

lemma guarded_delete_journal:
  assumes a: "target_free env v w N B k js t p" "v p = Some old" "Suc k \<le> k'"
  shows "journal_ok env v (guarded_delete p k N) B k' (tx_entries t @ [delete_entry env p old])
    (tx_journal_artifacts t @ [delete_guard_name p k])"
proof -
  note t = target_freeD [OF a(1)]
  obtain i where "N p = Some i" "B i = old" using t(5) a(2) by (auto simp: seen_def)
  hence "artifact_ok env (guarded_delete p k N) B [delete_entry env p old] (delete_guard_name p k)"
    using t(4) by (simp add: artifact_ok_single)
  thus ?thesis
    using live_intent [OF guarded_delete_live [OF a(1,3)] t(2) _ t(4), of "delete_entry env p old" "en_digest env []" True None
        "[delete_guard_name p k]"]
      journal_artifacts_generated [OF t(1), of "delete_guard_name p k" k] a(2,3) t(3)
    by (auto simp: drawn_before_def)
qed

lemma deleted_live:
  assumes a: "target_free env v w N B k js t p" "v p = Some old" "Suc k \<le> k'"
    and ext: "extends_tx t (delete_entry env p old) [delete_guard_name p k] jp (tx_installed t) t'"
      "tx_recovery_artifacts t' = tx_recovery_artifacts t @ [delete_guard_name p k]"
  shows "live env v (w(p := None)) (deleted p k N) B k' (journal_with t (delete_entry env p old) [delete_guard_name p k] jp) t'"
proof -
  note t = target_freeD [OF a(1)]
  show ?thesis
    using live_delete [OF guarded_delete_live [OF a(1,3)] t(2) _ t(4) _ _ _, where jp = jp and t' = t'
        and new = "[delete_guard_name p k]" and e = "delete_entry env p old" and hash = "en_digest env []"]
      guarded_delete_journal [OF a] ext t(3) a(2)
    by (simp add: extends_tx_def)
qed

lemma deleted_clean_live:
  assumes a: "target_free env v w N B k js t p" "v p = Some old" "Suc k \<le> k'"
    and ext: "extends_tx t (delete_entry env p old) [delete_guard_name p k] jp (tx_installed t) t'"
      "tx_recovery_artifacts t' = filter (\<lambda>q. q \<noteq> delete_guard_name p k) (tx_recovery_artifacts t)"
  shows "live env v (w(p := None)) (deleted_clean p k N) B k'
    (journal_with t (delete_entry env p old) [delete_guard_name p k] jp) t'"
proof -
  let ?t = "t'\<lparr>tx_recovery_artifacts := tx_recovery_artifacts t @ [delete_guard_name p k]\<rparr>"
  have "live env v (w(p := None)) (deleted p k N) B k' (journal_with t (delete_entry env p old) [delete_guard_name p k] jp) ?t"
    by (rule deleted_live [OF a]) (use ext in \<open>simp_all add: extends_tx_def\<close>)
  from live_drop [OF this, of "delete_guard_name p k"]
  have "live env v (w(p := None)) (deleted_clean p k N) B k'
    (journal_with t (delete_entry env p old) [delete_guard_name p k] jp) ?t" by simp
  thus ?thesis by (rule live_retrack) (use ext(2) in auto)
qed

lemma deleted_clean_idle:
  assumes i: "idle env v w ps N B k js t" and a: "target_free env v w N B k js t p" "v p = Some old" "Suc k \<le> k'"
    and ext: "extends_tx t (delete_entry env p old) [delete_guard_name p k] jp (tx_installed t) t'"
      "tx_recovery_artifacts t' = filter (\<lambda>q. q \<noteq> delete_guard_name p k) (tx_recovery_artifacts t)"
      "backs_up t (delete_entry env p old) t'"
  shows "idle env v (w(p := None)) (insert p ps) (deleted_clean p k N) B k'
    (journal_with t (delete_entry env p old) [delete_guard_name p k] jp) t'"
proof -
  note t = target_freeD [OF a(1)]
  have "tidy (deleted_clean p k N) t'"
  proof (rule tidy_extend [OF t(1), where new = "{}"])
    show "k \<le> s" if "deleted_clean p k N q \<noteq> N q" "serial (name_of q) = Some s" for q s
      using that t(2) by (auto simp: is_plain_def fun_upd_def split: if_splits)
  qed (use i ext(2) in \<open>auto simp: idle_def\<close>)
  moreover have "backed t'"
    by (rule backed_delete [OF _ _ ext(3,1)]) (use i in \<open>auto simp: idle_def\<close>)
  ultimately show ?thesis
    using deleted_clean_live [OF a ext(1,2)] i ext(1) by (simp add: idle_def extends_tx_def)
qed

lemma deleting_crash:
  assumes a: "target_free env v w N B k js t p" "v p = Some old" "Suc k \<le> k'"
  defines "js' \<equiv> \<lambda>jp. journal_with t (delete_entry env p old) [delete_guard_name p k] jp"
  shows "crash_ok env v (guarded_delete p k N) B k' js"
    and "crash_ok env v (guarded_delete p k N) B k' (js' jp)"
    and "crash_ok env v (deleted p k N) B k' (js' jp)"
    and "crash_ok env v ((deleted p k N)(bound_delete_name q k' := N p)) B (Suc k') (js' jp)"
    and "crash_ok env v (deleted_clean p k N) B k' (js' jp)"
    and "crash_ok env v ((deleted_clean p k N)(bound_delete_name q k' := N p)) B (Suc k') (js' jp)"
proof -
  define t' where "t' jp arts = t\<lparr>tx_entries := tx_entries t @ [delete_entry env p old], tx_journal_path := Some jp,
    tx_journal_artifacts := tx_journal_artifacts t @ [delete_guard_name p k], tx_recovery_artifacts := arts\<rparr>" for jp arts
  have ext: "extends_tx t (delete_entry env p old) [delete_guard_name p k] jp (tx_installed t) (t' jp arts)"
    for jp arts by (simp add: t'_def extends_tx_def)
  note gone = deleted_live [OF a ext] and clean = deleted_clean_live [OF a ext]
  show "crash_ok env v (guarded_delete p k N) B k' js"
    by (rule live_crash_ok [OF guarded_delete_live [OF a(1,3)]])
  show "crash_ok env v (guarded_delete p k N) B k' (js' jp)"
    using guarded_delete_journal [OF a] guarded_delete_live [OF a(1,3)]
    by (auto simp: crash_ok_def undoable_def live_def js'_def)
  show "crash_ok env v (deleted p k N) B k' (js' jp)"
    unfolding js'_def by (rule live_crash_ok [OF gone]) (simp add: t'_def)
  show "crash_ok env v ((deleted p k N)(bound_delete_name q k' := N p)) B (Suc k') (js' jp)"
    unfolding js'_def by (rule live_crash_ok [OF live_generated [OF gone, where s = k']]) (simp_all add: t'_def)
  show "crash_ok env v (deleted_clean p k N) B k' (js' jp)"
    unfolding js'_def by (rule live_crash_ok [OF clean]) (simp add: t'_def)
  show "crash_ok env v ((deleted_clean p k N)(bound_delete_name q k' := N p)) B (Suc k') (js' jp)"
    unfolding js'_def by (rule live_crash_ok [OF live_generated [OF clean, where s = k']]) (simp_all add: t'_def)
qed

lemma mens_delete:
  assumes env: "faultless env" and i: "idle env v w ps N B k js t"
    and p: "is_plain p" "p \<notin> ps" "safe_dir env (dir_of p)" "v p = Some old" and hash: "hash = en_digest env old"
  shows "mens (at_crash env (crash_ok env v)) (delete_if_hash_matches env p hash)
    (\<lambda>_. idle env v (w(p := None)) (insert p ps)) (\<lambda>_ _ _ _ _ _. False) N B k js t"
proof -
  have t: "target_free env v w N B k js t p" using i p by (intro idle_target_free)
  note l = target_freeD(1) [OF t] and fresh = generated_fresh [OF target_freeD(6) [OF t]]
  obtain i0 where i0: "N p = Some i0" "B i0 = old" using target_freeD(5) [OF t] p(4) by (auto simp: seen_def)
  have now: "crash_ok env v N B k js" "crash_ok env v N B (Suc k) js"
    using live_crash_ok [OF l] live_crash_ok [OF live_later [OF l, of "Suc k"]] by simp_all
  note side = env now deleting_crash [OF t p(4), unfolded i0(1)] fresh plain_differs [OF p(1)] i0 hash target_freeD(7,8) [OF t]
  show ?thesis
    unfolding delete_if_hash_matches_def digest_bytes_def push_backup_def Let_def delete_guard_name_def [symmetric]
    apply (intro mens_chain mens_map_err mens_disk_op mens_on_disk dens_new_uuid dens_link mens_track dens_identity_the dens_read_the
      mens_if mens_stage mens_record_delete_intent refl dens_remove_checked mens_update_tx dens_sync mens_cleanup_cases)
    apply (simp_all add: side)
    apply (simp_all add: side extends_tx_def backs_up_def deleted_clean_idle [OF i t p(4), unfolded i0(1)])
    done
qed

end
