(* ===== verification/Commit_Safety.thy ===== *)
theory Commit_Safety
  imports Transaction_Safety
begin

text \<open>
  A whole transaction, from its first request to the removal of its journal: the process may die
  at every system call, and what it leaves is a journal that can be undone, an exchange that was
  cut short, or a journal that is marked committed over the requested bytes.
\<close>

section \<open>Requests\<close>

lemma mens_perform:
  assumes "faultless env" "fresh_inodes env" "idle env v w ps N B k js t"
    and "is_plain (target r)" "target r \<notin> ps" "safe_dir env (dir_of (target r))" "admissible env v r"
  shows "mens (at_crash env (crash_ok env v)) (perform env r) (\<lambda>_. idle env v (apply_request r w) (insert (target r) ps))
    (\<lambda>_ _ _ _ _ _. False) N B k js t"
proof (cases r)
  case (NewFile p data)
  thus ?thesis using assms
    by (auto intro!: mens_conseq [OF mens_write_new] simp: crash_ok_def)
next
  case (Replace p data hash)
  thus ?thesis using assms mens_replace by auto
next
  case (Remove p hash)
  thus ?thesis using assms mens_delete by auto
qed

lemma mens_performs:
  assumes "faultless env" "fresh_inodes env" "idle env v w ps N B k js t"
    and "\<And>r. r \<in> set rs \<Longrightarrow> is_plain (target r) \<and> safe_dir env (dir_of (target r)) \<and> admissible env v r"
    and "distinct (map target rs)" "ps \<inter> target ` set rs = {}"
  shows "mens (at_crash env (crash_ok env v)) (traverse (perform env) rs)
    (\<lambda>_. idle env v (fold apply_request rs w) (ps \<union> target ` set rs)) (\<lambda>_ _ _ _ _ _. False) N B k js t"
  using assms(3-6)
proof (induction rs arbitrary: w ps N B k js t)
  case Nil
  thus ?case by (simp add: mens_give)
next
  case (Cons r rs)
  have "mens (at_crash env (crash_ok env v)) (traverse (perform env) rs)
      (\<lambda>_. idle env v (fold apply_request rs (apply_request r w)) (insert (target r) ps \<union> target ` set rs))
      (\<lambda>_ _ _ _ _ _. False) N' B' k' js' t'"
    if "idle env v (apply_request r w) (insert (target r) ps) N' B' k' js' t'" for N' B' k' js' t'
    using Cons.prems by (intro Cons.IH [OF that]) auto
  thus ?case
    using Cons.prems unfolding traverse.simps
    by (intro mens_chain mens_conseq [OF mens_perform [OF assms(1,2) Cons.prems(1)]]) auto
qed

section \<open>Checks before the commit\<close>

lemma mens_live_pin:
  assumes "faultless env" "crashless env \<or> C N B k js" "pinned N arts i" "Q True N B k js t"
  shows "mens C (live_candidate_pin_matches env arts i) Q E N B k js t"
  using assms(3)
proof (induction arts)
  case (Cons a arts)
  show ?case
  proof (cases "is_candidate_identity_pin a")
    case True
    show ?thesis
    proof (cases "N a = Some i")
      case True
      show ?thesis unfolding live_candidate_pin_matches.simps
        by (intro mens_if mens_chain mens_attempt mens_on_disk dens_identity mens_give)
          (use True \<open>is_candidate_identity_pin a\<close> assms in auto)
    next
      case False
      hence "mens C (live_candidate_pin_matches env arts i) Q E N B k js t"
        using Cons by (auto simp: pinned_def)
      thus ?thesis unfolding live_candidate_pin_matches.simps
        by (intro mens_if mens_chain mens_attempt mens_on_disk dens_identity)
          (use False \<open>is_candidate_identity_pin a\<close> assms in \<open>auto intro: mens_give\<close>)
    qed
  qed (use Cons in \<open>auto simp: pinned_def\<close>)
qed (simp add: pinned_def)

lemma mens_still_owned:
  assumes "faultless env" "crashless env \<or> C N B k js" "owned env N B (tx_recovery_artifacts t) own"
    and "Q True N B k js t"
  shows "mens C (still_owned env own) Q E N B k js t"
  unfolding still_owned_def
  by (intro mens_chain mens_attempt mens_on_disk dens_identity mens_if dens_hash mens_observe_tx mens_live_pin)
    (use assms in \<open>auto simp: owned_def\<close>)

lemma mens_verify:
  assumes "faultless env" "crashless env \<or> C N B k js" "\<forall>own\<in>set (tx_installed t). owned env N B (tx_recovery_artifacts t) own"
    and "Q () N B k js t"
  shows "mens C (verify_live_installed_ownership env) Q E N B k js t"
proof -
  have "mens C (traverse (\<lambda>own. chain (still_owned env own) (\<lambda>ok.
       if ok then give () else fail conflict_error)) xs) Q E N B k js t" if "set xs \<subseteq> set (tx_installed t)" for xs
    using that
  proof (induction xs)
    case (Cons x xs)
    thus ?case using assms unfolding traverse.simps
      by (intro mens_chain mens_still_owned) (auto intro: mens_give)
  qed (simp add: mens_give assms(4))
  thus ?thesis unfolding verify_live_installed_ownership_def by (intro mens_chain mens_observe_tx) simp
qed

lemma mens_cleanup_gone:
  assumes "faultless env" "crashless env \<or> C N B k js" "\<forall>a\<in>set as. N a = None"
    and "Q None N B k js (t\<lparr>tx_recovery_artifacts := filter (\<lambda>q. q \<notin> set as) (tx_recovery_artifacts t)\<rparr>)"
  shows "mens C (cleanup_or_stop env as) Q E N B k js t"
  using assms(3,4)
proof (induction as arbitrary: t)
  case (Cons a as)
  have "filter (\<lambda>q. q \<notin> set (a # as)) xs = filter (\<lambda>q. q \<notin> set as) (filter (\<lambda>q. q \<noteq> a) xs)" for xs
    by (induction xs) auto
  with Cons show ?case unfolding cleanup_or_stop.simps
    by (intro mens_chain mens_attempt mens_cleanup_absent mens_case_sum Cons.IH) (use assms(1,2) in simp_all)
qed (simp add: mens_give)

section \<open>The commit\<close>

definition committed_journal :: "journal_entry list \<Rightarrow> path list \<Rightarrow> journal" where
  "committed_journal es arts = \<lparr>jr_state = Committed, jr_entries = es, jr_recovery_artifacts = arts\<rparr>"

definition committed ::
  "environment \<Rightarrow> view \<Rightarrow> names \<Rightarrow> store \<Rightarrow> nat \<Rightarrow> (path \<times> journal) list \<Rightarrow> bool" where
  "committed env w N B k js \<longleftrightarrow> fresh_names N k \<and> (\<forall>p. is_plain p \<longrightarrow> seen N B p = w p)
     \<and> (js = [] \<or> (\<exists>jp es arts. js = [(jp, committed_journal es arts)]
        \<and> (\<forall>e\<in>set es. is_plain (je_path e) \<and> safe_dir env (dir_of (je_path e)) \<and> settled env N B e)
        \<and> artifacts_ok env N B k es arts))"

lemma committed_journal_eq [simp]:
  "committed_journal es arts = committed_journal es' arts' \<longleftrightarrow> es = es' \<and> arts = arts'"
  by (simp add: committed_journal_def)

lemma live_committed:
  assumes "live env v w N B k js t"
  shows "committed env w N B k [(jp, committed_journal (tx_entries t) (tx_journal_artifacts t))]"
  using assms by (auto simp: committed_def live_def journal_ok_def entry_ok_def)

text \<open>Artifacts may go, and names that were not drawn before may come.\<close>

lemma artifacts_ok_frame:
  assumes a: "artifacts_ok env N B k es arts" and "k \<le> k'"
    and art: "\<And>a s. serial (name_of a) = Some s \<Longrightarrow> s < k \<Longrightarrow> N' a = N a \<or> N' a = None"
  shows "artifacts_ok env N' B k' es arts"
proof -
  have "artifact_ok env N' B es q \<and> (\<exists>s<k'. serial (name_of q) = Some s)" if "q \<in> set arts" for q
  proof -
    from a that obtain s where q: "artifact_ok env N B es q" "s < k" "serial (name_of q) = Some s" by (auto simp: artifacts_ok_def)
    with art [OF q(3,2)] assms(2) show ?thesis by (auto simp: artifact_ok_def)
  qed
  thus ?thesis using a by (simp add: artifacts_ok_def)
qed

lemma committed_frame:
  assumes c: "committed env w N B k js" and "fresh_names N' k'" "k \<le> k'"
    and plain: "\<And>p. is_plain p \<Longrightarrow> N' p = N p"
    and art: "\<And>a s. serial (name_of a) = Some s \<Longrightarrow> s < k \<Longrightarrow> N' a = N a \<or> N' a = None"
  shows "committed env w N' B k' js"
proof -
  have "seen N' B p = seen N B p" if "is_plain p" for p using plain [OF that] by (simp add: seen_def)
  moreover have "settled env N' B e" if "is_plain (je_path e)" "settled env N B e" for e
    using that plain by (auto elim: settled_frame)
  moreover have "artifacts_ok env N' B k' es arts" if "artifacts_ok env N B k es arts" for es arts
    by (rule artifacts_ok_frame [OF that assms(3) art])
  ultimately show ?thesis using c assms(2) by (auto simp: committed_def)
qed

lemma committed_moves:
  assumes c: "committed env w N B k js" and a: "\<not> is_plain a" and g: "serial (name_of g) = Some k"
  shows "committed env w N B (Suc k) js" "committed env w (N(a := None)) B (Suc k) js"
    "committed env w (N(a := None, g := x)) B (Suc k) js"
proof -
  have f: "fresh_names N (Suc k)" using c by (auto simp: committed_def intro: fresh_names_later)
  show "committed env w N B (Suc k) js" by (rule committed_frame [OF c f]) auto
  show "committed env w (N(a := None)) B (Suc k) js"
    by (rule committed_frame [OF c]) (use f a in \<open>auto simp: fresh_names_def\<close>)
  show "committed env w (N(a := None, g := x)) B (Suc k) js"
  proof (rule committed_frame [OF c])
    show "fresh_names (N(a := None, g := x)) (Suc k)" using f g by (auto simp: fresh_names_def)
    show "(N(a := None, g := x)) p = N p" if "is_plain p" for p using that a g by (auto simp: is_plain_def)
  qed (use g in auto)
qed

lemma mens_cleanup_committed:
  assumes "faultless env" "committed env w N B k js" "\<forall>a\<in>set as. \<not> is_plain a"
  shows "mens (at_crash env (committed env w)) (cleanup_or_stop env as) (\<lambda>r N B k js' t'. r = None \<and> js' = js
     \<and> committed env w N B k js \<and> (\<exists>arts. t' = t\<lparr>tx_recovery_artifacts := arts\<rparr>)) (\<lambda>(_ :: 'e) _ _ _ _ _. False) N B k js t"
  using assms(2,3)
proof (induction as arbitrary: N k t)
  case Nil
  show ?case unfolding cleanup_or_stop.simps
    by (rule mens_give) (use Nil in \<open>auto intro: exI [of _ "tx_recovery_artifacts t"]\<close>)
next
  case (Cons a as)
  let ?g = "bound_delete_name a k" and ?t = "t\<lparr>tx_recovery_artifacts := filter (\<lambda>q. q \<noteq> a) (tx_recovery_artifacts t)\<rparr>"
  have fresh: "fresh_names N k" using Cons.prems(1) by (simp add: committed_def)
  have g: "N ?g = None" using fresh by (rule fresh_name) auto
  have ga: "?g \<noteq> a" if "N a \<noteq> None" using that g by auto
  have m: "committed env w N B (Suc k) js" "committed env w (N(a := None)) B (Suc k) js"
    "committed env w (N(a := None, ?g := x)) B (Suc k) js" for x
    using committed_moves [OF Cons.prems(1), of a ?g] Cons.prems(2) by auto
  have IH: "mens (at_crash env (committed env w)) (cleanup_or_stop env as) (\<lambda>r N B k js' t'. r = None \<and> js' = js
     \<and> committed env w N B k js \<and> (\<exists>arts. t' = t\<lparr>tx_recovery_artifacts := arts\<rparr>)) (\<lambda>(_ :: 'e) _ _ _ _ _. False) N' B k' js ?t"
    if "committed env w N' B k' js" for N' k'
    using Cons.IH [of N' k' ?t] that Cons.prems(2) by simp
  show ?case unfolding cleanup_or_stop.simps
    by (intro mens_chain mens_attempt mens_cleanup_cases mens_case_sum)
      (use assms(1) Cons.prems(1) g ga m IH in \<open>simp_all add: fun_upd_def\<close>)
qed

lemma mens_finish_journal:
  assumes "faultless env" "tx_journal_path t = Some jp" "js = [(jp, j)]"
    and "crashless env \<or> C N B k js" "crashless env \<or> C N B k []" "Q () N B k [] (t\<lparr>tx_journal_path := None\<rparr>)"
  shows "mens C (finish_journal env) Q E N B k js t"
  unfolding finish_journal_def
  apply (intro mens_chain mens_observe_tx)
  apply (simp add: assms(2))
  apply (intro mens_chain mens_update_tx mens_attempt mens_remove_journal mens_case_sum mens_give)
  apply (use assms in auto)
  done

lemma mens_finish_journal_none:
  "tx_journal_path t = None \<Longrightarrow> Q () N B k js t \<Longrightarrow> mens C (finish_journal env) Q E N B k js t"
  unfolding finish_journal_def by (intro mens_chain mens_observe_tx) (simp add: mens_give)

lemma mens_mark_none:
  "tx_journal_path t = None \<Longrightarrow> Q () N B k js t \<Longrightarrow> mens C (mark_journal_committed env) Q E N B k js t"
  unfolding mark_journal_committed_def by (intro mens_chain mens_observe_tx) (simp add: mens_give)

lemma mens_mark_committed:
  assumes "faultless env" "tx_journal_path t = Some jp" "tx_journal_root t \<noteq> None" "js = [(jp, j)]"
    and "crashless env \<or> C N B k js"
    and "crashless env \<or> C N B k [(jp, committed_journal (tx_entries t) (tx_journal_artifacts t))]"
    and "Q () N B k [(jp, committed_journal (tx_entries t) (tx_journal_artifacts t))] t"
  shows "mens C (mark_journal_committed env) Q E N B k js t"
proof -
  have "mens C (chain (observe (current_journal Committed)) (\<lambda>j. write_journal env jp j)) Q E N B k js t"
    by (intro mens_chain mens_observe_current mens_write_journal)
      (use assms in \<open>simp_all add: committed_journal_def\<close>)
  thus ?thesis unfolding mark_journal_committed_def
    by (intro mens_chain mens_observe_tx) (use assms(2,3) in auto)
qed

lemma mens_commit_after_marker:
  assumes env: "faultless env" and c: "committed env w N B k js" "js = [(jp, j)]" "tx_journal_path t = Some jp"
    and drawn: "\<forall>a\<in>set (tx_recovery_artifacts t). \<not> is_plain a"
  shows "mens (at_crash env (committed env w)) (commit_after_marker env True)
    (\<lambda>_ N B k js t. js = [] \<and> committed env w N B k js) (\<lambda>_ _ _ _ _ _. False) N B k js t"
proof -
  have finish: "mens (at_crash env (committed env w)) (chain (attempt (finish_journal env)) (\<lambda>r.
       if (case r of Inl _ \<Rightarrow> True | Inr _ \<Rightarrow> False) then give ()
       else update_tx (\<lambda>t. t\<lparr>tx_finished := True\<rparr>)))
      (\<lambda>_ N B k js t. js = [] \<and> committed env w N B k js) (\<lambda>(_ :: backend_error) _ _ _ _ _. False) N' B' k' js t'"
    if "committed env w N' B' k' js" "tx_journal_path t' = Some jp" for N' B' k' t'
  proof -
    have "committed env w N' B' k' []" using that(1) by (auto simp: committed_def)
    thus ?thesis using env that c(2)
      by (intro mens_chain mens_attempt mens_finish_journal) (auto intro: mens_update_tx)
  qed
  let ?pins = "filter is_candidate_identity_pin (tx_recovery_artifacts t)"
  have pins: "mens (at_crash env (committed env w)) (cleanup_or_stop env ?pins) (\<lambda>r N B k js' t'. r = None \<and> js' = js
     \<and> committed env w N B k js \<and> (\<exists>arts. t' = t\<lparr>tx_finished := True, tx_recovery_artifacts := arts\<rparr>))
     (\<lambda>(_ :: backend_error) _ _ _ _ _. False) N B k js (t\<lparr>tx_finished := True\<rparr>)"
    using drawn by (intro mens_cleanup_committed [OF env c(1), of _ "t\<lparr>tx_finished := True\<rparr>"]) auto
  show ?thesis unfolding commit_after_marker_def
    apply (simp only: if_True)
    apply (intro mens_chain mens_update_tx mens_observe_tx)
    apply simp
    apply (rule mens_conseq [OF pins])
    apply (use finish c(3) in auto)
    done
qed

lemma mens_commit:
  assumes env: "faultless env" and i: "idle env v w ps N B k js t"
  shows "mens (at_crash env (\<lambda>N B k js. crash_ok env v N B k js \<or> committed env w N B k js)) (commit env)
    (\<lambda>_ N B k js t. js = [] \<and> committed env w N B k js) (\<lambda>_ _ _ _ _ _. False) N B k js t"
    (is "mens ?C _ ?Q ?E _ _ _ _ _")
proof -
  have l: "live env v w N B k js t" and tidy: "tidy N t" using i by (auto simp: idle_def)
  have ok: "crashless env \<or> ?C N B k js" using live_crash_ok [OF l] by simp
  have owned: "\<forall>own\<in>set (tx_installed t). owned env N B (tx_recovery_artifacts t) own" using l by (simp add: live_def)
  show ?thesis
  proof (cases "tx_journal_path t")
    case None
    hence "tx_recovery_artifacts t = []" "js = []" using i l by (auto simp: idle_def live_def journaled_def)
    moreover have "committed env w N B k []" using l by (auto simp: committed_def live_def)
    ultimately show ?thesis
      unfolding commit_def commit_after_marker_def
      by (intro mens_chain mens_attempt mens_verify mens_observe_tx mens_case_sum mens_cleanup_gone mens_case_None mens_mark_none
        mens_if mens_give mens_finish_journal_none mens_update_tx)
        (use env ok None owned in simp_all)
  next
    case (Some jp)
    let ?js = "[(jp, committed_journal (tx_entries t) (tx_journal_artifacts t))]"
    let ?gone = "filter (\<lambda>p. \<not> is_candidate_identity_pin p) (tx_recovery_artifacts t)"
    let ?t = "t\<lparr>tx_recovery_artifacts := filter (\<lambda>q. q \<notin> set ?gone) (tx_recovery_artifacts t)\<rparr>"
    have js: "js = [(jp, in_progress (tx_entries t) (tx_journal_artifacts t))]" "tx_journal_root t \<noteq> None"
      using Some l by (simp_all add: live_def journaled_def)
    have c: "committed env w N B k ?js" by (rule live_committed [OF l])
    have "mens (at_crash env (committed env w)) (commit_after_marker env True) ?Q ?E N B k ?js ?t"
      by (rule mens_commit_after_marker [OF env c refl])
        (use Some l in \<open>auto simp: live_def drawn_before_def is_plain_def\<close>)
    hence after: "mens ?C (commit_after_marker env True) ?Q ?E N B k ?js ?t"
      by (rule mens_conseq) auto
    have gone: "\<forall>a\<in>set ?gone. N a = None" using tidy by (auto simp: tidy_def)
    show ?thesis
      unfolding commit_def
      by (intro mens_chain mens_attempt mens_verify mens_observe_tx mens_case_sum mens_cleanup_gone mens_case_None
        mens_mark_committed [where jp = jp]) (use env ok gone js Some c owned after in simp_all)
  qed
qed

section \<open>Transactions\<close>

lemma new_transaction_idle:
  "fresh_names N k \<Longrightarrow> idle env (seen N B) (seen N B) {} N B k [] (new_for_project_at root)"
  by (simp add: idle_def live_def tidy_def backed_def journaled_def new_for_project_at_def new_transaction_def
      journal_ok_def artifacts_ok_def drawn_before_def)

lemma mens_run_transaction:
  assumes "faultless env" "fresh_inodes env" "fresh_names N k"
    and "\<And>r. r \<in> set rs \<Longrightarrow> is_plain (target r) \<and> safe_dir env (dir_of (target r)) \<and> admissible env (seen N B) r"
    and "distinct (map target rs)"
  shows "mens (at_crash env (\<lambda>N' B' k' js. crash_ok env (seen N B) N' B' k' js
      \<or> committed env (fold apply_request rs (seen N B)) N' B' k' js))
    (run_transaction env rs) (\<lambda>_ N' B' k' js t. js = [] \<and> committed env (fold apply_request rs (seen N B)) N' B' k' js)
    (\<lambda>_ _ _ _ _ _. False) N B k [] (new_for_project_at root)"
  unfolding run_transaction_def
  by (intro mens_chain mens_conseq [OF mens_performs [OF assms(1,2) new_transaction_idle [OF assms(3)]]])
    (use assms mens_commit [OF assms(1)] in auto)

end
