(* ===== verification/Recovery_Logic.thy ===== *)
theory Recovery_Logic
  imports Commit_Safety
begin

text \<open>
  The steps of reconciliation that every journal has in common: validation of the artifacts,
  searches for pins, hashes, removal of the artifacts and of the journal. The process may die
  again at every system call, so the rules carry the condition of the states it may die in.
\<close>

section \<open>Reading\<close>

lemma crashless_faultless: "crashless env \<Longrightarrow> faultless env"
  by (simp add: crashless_def faultless_def)

lemma safe_dir_path: "safe_dir env (dir_of p) \<Longrightarrow> en_safe_target env p"
  by (cases p) (simp add: safe_dir_def)

lemma mens_safe_target: "en_safe_target env p \<Longrightarrow> Q p N B k js t \<Longrightarrow> mens C (safe_journal_target env p) Q E N B k js t"
  by (simp add: safe_journal_target_def mens_give)

lemma mens_artifact_on_disk:
  assumes "faultless env" "crashless env \<or> C N B k js" "Q (map_option (\<lambda>i. (en_digest env (B i), i)) (N a)) N B k js t"
  shows "mens C (artifact_on_disk env a) Q E N B k js t"
  unfolding artifact_on_disk_def digest_bytes_def
  by (intro mens_chain mens_attempt mens_on_disk dens_read_with_identity)
    (use assms in \<open>auto intro: mens_give\<close>)

lemma artifact_ok_matches: "artifact_ok env N B es a \<Longrightarrow>
   list_ex (artifact_matches env (map_option (\<lambda>i. (en_digest env (B i), i)) (N a))) (artifact_associations env es a)"
  by (cases "N a"; cases "artifact_associations env es a") (auto simp: artifact_ok_def)

lemma mens_validate_prefix:
  assumes "faultless env" "crashless env \<or> C N B k js" "distinct arts" "set arts \<inter> set xs = {}"
    and "\<And>a. a \<in> set arts \<Longrightarrow> artifact_ok env N B es a \<and> en_safe_target env a"
    and "mens C (validate_artifacts env es (rev arts @ xs) rest) Q E N B k js t"
  shows "mens C (validate_artifacts env es xs (arts @ rest)) Q E N B k js t"
  using assms(3-6)
proof (induction arts arbitrary: xs)
  case (Cons a arts)
  have ok: "artifact_ok env N B es a" "en_safe_target env a" "a \<notin> set xs" using Cons.prems by auto
  have "artifact_associations env es a \<noteq> []" using ok(1) by (simp add: artifact_ok_def)
  moreover have "mens C (validate_artifacts env es (a # xs) (arts @ rest)) Q E N B k js t"
    using Cons.prems by (intro Cons.IH) auto
  ultimately show ?case
    unfolding append_Cons validate_artifacts.simps Let_def
    by (intro mens_if mens_chain mens_safe_target mens_artifact_on_disk)
      (use assms(1,2) ok artifact_ok_matches [OF ok(1)] in auto)
qed simp

lemma mens_validate_journal:
  assumes "faultless env" "crashless env \<or> C N B k js"
    and "distinct (jr_recovery_artifacts j)" "jr_entries j = [] \<Longrightarrow> jr_recovery_artifacts j = []"
    and "\<And>a. a \<in> set (jr_recovery_artifacts j) \<Longrightarrow> artifact_ok env N B (jr_entries j) a \<and> en_safe_target env a"
    and "Q () N B k js t"
  shows "mens C (validate_journal_recovery_artifacts env j) Q E N B k js t"
proof -
  have "mens C (validate_artifacts env (jr_entries j) [] (jr_recovery_artifacts j)) Q E N B k js t"
    using mens_validate_prefix [where C = C and arts = "jr_recovery_artifacts j" and xs = "[]" and rest = "[]", OF assms(1,2,3)]
      assms(5,6) by (simp add: mens_give)
  thus ?thesis unfolding validate_journal_recovery_artifacts_def
    by (intro mens_if) (use assms(4) in auto)
qed

lemma mens_pin_search:
  assumes "faultless env" "crashless env \<or> C N B k js" "pinned N arts i" "\<And>a. a \<in> set arts \<Longrightarrow> en_safe_target env a"
    and "Q True N B k js t"
  shows "mens C (pin_search env i arts) Q E N B k js t"
  using assms(3,4)
proof (induction arts)
  case (Cons a arts)
  have rest: "mens C (pin_search env i arts) Q E N B k js t" if "\<not> (is_candidate_identity_pin a \<and> N a = Some i)"
    using that Cons by (auto simp: pinned_def)
  show ?case unfolding pin_search.simps
    by (intro mens_chain mens_safe_target mens_if mens_attempt mens_on_disk dens_identity)
      (use assms(1,2,5) Cons.prems(2) rest in \<open>auto intro: mens_give\<close>)
qed (simp add: pinned_def)

lemma mens_pin_matches:
  assumes "faultless env" "crashless env \<or> C N B k js" "je_installed_identity e = Some i" "pinned N (jr_recovery_artifacts j) i"
    and "\<And>a. a \<in> set (jr_recovery_artifacts j) \<Longrightarrow> en_safe_target env a" "Q True N B k js t"
  shows "mens C (journal_candidate_pin_matches env j e) Q E N B k js t"
  unfolding journal_candidate_pin_matches_def assms(3) option.case by (rule mens_pin_search) (use assms in auto)

lemma mens_identity_pinned:
  assumes "faultless env" "crashless env \<or> C N B k js" "je_installed_identity e = Some i" "N p = Some i"
    and "pinned N (jr_recovery_artifacts j) i"
    and "\<And>a. a \<in> set (jr_recovery_artifacts j) \<Longrightarrow> en_safe_target env a" "Q True N B k js t"
  shows "mens C (journal_identity_matches env j p e True) Q E N B k js t"
  unfolding journal_identity_matches_def assms(3) option.case
  by (intro mens_chain mens_disk_op dens_identity_the mens_if mens_pin_matches) (use assms in auto)

lemma mens_current_hash:
  assumes "faultless env" "crashless env \<or> C N B k js" "Q (map_option (en_digest env) (seen N B p)) N B k js t"
  shows "mens C (current_hash env p) Q E N B k js t"
  unfolding current_hash_def
  by (intro mens_chain mens_attempt mens_on_disk dens_hash)
    (use assms in \<open>auto simp: seen_def intro: mens_give\<close>)

section \<open>Removing the artifacts\<close>

text \<open>
  An invariant that survives the removal of an artifact, with or without the name that the removal
  goes through.
\<close>

definition survives_removal :: "environment \<Rightarrow> (names \<Rightarrow> nat \<Rightarrow> bool) \<Rightarrow> bool" where
  "survives_removal env I \<longleftrightarrow> (\<forall>N k. I N k \<longrightarrow> fresh_names N k \<and> I N (Suc k)
     \<and> (\<forall>a x. \<not> is_plain a \<longrightarrow> I (N(a := None)) (Suc k) \<and> I (N(a := None, bound_delete_name a k := x)) (Suc k)))"

lemma survives_removalI:
  assumes fresh: "\<And>N k. I N k \<Longrightarrow> fresh_names N k"
    and frame: "\<And>N k N' k'. I N k \<Longrightarrow> fresh_names N' k' \<Longrightarrow> k \<le> k' \<Longrightarrow> (\<And>p. is_plain p \<Longrightarrow> N' p = N p)
      \<Longrightarrow> (\<And>a s. serial (name_of a) = Some s \<Longrightarrow> s < k \<Longrightarrow> N' a = N a \<or> N' a = None) \<Longrightarrow> I N' k'"
  shows "survives_removal env I"
proof -
  have "fresh_names N k \<and> I N (Suc k) \<and> I (N(a := None)) (Suc k) \<and> I (N(a := None, g := x)) (Suc k)"
    if i: "I N k" and a: "\<not> is_plain a" and g: "serial (name_of g) = Some k" for N k a g x
  proof (intro conjI)
    show f: "fresh_names N k" by (rule fresh [OF i])
    have f': "fresh_names (N(a := None)) (Suc k)" by (rule fresh_names_upd [OF f]) auto
    show "I N (Suc k)" by (rule frame [OF i]) (use f in \<open>auto intro: fresh_names_later\<close>)
    show "I (N(a := None)) (Suc k)" by (rule frame [OF i f']) (use a in auto)
    have "fresh_names (N(a := None, g := x)) (Suc k)" by (rule fresh_names_upd [OF f']) (use g in auto)
    thus "I (N(a := None, g := x)) (Suc k)" by (rule frame [OF i]) (use a g in \<open>auto simp: is_plain_def\<close>)
  qed
  from this [of _ _ "bound_delete_name a k" "bound_delete_name a k" for a k] this [of _ _ _ "bound_delete_name a k" for a k]
  show ?thesis unfolding survives_removal_def by simp
qed

lemma mens_remove_artifact:
  assumes env: "faultless env" and I: "survives_removal env I" "\<And>N k. I N k \<Longrightarrow> crashless env \<or> C N B k js" "I N k"
    and a: "en_safe_target env a" "\<not> is_plain a"
  shows "mens C (remove_artifact env a) (\<lambda>_ N' B' k' js' t'. I N' k' \<and> B' = B \<and> js' = js \<and> t' = t) E N B k js t"
proof (cases "N a")
  case None
  thus ?thesis unfolding remove_artifact_def
    by (intro mens_chain mens_safe_target mens_attempt mens_on_disk dens_remove_absent)
      (use env I(2,3) a in \<open>auto intro!: mens_give\<close>)
next
  case (Some i)
  have m: "fresh_names N k" "I N (Suc k)" "I (N(a := None)) (Suc k)" "\<And>x. I (N(a := None, bound_delete_name a k := x)) (Suc k)"
    using I(1,3) a(2) by (simp_all add: survives_removal_def)
  have g: "N (bound_delete_name a k) = None" using m(1) by (rule generated_fresh) simp
  hence "bound_delete_name a k \<noteq> a" using Some by auto
  thus ?thesis unfolding remove_artifact_def
    by (intro mens_chain mens_safe_target mens_attempt mens_on_disk dens_remove [where i = i] mens_case_sum mens_disk_op dens_sync)
      (use env I(2) [OF I(3)] I(2) [OF m(2)] I(2) [OF m(3)] I(2) [OF m(4)] m a g Some in auto)
qed

lemma mens_remove_artifacts:
  assumes env: "faultless env" and I: "survives_removal env I" "\<And>N k. I N k \<Longrightarrow> crashless env \<or> C N B k js" "I N k"
    and as: "\<And>a. a \<in> set as \<Longrightarrow> en_safe_target env a \<and> \<not> is_plain a"
  shows "mens C (traverse (remove_artifact env) as) (\<lambda>_ N' B' k' js' t'. I N' k' \<and> B' = B \<and> js' = js \<and> t' = t) E N B k js t"
  using I(3) as
proof (induction as arbitrary: N k)
  case (Cons a as)
  have IH: "mens C (traverse (remove_artifact env) as) (\<lambda>_ N' B' k' js' t'. I N' k' \<and> B' = B \<and> js' = js \<and> t' = t) E N' B k' js t"
    if "I N' k'" for N' k' using that Cons.prems(2) by (intro Cons.IH) auto
  show ?case unfolding traverse.simps
    by (intro mens_chain mens_conseq [OF mens_remove_artifact [where C = C and I = I, OF env I(1,2) Cons.prems(1)]]) (use IH Cons.prems(2) in auto)
qed (simp add: mens_give)

text \<open>The end of a reconciliation: the artifacts go, then the journal.\<close>

lemma mens_dispose:
  assumes env: "faultless env" and I: "survives_removal env I" "\<And>N k. I N k \<Longrightarrow> crashless env \<or> C N B k [(jp, j)]"
      "\<And>N k. I N k \<Longrightarrow> crashless env \<or> C N B k []" "I N k"
    and as: "\<And>a. a \<in> set (jr_recovery_artifacts j) \<Longrightarrow> en_safe_target env a \<and> \<not> is_plain a"
    and Q: "\<And>N k. I N k \<Longrightarrow> Q () N B k [] t"
  shows "mens C (chain (traverse (remove_artifact env) (jr_recovery_artifacts j)) (\<lambda>_.
    chain (map_err io_error (remove_journal env jp)) (\<lambda>_. disk_op (sync env)))) Q E N B k [(jp, j)] t"
proof -
  have finish: "mens C (chain (map_err io_error (remove_journal env jp)) (\<lambda>_. disk_op (sync env))) Q E N' B k' [(jp, j)] t"
    if "I N' k'" for N' k'
    using env I(2,3) [OF that] Q [OF that]
    by (auto intro!: mens_chain mens_map_err mens_remove_journal mens_disk_op dens_sync)
  show ?thesis
    by (rule mens_chain, rule mens_conseq [OF mens_remove_artifacts [where C = C and I = I, OF env I(1,2,4) as]]) (use finish in auto)
qed

section \<open>A project with one journal\<close>

lemma mens_reconcile_project_one:
  assumes env: "faultless env" and C: "crashless env \<or> C N B k [(jp, j)]"
    and valid: "distinct (jr_recovery_artifacts j)" "jr_entries j = [] \<Longrightarrow> jr_recovery_artifacts j = []"
      "\<And>a. a \<in> set (jr_recovery_artifacts j) \<Longrightarrow> artifact_ok env N B (jr_entries j) a \<and> en_safe_target env a"
    and main: "mens C (chain (reconcile_entries env jp (let ks = [0..<length (jr_entries j)] in
         if jr_state j = Committed then ks else rev ks) j) (\<lambda>j'.
       chain (traverse (remove_artifact env) (jr_recovery_artifacts j')) (\<lambda>_.
       chain (map_err io_error (remove_journal env jp)) (\<lambda>_. disk_op (sync env))))) Q E N B k [(jp, j)] t"
  shows "mens C (reconcile_project_at env) Q E N B k [(jp, j)] t"
proof -
  have "mens C (reconcile_journal env jp) Q E N B k [(jp, j)] t"
    unfolding reconcile_journal_def
    by (intro mens_chain [of _ "disk_op x" for x] mens_chain [of _ "observe x" for x] mens_disk_op dens_syscall mens_observe_journals)
      (use env C main valid in \<open>auto intro!: mens_chain [of _ "validate_journal_recovery_artifacts env j"] mens_validate_journal\<close>)
  hence "mens C (reconcile_journal env jp) (\<lambda>_. mens C (give ()) Q E) E N B k [(jp, j)] t"
    by (rule mens_conseq) (auto intro: mens_give)
  hence "mens C (traverse (reconcile_journal env) (map fst [(jp, j)])) Q E N B k [(jp, j)] t"
    unfolding list.map fst_conv traverse.simps by (rule mens_chain)
  thus ?thesis unfolding reconcile_project_at_def
    by (rule mens_chain [OF mens_observe_journals])
qed

lemma mens_reconcile_project_none:
  "Q () N B k [] t \<Longrightarrow> mens C (reconcile_project_at env) Q E N B k [] t"
  unfolding reconcile_project_at_def by (intro mens_chain mens_observe_journals) (simp add: mens_give)

end
