(* ===== verification/Recovery_States.thy ===== *)
theory Recovery_States
  imports Recovery_Logic
begin

text \<open>
  The states that a reconciliation can leave behind when the process dies: the invariant of an
  undoable journal, extended by the entries that are being recovered (planned, quarantined,
  restored), and what may change while one entry is worked on.
\<close>

section \<open>Journals that differ in their recovery records\<close>

definition bare :: "journal_entry \<Rightarrow> journal_entry" where
  "bare e = e\<lparr>je_recovery := None\<rparr>"

lemma bare_simps [simp]:
  "je_path (bare e) = je_path e" "je_previous (bare e) = je_previous e" "je_desired_hash (bare e) = je_desired_hash e"
  "je_desired_absent (bare e) = je_desired_absent e" "je_installed_identity (bare e) = je_installed_identity e"
  "je_recovery (bare e) = None" "bare (e\<lparr>je_recovery := x\<rparr>) = bare e" "bare (bare e) = bare e"
  by (simp_all add: bare_def)

lemma bare_fields:
  assumes "bare e = bare e'"
  shows "je_path e = je_path e'" "je_previous e = je_previous e'" "je_desired_hash e = je_desired_hash e'"
    "je_desired_absent e = je_desired_absent e'" "je_installed_identity e = je_installed_identity e'"
  using arg_cong [OF assms, of je_path] arg_cong [OF assms, of je_previous] arg_cong [OF assms, of je_desired_hash]
    arg_cong [OF assms, of je_desired_absent] arg_cong [OF assms, of je_installed_identity] by simp_all

lemma artifact_associations_bare:
  "artifact_associations env (map bare es) a = map (\<lambda>(e, kind). (bare e, kind)) (artifact_associations env es a)"
proof (induction es)
  case (Cons e es)
  have "journal_artifact_kind_of a p (bare e) = journal_artifact_kind_of a p e" for p
    by (simp add: journal_artifact_kind_of_def split: file_name.splits)
  thus ?case using Cons by (auto simp: artifact_associations_def List.map_filter_simps option.map_comp comp_def split: option.splits)
qed (simp add: artifact_associations_def List.map_filter_simps)

lemma artifact_matches_bare: "artifact_matches env x (bare e, kind) = artifact_matches env x (e, kind)"
  by (cases x; cases kind) (auto simp: previous_hash_def)

lemma artifact_ok_bare: "artifact_ok env N B (map bare es) a = artifact_ok env N B es a"
proof -
  have "list_ex (artifact_matches env x) (map (\<lambda>(e, kind). (bare e, kind)) xs) = list_ex (artifact_matches env x) xs" for x xs
    by (induction xs) (auto simp: artifact_matches_bare)
  thus ?thesis by (cases "N a") (simp_all add: artifact_ok_def artifact_associations_bare)
qed

lemma artifacts_ok_same:
  assumes "map bare es = map bare es'"
  shows "artifacts_ok env N B k es arts = artifacts_ok env N B k es' arts"
proof -
  have "artifact_ok env N B es a = artifact_ok env N B es' a" for a
    using artifact_ok_bare [of env N B es a] artifact_ok_bare [of env N B es' a] assms by simp
  thus ?thesis by (simp add: artifacts_ok_def)
qed

lemma same_paths:
  assumes "map bare es = map bare es'"
  shows "map je_path es = map je_path es'"
  using arg_cong [OF assms, of "map je_path"] by (simp add: comp_def)

section \<open>Recoverable states\<close>

text \<open>An entry with a record: planned, in quarantine, or done but for the record.\<close>

definition recovering :: "names \<Rightarrow> store \<Rightarrow> nat \<Rightarrow> environment \<Rightarrow> view \<Rightarrow> journal_entry \<Rightarrow> recovery_record \<Rightarrow> bool" where
  "recovering N B k env v e r \<longleftrightarrow> record_agrees e r \<and> \<not> je_desired_absent e
     \<and> (\<exists>s<k. rr_guard r = recovery_guard_name (je_path e) s)
     \<and> (rr_phase r = Planned \<and> N (rr_guard r) = None \<and> installed_at env N B e (rr_expected_identity r)
        \<or> N (rr_guard r) = Some (rr_expected_identity r) \<and> en_digest env (B (rr_expected_identity r)) = rr_expected_hash r
          \<and> (N (je_path e) = None \<or> je_previous e \<noteq> None \<and> seen N B (je_path e) = v (je_path e))
        \<or> N (rr_guard r) = None \<and> seen N B (je_path e) = v (je_path e) \<and> (je_previous e = None \<or> rr_phase r = Restored))"

definition entry_recoverable ::
  "environment \<Rightarrow> view \<Rightarrow> names \<Rightarrow> store \<Rightarrow> nat \<Rightarrow> path list \<Rightarrow> journal_entry \<Rightarrow> bool" where
  "entry_recoverable env v N B k arts e \<longleftrightarrow> (case je_recovery e of
     None \<Rightarrow> entry_ok env v N B arts e
   | Some r \<Rightarrow> is_plain (je_path e) \<and> safe_dir env (dir_of (je_path e)) \<and> je_previous e = v (je_path e)
       \<and> pinned N arts (rr_expected_identity r) \<and> recovering N B k env v e r)"

definition journal_recoverable ::
  "environment \<Rightarrow> view \<Rightarrow> names \<Rightarrow> store \<Rightarrow> nat \<Rightarrow> journal_entry list \<Rightarrow> path list \<Rightarrow> bool" where
  "journal_recoverable env v N B k es arts \<longleftrightarrow> distinct (map je_path es)
     \<and> (\<forall>e\<in>set es. entry_recoverable env v N B k arts e)
     \<and> (\<forall>e\<in>set es. \<forall>e'\<in>set es. \<forall>r r'. je_recovery e = Some r \<longrightarrow> je_recovery e' = Some r' \<longrightarrow> rr_guard r = rr_guard r' \<longrightarrow> e = e')
     \<and> artifacts_ok env N B k es arts
     \<and> (\<forall>p. is_plain p \<longrightarrow> p \<notin> je_path ` set es \<longrightarrow> seen N B p = v p)"

definition resumable ::
  "environment \<Rightarrow> view \<Rightarrow> names \<Rightarrow> store \<Rightarrow> nat \<Rightarrow> (path \<times> journal) list \<Rightarrow> bool" where
  "resumable env v N B k js \<longleftrightarrow> fresh_names N k
     \<and> (js = [] \<and> (\<forall>p. is_plain p \<longrightarrow> seen N B p = v p)
        \<or> (\<exists>jp es arts. js = [(jp, in_progress es arts)] \<and> journal_recoverable env v N B k es arts))"

lemma journal_ok_recoverable: "journal_ok env v N B k es arts \<Longrightarrow> journal_recoverable env v N B k es arts"
  by (fastforce simp: journal_ok_def journal_recoverable_def entry_recoverable_def entry_ok_def)

lemma undoable_resumable: "undoable env v N B k js \<Longrightarrow> resumable env v N B k js"
  by (auto simp: undoable_def resumable_def journal_ok_recoverable)

lemma entry_recoverable_basic:
  assumes "entry_recoverable env v N B k arts e"
  shows "is_plain (je_path e)" "safe_dir env (dir_of (je_path e))" "je_previous e = v (je_path e)"
  using assms by (auto simp: entry_recoverable_def entry_ok_def split: option.splits)

text \<open>An artifact of a journal lies in the directory of one of its entries.\<close>

lemma artifact_needs_entry [simp]: "\<not> artifact_ok env N B [] a"
  by (simp add: artifact_ok_def artifact_associations_def List.map_filter_def)

lemma artifact_associated_safe:
  assumes "artifact_ok env N B es a" "\<forall>e\<in>set es. safe_dir env (dir_of (je_path e))"
  shows "en_safe_target env a"
proof -
  have "artifact_associations env es a \<noteq> []" using assms(1) by (simp add: artifact_ok_def)
  then obtain e where "e \<in> set es" "dir_of (je_path e) = dir_of a"
    by (auto simp: artifact_associations_def List.map_filter_def filter_empty_conv split: if_splits)
  thus ?thesis using assms(2) by (cases a) (auto simp: safe_dir_def)
qed

lemma recoverable_artifact:
  assumes "journal_recoverable env v N B k es arts" "a \<in> set arts"
  shows "en_safe_target env a"
proof (rule artifact_associated_safe)
  show "artifact_ok env N B es a" using assms by (simp add: journal_recoverable_def artifacts_ok_def)
  show "\<forall>e\<in>set es. safe_dir env (dir_of (je_path e))"
    using assms by (auto simp: journal_recoverable_def dest: entry_recoverable_basic)
qed

section \<open>Working on one entry\<close>

text \<open>The names that existed when the work began, without the target and its guard, are as they were.\<close>

definition touched :: "names \<Rightarrow> store \<Rightarrow> nat \<Rightarrow> path \<Rightarrow> path \<Rightarrow> names \<Rightarrow> store \<Rightarrow> nat \<Rightarrow> bool" where
  "touched N0 B0 k0 p g N B k \<longleftrightarrow> k0 \<le> k \<and> fresh_names N k
     \<and> (\<forall>q. q \<noteq> p \<longrightarrow> q \<noteq> g \<longrightarrow> (case serial (name_of q) of None \<Rightarrow> True | Some s \<Rightarrow> s < k0)
          \<longrightarrow> N q = N0 q \<and> (\<forall>i. N0 q = Some i \<longrightarrow> B i = B0 i))"

lemma touched_start: "fresh_names N k0 \<Longrightarrow> touched N B k0 p g N B k0"
  by (simp add: touched_def)

lemma touched_later: "touched N0 B0 k0 p g N B k \<Longrightarrow> k \<le> k' \<Longrightarrow> touched N0 B0 k0 p g N B k'"
  by (auto simp: touched_def intro: fresh_names_later)

lemma touched_name:
  assumes "touched N0 B0 k0 p g N B k" "k \<le> k'"
    and "q = p \<or> q = g \<or> (\<exists>s. serial (name_of q) = Some s \<and> k0 \<le> s)"
    and "x \<noteq> None \<Longrightarrow> \<forall>s. serial (name_of q) = Some s \<longrightarrow> s < k'"
  shows "touched N0 B0 k0 p g (N(q := x)) B k'"
proof -
  have "fresh_names (N(q := x)) k'"
    using assms(1) by (intro fresh_names_upd [OF _ assms(2,4)]) (auto simp: touched_def)
  thus ?thesis using assms(1-3) by (auto simp: touched_def)
qed

lemma touched_bytes:
  assumes t: "touched N0 B0 k0 p g N B k" and c: "c \<notin> ran N"
  shows "touched N0 B0 k0 p g N (B(c := b)) k"
proof -
  have "(B(c := b)) i = B0 i"
    if "q \<noteq> p" "q \<noteq> g" "case serial (name_of q) of None \<Rightarrow> True | Some s \<Rightarrow> s < k0" "N0 q = Some i" for q i
  proof -
    have "N q = Some i" "B i = B0 i" using t that by (auto simp: touched_def)
    thus ?thesis using c by (auto simp: ran_def)
  qed
  thus ?thesis using t by (simp add: touched_def)
qed

lemma touched_old:
  assumes "touched N0 B0 k0 p g N B k" "q \<noteq> p" "q \<noteq> g" "is_plain q \<or> (\<exists>s<k0. serial (name_of q) = Some s)"
  shows "N q = N0 q" "N0 q = Some i \<Longrightarrow> B i = B0 i" "seen N B q = seen N0 B0 q"
proof -
  have "case serial (name_of q) of None \<Rightarrow> True | Some s \<Rightarrow> s < k0" using assms(4) by (auto simp: is_plain_def)
  hence q: "N q = N0 q" "\<And>i. N0 q = Some i \<Longrightarrow> B i = B0 i" using assms(1-3) by (auto simp: touched_def)
  thus "N q = N0 q" "N0 q = Some i \<Longrightarrow> B i = B0 i" by simp_all
  show "seen N B q = seen N0 B0 q" using q by (cases "N0 q") (simp_all add: seen_def)
qed

lemma touched_pinned:
  assumes t: "touched N0 B0 k0 p g N B k" and "artifacts_ok env N0 B0 k0 es arts" "is_plain p" "g \<notin> set arts"
  shows "pinned N arts i = pinned N0 arts i"
proof -
  have "N q = N0 q" if "q \<in> set arts" for q
    by (rule touched_old(1) [OF t]) (use that assms(2-4) in \<open>auto simp: artifacts_ok_def is_plain_def\<close>)
  thus ?thesis by (auto simp: pinned_def)
qed

lemma recovery_guard_no_artifact: "artifacts_ok env N B k es arts \<Longrightarrow> recovery_guard_name p s \<notin> set arts"
  by (auto simp: artifacts_ok_def artifact_ok_def artifact_associations_def List.map_filter_def journal_artifact_kind_of_def
      recovery_guard_name_def filter_empty_conv split: if_splits)

text \<open>An entry may take any recoverable state while the others keep theirs.\<close>

lemma touched_recoverable:
  assumes j: "journal_recoverable env v N0 B0 k0 es arts" and n: "n < length es" and p: "p = je_path (es ! n)"
    and g: "g = recovery_guard_name p s" "\<And>e r. e \<in> set es \<Longrightarrow> je_recovery e = Some r \<Longrightarrow> rr_guard r = g \<Longrightarrow> e = es ! n"
    and t: "touched N0 B0 k0 p g N B k"
    and e': "entry_recoverable env v N B k arts ((es ! n)\<lparr>je_recovery := x\<rparr>)" "\<And>r. x = Some r \<Longrightarrow> rr_guard r = g"
  shows "journal_recoverable env v N B k (es[n := (es ! n)\<lparr>je_recovery := x\<rparr>]) arts"
proof -
  let ?e = "(es ! n)\<lparr>je_recovery := x\<rparr>"
  have e: "es ! n \<in> set es" using n by simp
  have plain: "is_plain p" using j e p by (auto simp: journal_recoverable_def dest: entry_recoverable_basic)
  have arts: "artifacts_ok env N0 B0 k0 es arts" using j by (simp add: journal_recoverable_def)
  have garts: "g \<notin> set arts" using recovery_guard_no_artifact [OF arts] g(1) by simp
  note pin = touched_pinned [OF t arts plain garts]
  have k: "k0 \<le> k" using t by (simp add: touched_def)
  have bare: "map bare (es[n := ?e]) = map bare es"
    using n by (simp add: map_update list_update_same_conv)
  have other: "entry_recoverable env v N B k arts e" if e: "e \<in> set es" "e \<noteq> es ! n" for e
  proof -
    have ok: "entry_recoverable env v N0 B0 k0 arts e" using j e(1) by (simp add: journal_recoverable_def)
    note basic = entry_recoverable_basic [OF ok]
    have "je_path e \<noteq> p" using e n p j by (auto simp: journal_recoverable_def distinct_map inj_on_def)
    moreover have "je_path e \<noteq> g" using basic(1) g(1) by auto
    ultimately have path: "N (je_path e) = N0 (je_path e)" "\<And>i. N0 (je_path e) = Some i \<Longrightarrow> B i = B0 i"
      "seen N B (je_path e) = seen N0 B0 (je_path e)"
      using touched_old [OF t, of "je_path e"] basic(1) by auto
    have at: "installed_at env N B e i = installed_at env N0 B0 e i" for i using path(1,2) by (auto simp: installed_at_def)
    show ?thesis
    proof (cases "je_recovery e")
      case None
      thus ?thesis using ok path(1,3) unfolding entry_recoverable_def entry_ok_def at pin by auto
    next
      case (Some r)
      hence r: "recovering N0 B0 k0 env v e r" using ok by (simp add: entry_recoverable_def)
      then obtain s' where s': "s' < k0" "rr_guard r = recovery_guard_name (je_path e) s'" by (auto simp: recovering_def)
      have "rr_guard r \<noteq> g" using g(2) [OF e(1) Some] e(2) by auto
      moreover have "rr_guard r \<noteq> p" using plain s'(2) by auto
      ultimately have guard: "N (rr_guard r) = N0 (rr_guard r)" "\<And>i. N0 (rr_guard r) = Some i \<Longrightarrow> B i = B0 i"
        using touched_old [OF t, of "rr_guard r"] s' by auto
      have "recovering N B k env v e r"
        using r guard path s' k unfolding recovering_def at by (auto intro: less_le_trans)
      thus ?thesis using Some ok by (simp add: entry_recoverable_def pin)
    qed
  qed
  have "artifact_ok env N B es a" if "a \<in> set arts" for a
  proof -
    have a: "artifact_ok env N0 B0 es a" "\<exists>s<k0. serial (name_of a) = Some s" using arts that by (auto simp: artifacts_ok_def)
    have "a \<noteq> p" "a \<noteq> g" using a(2) plain garts that by (auto simp: is_plain_def)
    hence "N a = N0 a" "\<And>i. N0 a = Some i \<Longrightarrow> B i = B0 i" using touched_old [OF t, of a] a(2) by simp_all
    thus ?thesis using a(1) by (cases "N0 a") (simp_all add: artifact_ok_def)
  qed
  hence "artifacts_ok env N B k es arts" using arts k by (auto simp: artifacts_ok_def intro: less_le_trans)
  hence arts': "artifacts_ok env N B k (es[n := ?e]) arts" by (simp add: artifacts_ok_same [OF bare])
  have rest: "seen N B q = v q" if "is_plain q" "q \<notin> je_path ` set es" for q
  proof -
    have "q \<noteq> p" "q \<noteq> g" using that e p g(1) by auto
    thus ?thesis using touched_old(3) [OF t] that j by (auto simp: journal_recoverable_def)
  qed
  have paths: "map je_path (es[n := ?e]) = map je_path es" by (rule same_paths [OF bare])
  hence img: "je_path ` set (es[n := ?e]) = je_path ` set es" by (metis list.set_map)
  have cases: "e \<in> set es \<and> e \<noteq> es ! n \<or> e = ?e" if "e \<in> set (es[n := ?e])" for e
  proof -
    have "distinct es" using j by (auto simp: journal_recoverable_def distinct_map)
    thus ?thesis using that n by (auto simp: set_update_distinct)
  qed
  have inj: "e1 = e2" if "e1 \<in> set (es[n := ?e])" "e2 \<in> set (es[n := ?e])" "je_recovery e1 = Some r1"
    "je_recovery e2 = Some r2" "rr_guard r1 = rr_guard r2" for e1 e2 r1 r2
    using cases [OF that(1)] cases [OF that(2)] that(3-5) e'(2) g(2) j
    by (auto simp: journal_recoverable_def)
  have entries: "entry_recoverable env v N B k arts e" if "e \<in> set (es[n := ?e])" for e
    using cases [OF that] other e'(1) by auto
  have "distinct (map je_path es)" using j by (simp add: journal_recoverable_def)
  thus ?thesis using arts' rest inj entries unfolding journal_recoverable_def paths img by blast
qed

section \<open>The states of a recovery\<close>

abbreviation journal_at :: "journal_entry list \<Rightarrow> path list \<Rightarrow> nat \<Rightarrow> recovery_record option \<Rightarrow> journal" where
  "journal_at es arts n x \<equiv> in_progress (es[n := (es ! n)\<lparr>je_recovery := x\<rparr>]) arts"

lemma journal_at_simps:
  assumes "n < length es"
  shows "jr_entries (journal_at es arts n x) ! n = (es ! n)\<lparr>je_recovery := x\<rparr>"
    "set_entry n (set_phase ph) (journal_at es arts n (Some r)) = journal_at es arts n (Some (r\<lparr>rr_phase := ph\<rparr>))"
    "set_entry n clear_recovery (journal_at es arts n x) = journal_at es arts n None"
    "set_entry n (\<lambda>e. e\<lparr>je_recovery := y\<rparr>) (journal_at es arts n x) = journal_at es arts n y"
  using assms by (simp_all add: in_progress_def set_entry_def set_phase_def clear_recovery_def)

text \<open>The record that entry \<open>n\<close> has, or is about to get.\<close>

definition recording ::
  "environment \<Rightarrow> view \<Rightarrow> names \<Rightarrow> store \<Rightarrow> nat \<Rightarrow> journal_entry list \<Rightarrow> path list \<Rightarrow> nat \<Rightarrow> recovery_record \<Rightarrow> nat \<Rightarrow> bool" where
  "recording env v N0 B0 k0 es arts n r s \<longleftrightarrow> journal_recoverable env v N0 B0 k0 es arts \<and> n < length es
     \<and> rr_guard r = recovery_guard_name (je_path (es ! n)) s
     \<and> (\<forall>e\<in>set es. \<forall>r'. je_recovery e = Some r' \<longrightarrow> rr_guard r' = rr_guard r \<longrightarrow> e = es ! n)
     \<and> record_agrees (es ! n) r \<and> \<not> je_desired_absent (es ! n) \<and> pinned N0 arts (rr_expected_identity r)"

abbreviation at_work :: "names \<Rightarrow> store \<Rightarrow> nat \<Rightarrow> journal_entry list \<Rightarrow> nat \<Rightarrow> recovery_record \<Rightarrow> names \<Rightarrow> store \<Rightarrow> nat \<Rightarrow> bool" where
  "at_work N0 B0 k0 es n r \<equiv> touched N0 B0 k0 (je_path (es ! n)) (rr_guard r)"

lemma recordingD:
  assumes "recording env v N0 B0 k0 es arts n r s"
  shows "n < length es" "is_plain (je_path (es ! n))" "safe_dir env (dir_of (je_path (es ! n)))"
    "je_previous (es ! n) = v (je_path (es ! n))" "rr_guard r = recovery_guard_name (je_path (es ! n)) s"
    "record_agrees (es ! n) r" "en_safe_target env (rr_guard r)"
proof -
  show n: "n < length es" and g: "rr_guard r = recovery_guard_name (je_path (es ! n)) s" and "record_agrees (es ! n) r"
    using assms by (simp_all add: recording_def)
  have "entry_recoverable env v N0 B0 k0 arts (es ! n)"
    using assms n by (simp add: recording_def journal_recoverable_def)
  note b = entry_recoverable_basic [OF this]
  show "is_plain (je_path (es ! n))" "safe_dir env (dir_of (je_path (es ! n)))" "je_previous (es ! n) = v (je_path (es ! n))"
    by (fact b)+
  show "en_safe_target env (rr_guard r)" using b(2) by (simp add: g safe_dir_def recovery_guard_name_def)
qed

lemma recording_recoverable:
  assumes w: "recording env v N0 B0 k0 es arts n r s" and t: "at_work N0 B0 k0 es n r N B k"
    and e: "entry_recoverable env v N B k arts ((es ! n)\<lparr>je_recovery := x\<rparr>)" "\<And>r'. x = Some r' \<Longrightarrow> rr_guard r' = rr_guard r"
  shows "resumable env v N B k [(jp, journal_at es arts n x)]"
proof -
  have g: "e = es ! n" if "e \<in> set es" "je_recovery e = Some r'" "rr_guard r' = rr_guard r" for e r'
    using w that unfolding recording_def by blast
  have j: "journal_recoverable env v N0 B0 k0 es arts" using w by (simp add: recording_def)
  note d = recordingD [OF w]
  have "journal_recoverable env v N B k (es[n := (es ! n)\<lparr>je_recovery := x\<rparr>]) arts"
    by (rule touched_recoverable [OF j d(1) refl d(5) g t e])
  moreover have "fresh_names N k" using t by (simp add: touched_def)
  ultimately show ?thesis by (auto simp: resumable_def)
qed

lemma recording_state:
  assumes w: "recording env v N0 B0 k0 es arts n r s" and t: "at_work N0 B0 k0 es n r N B k" and "s < k"
    and "rr_phase r' = Planned \<and> N (rr_guard r) = None \<and> installed_at env N B (es ! n) (rr_expected_identity r)
      \<or> N (rr_guard r) = Some (rr_expected_identity r) \<and> en_digest env (B (rr_expected_identity r)) = rr_expected_hash r
          \<and> (N (je_path (es ! n)) = None \<or> je_previous (es ! n) \<noteq> None \<and> seen N B (je_path (es ! n)) = v (je_path (es ! n)))
      \<or> N (rr_guard r) = None \<and> seen N B (je_path (es ! n)) = v (je_path (es ! n)) \<and> (je_previous (es ! n) = None \<or> rr_phase r' = Restored)"
    and r': "r' = r\<lparr>rr_phase := ph\<rparr>"
  shows "resumable env v N B k [(jp, journal_at es arts n (Some r'))]"
proof (rule recording_recoverable [OF w t])
  note d = recordingD [OF w]
  have "artifacts_ok env N0 B0 k0 es arts" using w by (simp add: recording_def journal_recoverable_def)
  hence "pinned N arts (rr_expected_identity r)"
    using touched_pinned [OF t _ d(2)] w recovery_guard_no_artifact d(5) by (simp add: recording_def)
  moreover have "recovering N B k env v ((es ! n)\<lparr>je_recovery := Some r'\<rparr>) r'"
    using assms(3,4) r' w d(5) by (auto simp: recovering_def recording_def record_agrees_def expected_action_def installed_at_def)
  ultimately show "entry_recoverable env v N B k arts ((es ! n)\<lparr>je_recovery := Some r'\<rparr>)"
    using d r' by (simp add: entry_recoverable_def)
qed (simp add: r')

lemma recording_cleared:
  assumes w: "recording env v N0 B0 k0 es arts n r s" and t: "at_work N0 B0 k0 es n r N B k"
    and "seen N B (je_path (es ! n)) = v (je_path (es ! n))"
  shows "resumable env v N B k [(jp, journal_at es arts n None)]"
proof (rule recording_recoverable [OF w t])
  show "entry_recoverable env v N B k arts ((es ! n)\<lparr>je_recovery := None\<rparr>)"
    using recordingD [OF w] w assms(3)
    by (auto simp: entry_recoverable_def entry_ok_def recording_def record_agrees_def seen_def intro: sym)
qed simp

end
