(* ===== verification/Recovery_Safety.thy ===== *)
theory Recovery_Safety
  imports Recovery_States
begin

text \<open>
  Reconciliation after a crash, by a process that may die as well. Every system call of a
  reconciliation leads from a recoverable state to a recoverable state, so the next start can
  always take over; and a reconciliation that is not cut brings every file back.
\<close>

section \<open>Recovery of one entry\<close>

lemma mens_persist:
  assumes "faultless env" "crashless env \<or> C N B k [(jp, j0)]" "crashless env \<or> C N B k [(jp, set_entry n f j)]"
    and "Q (set_entry n f j) N B k [(jp, set_entry n f j)] t"
  shows "mens C (persist_entry env jp n f j) Q E N B k [(jp, j0)] t"
  unfolding persist_entry_def Let_def
  by (intro mens_chain mens_write_journal mens_give) (use assms in auto)

lemma dens_rename_new:
  assumes "faultless env" "N p = Some i" "N g = None" "g \<noteq> p"
    and "crashless env \<or> C N B k" "crashless env \<or> C (N(g \<mapsto> i, p := None)) B k" "Q () (N(g \<mapsto> i, p := None)) B k"
  shows "dens C (rename_new env p g) Q E N B k"
  unfolding rename_new_def
  by (intro dens_chain dens_open dens_rename dens_if dens_sync) (use assms in auto)

text \<open>The guard goes, then the record.\<close>

lemma mens_leave_quarantine:
  assumes env: "faultless env" and w: "recording env v N0 B0 k0 es arts n r s" and t: "at_work N0 B0 k0 es n r N B k" and s: "s < k"
    and g: "N (rr_guard r) = Some (rr_expected_identity r)" "en_digest env (B (rr_expected_identity r)) = rr_expected_hash r"
    and p: "seen N B (je_path (es ! n)) = v (je_path (es ! n))" and ph: "je_previous (es ! n) = None \<or> ph = Restored"
    and Q: "\<And>N' k'. at_work N0 B0 k0 es n r N' B k' \<Longrightarrow> seen N' B (je_path (es ! n)) = v (je_path (es ! n))
      \<Longrightarrow> Q (journal_at es arts n None) N' B k' [(jp, journal_at es arts n None)] t"
  shows "mens (at_crash env (resumable env v)) (chain (disk_op (remove_file env (rr_guard r))) (\<lambda>_.
       chain (disk_op (sync env)) (\<lambda>_. persist_entry env jp n clear_recovery (journal_at es arts n (Some (r\<lparr>rr_phase := ph\<rparr>))))))
     Q E N B k [(jp, journal_at es arts n (Some (r\<lparr>rr_phase := ph\<rparr>)))] t"
proof -
  let ?p = "je_path (es ! n)" and ?g = "rr_guard r" and ?bd = "bound_delete_name (rr_guard r) k"
  note d = recordingD [OF w]
  have bd: "N ?bd = None" using t by (auto simp: touched_def intro: generated_fresh(5))
  have ne: "?bd \<noteq> ?g" "?g \<noteq> ?p" "?p \<noteq> ?g" using g(1) bd plain_differs(11,12) [OF d(2)] d(5) by auto
  have k: "k0 \<le> k" using t by (simp add: touched_def)
  have p': "N ?p = None \<or> je_previous (es ! n) \<noteq> None \<and> seen N B ?p = v ?p"
    using p d(4) by (cases "v ?p") (auto simp: seen_def)
  have gone: "at_work N0 B0 k0 es n r (N(?g := None)) B k'" if "k \<le> k'" for k'
    by (rule touched_name [OF t that]) simp_all
  have moved: "at_work N0 B0 k0 es n r (N(?g := None, ?bd := x)) B (Suc k)" for x
    by (rule touched_name [OF gone [OF order_refl]]) (use k in simp_all)
  have seen: "seen (N(?g := None)) B ?p = v ?p" "seen (N(?g := None, ?bd := x)) B ?p = v ?p" for x
    using p ne d(2) by (auto simp: seen_def)
  have now: "resumable env v N B k' [(jp, journal_at es arts n (Some (r\<lparr>rr_phase := ph\<rparr>)))]" if "k \<le> k'" for k'
    by (rule recording_state [OF w touched_later [OF t that]]) (use that s g p' in simp_all)
  have after: "resumable env v (N(?g := None)) B (Suc k) [(jp, journal_at es arts n (Some (r\<lparr>rr_phase := ph\<rparr>)))]"
    "resumable env v (N(?g := None, ?bd := x)) B (Suc k) [(jp, journal_at es arts n (Some (r\<lparr>rr_phase := ph\<rparr>)))]" for x
    by (rule recording_state [OF w gone], use s ph seen ne in simp_all)
      (rule recording_state [OF w moved], use s ph seen ne in simp_all)
  have cleared: "resumable env v (N(?g := None)) B (Suc k) [(jp, journal_at es arts n None)]"
    by (rule recording_cleared [OF w gone]) (use seen in simp_all)
  show ?thesis
    by (intro mens_chain mens_disk_op dens_remove [where i = "rr_expected_identity r"] dens_sync mens_persist)
      (use env g(1) bd ne now after cleared Q [OF gone seen(1)] in \<open>simp_all add: journal_at_simps d(1)\<close>)
qed

text \<open>The previous bytes come back under the free name of the target.\<close>

lemma mens_publish_previous:
  fixes p :: path and k :: nat
  assumes env: "faultless env" "fresh_inodes env" and N: "fresh_names N k" "N p = None" "is_plain p"
    and C: "crashless env \<or> C N B k js" "crashless env \<or> C N B (Suc k) js"
      "\<And>c b. c \<notin> ran N \<Longrightarrow> crashless env \<or> C (N(temporary_name p k \<mapsto> c)) (B(c := b)) (Suc k) js"
      "\<And>c. c \<notin> ran N \<Longrightarrow> crashless env \<or> C (N(p \<mapsto> c)) (B(c := old)) (Suc k) js"
    and Q: "\<And>c. c \<notin> ran N \<Longrightarrow> Q () (N(p \<mapsto> c)) (B(c := old)) (Suc k) js t"
  shows "mens C (chain (disk_op (write_synced_temp env p old)) (\<lambda>temporary.
      chain (attempt (on_disk (publish_new env temporary p))) (\<lambda>installed.
      case installed of Inl _ \<Rightarrow> f temporary
      | Inr _ \<Rightarrow> chain (disk_op (sync env)) (\<lambda>_. ignore (on_disk (remove_file env temporary)))))) Q E N B k js t"
    and "mens C (chain (disk_op (write_synced_temp env p old)) (\<lambda>temporary.
      chain (disk_op (publish_new env temporary p)) (\<lambda>_.
      chain (disk_op (sync env)) (\<lambda>_. ignore (on_disk (remove_file env temporary)))))) Q E N B k js t"
proof -
  note fresh = generated_fresh(1) [OF N(1), of k p] and ne = plain_differs(1,2) [OF N(3), of p k]
  have upd: "N(p \<mapsto> c, temporary_name p k := None) = N(p \<mapsto> c)" for c using fresh ne by (auto simp: fun_eq_iff)
  show "mens C (chain (disk_op (write_synced_temp env p old)) (\<lambda>temporary.
      chain (attempt (on_disk (publish_new env temporary p))) (\<lambda>installed.
      case installed of Inl _ \<Rightarrow> f temporary
      | Inr _ \<Rightarrow> chain (disk_op (sync env)) (\<lambda>_. ignore (on_disk (remove_file env temporary)))))) Q E N B k js t"
    unfolding write_synced_temp_def
    by (intro mens_chain mens_disk_op mens_attempt mens_case_sum dens_temp dens_publish dens_sync mens_ignore mens_on_disk dens_remove_absent)
      (use env N(2) C Q fresh ne upd in simp_all)
  show "mens C (chain (disk_op (write_synced_temp env p old)) (\<lambda>temporary.
      chain (disk_op (publish_new env temporary p)) (\<lambda>_.
      chain (disk_op (sync env)) (\<lambda>_. ignore (on_disk (remove_file env temporary)))))) Q E N B k js t"
    unfolding write_synced_temp_def
    by (intro mens_chain mens_disk_op dens_temp dens_publish dens_sync mens_ignore mens_on_disk dens_remove_absent)
      (use env N(2) C Q fresh ne upd in simp_all)
qed

lemma mens_finish_recovery:
  assumes env: "faultless env" "fresh_inodes env"
    and w: "recording env v N0 B0 k0 es arts n r s" and t: "at_work N0 B0 k0 es n r N B k" and s: "s < k"
    and g: "N (rr_guard r) = Some (rr_expected_identity r)" "en_digest env (B (rr_expected_identity r)) = rr_expected_hash r"
    and p: "N (je_path (es ! n)) = None \<or> je_previous (es ! n) \<noteq> None \<and> seen N B (je_path (es ! n)) = v (je_path (es ! n))"
    and Q: "\<And>N' B' k'. at_work N0 B0 k0 es n r N' B' k' \<Longrightarrow> seen N' B' (je_path (es ! n)) = v (je_path (es ! n))
      \<Longrightarrow> Q (journal_at es arts n None) N' B' k' [(jp, journal_at es arts n None)] tx"
  shows "mens (at_crash env (resumable env v)) (finish_recovery env jp n (je_path (es ! n)) r (journal_at es arts n (Some (r\<lparr>rr_phase := ph\<rparr>))))
     Q E N B k [(jp, journal_at es arts n (Some (r\<lparr>rr_phase := ph\<rparr>)))] tx"
proof -
  let ?p = "je_path (es ! n)" and ?j = "journal_at es arts n (Some (r\<lparr>rr_phase := ph\<rparr>))"
  note d = recordingD [OF w]
  have now: "resumable env v N B k [(jp, ?j)]"
    by (rule recording_state [OF w t s]) (use g p in simp_all)
  have act: "rr_action r = RestorePrevious \<longleftrightarrow> je_previous (es ! n) \<noteq> None"
    using d(6) by (simp add: record_agrees_def expected_action_def)
  have prev: "previous_hash env ((es ! n)\<lparr>je_recovery := x\<rparr>) = map_option (en_digest env) (v ?p)" for x
    using d(4) by (simp add: previous_hash_def digest_bytes_def [abs_def])
  show ?thesis
  proof (cases "je_previous (es ! n)")
    case None
    hence v: "seen N B ?p = v ?p" using p d(4) by (simp add: seen_def)
    have "mens (at_crash env (resumable env v)) (chain (disk_op (remove_file env (rr_guard r))) (\<lambda>_.
         chain (disk_op (sync env)) (\<lambda>_. persist_entry env jp n clear_recovery ?j))) Q E N B k [(jp, ?j)] tx"
      by (rule mens_leave_quarantine [OF env(1) w t s g v]) (use None Q in auto)
    thus ?thesis unfolding finish_recovery_def Let_def
      by (intro mens_chain [of _ "attempt x" for x] mens_attempt mens_on_disk dens_identity_the dens_hash_the mens_if
          mens_chain [of _ "if b then x else y" for b x y] mens_give)
        (use env now g act None in \<open>simp_all add: ok_value_def\<close>)
  next
    case (Some old)
    have v: "v ?p = Some old" using Some d(4) by simp
    have rest: "mens (at_crash env (resumable env v)) (persist_entry env jp n (set_phase Restored) ?j)
        (\<lambda>j'. mens (at_crash env (resumable env v)) (chain (disk_op (remove_file env (rr_guard r))) (\<lambda>_.
         chain (disk_op (sync env)) (\<lambda>_. persist_entry env jp n clear_recovery j'))) Q E) E N' B' k' [(jp, ?j)] tx"
      if t': "at_work N0 B0 k0 es n r N' B' k'" and k': "s < k'"
        and g': "N' (rr_guard r) = Some (rr_expected_identity r)" "en_digest env (B' (rr_expected_identity r)) = rr_expected_hash r"
        and v': "seen N' B' ?p = v ?p" for N' B' k'
    proof -
      have "resumable env v N' B' k' [(jp, journal_at es arts n (Some (r\<lparr>rr_phase := x\<rparr>)))]" for x
        by (rule recording_state [OF w t' k']) (use g' v' Some in simp_all)
      moreover have "mens (at_crash env (resumable env v)) (chain (disk_op (remove_file env (rr_guard r))) (\<lambda>_.
         chain (disk_op (sync env)) (\<lambda>_. persist_entry env jp n clear_recovery (journal_at es arts n (Some (r\<lparr>rr_phase := Restored\<rparr>))))))
         Q E N' B' k' [(jp, journal_at es arts n (Some (r\<lparr>rr_phase := Restored\<rparr>)))] tx"
        by (rule mens_leave_quarantine [OF env(1) w t' k' g' v']) (use Q in auto)
      ultimately show ?thesis
        by (intro mens_persist) (use env in \<open>simp_all add: journal_at_simps d(1)\<close>)
    qed
    show ?thesis
    proof (cases "N ?p")
      case None
      have k: "k0 \<le> k" "fresh_names N k" using t by (simp_all add: touched_def)
      have bytes: "(B(c := b)) (rr_expected_identity r) = B (rr_expected_identity r)" if "c \<notin> ran N" for c b
        using that g(1) by (auto simp: ran_def)
      have gp: "?p \<noteq> rr_guard r" "rr_guard r \<noteq> ?p" "rr_guard r \<noteq> temporary_name ?p k" using None g(1) d(5) generated_fresh(1) [OF k(2), of k] by auto
      have work: "at_work N0 B0 k0 es n r (N(temporary_name ?p k \<mapsto> c)) (B(c := b)) (Suc k)"
        "at_work N0 B0 k0 es n r (N(?p \<mapsto> c)) (B(c := b)) (Suc k)" if "c \<notin> ran N" for c b
        using k(1) d(2) by (auto intro!: touched_name [OF touched_bytes [OF t that]] simp: is_plain_def)
      have crash: "resumable env v N B (Suc k) [(jp, ?j)]"
        "c \<notin> ran N \<Longrightarrow> resumable env v (N(temporary_name ?p k \<mapsto> c)) (B(c := b)) (Suc k) [(jp, ?j)]"
        "c \<notin> ran N \<Longrightarrow> resumable env v (N(?p \<mapsto> c)) (B(c := old)) (Suc k) [(jp, ?j)]" for c b
        by (rule recording_state [OF w touched_later [OF t]], use s g p in simp_all)
          (rule recording_state [OF w work(1)], use s g gp None bytes plain_differs(2) [OF d(2)] in simp_all,
           rule recording_state [OF w work(2)], use s g gp bytes Some d(4) in \<open>simp_all add: seen_def\<close>)
      have onward: "mens (at_crash env (resumable env v)) (persist_entry env jp n (set_phase Restored) ?j)
        (\<lambda>j'. mens (at_crash env (resumable env v)) (chain (disk_op (remove_file env (rr_guard r))) (\<lambda>_.
         chain (disk_op (sync env)) (\<lambda>_. persist_entry env jp n clear_recovery j'))) Q E) E (N(?p \<mapsto> c)) (B(c := old)) (Suc k) [(jp, ?j)] tx"
        if "c \<notin> ran N" for c
        by (rule rest [OF work(2) [OF that]]) (use s g gp bytes that Some d(4) in \<open>simp_all add: seen_def\<close>)
      show ?thesis unfolding finish_recovery_def Let_def
        apply (intro mens_chain [of _ "attempt x" for x] mens_attempt mens_on_disk dens_identity_the dens_hash_the [where p = "rr_guard r"]
          mens_chain [of _ "if b then x else y" for b x y] dens_hash_absent [where p = ?p] mens_if mens_give
          mens_publish_previous(1))
        apply (use env now crash g gp act v None onward k d(1,2) Some in \<open>simp_all add: ok_value_def journal_at_simps prev\<close>)
        done
    next
      case (Some i)
      hence "seen N B ?p = v ?p" "B i = old" using p v by (auto simp: seen_def)
      note onward = rest [OF t s g this(1)] and this
      thus ?thesis unfolding finish_recovery_def Let_def
        apply (intro mens_chain [of _ "attempt x" for x] mens_attempt mens_on_disk dens_identity_the dens_hash_the
          mens_chain [of _ "if b then x else y" for b x y] mens_if mens_give)
        apply (use env now g act v Some onward d(1,4) in \<open>simp_all add: ok_value_def journal_at_simps prev\<close>)
        done
    qed
  qed
qed

text \<open>An entry with a record is resumed in whatever state the last process left it.\<close>

lemma mens_resume:
  assumes env: "faultless env" "fresh_inodes env"
    and w: "recording env v N0 B0 k0 es arts n r s" and t: "at_work N0 B0 k0 es n r N B k" and s: "s < k"
    and st: "rr_phase r = Planned \<and> N (rr_guard r) = None \<and> installed_at env N B (es ! n) (rr_expected_identity r)
      \<or> N (rr_guard r) = Some (rr_expected_identity r) \<and> en_digest env (B (rr_expected_identity r)) = rr_expected_hash r
          \<and> (N (je_path (es ! n)) = None \<or> je_previous (es ! n) \<noteq> None \<and> seen N B (je_path (es ! n)) = v (je_path (es ! n)))
      \<or> N (rr_guard r) = None \<and> seen N B (je_path (es ! n)) = v (je_path (es ! n)) \<and> (je_previous (es ! n) = None \<or> rr_phase r = Restored)"
    and Q: "\<And>N' B' k'. at_work N0 B0 k0 es n r N' B' k' \<Longrightarrow> seen N' B' (je_path (es ! n)) = v (je_path (es ! n))
      \<Longrightarrow> Q (journal_at es arts n None) N' B' k' [(jp, journal_at es arts n None)] tx"
  shows "mens (at_crash env (resumable env v)) (resume_recovery_entry env jp n (je_path (es ! n)) (journal_at es arts n (Some r)))
     Q E N B k [(jp, journal_at es arts n (Some r))] tx"
proof -
  let ?p = "je_path (es ! n)" and ?g = "rr_guard r" and ?C = "at_crash env (resumable env v)"
  note d = recordingD [OF w]
  have now: "resumable env v N B k [(jp, journal_at es arts n (Some r))]"
    by (rule recording_state [OF w t s st, where ph = "rr_phase r"]) simp
  have agrees: "record_agrees ((es ! n)\<lparr>je_recovery := x\<rparr>) r" for x
    using d(6) by (simp add: record_agrees_def expected_action_def)
  have guard: "dir_of ?g = dir_of ?p" "is_recovery_guard ?g" using d(5) by (simp_all add: recovery_guard_name_def is_recovery_guard_def)
  have gp: "?g \<noteq> ?p" using plain_differs(11) [OF d(2)] d(5) by simp
  have act: "rr_action r = DeleteInstalled \<longleftrightarrow> je_previous (es ! n) = None"
    using d(6) by (simp add: record_agrees_def expected_action_def)
  have prev: "previous_hash env ((es ! n)\<lparr>je_recovery := x\<rparr>) = map_option (en_digest env) (v ?p)" for x
    using d(4) by (simp add: previous_hash_def digest_bytes_def [abs_def])
  have k: "k0 \<le> k" "fresh_names N k" using t by (simp_all add: touched_def)
  note enter = mens_case_Some mens_if mens_chain mens_safe_target mens_attempt mens_on_disk
  show ?thesis
  proof (cases "N ?g")
    case (Some i)
    hence g: "N ?g = Some (rr_expected_identity r)" "en_digest env (B (rr_expected_identity r)) = rr_expected_hash r"
      "N ?p = None \<or> je_previous (es ! n) \<noteq> None \<and> seen N B ?p = v ?p" using st by auto
    have "mens ?C (finish_recovery env jp n ?p r (journal_at es arts n (Some (r\<lparr>rr_phase := rr_phase r\<rparr>))))
       Q E N B k [(jp, journal_at es arts n (Some (r\<lparr>rr_phase := rr_phase r\<rparr>)))] tx"
      by (rule mens_finish_recovery [OF env w t s g]) (use Q in auto)
    thus ?thesis
      unfolding resume_recovery_entry_def Let_def journal_at_simps(1) [OF d(1)]
      by (simp add: agrees guard)
        (intro mens_chain [of _ "safe_journal_target env x" for x] mens_safe_target mens_chain [of _ "attempt x" for x]
          mens_attempt mens_on_disk dens_identity_the mens_if; use env now d(7) g(1) guard in \<open>simp add: ok_value_def\<close>)
  next
    case None
    show ?thesis
    proof (cases "rr_phase r = Planned \<and> installed_at env N B (es ! n) (rr_expected_identity r)")
      case True
      let ?N = "N(?g \<mapsto> rr_expected_identity r, ?p := None)"
      have i: "N ?p = Some (rr_expected_identity r)" "en_digest env (B (rr_expected_identity r)) = rr_expected_hash r"
        using True d(6) by (simp_all add: installed_at_def record_agrees_def)
      have "at_work N0 B0 k0 es n r (N(?g \<mapsto> rr_expected_identity r)) B k"
        by (rule touched_name [OF t order_refl]) (use s d(5) in simp_all)
      hence t': "at_work N0 B0 k0 es n r ?N B k" by (rule touched_name [OF _ order_refl]) simp_all
      have moved: "resumable env v ?N B k [(jp, journal_at es arts n (Some (r\<lparr>rr_phase := ph\<rparr>)))]" for ph
        by (rule recording_state [OF w t' s]) (use i gp in simp_all)
      have moved': "resumable env v ?N B k [(jp, journal_at es arts n (Some r))]" using moved [of "rr_phase r"] by simp
      have "mens ?C (finish_recovery env jp n ?p r (journal_at es arts n (Some (r\<lparr>rr_phase := Quarantined\<rparr>))))
        Q E ?N B k [(jp, journal_at es arts n (Some (r\<lparr>rr_phase := Quarantined\<rparr>)))] tx"
        by (rule mens_finish_recovery [OF env w t' s]) (use i gp Q in auto)
      thus ?thesis
        unfolding resume_recovery_entry_def Let_def journal_at_simps(1) [OF d(1)]
        apply (simp add: agrees guard)
        apply (intro mens_chain mens_safe_target mens_attempt mens_on_disk mens_disk_op dens_identity_absent [where p = ?g]
          dens_hash_the dens_identity_the [where p = ?p] mens_if dens_rename_new dens_sync mens_persist)
        apply (use env now moved moved' d(7) i gp guard None True in \<open>simp_all add: ok_value_def journal_at_simps d(1)\<close>)
        done
    next
      case False
      hence v: "seen N B ?p = v ?p" "je_previous (es ! n) = None \<or> rr_phase r = Restored" using st None by auto
      have cleared: "resumable env v N B k [(jp, journal_at es arts n None)]" by (rule recording_cleared [OF w t v(1)])
      have hash: "mens ?C (attempt (on_disk (bound_hash env ?p))) R E N B k [(jp, journal_at es arts n (Some r))] tx"
        if "\<And>x. ok_value x = map_option (en_digest env) (v ?p) \<Longrightarrow> R x N B k [(jp, journal_at es arts n (Some r))] tx" for R
        by (intro mens_attempt mens_on_disk dens_hash) (use env now that in \<open>auto simp: ok_value_def seen_def v(1) [symmetric]\<close>)
      have identity: "mens ?C (attempt (on_disk (file_identity env ?p))) R E N B k [(jp, journal_at es arts n (Some r))] tx"
        if "\<And>x. ok_value x = N ?p \<Longrightarrow> R x N B k [(jp, journal_at es arts n (Some r))] tx" for R
        by (intro mens_attempt mens_on_disk dens_identity) (use env now that in \<open>auto simp: ok_value_def\<close>)
      have keep: "mens ?C (if rr_action r = DeleteInstalled \<or> ok_value h = previous_hash env ((es ! n)\<lparr>je_recovery := Some r\<rparr>)
          then persist_entry env jp n clear_recovery (journal_at es arts n (Some r)) else fail conflict_error)
          Q E N B k [(jp, journal_at es arts n (Some r))] tx"
        if "ok_value h = map_option (en_digest env) (v ?p)" for h :: "io_kind + string"
        by (intro mens_if mens_persist) (use that env now cleared prev Q [OF t v(1)] in \<open>simp_all add: journal_at_simps d(1)\<close>)
      have not_planned: "\<not> (rr_phase r = Planned \<and> ok_value i = Some (rr_expected_identity r) \<and> ok_value h = Some (rr_expected_hash r))"
        if "ok_value h = map_option (en_digest env) (v ?p)" "ok_value i = N ?p" for h :: "io_kind + string" and i :: "io_kind + nat"
        using that False d(6) by (auto simp: v(1) [symmetric] seen_def installed_at_def record_agrees_def)
      have "mens ?C (chain (attempt (on_disk (bound_hash env ?p))) (\<lambda>hash.
          chain (attempt (on_disk (file_identity env ?p))) (\<lambda>identity.
             if rr_phase r = Planned \<and> ok_value identity = Some (rr_expected_identity r)
                \<and> ok_value hash = Some (rr_expected_hash r)
             then
               chain (disk_op (rename_new env ?p ?g)) (\<lambda>_.
               chain (disk_op (sync env)) (\<lambda>_.
               chain (persist_entry env jp n (set_phase Quarantined) (journal_at es arts n (Some r))) (\<lambda>j'.
               finish_recovery env jp n ?p r j')))
             else if rr_action r = DeleteInstalled \<or> ok_value hash = previous_hash env ((es ! n)\<lparr>je_recovery := Some r\<rparr>)
             then persist_entry env jp n clear_recovery (journal_at es arts n (Some r))
             else fail conflict_error))) Q E N B k [(jp, journal_at es arts n (Some r))] tx"
        apply (intro mens_chain hash identity)
        apply (rule mens_if)
         apply (use not_planned in blast)
        apply (rule keep, assumption)
        done
      thus ?thesis
        unfolding resume_recovery_entry_def Let_def journal_at_simps(1) [OF d(1)]
        apply (simp add: agrees guard)
        apply (rule mens_chain, rule mens_safe_target [OF d(7)])
        apply (simp add: guard)
        apply (rule mens_chain, intro mens_attempt mens_on_disk dens_identity_absent [where p = ?g])
        apply (use env now None in \<open>simp_all add: ok_value_def\<close>)
        done
    qed
  qed
qed

section \<open>Reconciliation of one entry\<close>

text \<open>Entry \<open>n\<close> is undone; the other entries and the other files are as before.\<close>

definition undone ::
  "environment \<Rightarrow> view \<Rightarrow> journal_entry list \<Rightarrow> path list \<Rightarrow> nat \<Rightarrow> names \<Rightarrow> store \<Rightarrow> names \<Rightarrow> store \<Rightarrow> nat \<Rightarrow> bool" where
  "undone env v es arts n N B N' B' k' \<longleftrightarrow> fresh_names N' k'
     \<and> journal_recoverable env v N' B' k' (es[n := (es ! n)\<lparr>je_recovery := None\<rparr>]) arts
     \<and> seen N' B' (je_path (es ! n)) = v (je_path (es ! n))
     \<and> (\<forall>q. is_plain q \<longrightarrow> q \<noteq> je_path (es ! n) \<longrightarrow> seen N' B' q = seen N B q)"

lemma undoneI:
  assumes r: "resumable env v N' B' k' [(jp, journal_at es arts n None)]" and t: "touched N B k (je_path (es ! n)) g N' B' k'"
    and g: "\<not> is_plain g" and v: "seen N' B' (je_path (es ! n)) = v (je_path (es ! n))"
  shows "undone env v es arts n N B N' B' k'"
proof -
  have "seen N' B' q = seen N B q" if "is_plain q" "q \<noteq> je_path (es ! n)" for q
    using touched_old(3) [OF t, of q] that g by auto
  thus ?thesis using r v by (auto simp: undone_def resumable_def)
qed

lemma resumable_later:
  assumes "resumable env v N B k js" "k \<le> k'"
  shows "resumable env v N B k' js"
proof -
  have "recovering N B k' env v e r" if "recovering N B k env v e r" for e r
    using that assms(2) unfolding recovering_def by (auto intro: less_le_trans)
  hence "entry_recoverable env v N B k' arts e" if "entry_recoverable env v N B k arts e" for arts e
    using that by (auto simp: entry_recoverable_def split: option.splits)
  moreover have "artifacts_ok env N B k' es arts" if "artifacts_ok env N B k es arts" for es arts
    using that assms(2) by (auto simp: artifacts_ok_def intro: less_le_trans)
  ultimately have "journal_recoverable env v N B k' es arts" if "journal_recoverable env v N B k es arts" for es arts
    using that unfolding journal_recoverable_def by blast
  thus ?thesis using assms fresh_names_later by (auto simp: resumable_def)
qed

lemma journal_unrecorded: "je_recovery (es ! n) = None \<Longrightarrow> journal_at es arts n None = in_progress es arts"
  by (simp add: list_update_same_conv) (metis journal_entry.surjective journal_entry.update_convs(6) list_update_id)

text \<open>A new plan: its guard has a name that was not drawn before.\<close>

lemma guard_unused:
  assumes "journal_recoverable env v N B k es arts" "e \<in> set es" "je_recovery e = Some r"
  shows "rr_guard r \<noteq> recovery_guard_name p k"
proof -
  obtain s where "s < k" "rr_guard r = recovery_guard_name (je_path e) s"
    using assms by (fastforce simp: journal_recoverable_def entry_recoverable_def recovering_def)
  thus ?thesis by (simp add: recovery_guard_name_def)
qed

lemma new_recording:
  assumes j: "journal_recoverable env v N B k es arts" and n: "n < length es"
    and e: "record_agrees (es ! n) r" "\<not> je_desired_absent (es ! n)" "pinned N arts (rr_expected_identity r)"
    and g: "rr_guard r = recovery_guard_name (je_path (es ! n)) k"
  shows "recording env v N B k es arts n r k"
  using assms guard_unused [OF j] unfolding recording_def by auto

lemma mens_plan_and_recover:
  assumes env: "faultless env" "fresh_inodes env" and j: "journal_recoverable env v N B k es arts" "fresh_names N k" "n < length es"
    and e: "je_recovery (es ! n) = None" "\<not> je_desired_absent (es ! n)" "je_installed_identity (es ! n) = Some i"
      "installed_at env N B (es ! n) i" "pinned N arts i"
    and Q: "\<And>N' B' k'. undone env v es arts n N B N' B' k' \<Longrightarrow> Q (journal_at es arts n None) N' B' k' [(jp, journal_at es arts n None)] t"
  shows "mens (at_crash env (resumable env v)) (plan_and_recover_entry env jp n (je_path (es ! n)) (in_progress es arts))
    Q E N B k [(jp, in_progress es arts)] t"
proof -
  let ?p = "je_path (es ! n)"
  define r where "r = \<lparr>rr_canonical = ?p, rr_guard = recovery_guard_name ?p k, rr_expected_hash = je_desired_hash (es ! n),
    rr_expected_identity = i, rr_action = expected_action (es ! n), rr_phase = Planned\<rparr>"
  have w: "recording env v N B k es arts n r k"
    by (rule new_recording [OF j(1,3)]) (use e in \<open>simp_all add: r_def record_agrees_def\<close>)
  note at = touched_later [OF touched_start [OF j(2)] le_SucI [OF order_refl]]
  have st: "rr_phase r = Planned \<and> N (rr_guard r) = None \<and> installed_at env N B (es ! n) (rr_expected_identity r)"
    using generated_fresh(6) [OF j(2), of k ?p] e(4) by (simp add: r_def)
  have now: "resumable env v N B k [(jp, in_progress es arts)]" using j by (auto simp: resumable_def)
  have planned: "resumable env v N B (Suc k) [(jp, journal_at es arts n (Some r))]"
    by (rule recording_state [OF w at, where ph = Planned]) (use st in \<open>simp_all add: r_def\<close>)
  have guard: "\<not> is_plain (rr_guard r)" by (simp add: r_def)
  have "mens (at_crash env (resumable env v)) (resume_recovery_entry env jp n ?p (journal_at es arts n (Some r)))
     Q E N B (Suc k) [(jp, journal_at es arts n (Some r))] t"
    by (rule mens_resume [OF env w at lessI disjI1 [OF st]]) (rule Q, rule undoneI [OF recording_cleared [OF w] _ guard])
  moreover have "set_entry n (\<lambda>e. e\<lparr>je_recovery := Some \<lparr>rr_canonical = je_path e, rr_guard = Path (dir_of ?p) (RecoveryGuard k),
      rr_expected_hash = je_desired_hash e, rr_expected_identity = i, rr_action = expected_action e, rr_phase = Planned\<rparr>\<rparr>) (in_progress es arts)
      = journal_at es arts n (Some r)"
    using j(3) by (simp add: set_entry_def in_progress_def r_def recovery_guard_name_def)
  ultimately show ?thesis unfolding plan_and_recover_entry_def Let_def
    using env now resumable_later [OF now, of "Suc k"] planned e(3)
    by (simp add: in_progress_def [of es] del: set_entry_def)
     (intro mens_chain mens_on_disk dens_new_uuid mens_persist; simp)
qed

text \<open>A removed file comes back from the journal.\<close>

lemma mens_undo_removal:
  assumes env: "faultless env" "fresh_inodes env" and j: "journal_recoverable env v N B k es arts" "fresh_names N k" "n < length es"
    and e: "je_recovery (es ! n) = None" "je_desired_absent (es ! n)" "N (je_path (es ! n)) = None" "v (je_path (es ! n)) = Some old"
    and Q: "\<And>N' B' k'. undone env v es arts n N B N' B' k' \<Longrightarrow> Q (in_progress es arts) N' B' k' [(jp, in_progress es arts)] t"
  shows "mens (at_crash env (resumable env v)) (chain (restore_deleted env (es ! n)) (\<lambda>_. give (in_progress es arts)))
    Q E N B k [(jp, in_progress es arts)] t"
proof -
  let ?p = "je_path (es ! n)" and ?g = "recovery_guard_name (je_path (es ! n)) k"
  have ok: "entry_recoverable env v N B k arts (es ! n)" using j by (simp add: journal_recoverable_def)
  note p = entry_recoverable_basic [OF ok]
  have unused: "e = es ! n" if "e \<in> set es" "je_recovery e = Some r" "rr_guard r = ?g" for e r
    using guard_unused [OF j(1) that(1,2)] that(3) by blast
  have state: "resumable env v N' B' k' [(jp, in_progress es arts)]"
    if t: "touched N B k ?p ?g N' B' k'" and f: "N' ?p = None \<or> seen N' B' ?p = v ?p" for N' B' k'
  proof -
    have "entry_recoverable env v N' B' k' arts ((es ! n)\<lparr>je_recovery := None\<rparr>)"
      using p e f by (auto simp: entry_recoverable_def entry_ok_def)
    hence "journal_recoverable env v N' B' k' (es[n := (es ! n)\<lparr>je_recovery := None\<rparr>]) arts"
      by (intro touched_recoverable [OF j(1,3) refl refl unused t]) simp_all
    thus ?thesis using t journal_unrecorded [OF e(1), of arts] by (auto simp: resumable_def touched_def)
  qed
  note start = touched_start [OF j(2), of B ?p ?g]
  have work: "touched N B k ?p ?g (N(temporary_name ?p k \<mapsto> c)) (B(c := b)) (Suc k)"
    "touched N B k ?p ?g (N(?p \<mapsto> c)) (B(c := b)) (Suc k)" if "c \<notin> ran N" for c b
    using p(1) by (auto intro!: touched_name [OF touched_bytes [OF start that]] simp: is_plain_def)
  have done_: "Q (in_progress es arts) (N(?p \<mapsto> c)) (B(c := old)) (Suc k) [(jp, in_progress es arts)] t" if c: "c \<notin> ran N" for c
  proof (rule Q, rule undoneI [where jp = jp])
    show "resumable env v (N(?p \<mapsto> c)) (B(c := old)) (Suc k) [(jp, journal_at es arts n None)]"
      unfolding journal_unrecorded [OF e(1)] by (rule state [OF work(2) [OF c]]) (use e(4) in \<open>simp add: seen_def\<close>)
    show "touched N B k ?p ?g (N(?p \<mapsto> c)) (B(c := old)) (Suc k)" by (rule work(2) [OF c])
  qed (use e(4) in \<open>simp_all add: seen_def\<close>)
  have crash: "resumable env v N B k [(jp, in_progress es arts)]" "resumable env v N B (Suc k) [(jp, in_progress es arts)]"
    "c \<notin> ran N \<Longrightarrow> resumable env v (N(temporary_name ?p k \<mapsto> c)) (B(c := b)) (Suc k) [(jp, in_progress es arts)]"
    "c \<notin> ran N \<Longrightarrow> resumable env v (N(?p \<mapsto> c)) (B(c := old)) (Suc k) [(jp, in_progress es arts)]" for c b
    by (rule state [OF start], use e in simp, rule state [OF touched_later [OF start]], use e in simp_all)
      (rule state [OF work(1)], use e plain_differs(2) [OF p(1)] in simp_all,
       rule state [OF work(2)], use e in \<open>simp_all add: seen_def\<close>)
  have "je_previous (es ! n) = Some old" using p(3) e(4) by simp
  thus ?thesis unfolding restore_deleted_def
    by simp (intro mens_chain [of _ _ "\<lambda>_. give (in_progress es arts)"] mens_publish_previous(2);
      use env j(2) e p(1) crash done_ in \<open>simp add: mens_give\<close>)
qed

lemma mens_reconcile_entry:
  assumes env: "faultless env" "fresh_inodes env" and j: "journal_recoverable env v N B k es arts" "fresh_names N k" "n < length es"
    and Q: "\<And>N' B' k'. undone env v es arts n N B N' B' k' \<Longrightarrow> Q (journal_at es arts n None) N' B' k' [(jp, journal_at es arts n None)] t"
  shows "mens (at_crash env (resumable env v)) (reconcile_entry env jp n (in_progress es arts)) Q E N B k [(jp, in_progress es arts)] t"
proof -
  let ?e = "es ! n" and ?p = "je_path (es ! n)" and ?j = "in_progress es arts"
  have ok: "entry_recoverable env v N B k arts ?e" using j by (simp add: journal_recoverable_def)
  note p = entry_recoverable_basic [OF ok]
  have jf: "jr_state ?j = InProgress" "jr_entries ?j = es" "jr_recovery_artifacts ?j = arts" by (simp_all add: in_progress_def)
  have now: "resumable env v N B k [(jp, ?j)]" using j by (auto simp: resumable_def)
  have prev: "previous_hash env ?e = map_option (en_digest env) (v ?p)"
    using p(3) by (simp add: previous_hash_def digest_bytes_def [abs_def])
  have safe: "en_safe_target env a" if "a \<in> set arts" for a by (rule recoverable_artifact [OF j(1) that])
  have same: "Q ?j N B k [(jp, ?j)] t" if "je_recovery ?e = None" "seen N B ?p = v ?p"
    using Q [of N B k] j that journal_unrecorded [OF that(1), of arts]
    by (simp add: undone_def in_progress_def)
  show ?thesis
  proof (cases "je_recovery ?e")
    case (Some r)
    hence r: "record_agrees ?e r" "\<not> je_desired_absent ?e" "pinned N arts (rr_expected_identity r)" "recovering N B k env v ?e r"
      using ok Some by (auto simp: entry_recoverable_def) (auto simp: recovering_def)
    then obtain s where s: "s < k" "rr_guard r = recovery_guard_name ?p s" by (auto simp: recovering_def)
    have w: "recording env v N B k es arts n r s"
      using j r s Some by (auto simp: recording_def journal_recoverable_def)
    have id: "je_installed_identity ?e = Some (rr_expected_identity r)" using r(1) by (simp add: record_agrees_def)
    have here: "journal_at es arts n (Some r) = ?j"
      using Some by (simp add: list_update_same_conv) (metis journal_entry.surjective journal_entry.update_convs(6) list_update_id)
    have guard: "\<not> is_plain (rr_guard r)" by (simp add: s(2))
    have "mens (at_crash env (resumable env v)) (resume_recovery_entry env jp n ?p (journal_at es arts n (Some r)))
       Q E N B k [(jp, journal_at es arts n (Some r))] t"
      by (rule mens_resume [OF env w touched_start [OF j(2)] s(1)])
        (use r(4) in \<open>unfold recovering_def, blast\<close>, rule Q, rule undoneI [OF recording_cleared [OF w] _ guard])
    thus ?thesis unfolding reconcile_entry_def Let_def jf here
      by (intro mens_chain mens_safe_target mens_current_hash mens_if mens_pin_matches [where i = "rr_expected_identity r"])
        (use env now r id Some safe jf p(2) in \<open>auto simp: safe_dir_path\<close>)
  next
    case None
    hence eok: "entry_ok env v N B arts ?e" using ok by (simp add: entry_recoverable_def)
    note here = journal_unrecorded [OF None, of arts]
    show ?thesis
    proof (cases "seen N B ?p = v ?p")
      case True
      show ?thesis unfolding reconcile_entry_def Let_def jf
        by (intro mens_chain mens_safe_target mens_current_hash)
          (use env now None True same [OF None True] p(2) prev in \<open>auto simp: safe_dir_path intro!: mens_give\<close>)
    next
      case False
      show ?thesis
      proof (cases "je_desired_absent ?e")
        case True
        hence gone: "N ?p = None" "v ?p \<noteq> None" using eok False p(3) by (auto simp: entry_ok_def)
        then obtain old where old: "v ?p = Some old" by auto
        have "mens (at_crash env (resumable env v)) (chain (restore_deleted env ?e) (\<lambda>_. give ?j)) Q E N B k [(jp, ?j)] t"
          by (rule mens_undo_removal [OF env j None True gone(1) old]) (use Q here in simp)
        thus ?thesis unfolding reconcile_entry_def Let_def jf
          by (intro mens_chain [of _ "safe_journal_target env x" for x] mens_safe_target mens_chain [of _ "current_hash env x" for x] mens_current_hash)
            (use True env now p prev gone in \<open>auto simp: safe_dir_path seen_def\<close>)
      next
        case present: False
        then obtain i where i: "je_installed_identity ?e = Some i" "installed_at env N B ?e i" "pinned N arts i"
          "previous_hash env ?e \<noteq> Some (je_desired_hash ?e)" using eok False by (auto simp: entry_ok_def)
        hence N: "N ?p = Some i" "en_digest env (B i) = je_desired_hash ?e" by (simp_all add: installed_at_def)
        have plan: "mens (at_crash env (resumable env v)) (plan_and_recover_entry env jp n ?p ?j) Q E N B k [(jp, ?j)] t"
          by (rule mens_plan_and_recover [OF env j None present i(1-3)]) (rule Q)
        have "mens (at_crash env (resumable env v)) (journal_identity_matches env ?j ?p ?e True)
            (\<lambda>installed. mens (at_crash env (resumable env v)) (if \<not> installed then fail conflict_error else plan_and_recover_entry env jp n ?p ?j) Q E)
            E N B k [(jp, ?j)] t"
          by (rule mens_identity_pinned [OF env(1), where i = i]) (use now jf i(1,3) N(1) safe plan in simp_all)
        thus ?thesis unfolding reconcile_entry_def Let_def jf
          by (intro mens_chain [of _ "safe_journal_target env x" for x] mens_safe_target mens_chain [of _ "current_hash env x" for x] mens_current_hash)
            (use present None env now p N i(4) in \<open>auto simp: safe_dir_path seen_def intro!: mens_chain\<close>)
      qed
    qed
  qed
qed

section \<open>Reconciliation of a project\<close>

text \<open>Every entry is undone: what is left to do is to remove the artifacts and the journal.\<close>

definition restored :: "environment \<Rightarrow> view \<Rightarrow> store \<Rightarrow> journal_entry list \<Rightarrow> path list \<Rightarrow> names \<Rightarrow> nat \<Rightarrow> bool" where
  "restored env v B es arts N k \<longleftrightarrow> fresh_names N k \<and> (\<forall>p. is_plain p \<longrightarrow> seen N B p = v p)
     \<and> journal_recoverable env v N B k es arts \<and> (\<forall>e\<in>set es. je_recovery e = None)"

lemma restored_resumable:
  assumes "restored env v B es arts N k"
  shows "resumable env v N B k [(jp, in_progress es arts)]" "resumable env v N B k []"
  using assms by (auto simp: restored_def resumable_def)

lemma restored_frame:
  assumes r: "restored env v B es arts N k" and N': "fresh_names N' k'" "k \<le> k'" "\<And>p. is_plain p \<Longrightarrow> N' p = N p"
    and art: "\<And>a s. serial (name_of a) = Some s \<Longrightarrow> s < k \<Longrightarrow> N' a = N a \<or> N' a = None"
  shows "restored env v B es arts N' k'"
proof -
  have seen: "seen N' B p = v p" if "is_plain p" for p using r N'(3) [OF that] that by (auto simp: restored_def seen_def)
  have "entry_recoverable env v N' B k' arts e" if "e \<in> set es" for e
  proof -
    have ok: "entry_recoverable env v N B k arts e" "je_recovery e = None" using that r by (auto simp: restored_def journal_recoverable_def)
    thus ?thesis using seen [OF entry_recoverable_basic(1) [OF ok(1)]] by (auto simp: entry_recoverable_def entry_ok_def)
  qed
  moreover have "artifacts_ok env N' B k' es arts"
    by (rule artifacts_ok_frame [OF _ N'(2) art]) (use r in \<open>auto simp: restored_def journal_recoverable_def\<close>)
  ultimately show ?thesis using r N'(1) seen by (auto simp: restored_def journal_recoverable_def)
qed

lemma restored_survives: "survives_removal env' (restored env v B es arts)"
  by (rule survives_removalI) (simp add: restored_def, rule restored_frame)

lemma mens_reconcile_entries:
  assumes env: "faultless env" "fresh_inodes env" and j: "journal_recoverable env v N B k es arts" "fresh_names N k"
    and ns: "\<forall>n\<in>set ns. n < length es"
    and Q: "\<And>es' N' B' k'. map bare es' = map bare es \<Longrightarrow> journal_recoverable env v N' B' k' es' arts \<Longrightarrow> fresh_names N' k'
      \<Longrightarrow> (\<And>n. n < length es \<Longrightarrow> n \<in> set ns \<or> je_recovery (es ! n) = None \<and> seen N B (je_path (es ! n)) = v (je_path (es ! n))
            \<Longrightarrow> je_recovery (es' ! n) = None \<and> seen N' B' (je_path (es ! n)) = v (je_path (es ! n)))
      \<Longrightarrow> Q (in_progress es' arts) N' B' k' [(jp, in_progress es' arts)] t"
  shows "mens (at_crash env (resumable env v)) (reconcile_entries env jp ns (in_progress es arts)) Q E N B k [(jp, in_progress es arts)] t"
  using j ns Q
proof (induction ns arbitrary: es N B k)
  case Nil
  show ?case unfolding reconcile_entries.simps by (rule mens_give, rule Nil.prems(4)) (use Nil.prems in auto)
next
  case (Cons n ns)
  have n: "n < length es" using Cons.prems(3) by simp
  show ?case unfolding reconcile_entries.simps
  proof (rule mens_chain, rule mens_reconcile_entry [OF env Cons.prems(1,2) n])
    fix N' B' k'
    let ?es = "es[n := (es ! n)\<lparr>je_recovery := None\<rparr>]"
    assume u: "undone env v es arts n N B N' B' k'"
    hence j: "journal_recoverable env v N' B' k' ?es arts" "fresh_names N' k'" by (simp_all add: undone_def)
    have bare: "map bare ?es = map bare es" using n by (simp add: map_update list_update_same_conv)
    have path: "je_path (?es ! m) = je_path (es ! m)" if "m < length es" for m using that by (cases "m = n") simp_all
    have distinct: "je_path (es ! m) \<noteq> je_path (es ! n)" if "m < length es" "m \<noteq> n" for m
      using that n Cons.prems(1) nth_eq_iff_index_eq [of "map je_path es" m n] by (simp add: journal_recoverable_def)
    have kept: "je_recovery (?es ! m) = None \<and> seen N' B' (je_path (es ! m)) = v (je_path (es ! m))"
      if "m < length es" "m = n \<or> je_recovery (es ! m) = None \<and> seen N B (je_path (es ! m)) = v (je_path (es ! m))" for m
    proof (cases "m = n")
      case False
      have "is_plain (je_path (es ! m))" using that(1) Cons.prems(1) by (auto simp: journal_recoverable_def dest: entry_recoverable_basic)
      thus ?thesis using u that False distinct [OF that(1) False] by (simp add: undone_def)
    qed (use u n in \<open>simp add: undone_def\<close>)
    show "mens (at_crash env (resumable env v)) (reconcile_entries env jp ns (in_progress ?es arts)) Q E N' B' k' [(jp, in_progress ?es arts)] t"
    proof (rule Cons.IH [OF j])
      show "\<forall>n\<in>set ns. n < length ?es" using Cons.prems(3) by simp
      fix es' N'' B'' k''
      assume "map bare es' = map bare ?es" "journal_recoverable env v N'' B'' k'' es' arts" "fresh_names N'' k''"
        and rest: "\<And>m. m < length ?es \<Longrightarrow> m \<in> set ns \<or> je_recovery (?es ! m) = None \<and> seen N' B' (je_path (?es ! m)) = v (je_path (?es ! m))
            \<Longrightarrow> je_recovery (es' ! m) = None \<and> seen N'' B'' (je_path (?es ! m)) = v (je_path (?es ! m))"
      from this(1-3) show "Q (in_progress es' arts) N'' B'' k'' [(jp, in_progress es' arts)] t"
        by (intro Cons.prems(4)) (use bare rest kept path in auto)
    qed
  qed
qed

lemma mens_reconcile_resumable:
  assumes env: "faultless env" "fresh_inodes env" and u: "resumable env v N B k js"
  shows "mens (at_crash env (resumable env v)) (reconcile_project_at env)
    (\<lambda>_ N' B' k' js' t'. js' = [] \<and> (\<forall>p. is_plain p \<longrightarrow> seen N' B' p = v p)) (\<lambda>_ _ _ _ _ _. False) N B k js t"
proof (cases "js = []")
  case True
  thus ?thesis using u by (auto simp: resumable_def intro!: mens_reconcile_project_none)
next
  case False
  then obtain jp es arts where js: "js = [(jp, in_progress es arts)]" and j: "journal_recoverable env v N B k es arts" "fresh_names N k"
    using u by (auto simp: resumable_def)
  let ?j = "in_progress es arts" and ?Q = "\<lambda>_ N' B' k' js' t'. js' = [] \<and> (\<forall>p. is_plain p \<longrightarrow> seen N' B' p = v p)"
  have jf: "jr_state ?j = InProgress" "jr_entries ?j = es" "jr_recovery_artifacts (in_progress es' arts') = arts'" for es' arts'
    by (simp_all add: in_progress_def)
  have arts: "artifact_ok env N B es a \<and> en_safe_target env a" "distinct arts" if "a \<in> set arts" for a
    using that j recoverable_artifact [OF j(1) that] by (auto simp: journal_recoverable_def artifacts_ok_def)
  have dist: "distinct arts" using j by (simp add: journal_recoverable_def artifacts_ok_def)
  have none: "arts = []" if "es = []" using that arts by (cases arts) auto
  have dispose: "mens (at_crash env (resumable env v)) (chain (traverse (remove_artifact env) arts) (\<lambda>_.
      chain (map_err io_error (remove_journal env jp)) (\<lambda>_. disk_op (sync env))))
      ?Q (\<lambda>_ _ _ _ _ _. False) N' B' k' [(jp, in_progress es' arts)] t" if r: "restored env v B' es' arts N' k'" for es' N' B' k'
  proof -
    have a: "en_safe_target env a \<and> \<not> is_plain a" if "a \<in> set arts" for a
      using arts(1) [OF that] j(1) that by (auto simp: journal_recoverable_def artifacts_ok_def is_plain_def)
    have seen: "\<forall>p. is_plain p \<longrightarrow> seen N B' p = v p" if "restored env v B' es' arts N k" for N k
      using that by (simp add: restored_def)
    have "mens (at_crash env (resumable env v)) (chain (traverse (remove_artifact env) (jr_recovery_artifacts (in_progress es' arts))) (\<lambda>_.
      chain (map_err io_error (remove_journal env jp)) (\<lambda>_. disk_op (sync env))))
      ?Q (\<lambda>_ _ _ _ _ _. False) N' B' k' [(jp, in_progress es' arts)] t"
      by (rule mens_dispose [where I = "restored env v B' es' arts", OF env(1) restored_survives])
        (use restored_resumable r seen a jf in simp_all)
    thus ?thesis by (simp only: jf)
  qed
  have "mens (at_crash env (resumable env v)) (chain (reconcile_entries env jp (rev [0..<length es]) ?j) (\<lambda>j'.
       chain (traverse (remove_artifact env) (jr_recovery_artifacts j')) (\<lambda>_.
       chain (map_err io_error (remove_journal env jp)) (\<lambda>_. disk_op (sync env))))) ?Q (\<lambda>_ _ _ _ _ _. False) N B k [(jp, ?j)] t"
  proof (rule mens_chain, rule mens_reconcile_entries [OF env j])
    fix es' N' B' k'
    assume "map bare es' = map bare es" "journal_recoverable env v N' B' k' es' arts" "fresh_names N' k'"
      and done_: "\<And>n. n < length es \<Longrightarrow> n \<in> set (rev [0..<length es])
          \<or> je_recovery (es ! n) = None \<and> seen N B (je_path (es ! n)) = v (je_path (es ! n))
          \<Longrightarrow> je_recovery (es' ! n) = None \<and> seen N' B' (je_path (es ! n)) = v (je_path (es ! n))"
    note same = this(1) and jr = this(2,3)
    have len: "length es' = length es" using same by (metis length_map)
    have path: "je_path (es' ! n) = je_path (es ! n)" if "n < length es" for n
      using arg_cong [OF same_paths [OF same], of "\<lambda>xs. xs ! n"] that len by simp
    have "seen N' B' p = v p" if "is_plain p" for p
    proof (cases "p \<in> je_path ` set es'")
      case True
      thus ?thesis using done_ path len by (auto simp: in_set_conv_nth)
    qed (use jr(1) that in \<open>simp add: journal_recoverable_def\<close>)
    moreover have "\<forall>e\<in>set es'. je_recovery e = None" using done_ len by (auto simp: in_set_conv_nth)
    ultimately have "restored env v B' es' arts N' k'" using jr by (simp add: restored_def)
    thus "mens (at_crash env (resumable env v)) (chain (traverse (remove_artifact env) (jr_recovery_artifacts (in_progress es' arts))) (\<lambda>_.
       chain (map_err io_error (remove_journal env jp)) (\<lambda>_. disk_op (sync env)))) ?Q (\<lambda>_ _ _ _ _ _. False) N' B' k' [(jp, in_progress es' arts)] t"
      unfolding jf by (rule dispose)
  qed simp
  thus ?thesis unfolding js
    by (intro mens_reconcile_project_one) (use env u js dist none arts in \<open>simp_all add: jf\<close>)
qed

section \<open>A committed journal\<close>

lemma mens_reconcile_committed_entry:
  assumes "faultless env" "crashless env \<or> C N B k js" "j = committed_journal es arts" "n < length es" "en_safe_target env (je_path (es ! n))"
    and "settled env N B (es ! n)" "Q j N B k js t"
  shows "mens C (reconcile_entry env jp n j) Q E N B k js t"
proof -
  let ?e = "es ! n"
  have j: "jr_state j = Committed" "jr_entries j = es" using assms(3) by (simp_all add: committed_journal_def)
  have "mens C (chain (reconcile_committed env j ?e (map_option (en_digest env) (seen N B (je_path ?e)))) (\<lambda>_. give j)) Q E N B k js t"
  proof (cases "je_desired_absent ?e")
    case True
    thus ?thesis unfolding reconcile_committed_def
      using assms by (intro mens_chain mens_if mens_give) (auto simp: settled_def seen_def)
  next
    case False
    then obtain i where i: "je_installed_identity ?e = Some i" "N (je_path ?e) = Some i"
      "en_digest env (B i) = je_desired_hash ?e" using assms(6) by (auto simp: settled_def installed_at_def)
    thus ?thesis unfolding reconcile_committed_def journal_identity_matches_def
      using assms False
      by (simp add: seen_def) (intro mens_chain mens_disk_op dens_identity mens_if mens_give; simp)
  qed
  thus ?thesis unfolding reconcile_entry_def Let_def j
    by (intro mens_chain mens_safe_target mens_current_hash) (use assms in \<open>simp_all\<close>)
qed

lemma mens_reconcile_committed_entries:
  assumes "faultless env" "crashless env \<or> C N B k js" "j = committed_journal es arts"
    and "\<forall>e\<in>set es. is_plain (je_path e) \<and> safe_dir env (dir_of (je_path e)) \<and> settled env N B e"
    and "\<forall>n\<in>set ns. n < length es" "Q j N B k js t"
  shows "mens C (reconcile_entries env jp ns j) Q E N B k js t"
  using assms(5)
proof (induction ns)
  case (Cons n ns)
  have "es ! n \<in> set es" using Cons.prems by simp
  hence "en_safe_target env (je_path (es ! n))" "settled env N B (es ! n)"
    using assms(4) safe_dir_path by blast+
  thus ?case unfolding reconcile_entries.simps
    using Cons by (intro mens_chain mens_reconcile_committed_entry [where C = C, OF assms(1,2,3)]) auto
qed (simp add: mens_give assms(6))

lemma committed_survives: "survives_removal env' (\<lambda>N k. committed env w N B k js)"
  by (rule survives_removalI) (simp add: committed_def, rule committed_frame)

lemma mens_reconcile_committed:
  assumes env: "faultless env" and c: "committed env w N B k js"
  shows "mens (at_crash env (committed env w)) (reconcile_project_at env)
    (\<lambda>_ N' B' k' js' t'. js' = [] \<and> (\<forall>p. is_plain p \<longrightarrow> seen N' B' p = w p)) (\<lambda>_ _ _ _ _ _. False) N B k js t"
proof (cases "js = []")
  case True
  thus ?thesis using c by (auto simp: committed_def intro!: mens_reconcile_project_none)
next
  case False
  then obtain jp es arts where js: "js = [(jp, committed_journal es arts)]"
    and es: "\<forall>e\<in>set es. is_plain (je_path e) \<and> safe_dir env (dir_of (je_path e)) \<and> settled env N B e"
    and arts: "artifacts_ok env N B k es arts" using c by (auto simp: committed_def)
  let ?j = "committed_journal es arts" and ?Q = "\<lambda>_ N' B' k' js' t'. js' = [] \<and> (\<forall>p. is_plain p \<longrightarrow> seen N' B' p = w p)"
  have jf: "jr_state ?j = Committed" "jr_entries ?j = es" "jr_recovery_artifacts (committed_journal es' arts') = arts'" for es' arts'
    by (simp_all add: committed_journal_def)
  have a: "artifact_ok env N B es a \<and> en_safe_target env a" "\<not> is_plain a" if "a \<in> set arts" for a
  proof -
    show "\<not> is_plain a" using that arts by (auto simp: artifacts_ok_def is_plain_def)
    have "artifact_ok env N B es a" using that arts by (simp add: artifacts_ok_def)
    moreover from this have "en_safe_target env a" by (rule artifact_associated_safe) (use es in simp)
    ultimately show "artifact_ok env N B es a \<and> en_safe_target env a" by simp
  qed
  have none: "arts = []" if "es = []" using that a by (cases arts) auto
  have now: "crashless env \<or> at_crash env (committed env w) N B k [(jp, ?j)]" using c js by simp
  have gone: "committed env w N' B k' []" if "committed env w N' B k' [(jp, ?j)]" for N' k' using that by (auto simp: committed_def)
  have "mens (at_crash env (committed env w)) (chain (traverse (remove_artifact env) (jr_recovery_artifacts ?j)) (\<lambda>_.
      chain (map_err io_error (remove_journal env jp)) (\<lambda>_. disk_op (sync env)))) ?Q (\<lambda>_ _ _ _ _ _. False) N B k [(jp, ?j)] t"
    by (rule mens_dispose [where I = "\<lambda>N k. committed env w N B k [(jp, ?j)]", OF env committed_survives])
      (use c js a gone in \<open>auto simp: jf committed_def [of env w N B k "[]" for N k]\<close>)
  hence "mens (at_crash env (committed env w)) (chain (reconcile_entries env jp [0..<length es] ?j) (\<lambda>j'.
      chain (traverse (remove_artifact env) (jr_recovery_artifacts j')) (\<lambda>_.
      chain (map_err io_error (remove_journal env jp)) (\<lambda>_. disk_op (sync env))))) ?Q (\<lambda>_ _ _ _ _ _. False) N B k [(jp, ?j)] t"
    by (intro mens_chain [of _ "reconcile_entries env jp x j" for x j] mens_reconcile_committed_entries [where C = "at_crash env (committed env w)", OF env now refl es]) simp_all
  thus ?thesis unfolding js
    by (intro mens_reconcile_project_one) (use env now a none arts in \<open>simp_all add: jf artifacts_ok_def\<close>)
qed

end
