(* ===== verification/Rollback_Safety.thy ===== *)
theory Rollback_Safety
  imports Recovery_Safety
begin

text \<open>
  Rolling back in the process that made the transaction: a transaction that goes out of scope
  before its commit gives every file back, whether the caller dropped it or one of its requests
  was refused because the file had changed in the meantime.
\<close>

section \<open>What is left to unwind\<close>

text \<open>An entry of the transaction whose target has the requested state.\<close>

definition to_unwind ::
  "environment \<Rightarrow> (path \<times> (nat \<times> string) option) list \<Rightarrow> view \<Rightarrow> names \<Rightarrow> store \<Rightarrow> journal_entry \<Rightarrow> bool" where
  "to_unwind env known v N B e \<longleftrightarrow> is_plain (je_path e) \<and> je_previous e = v (je_path e)
     \<and> (if je_desired_absent e
        then N (je_path e) = None \<and> map_of known (je_path e) = None \<and> je_previous e \<noteq> None
        else \<exists>i. N (je_path e) = Some i \<and> map_of known (je_path e) = Some (Some (i, en_digest env (B i))))"

definition unwinding ::
  "environment \<Rightarrow> (path \<times> (nat \<times> string) option) list \<Rightarrow> view \<Rightarrow> journal_entry list \<Rightarrow> names \<Rightarrow> store \<Rightarrow> nat \<Rightarrow> bool" where
  "unwinding env known v es N B k \<longleftrightarrow> fresh_names N k \<and> distinct (map je_path es)
     \<and> (\<forall>e\<in>set es. to_unwind env known v N B e)
     \<and> (\<forall>p. is_plain p \<longrightarrow> p \<notin> je_path ` set es \<longrightarrow> seen N B p = v p)"

lemma unwinding_step:
  assumes u: "unwinding env known v (e # es) N B k" and k: "k \<le> k'"
    and B: "\<And>i. i \<in> ran N \<Longrightarrow> B' i = B i" and x: "map_option B' x = v (je_path e)"
  shows "unwinding env known v es (N(je_path e := x)) B' k'"
proof -
  have e: "is_plain (je_path e)" "fresh_names N k" using u by (auto simp: unwinding_def to_unwind_def)
  have "fresh_names (N(je_path e := x)) k'" by (rule fresh_names_upd [OF e(2) k]) (use e(1) in \<open>simp add: is_plain_def\<close>)
  moreover have "to_unwind env known v (N(je_path e := x)) B' f" if "f \<in> set es" for f
  proof -
    have f: "to_unwind env known v N B f" "je_path f \<noteq> je_path e"
      using u that by (auto simp: unwinding_def image_iff)
    thus ?thesis using B ranI [of N "je_path f"] by (auto simp: to_unwind_def split: if_splits) metis
  qed
  moreover have "seen (N(je_path e := x)) B' p = v p" if "is_plain p" "p \<notin> je_path ` set es" for p
  proof (cases "p = je_path e")
    case False
    hence "seen N B p = v p" using u that by (auto simp: unwinding_def)
    thus ?thesis using False B ranI [of N p] by (cases "N p") (auto simp: seen_def)
  qed (simp add: seen_def x)
  ultimately show ?thesis using u by (auto simp: unwinding_def)
qed

section \<open>The targets\<close>

lemma dens_create_new:
  assumes env: "crashless env" "fresh_inodes env" and N: "fresh_names N k" "N p = None" "is_plain p"
    and Q: "\<And>c. c \<notin> ran N \<Longrightarrow> Q () (N(p \<mapsto> c)) (B(c := data)) (Suc k)"
  shows "dens C (write_atomic_create_new env p data) Q E N B k"
proof -
  note fresh = generated_fresh(1) [OF N(1), of k p] and ne = plain_differs(1,2) [OF N(3), of p k]
  have upd: "N(p \<mapsto> c, temporary_name p k := None) = N(p \<mapsto> c)" for c using fresh ne by (auto simp: fun_eq_iff)
  show ?thesis unfolding write_atomic_create_new_def write_synced_temp_def
    by (intro dens_chain dens_attempt dens_temp dens_publish)
      (use env N(2) fresh ne upd Q in \<open>auto simp: crashless_faultless intro!: dens_sync\<close>)
qed

lemma dens_restore_bytes:
  assumes env: "crashless env" "fresh_inodes env" and N: "fresh_names N k" "is_plain p"
    and known: "if gone then N p = None else own = Some (Some (i, en_digest env (B i))) \<and> N p = Some i"
    and Q: "\<And>c. c \<notin> ran N \<Longrightarrow> Q () (N(p \<mapsto> c)) (B(c := data)) (Suc k)"
  shows "dens C (restore_bytes env gone own p data) Q E N B k"
proof (cases gone)
  case True
  thus ?thesis unfolding restore_bytes_def
    using known by (auto intro!: dens_create_new [OF env N(1) _ N(2)] Q)
next
  case False
  hence i: "own = Some (Some (i, en_digest env (B i)))" "N p = Some i" using known by simp_all
  note fresh = generated_fresh(1) [OF N(1), of k p] and ne = plain_differs(1,2) [OF N(2), of p k]
  have upd: "N(p \<mapsto> c, temporary_name p k := None) = N(p \<mapsto> c)" for c using fresh ne by (auto simp: fun_eq_iff)
  have "c \<noteq> i" if "c \<notin> ran N" for c using that i(2) by (auto simp: ran_def)
  thus ?thesis using False i unfolding restore_bytes_def write_synced_temp_def
    apply simp
    apply (intro dens_chain dens_attempt dens_temp dens_replace_checked)
    apply (auto simp: env crashless_faultless fresh ne upd intro!: dens_give Q)
    done
qed

lemma mens_roll_back_one:
  assumes env: "crashless env" "fresh_inodes env" and u: "unwinding env known v (e # es) N B k"
    and t: "tx_unverified t = []" "je_path e \<in> set (tx_deleted t) \<longleftrightarrow> je_desired_absent e"
  shows "mens C (roll_back_one env known (je_path e, je_previous e))
    (\<lambda>r N B k js' t'. r = [] \<and> unwinding env known v es N B k \<and> js' = js \<and> t' = t) E N B k js t"
proof -
  let ?p = "je_path e"
  have e: "fresh_names N k" "to_unwind env known v N B e" "is_plain ?p" "je_previous e = v ?p"
    using u by (auto simp: unwinding_def to_unwind_def)
  show ?thesis
  proof (cases "je_previous e")
    case None
    then obtain i where i: "\<not> je_desired_absent e" "N ?p = Some i" "map_of known ?p = Some (Some (i, en_digest env (B i)))"
      using e(2) by (auto simp: to_unwind_def split: if_splits)
    have "unwinding env known v es (N(?p := None)) B (Suc k)"
      by (rule unwinding_step [OF u]) (use None e(4) in auto)
    hence remove: "dens C' (remove_file_if_identity_and_hash env ?p i (en_digest env (B i)))
        (\<lambda>_ N B k. unwinding env known v es N B k) (\<lambda>_ _ _ _. False) N B k" for C'
      using generated_fresh(5) [OF e(1), of k ?p] plain_differs(9) [OF e(3)] i(2)
      by (intro dens_remove_checked) (simp_all add: env crashless_faultless)
    show ?thesis using i t None unfolding roll_back_one_def
      apply simp
      apply (intro mens_chain mens_observe_tx)
      apply simp
      apply (intro mens_chain mens_attempt mens_on_disk dens_conseq [OF remove])
      apply (auto intro: mens_give)
      done
  next
    case (Some old)
    have "unwinding env known v es (N(?p \<mapsto> c)) (B(c := old)) (Suc k)" if "c \<notin> ran N" for c
      by (rule unwinding_step [OF u]) (use that Some e(4) in auto)
    hence restore: "dens C' (restore_bytes env (je_desired_absent e) (map_of known ?p) ?p old)
        (\<lambda>_ N B k. unwinding env known v es N B k) (\<lambda>_ _ _ _. False) N B k" for C'
      using e(2) by (intro dens_restore_bytes [OF env e(1,3), where i = "the (N ?p)"])
        (auto simp: to_unwind_def split: if_splits)
    have "map_of known ?p \<noteq> Some None" using e(2) by (auto simp: to_unwind_def split: if_splits)
    thus ?thesis using Some t unfolding roll_back_one_def
      apply simp
      apply (intro mens_chain mens_observe_tx)
      apply simp
      apply (intro mens_chain mens_attempt mens_on_disk dens_conseq [OF restore])
      apply (auto intro: mens_give)
      done
  qed
qed

lemma mens_unwind:
  assumes env: "crashless env" "fresh_inodes env" and "unwinding env known v es N B k"
    and t: "tx_unverified t = []" "\<And>e. e \<in> set es \<Longrightarrow> je_path e \<in> set (tx_deleted t) \<longleftrightarrow> je_desired_absent e"
  shows "mens C (collect (roll_back_one env known) (map (\<lambda>e. (je_path e, je_previous e)) es))
    (\<lambda>r N B k js' t'. r = [] \<and> unwinding env known v [] N B k \<and> js' = js \<and> t' = t) E N B k js t"
  using assms(3) t(2)
proof (induction es arbitrary: N B k)
  case Nil
  thus ?case by (simp add: mens_give)
next
  case (Cons e es)
  have IH: "mens C (collect (roll_back_one env known) (map (\<lambda>e. (je_path e, je_previous e)) es))
    (\<lambda>r N B k js' t'. r = [] \<and> unwinding env known v [] N B k \<and> js' = js \<and> t' = t) E N' B' k' js t"
    if "unwinding env known v es N' B' k'" for N' B' k'
    using Cons.prems(2) by (intro Cons.IH [OF that]) auto
  have "mens C (roll_back_one env known (je_path e, je_previous e))
    (\<lambda>r N B k js' t'. r = [] \<and> unwinding env known v es N B k \<and> js' = js \<and> t' = t) E N B k js t"
    using Cons.prems by (intro mens_roll_back_one [OF env _ t(1)]) auto
  thus ?case unfolding list.map collect.simps
    by (intro mens_chain) (auto elim!: mens_conseq intro!: mens_chain mens_give mens_conseq [OF IH])
qed

section \<open>Owned files and artifacts\<close>

lemma mens_ownership_valid:
  assumes "faultless env" "crashless env \<or> C N B k js" "\<forall>own\<in>set xs. owned env N B (tx_recovery_artifacts t) own"
    and "Q (map (\<lambda>own. (io_path own, Some (io_identity own, io_hash own))) xs) N B k js t"
  shows "mens C (ownership_valid env xs) Q E N B k js t"
  using assms(3,4)
proof (induction xs arbitrary: Q)
  case (Cons x xs)
  thus ?case using assms(1,2) unfolding ownership_valid.simps
    by (intro mens_chain mens_still_owned Cons.IH) (auto intro: mens_give)
qed (simp add: mens_give)

text \<open>Artifacts are names that the code made up: removing them changes no file.\<close>

definition only_artifacts_gone :: "names \<Rightarrow> store \<Rightarrow> file_transaction \<Rightarrow> names \<Rightarrow> store \<Rightarrow> nat \<Rightarrow> file_transaction \<Rightarrow> bool" where
  "only_artifacts_gone N B t N' B' k' t' \<longleftrightarrow> B' = B \<and> fresh_names N' k' \<and> (\<forall>p. is_plain p \<longrightarrow> N' p = N p)
     \<and> (\<exists>arts. t' = t\<lparr>tx_recovery_artifacts := arts\<rparr>)"

lemma mens_cleanup_artifact:
  assumes env: "crashless env" and a: "\<not> is_plain a" and N: "fresh_names N k"
  shows "mens C (cleanup_artifact env a) (\<lambda>_ N' B' k' js' t'. js' = js \<and> only_artifacts_gone N B t N' B' k' t') E N B k js t"
proof -
  have "fresh_names (N(a := None)) (Suc k)" by (rule fresh_names_upd [OF N]) auto
  moreover have "bound_delete_name a k \<noteq> a" if "N a \<noteq> None"
    using that generated_fresh(5) [OF N, of k a] by auto
  ultimately show ?thesis using a N generated_fresh(5) [OF N, of k a]
    by (intro mens_cleanup_cases) (auto simp: env crashless_faultless only_artifacts_gone_def)
qed

lemma mens_roll_back_artifact:
  assumes env: "crashless env" and a: "\<not> is_plain a" and "fresh_names N k" "tx_unverified t = []"
  shows "mens C (roll_back_artifact env a)
    (\<lambda>r N' B' k' js' t'. r = [] \<and> js' = js \<and> only_artifacts_gone N B t N' B' k' t') E N B k js t"
  unfolding roll_back_artifact_def
  apply (intro mens_chain mens_observe_tx)
  apply (simp add: assms(4) list_ex_iff)
  apply (intro mens_chain mens_attempt)
  apply (auto intro!: mens_give mens_conseq [OF mens_cleanup_artifact [OF assms(1-3)]])
  done

lemma mens_roll_back_artifacts:
  assumes env: "crashless env" and a: "\<forall>a\<in>set as. \<not> is_plain a" and "fresh_names N k" "tx_unverified t = []"
  shows "mens C (collect (roll_back_artifact env) as)
    (\<lambda>r N' B' k' js' t'. r = [] \<and> js' = js \<and> only_artifacts_gone N B t N' B' k' t') E N B k js t"
  using assms(2-4)
proof (induction as arbitrary: N k t)
  case Nil
  thus ?case by (auto simp: only_artifacts_gone_def intro!: mens_give exI [of _ "tx_recovery_artifacts t"])
next
  case (Cons a as)
  have IH: "mens C (collect (roll_back_artifact env) as)
    (\<lambda>r N' B' k' js' t'. r = [] \<and> js' = js \<and> only_artifacts_gone N B t N' B' k' t') E N' B' k' js t'"
    if "only_artifacts_gone N B t N' B' k' t'" for N' B' k' t'
  proof -
    have "B' = B" "tx_unverified t' = []" "fresh_names N' k'"
      using that Cons.prems(3) by (auto simp: only_artifacts_gone_def)
    thus ?thesis
      using that Cons.prems(1) by (auto simp: only_artifacts_gone_def intro!: mens_conseq [OF Cons.IH])
  qed
  have "mens C (roll_back_artifact env a)
    (\<lambda>r N' B' k' js' t'. r = [] \<and> js' = js \<and> only_artifacts_gone N B t N' B' k' t') E N B k js t"
    using Cons.prems by (intro mens_roll_back_artifact [OF env]) auto
  thus ?case unfolding collect.simps
    by (intro mens_chain) (auto elim!: mens_conseq intro!: mens_chain mens_give mens_conseq [OF IH])
qed

section \<open>The rollback\<close>

lemma idle_unwinding:
  assumes "idle env v w ps N B k js t" "\<forall>p. is_plain p \<longrightarrow> p \<notin> ps \<longrightarrow> w p = v p"
  shows "unwinding env (map (\<lambda>own. (io_path own, Some (io_identity own, io_hash own))) (tx_installed t)) v (rev (tx_entries t)) N B k"
proof -
  let ?known = "map (\<lambda>own. (io_path own, Some (io_identity own, io_hash own))) (tx_installed t)"
  have l: "live env v w N B k js t" and b: "backed t" and ps: "ps = je_path ` set (tx_entries t)"
    using assms(1) by (auto simp: idle_def)
  have j: "journal_ok env v N B k (tx_entries t) (tx_journal_artifacts t)" using l by (simp add: live_def)
  have "to_unwind env ?known v N B e" if e: "e \<in> set (tx_entries t)" for e
  proof -
    have ok: "entry_ok env v N B (tx_journal_artifacts t) e" "settled env N B e"
      using e j l by (simp_all add: journal_ok_def live_def)
    have plain: "is_plain (je_path e)" "je_previous e = v (je_path e)" using ok(1) by (simp_all add: entry_ok_def)
    show ?thesis
    proof (cases "je_desired_absent e")
      case True
      have "je_path e \<notin> io_path ` set (tx_installed t)"
      proof
        assume "je_path e \<in> io_path ` set (tx_installed t)"
        then obtain e' where "e' \<in> set (tx_entries t)" "je_path e' = je_path e" "\<not> je_desired_absent e'"
          using b by (auto simp: backed_def)
        moreover from this have "e' = e" using e j by (auto simp: journal_ok_def distinct_map inj_on_def)
        ultimately show False using True by simp
      qed
      hence "map_of ?known (je_path e) = None" by (auto simp: map_of_eq_None_iff)
      thus ?thesis using True ok plain by (auto simp: to_unwind_def settled_def entry_ok_def)
    next
      case False
      then obtain own where own: "own \<in> set (tx_installed t)" "io_path own = je_path e"
        using b e by (force simp: backed_def)
      have "map_of ?known (io_path own) = Some (Some (io_identity own, io_hash own))"
        using own(1) b by (intro map_of_is_SomeI) (auto simp: backed_def comp_def)
      moreover have "owned env N B (tx_recovery_artifacts t) own" by (rule live_owned [OF l own(1)])
      ultimately show ?thesis using False own(2) plain by (auto simp: to_unwind_def owned_def)
    qed
  qed
  thus ?thesis using l j assms(2) ps by (auto simp: unwinding_def live_def journal_ok_def rev_map [symmetric])
qed

lemma mens_rollback:
  assumes env: "crashless env" "fresh_inodes env" and i: "idle env v w ps N B k js t"
    and w: "\<forall>p. is_plain p \<longrightarrow> p \<notin> ps \<longrightarrow> w p = v p"
  shows "mens C (rollback env) (\<lambda>_ N B k js t. js = [] \<and> (\<forall>p. is_plain p \<longrightarrow> seen N B p = v p)) E N B k js t"
proof -
  let ?known = "map (\<lambda>own. (io_path own, Some (io_identity own, io_hash own))) (tx_installed t)"
  have l: "live env v w N B k js t" and b: "backed t" using i by (auto simp: idle_def)
  have backups: "rev (tx_backups t) = map (\<lambda>e. (je_path e, je_previous e)) (rev (tx_entries t))"
    using b by (simp add: backed_def rev_map)
  have deleted: "je_path e \<in> set (tx_deleted t) \<longleftrightarrow> je_desired_absent e" if "e \<in> set (tx_entries t)" for e
    using that b l by (auto simp: backed_def live_def journal_ok_def distinct_map inj_on_def)
  have plain: "\<forall>a\<in>set (rev (tx_recovery_artifacts t)). \<not> is_plain a"
    using l by (auto simp: live_def drawn_before_def is_plain_def)
  have targets: "mens C (collect (roll_back_one env ?known) (rev (tx_backups t)))
    (\<lambda>r N B k js' t'. r = [] \<and> unwinding env ?known v [] N B k \<and> js' = js \<and> t' = t\<lparr>tx_installed := []\<rparr>) E' N B k js
    (t\<lparr>tx_installed := []\<rparr>)" for E' :: "backend_error \<Rightarrow> _"
    unfolding backups using deleted b
    by (intro mens_unwind [OF env idle_unwinding [OF i w]]) (auto simp: backed_def)
  have artifacts: "mens C (collect (roll_back_artifact env) (rev (tx_recovery_artifacts t)))
    (\<lambda>r N' B' k' js' t'. r = [] \<and> js' = js \<and> only_artifacts_gone N B (t\<lparr>tx_installed := []\<rparr>) N' B' k' t') E' N B k js
    (t\<lparr>tx_installed := []\<rparr>)" if "fresh_names N k" for E' :: "backend_error \<Rightarrow> _" and N B k
    using b by (intro mens_roll_back_artifacts [OF env(1) plain that]) (simp add: backed_def)
  have finish: "mens C (chain (attempt (finish_journal env)) (case_sum (\<lambda>_. f) give))
      (\<lambda>_ N B k js t. js = [] \<and> (\<forall>p. is_plain p \<longrightarrow> seen N B p = v p)) E N B k js t'"
    if "\<forall>p. is_plain p \<longrightarrow> seen N B p = v p" "tx_journal_path t' = tx_journal_path t" for f N B k t'
  proof (cases "tx_journal_path t")
    case None
    thus ?thesis using that l
      by (intro mens_chain mens_attempt mens_finish_journal_none) (auto simp: live_def journaled_def intro!: mens_give)
  next
    case (Some jp)
    thus ?thesis using that l
      by (intro mens_chain mens_attempt mens_finish_journal [where jp = jp])
        (auto simp: env crashless_faultless live_def journaled_def intro!: mens_give)
  qed
  show ?thesis unfolding rollback_def
    apply (intro mens_chain mens_observe_tx mens_ownership_valid mens_update_tx)
       apply (use env l in \<open>simp_all add: crashless_faultless live_def\<close>)
    apply (rule mens_conseq [OF targets])
    apply (auto simp: unwinding_def intro!: mens_chain mens_observe_tx mens_conseq [OF artifacts])
    apply (auto simp: only_artifacts_gone_def seen_def intro!: mens_update_tx finish [unfolded seen_def])
    done
qed

section \<open>Refused requests\<close>

text \<open>A replacement or a removal whose expected hash is not the hash of what is there.\<close>

fun stale :: "environment \<Rightarrow> view \<Rightarrow> request \<Rightarrow> bool" where
  "stale env v (NewFile p data) \<longleftrightarrow> False"
| "stale env v (Replace p data hash) \<longleftrightarrow> (case v p of None \<Rightarrow> False | Some old \<Rightarrow> hash \<noteq> en_digest env old)"
| "stale env v (Remove p hash) \<longleftrightarrow> (case v p of None \<Rightarrow> False | Some old \<Rightarrow> hash \<noteq> en_digest env old)"

lemma idle_refused:
  assumes i: "idle env v w ps N B k js t" and k: "k < k'" and B: "\<And>i. i \<in> ran N \<Longrightarrow> B' i = B i"
    and P: "\<And>a. is_candidate_identity_pin a \<Longrightarrow> P a"
  shows "idle env v w ps N B' k' js (t\<lparr>tx_guards := g, tx_recovery_artifacts := filter P (tx_recovery_artifacts t)\<rparr>)"
    and "idle env v w ps N B' k' js (t\<lparr>tx_recovery_artifacts := filter P (tx_recovery_artifacts t)\<rparr>)"
proof -
  let ?t = "t\<lparr>tx_recovery_artifacts := filter P (tx_recovery_artifacts t)\<rparr>"
  have l: "live env v w N B k js t" using i by (simp add: idle_def)
  let ?q = "bound_delete_name (Path [] (Plain [])) k"
  have "N ?q = None" using l by (auto simp: live_def intro: generated_fresh(5))
  hence "N(?q := None) = N" by (simp add: fun_upd_idem)
  hence l': "live env v w N B' k' js t" using live_fresh [OF l, where q = ?q and s = k and x = None and k' = k', OF _ _ k B] by simp
  have r: "live env v w N B' k' js ?t"
    by (rule live_artifacts [OF l']) (use l' P in \<open>auto simp: live_def drawn_before_def\<close>)
  thus "idle env v w ps N B' k' js ?t" using i by (auto simp: idle_def tidy_def backed_def)
  have "live env v w N B' k' js (t\<lparr>tx_guards := g, tx_recovery_artifacts := filter P (tx_recovery_artifacts t)\<rparr>)" using r by (simp add: live_def journaled_def cong: option.case_cong)
  thus "idle env v w ps N B' k' js (t\<lparr>tx_guards := g, tx_recovery_artifacts := filter P (tx_recovery_artifacts t)\<rparr>)"
    using i by (auto simp: idle_def tidy_def backed_def)
qed

lemma refused_target:
  assumes t: "target_free env v w N B k js t p" and "v p = Some old"
  shows "\<exists>i. N p = Some i \<and> B i = old \<and> (\<forall>c. c \<notin> ran N \<longrightarrow> c \<noteq> i \<and> i \<noteq> c)"
    and "N(temporary_name p k := None, original_guard_name p (Suc k) := None) = N" "N(delete_guard_name p k := None) = N"
  using assms(2) target_freeD(5) [OF t] generated_fresh [OF target_freeD(6) [OF t]]
  by (auto simp: seen_def ran_def fun_eq_iff)

lemma mens_refuse_replace:
  assumes env: "crashless env" "fresh_inodes env" and i: "idle env v w ps N B k js t"
    and t: "target_free env v w N B k js t p" and old: "v p = Some old" "hash \<noteq> en_digest env old"
  shows "mens C (write_if_hash_matches env p data hash) Q
    (\<lambda>e N B k js t. e = conflict_error \<and> idle env v w ps N B k js t) N B k js t"
proof -
  obtain i0 where i0: "N p = Some i0" "B i0 = old" "\<And>c. c \<notin> ran N \<Longrightarrow> c \<noteq> i0 \<and> i0 \<noteq> c"
    using refused_target(1) [OF t old(1)] by blast
  note side = env crashless_faultless generated_fresh [OF target_freeD(6) [OF t]] plain_differs [OF target_freeD(2) [OF t]]
    refused_target(2,3) [OF t old(1)] i0 old(2) old(2) [THEN not_sym]
  show ?thesis
    unfolding write_if_hash_matches_def write_synced_temp_def digest_bytes_def abandon_def traverse.simps
    apply (intro mens_chain mens_disk_op dens_temp mens_prepare_guard dens_identity_the mens_attempt mens_on_disk dens_read_the
      mens_case_sum mens_if mens_ignore mens_cleanup_cases mens_give mens_fail)
    apply (simp_all add: side)
    apply (simp_all add: side)
    apply (intro mens_chain mens_ignore mens_cleanup_cases mens_give)
    apply (simp_all add: side)
    apply (intro mens_give mens_fail conjI refl idle_refused [OF i])
    apply (auto simp: side)
    done
qed

lemma mens_refuse_remove:
  assumes env: "crashless env" "fresh_inodes env" and i: "idle env v w ps N B k js t"
    and t: "target_free env v w N B k js t p" and old: "v p = Some old" "hash \<noteq> en_digest env old"
  shows "mens C (delete_if_hash_matches env p hash) Q
    (\<lambda>e N B k js t. e = conflict_error \<and> idle env v w ps N B k js t) N B k js t"
proof -
  obtain i0 where i0: "N p = Some i0" "B i0 = old" "\<And>c. c \<notin> ran N \<Longrightarrow> c \<noteq> i0 \<and> i0 \<noteq> c"
    using refused_target(1) [OF t old(1)] by blast
  note side = env crashless_faultless generated_fresh [OF target_freeD(6) [OF t]] plain_differs [OF target_freeD(2) [OF t]]
    refused_target(2,3) [OF t old(1)] i0 old(2) old(2) [THEN not_sym]
  show ?thesis
    unfolding delete_if_hash_matches_def digest_bytes_def abandon_def traverse.simps Let_def delete_guard_name_def [symmetric]
    apply (intro mens_chain mens_map_err mens_disk_op mens_on_disk dens_new_uuid dens_link mens_track dens_identity_the dens_read_the
      mens_if mens_ignore mens_cleanup_cases mens_give mens_fail)
    apply (simp_all add: side)
    apply (simp_all add: side)
    apply (intro mens_give mens_fail conjI refl idle_refused [OF i])
    apply (auto simp: side)
    done
qed

lemma mens_refuse:
  assumes "crashless env" "fresh_inodes env" and i: "idle env v w ps N B k js t"
    and "is_plain (target r)" "target r \<notin> ps" "safe_dir env (dir_of (target r))" "stale env v r"
  shows "mens C (perform env r) Q (\<lambda>e N B k js t. e = conflict_error \<and> idle env v w ps N B k js t) N B k js t"
  using assms idle_target_free [OF i assms(4-6)]
  by (cases r) (auto split: option.splits intro!: mens_refuse_replace mens_refuse_remove)

lemma mens_performs_refused:
  assumes "crashless env" "fresh_inodes env" "idle env v w ps N B k js t"
    and "\<And>r. r \<in> set rs \<Longrightarrow> is_plain (target r) \<and> safe_dir env (dir_of (target r)) \<and> admissible env v r"
    and "distinct (map target (rs @ [r]))" "ps \<inter> target ` set (rs @ [r]) = {}"
    and "is_plain (target r)" "safe_dir env (dir_of (target r))" "stale env v r"
  shows "mens C (traverse (perform env) (rs @ [r])) (\<lambda>_ _ _ _ _ _. False)
    (\<lambda>e N B k js t. e = conflict_error \<and> idle env v (fold apply_request rs w) (ps \<union> target ` set rs) N B k js t) N B k js t"
  using assms(3-6)
proof (induction rs arbitrary: w ps N B k js t)
  case Nil
  have "mens C (perform env r) (\<lambda>_ _ _ _ _ _. False) (\<lambda>e N B k js t. e = conflict_error \<and> idle env v w ps N B k js t) N B k js t"
    using Nil by (intro mens_refuse [OF assms(1,2) _ assms(7) _ assms(8,9)]) auto
  thus ?case by (auto intro: mens_chain elim!: mens_conseq)
next
  case (Cons q rs)
  have "mens C (traverse (perform env) (rs @ [r])) (\<lambda>_ _ _ _ _ _. False)
      (\<lambda>e N B k js t. e = conflict_error \<and> idle env v (fold apply_request rs (apply_request q w)) (insert (target q) ps \<union> target ` set rs) N B k js t)
      N' B' k' js' t'"
    if "idle env v (apply_request q w) (insert (target q) ps) N' B' k' js' t'" for N' B' k' js' t'
    using Cons.prems by (intro Cons.IH [OF that]) auto
  thus ?case
    using Cons.prems unfolding append_Cons traverse.simps
    by (intro mens_chain mens_conseq [OF mens_perform [OF crashless_faultless [OF assms(1)] assms(2) Cons.prems(1)]])
      (auto simp: assms(1))
qed

text \<open>What the requests of a transaction leave alone.\<close>

lemma requests_frame: "p \<notin> target ` set rs \<Longrightarrow> fold apply_request rs v p = v p"
proof (induction rs arbitrary: v)
  case (Cons r rs)
  thus ?case by (cases r) auto
qed simp

lemma mens_drop:
  assumes "crashless env" "fresh_inodes env" "idle env v (fold apply_request rs v) (target ` set rs) N B k js t"
  shows "mens C (drop_transaction env) (\<lambda>_ N B k js t. js = [] \<and> (\<forall>p. is_plain p \<longrightarrow> seen N B p = v p)) E N B k js t"
  unfolding drop_transaction_def
  by (intro mens_chain mens_observe_tx)
    (use assms in \<open>auto simp: idle_def backed_def intro!: mens_ignore mens_rollback [OF assms] requests_frame\<close>)

end
