(* ===== verification/Crash_Atomicity.thy ===== *)
theory Crash_Atomicity
  imports Rollback_Safety
begin

text \<open>
  The properties of import transactions: what a transaction does when nothing goes wrong, what the
  next start makes of one that died, and the crash that the next start cannot repair.
\<close>

section \<open>Statements\<close>

text \<open>What a reader finds under the names that the code did not make up.\<close>

definition on_plain :: "view \<Rightarrow> view" where
  "on_plain v p = (if is_plain p then v p else None)"

definition project_files :: "machine \<Rightarrow> view" where
  "project_files m = on_plain (contents (mc_disk m))"

text \<open>A process that has just created a transaction, with no journal left behind.\<close>

definition ready :: "machine \<Rightarrow> bool" where
  "ready m \<longleftrightarrow> mc_journals m = [] \<and> (\<exists>root. mc_tx m = new_for_project_at root)
     \<and> fresh_names (dk_names (mc_disk m)) (dk_drawn (mc_disk m))"

definition request_ok :: "environment \<Rightarrow> view \<Rightarrow> request \<Rightarrow> bool" where
  "request_ok env v r \<longleftrightarrow> is_plain (target r) \<and> safe_dir env (dir_of (target r)) \<and> admissible env v r"

text \<open>Two processes on the same project: they agree on digests and on which paths are safe.\<close>

definition same_project :: "environment \<Rightarrow> environment \<Rightarrow> bool" where
  "same_project env env' \<longleftrightarrow> en_digest env' = en_digest env \<and> en_safe_target env' = en_safe_target env"

text \<open>The name of a journaled candidate leads to another file than the candidate.\<close>

definition displaced_at :: "names \<Rightarrow> journal_entry \<Rightarrow> path \<Rightarrow> bool" where
  "displaced_at N e a \<longleftrightarrow> dir_of a = dir_of (je_path e)
     \<and> (case name_of a of Temporary n _ \<Rightarrow> n = name_of (je_path e) | _ \<Rightarrow> False)
     \<and> (case N a of None \<Rightarrow> False | Some i \<Rightarrow> je_installed_identity e \<noteq> Some i)"

definition interrupted_exchange :: "machine \<Rightarrow> bool" where
  "interrupted_exchange m \<longleftrightarrow> list_ex (\<lambda>(_, j). jr_state j = InProgress
     \<and> list_ex (\<lambda>e. list_ex (displaced_at (dk_names (mc_disk m)) e) (jr_recovery_artifacts j)) (jr_entries j))
     (mc_journals m)"

text \<open>A series of starts, each of which dies during its reconciliation.\<close>

fun crashed_recoveries :: "environment list \<Rightarrow> machine \<Rightarrow> machine option" where
  "crashed_recoveries [] m = Some m"
| "crashed_recoveries (env # envs) m = (case reconcile_project_at env m of
     (Crashed, m') \<Rightarrow> crashed_recoveries envs m' | _ \<Rightarrow> None)"

definition may_die :: "environment \<Rightarrow> environment \<Rightarrow> bool" where
  "may_die env env' \<longleftrightarrow> faultless env' \<and> fresh_inodes env' \<and> same_project env env'"

section \<open>The invariants and the environment\<close>

lemma previous_hash_cong: "en_digest env' = en_digest env \<Longrightarrow> previous_hash env' = previous_hash env"
  unfolding previous_hash_def [abs_def] digest_bytes_def [abs_def] by simp

lemma artifact_matches_cong:
  assumes "en_digest env' = en_digest env"
  shows "artifact_matches env' = artifact_matches env"
proof (intro ext)
  fix x y show "artifact_matches env' x y = artifact_matches env x y"
    by (cases "(env, x, y)" rule: artifact_matches.cases) (simp_all add: previous_hash_cong [OF assms])
qed

lemma same_project_invariants:
  assumes "same_project env env'"
  shows "undoable env' = undoable env" "resumable env' = resumable env" "committed env' = committed env"
    "artifact_ok env' = artifact_ok env" "artifact_associations env' = artifact_associations env"
    "artifact_matches env' = artifact_matches env"
proof -
  have e: "en_digest env' = en_digest env" "en_safe_target env' = en_safe_target env"
    using assms by (simp_all add: same_project_def)
  show m: "artifact_matches env' = artifact_matches env" by (rule artifact_matches_cong [OF e(1)])
  show a: "artifact_associations env' = artifact_associations env"
    by (simp add: artifact_associations_def fun_eq_iff e)
  show ok: "artifact_ok env' = artifact_ok env"
    by (simp add: artifact_ok_def fun_eq_iff e m a cong: option.case_cong)
  have arts: "artifacts_ok env' = artifacts_ok env" by (simp add: artifacts_ok_def fun_eq_iff ok)
  have s: "safe_dir env' = safe_dir env" "installed_at env' = installed_at env"
    by (simp_all add: safe_dir_def installed_at_def fun_eq_iff e)
  have "entry_ok env' = entry_ok env"
    by (simp add: entry_ok_def fun_eq_iff s previous_hash_cong [OF e(1)])
  hence entry: "entry_ok env' = entry_ok env" "journal_ok env' = journal_ok env" by (simp_all add: journal_ok_def fun_eq_iff arts)
  thus "undoable env' = undoable env" by (simp add: undoable_def fun_eq_iff)
  have "recovering N B k env' = recovering N B k env" for N B k by (simp add: recovering_def fun_eq_iff e s)
  hence "entry_recoverable env' = entry_recoverable env"
    by (simp add: entry_recoverable_def fun_eq_iff entry s cong: option.case_cong)
  thus "resumable env' = resumable env" by (simp add: resumable_def journal_recoverable_def fun_eq_iff arts)
  have "settled env' = settled env" by (simp add: settled_def fun_eq_iff s)
  thus "committed env' = committed env" by (simp add: committed_def fun_eq_iff arts s)
qed

section \<open>Interrupted exchanges\<close>

definition interrupted :: "names \<Rightarrow> (path \<times> journal) list \<Rightarrow> bool" where
  "interrupted N js \<longleftrightarrow> list_ex (\<lambda>(_, j). jr_state j = InProgress
     \<and> list_ex (\<lambda>e. list_ex (displaced_at N e) (jr_recovery_artifacts j)) (jr_entries j)) js"

lemma mid_exchange_interrupted: "mid_exchange env N B js \<Longrightarrow> interrupted N js"
  by (fastforce simp: mid_exchange_def interrupted_def in_progress_def displaced_at_def list_ex_iff)

lemma committed_not_interrupted: "committed env w N B k js \<Longrightarrow> \<not> interrupted N js"
  by (auto simp: committed_def interrupted_def committed_journal_def)

lemma undoable_not_interrupted:
  assumes "undoable env v N B k js"
  shows "\<not> interrupted N js"
proof
  assume "interrupted N js"
  then obtain jp es arts e a where js: "js = [(jp, in_progress es arts)]" and j: "journal_ok env v N B k es arts"
    and e: "e \<in> set es" "a \<in> set arts" "displaced_at N e a"
    using assms by (auto simp: undoable_def interrupted_def in_progress_def list_ex_iff)
  then obtain s i where a: "dir_of a = dir_of (je_path e)" "name_of a = Temporary (name_of (je_path e)) s" "N a = Some i"
    "je_installed_identity e \<noteq> Some i"
    by (auto simp: displaced_at_def split: file_name.splits option.splits)
  have "artifact_ok env N B es a" using j e(2) by (simp add: journal_ok_def artifacts_ok_def)
  then obtain e' kind where e': "(e', kind) \<in> set (artifact_associations env es a)"
    "artifact_matches env (Some (en_digest env (B i), i)) (e', kind)"
    using a(3) by (auto simp: artifact_ok_def list_ex_iff)
  hence "e' \<in> set es" "dir_of (je_path e') = dir_of a" "name_of (je_path e') = name_of (je_path e)" "kind = CandidateKind"
    using a(2) by (auto simp: artifact_associations_def List.map_filter_def journal_artifact_kind_of_def split: if_splits)
  moreover from this have "je_path e' = je_path e" using a(1) by (simp add: path.expand)
  ultimately have "e' = e" using e(1) j by (auto simp: journal_ok_def distinct_map inj_on_def)
  thus False using e'(2) \<open>kind = CandidateKind\<close> a(4) by simp
qed

lemma mens_reconcile_mid_exchange:
  assumes env: "crashless env" and m: "mid_exchange env N B js"
  shows "mens C (reconcile_project_at env) (\<lambda>_ _ _ _ _ _. False)
    (\<lambda>e N' B' k' js' t'. e = conflict_error \<and> N' = N \<and> B' = B \<and> js' = js) N B k js t"
proof -
  let ?E = "\<lambda>e N' B' k' js' t'. e = conflict_error \<and> N' = N \<and> B' = B \<and> js' = js"
  obtain jp es arts a rest e i where m: "js = [(jp, in_progress es (arts @ a # rest))]"
     "distinct (arts @ [a])" "\<forall>b\<in>set (arts @ [a]). en_safe_target env b"
     "\<forall>b\<in>set arts. artifact_ok env N B es b"
     "artifact_associations env es a = [(e, CandidateKind)]" "e \<in> set es"
     "N a = Some i" "je_installed_identity e \<noteq> Some i"
    using m unfolding mid_exchange_def by blast
  have tail: "mens C (validate_artifacts env es (rev arts @ []) (a # rest)) Q ?E N B k js t" for Q
    unfolding validate_artifacts.simps Let_def
    by (intro mens_if mens_chain mens_safe_target mens_artifact_on_disk mens_fail) (use env crashless_faultless [OF env] m in auto)
  have valid: "mens C (validate_artifacts env es [] (arts @ a # rest)) Q ?E N B k js t" for Q
    by (rule mens_validate_prefix [OF crashless_faultless [OF env] disjI1 [OF env] _ _ _ tail]) (use m in auto)
  have "es \<noteq> []" using m(6) by auto
  hence "mens C (reconcile_journal env jp) Q ?E N B k js t" for Q
    unfolding reconcile_journal_def validate_journal_recovery_artifacts_def
    by (intro mens_chain mens_disk_op dens_syscall mens_observe_journals)
      (use env m(1) valid in \<open>auto simp: crashless_faultless in_progress_def intro!: mens_chain\<close>)
  hence "mens C (traverse (reconcile_journal env) (map fst js)) Q ?E N B k js t" for Q
    unfolding m(1) list.map fst_conv traverse.simps by (intro mens_chain)
  thus ?thesis unfolding reconcile_project_at_def by (rule mens_chain [OF mens_observe_journals])
qed

section \<open>From triples to runs\<close>

lemma mens_outcome:
  assumes "mens C f Q E (dk_names (mc_disk m)) (dk_bytes (mc_disk m)) (dk_drawn (mc_disk m)) (mc_journals m) (mc_tx m)"
    and "f m = (r, m')"
  shows "case r of
      Return a \<Rightarrow> Q a (dk_names (mc_disk m')) (dk_bytes (mc_disk m')) (dk_drawn (mc_disk m')) (mc_journals m') (mc_tx m')
    | Raise e \<Rightarrow> E e (dk_names (mc_disk m')) (dk_bytes (mc_disk m')) (dk_drawn (mc_disk m')) (mc_journals m') (mc_tx m')
    | Crashed \<Rightarrow> C (dk_names (mc_disk m')) (dk_bytes (mc_disk m')) (dk_drawn (mc_disk m')) (mc_journals m')"
  using assms by (auto simp: mens_def split: outcome.splits)

lemma contents_seen: "contents (mc_disk m) = seen (dk_names (mc_disk m)) (dk_bytes (mc_disk m))"
  by (simp add: contents_def seen_def fun_eq_iff)

lemma on_plain_eq: "on_plain v = on_plain w \<longleftrightarrow> (\<forall>p. is_plain p \<longrightarrow> v p = w p)"
  by (auto simp: on_plain_def fun_eq_iff)

lemma interrupted_exchange: "interrupted_exchange m \<longleftrightarrow> interrupted (dk_names (mc_disk m)) (mc_journals m)"
  by (simp add: interrupted_exchange_def interrupted_def)

lemma run_transaction_triple:
  assumes "faultless env" "fresh_inodes env" "ready m" "list_all (request_ok env (contents (mc_disk m))) rs"
    and "distinct (map target rs)"
  shows "mens (at_crash env (\<lambda>N B k js. crash_ok env (contents (mc_disk m)) N B k js
      \<or> committed env (fold apply_request rs (contents (mc_disk m))) N B k js))
    (run_transaction env rs)
    (\<lambda>_ N B k js t. js = [] \<and> committed env (fold apply_request rs (contents (mc_disk m))) N B k js)
    (\<lambda>_ _ _ _ _ _. False)
    (dk_names (mc_disk m)) (dk_bytes (mc_disk m)) (dk_drawn (mc_disk m)) (mc_journals m) (mc_tx m)"
  using mens_run_transaction [OF assms(1,2), of "dk_names (mc_disk m)" "dk_drawn (mc_disk m)" rs "dk_bytes (mc_disk m)"]
    assms(3-5) by (auto simp: ready_def contents_seen request_ok_def list_all_iff)

lemma crashed_state:
  assumes "faultless env" "fresh_inodes env" "ready m" "list_all (request_ok env (contents (mc_disk m))) rs"
    and "distinct (map target rs)" "run_transaction env rs m = (Crashed, m')"
  shows "crash_ok env (contents (mc_disk m)) (dk_names (mc_disk m')) (dk_bytes (mc_disk m')) (dk_drawn (mc_disk m')) (mc_journals m')
    \<or> committed env (fold apply_request rs (contents (mc_disk m)))
        (dk_names (mc_disk m')) (dk_bytes (mc_disk m')) (dk_drawn (mc_disk m')) (mc_journals m')"
  using mens_outcome [OF run_transaction_triple [OF assms(1-5)] assms(6)] by simp

lemma refused_triple:
  assumes "crashless env" "fresh_inodes env" "ready m" "list_all (request_ok env (contents (mc_disk m))) rs"
    and "distinct (map target (rs @ [r]))" "is_plain (target r)" "safe_dir env (dir_of (target r))"
    and "stale env (contents (mc_disk m)) r"
  shows "mens C (traverse (perform env) (rs @ [r])) (\<lambda>_ _ _ _ _ _. False)
    (\<lambda>e N B k js t. e = conflict_error
      \<and> idle env (contents (mc_disk m)) (fold apply_request rs (contents (mc_disk m))) (target ` set rs) N B k js t)
    (dk_names (mc_disk m)) (dk_bytes (mc_disk m)) (dk_drawn (mc_disk m)) (mc_journals m) (mc_tx m)"
proof -
  obtain root where m: "mc_journals m = []" "mc_tx m = new_for_project_at root"
    "fresh_names (dk_names (mc_disk m)) (dk_drawn (mc_disk m))" using assms(3) by (auto simp: ready_def)
  show ?thesis
    using mens_performs_refused [OF assms(1,2) new_transaction_idle [OF m(3), of env "dk_bytes (mc_disk m)" root], of rs r C] assms(4-8) m
    by (simp add: contents_seen request_ok_def list_all_iff)
qed

section \<open>Reconciliations\<close>

text \<open>The next reconciliations lead to the files \<open>x\<close>.\<close>

definition recoverable_to :: "environment \<Rightarrow> view \<Rightarrow> machine \<Rightarrow> bool" where
  "recoverable_to env x m \<longleftrightarrow>
     resumable env x (dk_names (mc_disk m)) (dk_bytes (mc_disk m)) (dk_drawn (mc_disk m)) (mc_journals m)
     \<or> committed env x (dk_names (mc_disk m)) (dk_bytes (mc_disk m)) (dk_drawn (mc_disk m)) (mc_journals m)"

lemma reconcile_recoverable_triple:
  assumes "recoverable_to env x m" "may_die env env'"
  shows "\<exists>C. (C = resumable env x \<or> C = committed env x) \<and> mens (at_crash env' C) (reconcile_project_at env')
    (\<lambda>_ N B k js t. js = [] \<and> (\<forall>p. is_plain p \<longrightarrow> seen N B p = x p)) (\<lambda>_ _ _ _ _ _. False)
    (dk_names (mc_disk m)) (dk_bytes (mc_disk m)) (dk_drawn (mc_disk m)) (mc_journals m) (mc_tx m)"
proof -
  have env: "faultless env'" "fresh_inodes env'" "same_project env env'" using assms(2) by (simp_all add: may_die_def)
  note same = same_project_invariants(2,3) [OF env(3)]
  from assms(1) consider "resumable env' x (dk_names (mc_disk m)) (dk_bytes (mc_disk m)) (dk_drawn (mc_disk m)) (mc_journals m)"
    | "committed env' x (dk_names (mc_disk m)) (dk_bytes (mc_disk m)) (dk_drawn (mc_disk m)) (mc_journals m)"
    unfolding recoverable_to_def same by auto
  thus ?thesis
  proof cases
    case 1
    from mens_reconcile_resumable [OF env(1,2) 1] show ?thesis unfolding same by auto
  next
    case 2
    from mens_reconcile_committed [OF env(1) 2] show ?thesis unfolding same by auto
  qed
qed

lemma crashed_recoveries_recoverable:
  "recoverable_to env x m \<Longrightarrow> list_all (may_die env) envs \<Longrightarrow> crashed_recoveries envs m = Some m1 \<Longrightarrow> recoverable_to env x m1"
proof (induction envs arbitrary: m)
  case (Cons env' envs)
  then obtain m' where run: "reconcile_project_at env' m = (Crashed, m')" "crashed_recoveries envs m' = Some m1"
    by (auto split: prod.splits outcome.splits)
  obtain C where C: "C = resumable env x \<or> C = committed env x" and triple: "mens (at_crash env' C) (reconcile_project_at env')
      (\<lambda>_ N B k js t. js = [] \<and> (\<forall>p. is_plain p \<longrightarrow> seen N B p = x p)) (\<lambda>_ _ _ _ _ _. False)
      (dk_names (mc_disk m)) (dk_bytes (mc_disk m)) (dk_drawn (mc_disk m)) (mc_journals m) (mc_tx m)"
    using reconcile_recoverable_triple [OF Cons.prems(1)] Cons.prems(2) by auto
  have "recoverable_to env x m'" using mens_outcome [OF triple run(1)] C by (auto simp: recoverable_to_def)
  thus ?case using Cons run(2) by simp
qed simp

lemma reconcile_recoverable:
  assumes "recoverable_to env x m" "crashless env'" "may_die env env'"
  shows "\<exists>m'. reconcile_project_at env' m = (Return (), m') \<and> mc_journals m' = [] \<and> project_files m' = on_plain x"
proof -
  obtain r m' where run: "reconcile_project_at env' m = (r, m')" by (cases "reconcile_project_at env' m")
  obtain C where "mens (at_crash env' C) (reconcile_project_at env')
      (\<lambda>_ N B k js t. js = [] \<and> (\<forall>p. is_plain p \<longrightarrow> seen N B p = x p)) (\<lambda>_ _ _ _ _ _. False)
      (dk_names (mc_disk m)) (dk_bytes (mc_disk m)) (dk_drawn (mc_disk m)) (mc_journals m) (mc_tx m)"
    using reconcile_recoverable_triple [OF assms(1,3)] by blast
  from mens_outcome [OF this run] assms(2) run show ?thesis
    by (cases r) (simp_all add: project_files_def on_plain_eq contents_seen)
qed

section \<open>A run\<close>

text \<open>
  Three requests on a project with two files, and a process that dies at a chosen system call:
  the run makes 86 of them. At the 32nd the displaced file is under the name of the candidate.
\<close>

definition sample_environment :: "(nat \<Rightarrow> verdict) \<Rightarrow> environment" where
  "sample_environment schedule = \<lparr>en_schedule = schedule, en_inode = (\<lambda>xs. Suc (fold max xs 0)),
     en_digest = (\<lambda>data. data), en_safe_target = (\<lambda>_. True), en_cancel = (\<lambda>_. False), en_show = (\<lambda>_. [])\<rparr>"

definition dies_at :: "nat \<Rightarrow> nat \<Rightarrow> verdict" where
  "dies_at n k = (if k = n then Crash else Proceed)"

definition sample_machine :: machine where
  "sample_machine = \<lparr>mc_disk = \<lparr>dk_entries = [(Path ''w'' (Plain ''a''), 1), (Path ''w'' (Plain ''c''), 2)],
     dk_bytes = (\<lambda>i. if i = 1 then ''old'' else ''gone''), dk_step = 0, dk_drawn = 0\<rparr>,
     mc_journals = [], mc_tx = new_for_project_at ''j''\<rparr>"

definition sample_requests :: "request list" where
  "sample_requests = [NewFile (Path ''w'' (Plain ''b'')) ''fresh'', Replace (Path ''w'' (Plain ''a'')) ''new'' ''old'',
     Remove (Path ''w'' (Plain ''c'')) ''gone'']"

lemma sample_environment_ok:
  "fresh_inodes (sample_environment schedule)" "safe_dir (sample_environment schedule) d"
  "same_project (sample_environment schedule) (sample_environment schedule')"
proof -
  have "n < Suc (fold max xs 0)" if "n \<in> set xs" for n :: nat and xs
    using that Max.set_eq_fold [of 0 xs] by (metis List.finite_set Max_ge insert_iff le_imp_less_Suc list.simps(15))
  thus "fresh_inodes (sample_environment schedule)" by (fastforce simp: fresh_inodes_def sample_environment_def)
qed (simp_all add: sample_environment_def safe_dir_def same_project_def)

lemma sample_schedules:
  "faultless (sample_environment (dies_at n))" "crashless (sample_environment (\<lambda>_. Proceed))"
  by (simp_all add: faultless_def crashless_def sample_environment_def dies_at_def)

lemma sample_machine_ok:
  "ready sample_machine" "list_all (request_ok (sample_environment schedule) (contents (mc_disk sample_machine))) sample_requests"
  "distinct (map target sample_requests)"
  by (auto simp: ready_def sample_machine_def fresh_names_def dk_names_def request_ok_def is_plain_def contents_def
      sample_requests_def sample_environment_ok) (auto simp: sample_environment_def)

lemma sample_stale:
  "stale (sample_environment schedule) (contents (mc_disk sample_machine)) (Remove (Path ''w'' (Plain ''c'')) ''seen'')"
  by (simp add: sample_machine_def contents_def dk_names_def sample_environment_def)

lemma sample_crash:
  "fst (run_transaction (sample_environment (dies_at 60)) sample_requests sample_machine) = Crashed"
  "\<not> interrupted_exchange (snd (run_transaction (sample_environment (dies_at 60)) sample_requests sample_machine))"
  by code_simp+

text \<open>Two recoveries that die, the first after the installed file of the replacement went into quarantine.\<close>

lemma sample_recoveries:
  "crashed_recoveries [sample_environment (dies_at 96), sample_environment (dies_at 120)]
     (snd (run_transaction (sample_environment (dies_at 60)) sample_requests sample_machine)) \<noteq> None"
  by code_simp

lemma sample_interrupted:
  "fst (run_transaction (sample_environment (dies_at 32)) sample_requests sample_machine) = Crashed"
  "interrupted_exchange (snd (run_transaction (sample_environment (dies_at 32)) sample_requests sample_machine))"
  by code_simp+

section \<open>Properties\<close>

text \<open>
  C3: When nothing fails, a transaction that creates, replaces and removes files returns, leaves no journal, and every
  file of the project is as the requests ask.
\<close>

theorem transaction_applies_requests:
  assumes "crashless env" "fresh_inodes env" "ready m" "list_all (request_ok env (contents (mc_disk m))) rs"
    and "distinct (map target rs)"
  shows "\<exists>m'. run_transaction env rs m = (Return (), m') \<and> mc_journals m' = []
    \<and> project_files m' = on_plain (fold apply_request rs (contents (mc_disk m)))"
proof -
  obtain r m' where run: "run_transaction env rs m = (r, m')" by (cases "run_transaction env rs m")
  from mens_outcome [OF run_transaction_triple [OF crashless_faultless [OF assms(1)] assms(2-5)] run] assms(1)
  have "r = Return () \<and> mc_journals m' = [] \<and> project_files m' = on_plain (fold apply_request rs (contents (mc_disk m)))"
    by (cases r) (simp_all add: project_files_def on_plain_eq contents_seen committed_def)
  thus ?thesis using run by simp
qed

theorem transaction_applies_requests_witness:
  "\<exists>m'. run_transaction (sample_environment (\<lambda>_. Proceed)) sample_requests sample_machine = (Return (), m')
     \<and> mc_journals m' = []
     \<and> project_files m' = on_plain (fold apply_request sample_requests (contents (mc_disk sample_machine)))"
  by (rule transaction_applies_requests [OF sample_schedules(2) sample_environment_ok(1) sample_machine_ok])

text \<open>
  C1: Wherever the process dies, and wherever the processes die that try to reconcile after it, the first reconciliation
  that is not cut returns without a journal and with either every file as before the transaction or every file as
  requested: never a mixture. The one exception is a transaction that died between the two halves of an exchange.
\<close>

theorem crashes_then_reconcile_is_atomic:
  assumes "faultless env" "fresh_inodes env" "ready m" "list_all (request_ok env (contents (mc_disk m))) rs"
    and "distinct (map target rs)" "run_transaction env rs m = (Crashed, m')" "\<not> interrupted_exchange m'"
    and "list_all (may_die env) envs" "crashed_recoveries envs m' = Some m1"
    and "crashless env'" "may_die env env'"
  shows "\<exists>m''. reconcile_project_at env' m1 = (Return (), m'') \<and> mc_journals m'' = []
    \<and> (project_files m'' = project_files m \<or> project_files m'' = on_plain (fold apply_request rs (contents (mc_disk m))))"
proof -
  let ?v = "contents (mc_disk m)" and ?w = "fold apply_request rs (contents (mc_disk m))"
  have "recoverable_to env ?v m' \<or> recoverable_to env ?w m'"
    using crashed_state [OF assms(1-6)] assms(7) mid_exchange_interrupted undoable_resumable
    unfolding crash_ok_def interrupted_exchange recoverable_to_def by blast
  hence "recoverable_to env ?v m1 \<or> recoverable_to env ?w m1"
    using crashed_recoveries_recoverable [OF _ assms(8,9)] by blast
  then obtain x where x: "x = ?v \<or> x = ?w" "recoverable_to env x m1" by blast
  from reconcile_recoverable [OF x(2) assms(10,11)] show ?thesis using x(1) by (auto simp: project_files_def)
qed

theorem crashes_then_reconcile_is_atomic_witness:
  "\<exists>m' m1 m''. run_transaction (sample_environment (dies_at 60)) sample_requests sample_machine = (Crashed, m')
     \<and> crashed_recoveries [sample_environment (dies_at 96), sample_environment (dies_at 120)] m' = Some m1
     \<and> reconcile_project_at (sample_environment (\<lambda>_. Proceed)) m1 = (Return (), m'') \<and> mc_journals m'' = []
     \<and> (project_files m'' = project_files sample_machine
        \<or> project_files m'' = on_plain (fold apply_request sample_requests (contents (mc_disk sample_machine))))"
proof -
  obtain m' m1 where m': "run_transaction (sample_environment (dies_at 60)) sample_requests sample_machine = (Crashed, m')"
    "\<not> interrupted_exchange m'"
    "crashed_recoveries [sample_environment (dies_at 96), sample_environment (dies_at 120)] m' = Some m1"
    using sample_crash sample_recoveries by (metis prod.collapse option.collapse)
  have "list_all (may_die (sample_environment (dies_at 60))) [sample_environment (dies_at 96), sample_environment (dies_at 120)]"
    by (simp add: may_die_def sample_environment_ok sample_schedules)
  from crashes_then_reconcile_is_atomic [OF sample_schedules(1) sample_environment_ok(1) sample_machine_ok m'(1,2) this m'(3)
      sample_schedules(2)]
  show ?thesis using m' sample_environment_ok(1,3) sample_schedules(2)
    by (auto simp: may_die_def crashless_faultless)
qed

text \<open>
  C4: After that cut, reconciliation refuses the project: it raises a conflict, keeps the journal, and changes no file,
  so that the half-installed transaction stays.
\<close>

theorem interrupted_exchange_blocks_recovery:
  assumes "faultless env" "fresh_inodes env" "ready m" "list_all (request_ok env (contents (mc_disk m))) rs"
    and "distinct (map target rs)" "run_transaction env rs m = (Crashed, m')" "interrupted_exchange m'"
    and "crashless env'" "same_project env env'"
  shows "\<exists>m''. reconcile_project_at env' m' = (Raise conflict_error, m'') \<and> mc_journals m'' = mc_journals m'
    \<and> project_files m'' = project_files m'"
proof -
  obtain r m'' where run: "reconcile_project_at env' m' = (r, m'')" by (cases "reconcile_project_at env' m'")
  have "mid_exchange env (dk_names (mc_disk m')) (dk_bytes (mc_disk m')) (mc_journals m')"
    using crashed_state [OF assms(1-6)] assms(7) undoable_not_interrupted committed_not_interrupted
    unfolding crash_ok_def interrupted_exchange by blast
  moreover have "mid_exchange env' = mid_exchange env"
    using assms(9) by (simp add: mid_exchange_def fun_eq_iff same_project_invariants [OF assms(9)] same_project_def)
  ultimately have "mid_exchange env' (dk_names (mc_disk m')) (dk_bytes (mc_disk m')) (mc_journals m')" by simp
  from mens_outcome [OF mens_reconcile_mid_exchange [OF assms(8) this, where C = "\<lambda>_ _ _ _. False"] run]
  show ?thesis using run by (cases r) (simp_all add: project_files_def contents_seen)
qed

theorem interrupted_exchange_blocks_recovery_witness:
  "\<exists>m' m''. run_transaction (sample_environment (dies_at 32)) sample_requests sample_machine = (Crashed, m')
     \<and> reconcile_project_at (sample_environment (\<lambda>_. Proceed)) m' = (Raise conflict_error, m'')
     \<and> mc_journals m'' = mc_journals m' \<and> project_files m'' = project_files m'"
proof -
  obtain m' where m': "run_transaction (sample_environment (dies_at 32)) sample_requests sample_machine = (Crashed, m')"
    "interrupted_exchange m'" using sample_interrupted by (metis prod.collapse)
  from interrupted_exchange_blocks_recovery [OF sample_schedules(1) sample_environment_ok(1) sample_machine_ok m'
      sample_schedules(2) sample_environment_ok(3)]
  show ?thesis using m'(1) by blast
qed

text \<open>
  C2: A request whose expected hash is stale is refused with a conflict, and dropping the unfinished transaction then
  gives every file back, the ones of the requests that had succeeded as well.
\<close>

theorem refused_request_restores_files:
  assumes "crashless env" "fresh_inodes env" "ready m" "list_all (request_ok env (contents (mc_disk m))) rs"
    and "distinct (map target (rs @ [r]))" "is_plain (target r)" "safe_dir env (dir_of (target r))"
    and "stale env (contents (mc_disk m)) r"
  shows "\<exists>m' m''. traverse (perform env) (rs @ [r]) m = (Raise conflict_error, m')
    \<and> drop_transaction env m' = (Return () :: ('e, unit) outcome, m'') \<and> mc_journals m'' = [] \<and> project_files m'' = project_files m"
proof -
  obtain o1 m' where run: "traverse (perform env) (rs @ [r]) m = (o1, m')" by (cases "traverse (perform env) (rs @ [r]) m")
  obtain o2 :: "('e, unit) outcome" and m'' where drop: "drop_transaction env m' = (o2, m'')" by fastforce
  from mens_outcome [OF refused_triple [OF assms, where C = "\<lambda>_ _ _ _. False"] run]
  have o1: "o1 = Raise conflict_error" and
    i: "idle env (contents (mc_disk m)) (fold apply_request rs (contents (mc_disk m))) (target ` set rs)
      (dk_names (mc_disk m')) (dk_bytes (mc_disk m')) (dk_drawn (mc_disk m')) (mc_journals m') (mc_tx m')"
    by (cases o1; simp)+
  from mens_outcome [OF mens_drop [OF assms(1,2) i, where C = "\<lambda>_ _ _ _. False" and E = "\<lambda>_ _ _ _ _ _. False"] drop]
  have "o2 = Return () \<and> mc_journals m'' = [] \<and> project_files m'' = project_files m"
    by (cases o2) (simp_all add: project_files_def on_plain_eq contents_seen)
  thus ?thesis using run drop o1 by simp
qed

theorem refused_request_restores_files_witness:
  "\<exists>m' m''. traverse (perform (sample_environment (\<lambda>_. Proceed)))
       (take 2 sample_requests @ [Remove (Path ''w'' (Plain ''c'')) ''seen'']) sample_machine = (Raise conflict_error, m')
     \<and> drop_transaction (sample_environment (\<lambda>_. Proceed)) m' = (Return () :: (backend_error, unit) outcome, m'')
     \<and> mc_journals m'' = [] \<and> project_files m'' = project_files sample_machine"
proof (rule refused_request_restores_files [OF sample_schedules(2) sample_environment_ok(1) sample_machine_ok(1) _ _ _ _ sample_stale])
  show "list_all (request_ok (sample_environment (\<lambda>_. Proceed)) (contents (mc_disk sample_machine))) (take 2 sample_requests)"
    using sample_machine_ok(2) by (simp add: sample_requests_def)
qed (simp_all add: sample_requests_def sample_environment_ok is_plain_def)

end
