(* ===== verification/Spec2Isabelle.thy ===== *)
theory Spec2Isabelle
  imports Queue_Order Launch_Registry Confirmation Import_Model File_Routing Media_Routing Ocr_Routing
    Url_Policy Redaction Crash_Atomicity
begin

text \<open>
  A verification of the Rust back end of a desktop application that maintains a Markdown
  knowledge base (\<open>src/src-tauri/src/\<close>). Long-running work is a \<^emph>\<open>task\<close>; tasks that run in
  stages are \<^emph>\<open>workflows\<close>, queued per project by a coordinator; destructive steps need a
  \<^emph>\<open>confirmation\<close>; imported files, pages and media are \<^emph>\<open>routed\<close> to extraction engines.

  \<^bold>\<open>Theories and sources.\<close>
  \<^item> \<open>Prelude\<close>: results (\<open>Inl\<close> is \<open>Err\<close>, \<open>Inr\<close> is \<open>Ok\<close>), \<open>BackendError\<close>, string functions of
    the Rust library on UTF-8 bytes, 64-bit arithmetic, and the locales \<open>lifecycle\<close> (a status
    machine with final states) and \<open>invariant_machine\<close> (an invariant of a step relation).
  \<^item> \<open>Task_Model\<close> (\<open>models/task.rs\<close>, \<open>tasks/task_model.rs\<close>, \<open>tasks/cancellation.rs\<close>): tasks, the
    transition table of their status, shared cancellation tokens and their registry.
  \<^item> \<open>Workflow_Model\<close> (\<open>models/workflow.rs\<close>, parts of \<open>models/lint.rs\<close>): workflow data, the
    projection to a run, the validation of an execution contract.
  \<^item> \<open>Summary_Index\<close> (\<open>models/workflow.rs\<close>, \<open>tasks/task_service.rs\<close>): run summaries, the ordered sets
    an owner keeps of them, snapshots, and the index over owners. The locale \<open>summary_store\<close> is the
    contract of a store addressed by task; the index is its interpretation.
  \<^item> \<open>Task_Service\<close> (\<open>tasks/task_service.rs\<close>): the registry of tasks, the persistence lane, the
    snapshot write with its rollback, task creation, and the operations that set the status,
    result, error or cancellability of a plain task: eleven with rollback (\<open>task_command\<close>), and
    \<open>request_cancel\<close> and \<open>set_error\<close>, which keep their change in memory when the write fails.
    The locale \<open>atomic_operation\<close> states that a failed operation changes nothing observable, and
    is the contract of the eleven.
  \<^item> \<open>Workflow_Service\<close>, \<open>Stage_Machine\<close> (\<open>tasks/task_service.rs\<close>,
    \<open>services/workflow_service/preparation.rs\<close>): transactional mutation of a workflow with durable
    and deferred writes, all stage operations, cancellation, rejection, the operations that
    dispatch on the task type (\<open>transition_status\<close>, \<open>cancel_task\<close>, \<open>finalize_cancellation\<close>,
    \<open>finalize_app_task_pause\<close>, \<open>update_progress\<close>), and the invariant of the stages over every
    reachable state.
  \<^item> \<open>Coordinator\<close>, \<open>Queue_Safety\<close>, \<open>Queue_Order\<close> (\<open>services/workflow_service/coordinator.rs\<close>): the
    queue of a project identity; its operations are compositions of task-service calls, each of
    which is shown to be a safe step; then the properties of the queue.
  \<^item> \<open>Launch_Registry\<close> (\<open>services/workflow_service/launch_registry.rs\<close>): permits for external calls,
    their epochs modulo \<open>2 ^ 64\<close>, and the barrier that revocation waits on.
  \<^item> \<open>Confirmation\<close> (\<open>models/confirmation.rs\<close>): the barrier between project changes and update
    installation, and the registry of pending actions with claims, restoration and expiry.
  \<^item> \<open>Import_Model\<close> (\<open>models/import_v2.rs\<close>, \<open>services/import_v2/execution_control.rs\<close>): items and
    sessions, the item status machine, issues with recovery actions, frontmatter, batch counters.
  \<^item> \<open>File_Routing\<close>, \<open>Media_Routing\<close>, \<open>Ocr_Routing\<close> (\<open>services/import_v2/file_router.rs\<close>,
    \<open>routing.rs\<close>, \<open>domain_router.rs\<close>, \<open>media_router.rs\<close>, \<open>pdf_router.rs\<close>, \<open>ocr_router.rs\<close>): the plans
    of extraction attempts, host matching, timestamps, page plans, pack choice, edit distance.
  \<^item> \<open>Url_Policy\<close>, \<open>Redaction\<close> (\<open>services/import_v2/url_policy.rs\<close>, \<open>redaction.rs\<close>): which addresses a
    fetch may reach and which parts of a URL are stored; the scanners that blank credentials in
    text, HTML and JSON.
  \<^item> \<open>Bound_Files\<close> (\<open>utils/safe_project_dir.rs\<close>), \<open>File_Transaction\<close>, \<open>Recovery\<close>
    (\<open>services/import_v2/transaction.rs\<close>): files by inode and the primitives on a bound directory;
    a transaction that creates, replaces and removes files under a journal, with rollback and
    commit; what the next start does with a journal it finds.
  \<^item> \<open>Disk_Logic\<close>, \<open>Crash_Safety\<close>, \<open>Transaction_Safety\<close>, \<open>Commit_Safety\<close>, \<open>Recovery_Logic\<close>,
    \<open>Recovery_States\<close>, \<open>Recovery_Safety\<close>, \<open>Rollback_Safety\<close>, \<open>Crash_Atomicity\<close>: a program logic
    whose triples also speak of the states in which the process may die, the invariants of journal
    and disk during a transaction and during its recovery, and the properties of transactions,
    recovery and rollback.

  \<^bold>\<open>State and effects.\<close> The task service is one record, \<open>task_service\<close>: tasks, project roots,
  persistence directories, lanes, the cancellation registry, the snapshots on disk, the emitted
  events, the summary index and the scheduled flushes. An operation takes the record and returns a
  result with the new record, on every branch. What it reads of the outside is an environment:
  clocks, the check of a directory, the outcome of a write, the order of a hash map, fresh
  identifiers, digests. Locks are not modelled: each operation holds its lane or queue lock for its
  whole duration and is one step. Mutex poisoning is modelled for the confirmation registry only.

  \<^bold>\<open>What is shown.\<close> Invariants over every reachable state: one active workflow per project
  identity, stage order, consistency of the confirmation registry, exclusion of installs and project
  changes. Atomicity: an operation of the task service that fails publishes and stores nothing, and
  leaves the tasks as they were, but for the two operations without rollback.
  Refinement: the published task is the stored one, the summary index is a finite map, and an import
  transaction that dies at any system call is, after the first start whose recovery is not cut as
  well, as if it had never run or as if it had run to its end.
  Safety of histories: a task succeeds only from Running, and a claim of a confirmation excludes
  every other one until it is finished. Liveness: deferred progress is flushed, and a claim never leaves a ready queue idle. Functional
  results: queue order, batch accounting, contracts, routing plans. Equivalences with reference
  definitions: edit distance, the block list of addresses, the scan for active content. Three code
  defects and one divergence from a documented contract are stated as theorems; the gravest is the
  one crash from which no later start recovers, between the two halves of a checked replacement.

  \<^bold>\<open>Bounds.\<close> \<open>u64\<close> counters are natural numbers with the source's saturating, checked or wrapping
  addition written out; token signals are 8-bit words; queue positions are natural numbers, as a
  queue of more than \<open>2\<^sup>3\<^sup>2\<close> workflows is out of reach. No fuel is needed: the loops of the modelled
  code are structural, but for the scanners of \<open>Redaction\<close>, which are partial functions that are
  proved to return, and the 32 tries for the name of a temporary file, which the source has too. A workflow whose 64-bit revision is exhausted refuses every update after
  applying it in memory; the queue properties name this case and leave it out.

  \<^bold>\<open>Files.\<close> A disk maps names to inodes and inodes to bytes. Every system call asks a schedule
  whether it proceeds, fails, or the process dies there; a transaction is an action that returns,
  raises or dies, so that a crash can be put at any call. A journal is written as one step, as its
  source replaces it atomically and no reader looks at the temporary file. Names that the code draws
  with a UUID carry a serial number and are a constructor of their own.

  \<^bold>\<open>Parameters.\<close> SHA-256, UUIDs, \<open>canonicalize\<close>, file identities, timestamps, the snapshot writer,
  the \<open>url\<close> and \<open>serde_json\<close> crates are arguments. Payloads that no modelled operation inspects have
  the type variable \<open>'x\<close>.

  \<^bold>\<open>Not modelled.\<close> Loading and pruning of snapshots, log lines, activities and their journal, retry and the rebinding of
  persistence; the import orchestrator, commit and session store; the directories a transaction
  creates and removes, and its Windows and macOS variants; extraction engines, capability packs, Git,
  language-model and Agent runners (process and network input and output); the lint, search, chat,
  export and settings services; the Tauri command layer; the TypeScript front end, the capability
  runners and the build scripts.
\<close>

end
